(* ===== verification/Torq_Prelude.thy ===== *)
theory Torq_Prelude
  imports Main
begin

text \<open>
  Shared vocabulary of the development: the JavaScript \<open>Map\<close> with its insertion order, SQL
  tables as row lists with the \<open>changes\<close> count the guarded updates test, decimal numerals,
  and the interface of one-shot operations, of which at most one attempt ever wins.
\<close>

named_theorems tbl_simps "rewrite rules of the SQL table operations"
named_theorems omap_simps "rewrite rules of the insertion-ordered map"

subsection \<open>Insertion-ordered maps\<close>

text \<open>
  A JavaScript \<open>Map\<close> iterates in insertion order; \<open>set\<close> on a present key keeps the
  key's place, \<open>delete\<close> followed by \<open>set\<close> moves it to the end.
\<close>

type_synonym ('k, 'v) omap = "('k \<times> 'v) list"

abbreviation om_get :: "('k, 'v) omap \<Rightarrow> 'k \<Rightarrow> 'v option" where
  "om_get m k \<equiv> map_of m k"

abbreviation om_keys :: "('k, 'v) omap \<Rightarrow> 'k list" where
  "om_keys m \<equiv> map fst m"

fun om_set :: "'k \<Rightarrow> 'v \<Rightarrow> ('k, 'v) omap \<Rightarrow> ('k, 'v) omap" where
  "om_set k v [] = [(k, v)]"
| "om_set k v ((k', v') # m) = (if k = k' then (k, v) # m else (k', v') # om_set k v m)"

definition om_delete :: "'k \<Rightarrow> ('k, 'v) omap \<Rightarrow> ('k, 'v) omap" where
  "om_delete k m = filter (\<lambda>(k', _). k' \<noteq> k) m"

definition om_wf :: "('k, 'v) omap \<Rightarrow> bool" where
  "om_wf m \<longleftrightarrow> distinct (om_keys m)"

text \<open>The laws a client of the map may use.\<close>

locale js_map =
  fixes get :: "'m \<Rightarrow> 'k \<Rightarrow> 'v option"
    and put :: "'k \<Rightarrow> 'v \<Rightarrow> 'm \<Rightarrow> 'm"
    and del :: "'k \<Rightarrow> 'm \<Rightarrow> 'm"
    and entries :: "'m \<Rightarrow> ('k \<times> 'v) list"
    and wf :: "'m \<Rightarrow> bool"
  assumes get_put: "get (put k v m) = (get m)(k \<mapsto> v)"
    and get_del: "get (del k m) = (get m)(k := None)"
    and wf_put: "wf m \<Longrightarrow> wf (put k v m)"
    and wf_del: "wf m \<Longrightarrow> wf (del k m)"
    and entries_get: "wf m \<Longrightarrow> (k, v) \<in> set (entries m) \<longleftrightarrow> get m k = Some v"
    and put_new_last: "get m k = None \<Longrightarrow> entries (put k v m) = entries m @ [(k, v)]"
    and del_entries: "entries (del k m) = filter (\<lambda>e. fst e \<noteq> k) (entries m)"
begin

text \<open>Delete then set: the touch that makes iteration order least-recently-touched first.\<close>

lemma touch_entries:
  "entries (put k v (del k m)) = filter (\<lambda>e. fst e \<noteq> k) (entries m) @ [(k, v)]"
  using put_new_last [of "del k m" k v] by (simp add: get_del del_entries)

lemma touch_get: "get (put k v (del k m)) = (get m)(k \<mapsto> v)"
  by (simp add: get_put get_del)

lemma wf_touch: "wf m \<Longrightarrow> wf (put k v (del k m))"
  by (intro wf_put wf_del)

end

lemma om_get_set: "om_get (om_set k v m) = (om_get m)(k \<mapsto> v)"
  by (induction k v m rule: om_set.induct) auto

lemma om_get_delete: "om_get (om_delete k m) = (om_get m)(k := None)"
  by (induction m) (auto simp: om_delete_def)

lemma keys_om_set: "set (om_keys (om_set k v m)) = insert k (set (om_keys m))"
  by (induction k v m rule: om_set.induct) auto

lemma om_set_new: "om_get m k = None \<Longrightarrow> om_set k v m = m @ [(k, v)]"
  by (induction k v m rule: om_set.induct) (auto split: if_splits)

lemma length_om_set:
  "length (om_set k v m) = (if k \<in> fst ` set m then length m else Suc (length m))"
  by (induction k v m rule: om_set.induct) auto

lemma om_wf_set: "om_wf m \<Longrightarrow> om_wf (om_set k v m)"
proof (induction k v m rule: om_set.induct)
  case (2 k v k' v' m)
  then show ?case by (auto simp: om_wf_def keys_om_set simp flip: set_map)
qed (simp add: om_wf_def)

lemma om_wf_filter: "om_wf m \<Longrightarrow> om_wf (filter P m)"
  by (auto simp: om_wf_def distinct_map_filter)

lemma om_wf_delete: "om_wf m \<Longrightarrow> om_wf (om_delete k m)"
  by (simp add: om_delete_def om_wf_filter)

lemma om_get_entry: "om_wf m \<Longrightarrow> (k, v) \<in> set m \<longleftrightarrow> om_get m k = Some v"
  by (auto simp: om_wf_def map_of_is_SomeI dest: map_of_SomeD)

interpretation om: js_map om_get om_set om_delete "\<lambda>m. m" om_wf
proof unfold_locales
  show "om_delete k m = filter (\<lambda>e. fst e \<noteq> k) m" for k and m :: "('a, 'b) omap"
    by (auto simp: om_delete_def case_prod_beta intro!: filter_cong)
qed (auto simp: om_get_set om_get_delete om_wf_set om_wf_delete om_get_entry om_set_new
    simp del: fun_upd_apply)

lemmas om_laws [omap_simps] = om_get_set om_get_delete om_wf_set om_wf_delete

subsection \<open>SQL tables\<close>

text \<open>
  A table is the list of its rows in rowid order. \<open>tbl_get\<close> is a prepared statement's
  \<open>get\<close>, \<open>tbl_changes\<close> the \<open>changes\<close> count of a guarded \<open>UPDATE\<close>.
\<close>

definition tbl_get :: "('r \<Rightarrow> bool) \<Rightarrow> 'r list \<Rightarrow> 'r option" where
  "tbl_get P t = find P t"

definition tbl_update :: "('r \<Rightarrow> bool) \<Rightarrow> ('r \<Rightarrow> 'r) \<Rightarrow> 'r list \<Rightarrow> 'r list" where
  "tbl_update P f t = map (\<lambda>r. if P r then f r else r) t"

definition tbl_changes :: "('r \<Rightarrow> bool) \<Rightarrow> 'r list \<Rightarrow> nat" where
  "tbl_changes P t = length (filter P t)"

lemma tbl_get_Some: "tbl_get P t = Some r \<Longrightarrow> r \<in> set t \<and> P r"
  by (auto simp: tbl_get_def find_Some_iff)

lemma tbl_get_None: "tbl_get P t = None \<longleftrightarrow> (\<forall>r \<in> set t. \<not> P r)"
  by (auto simp: tbl_get_def find_None_iff)

lemma tbl_get_ex: "r \<in> set t \<Longrightarrow> P r \<Longrightarrow> \<exists>r'. tbl_get P t = Some r'"
  using tbl_get_None [of P t] by (cases "tbl_get P t") auto

lemma set_tbl_update: "set (tbl_update P f t) = (\<lambda>r. if P r then f r else r) ` set t"
  by (simp add: tbl_update_def)

lemma in_tbl_update:
  assumes "r \<in> set (tbl_update P f t)"
  obtains r0 where "r0 \<in> set t" and "r = (if P r0 then f r0 else r0)"
proof -
  from assms have "r \<in> (\<lambda>r. if P r then f r else r) ` set t" by (simp only: set_tbl_update)
  then show thesis by (elim imageE) (rule that)
qed

lemma length_tbl_update [tbl_simps]: "length (tbl_update P f t) = length t"
  by (simp add: tbl_update_def)

lemma map_tbl_update:
  "(\<And>r. g (f r) = g r) \<Longrightarrow> map g (tbl_update P f t) = map g t"
  by (induction t) (auto simp: tbl_update_def)

lemma tbl_changes_0: "tbl_changes P t = 0 \<longleftrightarrow> (\<forall>r \<in> set t. \<not> P r)"
  by (simp add: tbl_changes_def filter_empty_conv)

lemma tbl_update_unchanged: "tbl_changes P t = 0 \<Longrightarrow> tbl_update P f t = t"
  by (auto simp: tbl_changes_0 tbl_update_def intro: map_idI)

lemma tbl_get_append:
  "tbl_get P (t @ u) = (case tbl_get P t of None \<Rightarrow> tbl_get P u | Some r \<Rightarrow> Some r)"
  by (induction t) (auto simp: tbl_get_def)

lemma tbl_get_snoc:
  "tbl_get P (t @ [r]) = (case tbl_get P t of None \<Rightarrow> if P r then Some r else None | Some x \<Rightarrow> Some x)"
  unfolding tbl_get_append by (simp add: tbl_get_def split: option.split)

lemma tbl_get_tbl_update:
  assumes "\<And>r. P (f r) = P r"
  shows "tbl_get P (tbl_update H f t) = map_option (\<lambda>r. if H r then f r else r) (tbl_get P t)"
  using assms by (induction t) (auto simp: tbl_get_def tbl_update_def)

lemma filter_update_shrinks:
  assumes "\<And>r. P (f r) \<Longrightarrow> P r"
  shows "length (filter P (tbl_update H f t)) \<le> length (filter P t)"
  using assms by (induction t) (auto simp: tbl_update_def le_SucI)

text \<open>A primary key: at most one row per key, so a guarded update changes at most one row.\<close>

definition key_unique :: "('r \<Rightarrow> 'k) \<Rightarrow> 'r list \<Rightarrow> bool" where
  "key_unique key t \<longleftrightarrow> distinct (map key t)"

lemma key_unique_eq:
  "key_unique key t \<Longrightarrow> r \<in> set t \<Longrightarrow> r' \<in> set t \<Longrightarrow> key r = key r' \<Longrightarrow> r = r'"
  by (auto simp: key_unique_def distinct_map inj_on_def)

lemma key_unique_update:
  "key_unique key t \<Longrightarrow> (\<And>r. key (f r) = key r) \<Longrightarrow> key_unique key (tbl_update P f t)"
  by (simp add: key_unique_def map_tbl_update)

lemma key_unique_append:
  "key_unique key t \<Longrightarrow> (\<forall>r' \<in> set t. key r' \<noteq> key r) \<Longrightarrow> key_unique key (t @ [r])"
  by (auto simp: key_unique_def)

lemma tbl_changes_unique:
  "key_unique key t \<Longrightarrow> tbl_changes (\<lambda>r. key r = k \<and> P r) t \<le> 1"
proof (induction t)
  case (Cons r t)
  have "tbl_changes (\<lambda>r. key r = k \<and> P r) t = 0" if "key r = k"
    using Cons.prems that unfolding tbl_changes_0 key_unique_def
    by (metis distinct.simps(2) image_eqI list.set_map list.simps(9))
  with Cons show ?case by (auto simp: tbl_changes_def key_unique_def)
qed (simp add: tbl_changes_def)

lemma tbl_get_unique:
  assumes "key_unique key t" and "r \<in> set t" and "key r = k"
  shows "tbl_get (\<lambda>r. key r = k) t = Some r"
proof -
  from assms obtain r' where r': "tbl_get (\<lambda>r. key r = k) t = Some r'"
    using tbl_get_ex [of r t "\<lambda>r. key r = k"] by auto
  with assms have "r' = r" by (auto dest!: tbl_get_Some intro: key_unique_eq)
  with r' show ?thesis by simp
qed

subsection \<open>One-shot operations\<close>

text \<open>
  Guarded updates such as \<open>UPDATE ... WHERE consumed_at IS NULL\<close> are both the check and
  the consumption: an attempt wins only on a live item and a won or dead item never becomes live
  again, so of any sequence of attempts at most one wins.
\<close>

fun run_steps :: "('e \<Rightarrow> 's \<Rightarrow> 's \<times> bool) \<Rightarrow> 'e list \<Rightarrow> 's \<Rightarrow> 's \<times> bool list" where
  "run_steps step [] s = (s, [])"
| "run_steps step (e # es) s =
     (let rest = run_steps step es (fst (step e s))
      in (fst rest, snd (step e s) # snd rest))"

definition wins :: "bool list \<Rightarrow> nat" where
  "wins bs = length (filter id bs)"

locale one_shot =
  fixes step :: "'e \<Rightarrow> 's \<Rightarrow> 's \<times> bool"
    and live :: "'s \<Rightarrow> bool"
    and inv :: "'s \<Rightarrow> bool"
  assumes inv_step: "inv s \<Longrightarrow> inv (fst (step e s))"
    and win_live: "inv s \<Longrightarrow> snd (step e s) \<Longrightarrow> live s"
    and win_dead: "inv s \<Longrightarrow> snd (step e s) \<Longrightarrow> \<not> live (fst (step e s))"
    and dead_stays: "inv s \<Longrightarrow> \<not> live s \<Longrightarrow> \<not> live (fst (step e s))"
begin

lemma dead_no_wins: "inv s \<Longrightarrow> \<not> live s \<Longrightarrow> wins (snd (run_steps step es s)) = 0"
proof (induction es arbitrary: s)
  case (Cons e es)
  then have "\<not> snd (step e s)" and "\<not> live (fst (step e s))" and "inv (fst (step e s))"
    using win_live dead_stays inv_step by blast+
  with Cons.IH show ?case by (simp add: wins_def Let_def)
qed (simp add: wins_def)

lemma at_most_one_win: "inv s \<Longrightarrow> wins (snd (run_steps step es s)) \<le> 1"
proof (induction es arbitrary: s)
  case (Cons e es)
  from Cons.prems have i: "inv (fst (step e s))" by (rule inv_step)
  show ?case
  proof (cases "snd (step e s)")
    case True
    with Cons.prems have "\<not> live (fst (step e s))" by (rule win_dead)
    from dead_no_wins [OF i this, of es] True show ?thesis
      by (simp add: wins_def Let_def)
  next
    case False
    with Cons.IH [OF i] show ?thesis by (simp add: wins_def Let_def)
  qed
qed (simp add: wins_def)

end

subsection \<open>Decimal and hexadecimal numerals\<close>

fun digits_of :: "nat \<Rightarrow> nat \<Rightarrow> nat list" where
  "digits_of b n = (if n < b \<or> b < 2 then [n] else digits_of b (n div b) @ [n mod b])"

declare digits_of.simps [simp del]

definition digit_char :: "nat \<Rightarrow> char" where
  "digit_char d = (if d < 10 then char_of (48 + d) else char_of (87 + d))"

definition show_nat :: "nat \<Rightarrow> string" where
  "show_nat n = map digit_char (digits_of 10 n)"

definition show_hex :: "nat \<Rightarrow> string" where
  "show_hex n = map digit_char (digits_of 16 n)"

definition num_of :: "nat \<Rightarrow> nat list \<Rightarrow> nat" where
  "num_of b ds = foldl (\<lambda>a d. a * b + d) 0 ds"

lemma num_of_digits_of: "2 \<le> b \<Longrightarrow> num_of b (digits_of b n) = n"
proof (induction b n rule: digits_of.induct)
  case (1 b n)
  then show ?case
    by (cases "n < b") (simp_all add: digits_of.simps [of b n] num_of_def)
qed

lemma digits_of_inj: "2 \<le> b \<Longrightarrow> digits_of b m = digits_of b n \<Longrightarrow> m = n"
  using num_of_digits_of by metis

end
