(* ===== verification/Auth_Lock.thy ===== *)
theory Auth_Lock
  imports Torq_Prelude
begin

text \<open>
  The writer-preferring authorization lock of \<open>packages/collab/src/authlock.ts\<close>: its state,
  its grant decisions, the wake-up performed by every release, and the system of the lock with the
  tasks that hold or await it. A grant is the resolution of a task's acquire promise.
\<close>

subsection \<open>The lock and its operations\<close>

record 'w auth_lock =
  activeReaders :: int
  writerActive :: bool
  pendingWriters :: int
  writerQueue :: "'w list"
  readerQueue :: "'w list"

datatype 'w grant = ReadGrant 'w | WriteGrant 'w

datatype lock_error = ReleaseReadUnheld | ReleaseWriteUnheld

definition new_lock :: "'w auth_lock" where
  "new_lock = \<lparr>activeReaders = 0, writerActive = False, pendingWriters = 0,
               writerQueue = [], readerQueue = []\<rparr>"

definition canGrantRead :: "'w auth_lock \<Rightarrow> bool" where
  "canGrantRead l \<longleftrightarrow> \<not> writerActive l \<and> pendingWriters l = 0"

definition canGrantWrite :: "'w auth_lock \<Rightarrow> bool" where
  "canGrantWrite l \<longleftrightarrow> \<not> writerActive l \<and> activeReaders l = 0"

text \<open>The loop that shifts every waiting reader out of its queue and counts it in.\<close>

fun wakeReaders :: "'w list \<Rightarrow> 'w auth_lock \<Rightarrow> 'w auth_lock \<times> 'w grant list" where
  "wakeReaders [] l = (l\<lparr>readerQueue := []\<rparr>, [])"
| "wakeReaders (w # ws) l =
     (let (l', gs) = wakeReaders ws (l\<lparr>activeReaders := activeReaders l + 1\<rparr>)
      in (l', ReadGrant w # gs))"

definition wakeWaiters :: "'w auth_lock \<Rightarrow> 'w auth_lock \<times> 'w grant list" where
  "wakeWaiters l =
     (if canGrantWrite l \<and> writerQueue l \<noteq> [] then
        (l\<lparr>writerQueue := tl (writerQueue l), pendingWriters := pendingWriters l - 1,
           writerActive := True\<rparr>,
         [WriteGrant (hd (writerQueue l))])
      else if canGrantRead l then wakeReaders (readerQueue l) l
      else (l, []))"

definition acquireRead :: "'w \<Rightarrow> 'w auth_lock \<Rightarrow> 'w auth_lock \<times> 'w grant list" where
  "acquireRead w l =
     (if canGrantRead l then (l\<lparr>activeReaders := activeReaders l + 1\<rparr>, [ReadGrant w])
      else (l\<lparr>readerQueue := readerQueue l @ [w]\<rparr>, []))"

definition releaseRead :: "'w auth_lock \<Rightarrow> lock_error + 'w auth_lock \<times> 'w grant list" where
  "releaseRead l =
     (if activeReaders l \<le> 0 then Inl ReleaseReadUnheld
      else Inr (wakeWaiters (l\<lparr>activeReaders := activeReaders l - 1\<rparr>)))"

definition acquireWrite :: "'w \<Rightarrow> 'w auth_lock \<Rightarrow> 'w auth_lock \<times> 'w grant list" where
  "acquireWrite w l =
     (let l1 = l\<lparr>pendingWriters := pendingWriters l + 1\<rparr>
      in if canGrantWrite l1
         then (l1\<lparr>pendingWriters := pendingWriters l1 - 1, writerActive := True\<rparr>, [WriteGrant w])
         else (l1\<lparr>writerQueue := writerQueue l1 @ [w]\<rparr>, []))"

definition releaseWrite :: "'w auth_lock \<Rightarrow> lock_error + 'w auth_lock \<times> 'w grant list" where
  "releaseWrite l =
     (if \<not> writerActive l then Inl ReleaseWriteUnheld
      else Inr (wakeWaiters (l\<lparr>writerActive := False\<rparr>)))"

lemma wakeReaders_eq:
  "wakeReaders ws l =
     (l\<lparr>activeReaders := activeReaders l + int (length ws), readerQueue := []\<rparr>, map ReadGrant ws)"
  by (induction ws arbitrary: l) (simp_all add: algebra_simps)

subsection \<open>The lock with its tasks\<close>

text \<open>
  The lock itself does not know who holds it; the system keeps the holders. A task acquires when it
  neither holds nor awaits anything, and releases what it holds (\<open>withRead\<close> and
  \<open>withWrite\<close> release in their \<open>finally\<close>).
\<close>

record 'w lock_sys =
  lk :: "'w auth_lock"
  readers :: "'w list"
  writers :: "'w list"

definition init_sys :: "'w lock_sys" where
  "init_sys = \<lparr>lk = new_lock, readers = [], writers = []\<rparr>"

fun resume_all :: "'w grant list \<Rightarrow> 'w lock_sys \<Rightarrow> 'w lock_sys" where
  "resume_all [] s = s"
| "resume_all (ReadGrant w # gs) s = resume_all gs (s\<lparr>readers := readers s @ [w]\<rparr>)"
| "resume_all (WriteGrant w # gs) s = resume_all gs (s\<lparr>writers := writers s @ [w]\<rparr>)"

definition idle :: "'w \<Rightarrow> 'w lock_sys \<Rightarrow> bool" where
  "idle w s \<longleftrightarrow> w \<notin> set (readers s) \<and> w \<notin> set (writers s)
     \<and> w \<notin> set (readerQueue (lk s)) \<and> w \<notin> set (writerQueue (lk s))"

datatype 'w lock_ev = AcqRead 'w | AcqWrite 'w | RelRead 'w | RelWrite 'w

inductive lock_step :: "'w lock_sys \<Rightarrow> 'w lock_ev \<Rightarrow> 'w lock_sys \<Rightarrow> bool" where
  acq_read: "idle w s \<Longrightarrow> acquireRead w (lk s) = (l, gs) \<Longrightarrow>
     lock_step s (AcqRead w) (resume_all gs (s\<lparr>lk := l\<rparr>))"
| acq_write: "idle w s \<Longrightarrow> acquireWrite w (lk s) = (l, gs) \<Longrightarrow>
     lock_step s (AcqWrite w) (resume_all gs (s\<lparr>lk := l\<rparr>))"
| rel_read: "w \<in> set (readers s) \<Longrightarrow> releaseRead (lk s) = Inr (l, gs) \<Longrightarrow>
     lock_step s (RelRead w) (resume_all gs (s\<lparr>lk := l, readers := remove1 w (readers s)\<rparr>))"
| rel_write: "w \<in> set (writers s) \<Longrightarrow> releaseWrite (lk s) = Inr (l, gs) \<Longrightarrow>
     lock_step s (RelWrite w) (resume_all gs (s\<lparr>lk := l, writers := remove1 w (writers s)\<rparr>))"

inductive_cases acq_readE: "lock_step s (AcqRead w) t"
inductive_cases acq_writeE: "lock_step s (AcqWrite w) t"
inductive_cases rel_readE: "lock_step s (RelRead w) t"
inductive_cases rel_writeE: "lock_step s (RelWrite w) t"

inductive lock_reach :: "'w lock_sys \<Rightarrow> bool" where
  reach_init: "lock_reach init_sys"
| reach_step: "lock_reach s \<Longrightarrow> lock_step s e t \<Longrightarrow> lock_reach t"

lemma resume_readers: "resume_all (map ReadGrant ws) s = s\<lparr>readers := readers s @ ws\<rparr>"
  by (induction ws arbitrary: s) simp_all

subsection \<open>The invariant\<close>

text \<open>
  The counters agree with the holders and the queue; a writer excludes readers; and no waiter is
  left behind while its grant is possible, which is what each release's wake-up maintains.
\<close>

definition lock_inv :: "'w lock_sys \<Rightarrow> bool" where
  "lock_inv s \<longleftrightarrow>
     activeReaders (lk s) = int (length (readers s))
   \<and> (writerActive (lk s) \<longleftrightarrow> writers s \<noteq> [])
   \<and> length (writers s) \<le> 1
   \<and> (writers s \<noteq> [] \<longrightarrow> readers s = [])
   \<and> pendingWriters (lk s) = int (length (writerQueue (lk s)))
   \<and> (writerQueue (lk s) \<noteq> [] \<longrightarrow> writers s \<noteq> [] \<or> readers s \<noteq> [])
   \<and> (readerQueue (lk s) \<noteq> [] \<longrightarrow> writers s \<noteq> [] \<or> writerQueue (lk s) \<noteq> [])"

lemmas lock_op_defs = canGrantRead_def canGrantWrite_def wakeWaiters_def acquireRead_def
  acquireWrite_def releaseRead_def releaseWrite_def wakeReaders_eq Let_def

lemma lock_inv_init: "lock_inv init_sys"
  by (simp add: lock_inv_def init_sys_def new_lock_def)

lemma sole_writer: "lock_inv s \<Longrightarrow> w \<in> set (writers s) \<Longrightarrow> writers s = [w]"
  by (cases "writers s") (auto simp: lock_inv_def)

lemma acq_read_inv: "lock_step s (AcqRead w) t \<Longrightarrow> lock_inv s \<Longrightarrow> lock_inv t"
  by (erule acq_readE) (auto simp: lock_inv_def lock_op_defs split: if_splits)

lemma acq_write_inv: "lock_step s (AcqWrite w) t \<Longrightarrow> lock_inv s \<Longrightarrow> lock_inv t"
  by (erule acq_writeE) (auto simp: lock_inv_def lock_op_defs split: if_splits)

lemma rel_read_inv:
  assumes step: "lock_step s (RelRead w) t" and inv: "lock_inv s"
  shows "lock_inv t"
  using step
proof (rule rel_readE)
  fix l gs
  assume t: "t = resume_all gs (s\<lparr>lk := l, readers := remove1 w (readers s)\<rparr>)"
    and w: "w \<in> set (readers s)" and rel: "releaseRead (lk s) = Inr (l, gs)"
  obtain n where "length (readers s) = Suc n" using w by (cases "readers s") auto
  then have len: "int (length (remove1 w (readers s))) = activeReaders (lk s) - 1"
    using w inv by (simp add: lock_inv_def length_remove1)
  have nw: "writers s = []" using inv w by (auto simp: lock_inv_def)
  show "lock_inv t"
  proof (cases "writerQueue (lk s)")
    case Nil
    with rel t inv w len nw show ?thesis
      by (auto simp: lock_inv_def lock_op_defs resume_readers split: if_splits)
  next
    case (Cons v vs)
    with rel t inv w len nw show ?thesis
      by (cases "remove1 w (readers s)")
         (auto simp: lock_inv_def lock_op_defs resume_readers split: if_splits)
  qed
qed

lemma rel_write_inv:
  assumes step: "lock_step s (RelWrite w) t" and inv: "lock_inv s"
  shows "lock_inv t"
  using step
proof (rule rel_writeE)
  fix l gs
  assume t: "t = resume_all gs (s\<lparr>lk := l, writers := remove1 w (writers s)\<rparr>)"
    and w: "w \<in> set (writers s)" and rel: "releaseWrite (lk s) = Inr (l, gs)"
  have ws: "writers s = [w]" using inv w by (rule sole_writer)
  show "lock_inv t"
    using rel t inv ws
    by (cases "writerQueue (lk s)")
       (auto simp: lock_inv_def lock_op_defs resume_readers split: if_splits)
qed

lemma lock_step_inv: "lock_step s e t \<Longrightarrow> lock_inv s \<Longrightarrow> lock_inv t"
  by (cases e) (auto intro: acq_read_inv acq_write_inv rel_read_inv rel_write_inv)

lemma lock_reach_inv: "lock_reach s \<Longrightarrow> lock_inv s"
  by (induction rule: lock_reach.induct) (auto intro: lock_inv_init lock_step_inv)

subsection \<open>Writer preference and bounded waiting\<close>

text \<open>
  The rank of a queued writer: the holders before it and its place in the queue. Acquisitions never
  raise it and every release lowers it until the grant.
\<close>

definition writer_rank :: "'w lock_sys \<Rightarrow> nat \<Rightarrow> nat" where
  "writer_rank s k = length (readers s) + length (writers s) + k"

definition is_release :: "'w lock_ev \<Rightarrow> bool" where
  "is_release e = (case e of RelRead _ \<Rightarrow> True | RelWrite _ \<Rightarrow> True | _ \<Rightarrow> False)"

lemma waiting_acquire:
  assumes "lock_step s e t" "lock_inv s" "\<not> is_release e" "writerQueue (lk s) ! k = w"
    "k < length (writerQueue (lk s))"
  shows "k < length (writerQueue (lk t)) \<and> writerQueue (lk t) ! k = w
    \<and> readers t = readers s \<and> writers t = writers s"
  using assms
  by (cases e)
     (auto elim!: acq_readE acq_writeE simp: is_release_def lock_inv_def lock_op_defs nth_append
        split: if_splits)

lemma queue_shift:
  "q = u # us \<Longrightarrow> q ! k = w \<Longrightarrow> k < length q \<Longrightarrow>
   k = 0 \<and> w = u \<or> (\<exists>k'. k = Suc k' \<and> k' < length us \<and> us ! k' = w)"
  by (cases k) auto

lemma waiting_release:
  assumes "lock_step s e t" "lock_inv s" "is_release e" "writerQueue (lk s) ! k = w"
    "k < length (writerQueue (lk s))"
  shows "(w \<in> set (writers t) \<or> (\<exists>k' \<le> k. k' < length (writerQueue (lk t))
           \<and> writerQueue (lk t) ! k' = w \<and> writer_rank t k' < writer_rank s k))
         \<and> set (readers t) \<subseteq> set (readers s)"
proof -
  obtain u us where q: "writerQueue (lk s) = u # us"
    using assms(5) by (cases "writerQueue (lk s)") auto
  note shift = queue_shift [OF q assms(4,5)]
  show ?thesis
  proof (cases e)
    case (RelRead v)
    then obtain l gs where t: "t = resume_all gs (s\<lparr>lk := l, readers := remove1 v (readers s)\<rparr>)"
      and v: "v \<in> set (readers s)" and rel: "releaseRead (lk s) = Inr (l, gs)"
      using assms(1) by (auto elim: rel_readE)
    obtain n where n: "length (readers s) = Suc n" using v by (cases "readers s") auto
    have sub: "set (remove1 v (readers s)) \<subseteq> set (readers s)" by (rule set_remove1_subset)
    show ?thesis
    proof (cases n)
      case 0
      with t v rel q n assms(2) sub
      have "writers t = [u]" "writerQueue (lk t) = us" "readers t = remove1 v (readers s)"
        "writers s = []"
        by (auto simp: lock_inv_def lock_op_defs)
      with shift sub v n 0 show ?thesis
        by (auto simp: writer_rank_def length_remove1 intro!: exI [of _ "k - 1"])
    next
      case (Suc m)
      with t v rel q n sub assms(2)
      have "writers t = []" "writerQueue (lk t) = u # us" "readers t = remove1 v (readers s)"
        by (auto simp: lock_inv_def lock_op_defs split: if_splits)
      with q sub v n assms(4,5) show ?thesis
        by (auto simp: writer_rank_def length_remove1 intro!: exI [of _ k])
    qed
  next
    case (RelWrite v)
    then obtain l gs where t: "t = resume_all gs (s\<lparr>lk := l, writers := remove1 v (writers s)\<rparr>)"
      and v: "v \<in> set (writers s)" and rel: "releaseWrite (lk s) = Inr (l, gs)"
      using assms(1) by (auto elim: rel_writeE)
    note sole = sole_writer [OF assms(2) v]
    with t rel q assms(2)
    have "writers t = [u]" "writerQueue (lk t) = us" "readers t = readers s"
      by (auto simp: lock_inv_def lock_op_defs)
    with shift sole show ?thesis
      by (auto simp: writer_rank_def intro!: exI [of _ "k - 1"])
  qed (use assms in \<open>auto simp: is_release_def\<close>)
qed

text \<open>A run through which task \<open>w\<close> stays queued for writing, with the releases in it.\<close>

inductive waits_through :: "'w \<Rightarrow> 'w lock_sys \<Rightarrow> 'w lock_ev list \<Rightarrow> 'w lock_sys \<Rightarrow> bool" where
  wt_nil: "w \<in> set (writerQueue (lk s)) \<Longrightarrow> waits_through w s [] s"
| wt_cons: "w \<in> set (writerQueue (lk s)) \<Longrightarrow> w \<notin> set (writers t) \<Longrightarrow> lock_step s e t \<Longrightarrow>
     waits_through w t es u \<Longrightarrow> waits_through w s (e # es) u"

inductive_simps waits_through_Nil: "waits_through w s [] t"
inductive_simps waits_through_Cons: "waits_through w s (e # es) t"

lemma waits_through_rank:
  "waits_through w s es t \<Longrightarrow> lock_inv s \<Longrightarrow> k < length (writerQueue (lk s)) \<Longrightarrow>
   writerQueue (lk s) ! k = w \<Longrightarrow>
   \<exists>k'. k' < length (writerQueue (lk t)) \<and> writerQueue (lk t) ! k' = w
      \<and> length (filter is_release es) + writer_rank t k' \<le> writer_rank s k
      \<and> set (readers t) \<subseteq> set (readers s) \<and> lock_inv t"
proof (induction arbitrary: k rule: waits_through.induct)
  case (wt_cons w s t e es u)
  have inv: "lock_inv t" using wt_cons.hyps(3) wt_cons.prems(1) by (rule lock_step_inv)
  show ?case
  proof (cases "is_release e")
    case True
    from waiting_release [OF wt_cons.hyps(3) wt_cons.prems(1) True wt_cons.prems(3,2)]
    obtain k1 where k1: "k1 < length (writerQueue (lk t))" "writerQueue (lk t) ! k1 = w"
      "writer_rank t k1 < writer_rank s k" and sub: "set (readers t) \<subseteq> set (readers s)"
      using wt_cons.hyps(2) by blast
    from wt_cons.IH [OF inv k1(1,2)] k1(3) sub True show ?thesis by fastforce
  next
    case False
    from waiting_acquire [OF wt_cons.hyps(3) wt_cons.prems(1) False wt_cons.prems(3,2)]
    have k1: "k < length (writerQueue (lk t))" "writerQueue (lk t) ! k = w"
      and same: "readers t = readers s" "writers t = writers s" by auto
    from wt_cons.IH [OF inv k1] same False show ?thesis
      by (auto simp: writer_rank_def)
  qed
qed auto

subsection \<open>Properties\<close>

text \<open>
  A reachable system used by the witnesses: task 1 reads, task 2 waits to write, task 3 waits to
  read behind it.
\<close>

definition contended :: "nat lock_sys" where
  "contended = \<lparr>lk = \<lparr>activeReaders = 1, writerActive = False, pendingWriters = 1,
                  writerQueue = [2], readerQueue = [3]\<rparr>, readers = [1], writers = []\<rparr>"

lemma reach_contended: "lock_reach contended"
proof -
  let ?s1 = "init_sys\<lparr>lk := new_lock\<lparr>activeReaders := 1\<rparr>, readers := [1]\<rparr> :: nat lock_sys"
  let ?s2 = "?s1\<lparr>lk := new_lock\<lparr>activeReaders := 1, pendingWriters := 1, writerQueue := [2]\<rparr>\<rparr>"
  have "lock_step init_sys (AcqRead 1) ?s1"
    using acq_read [of 1 "init_sys :: nat lock_sys"]
    by (simp add: idle_def init_sys_def new_lock_def lock_op_defs)
  moreover have "lock_step ?s1 (AcqWrite 2) ?s2"
    using acq_write [of 2 ?s1] by (simp add: idle_def init_sys_def new_lock_def lock_op_defs)
  moreover have "lock_step ?s2 (AcqRead 3) contended"
    using acq_read [of 3 ?s2]
    by (simp add: idle_def init_sys_def new_lock_def lock_op_defs contended_def)
  ultimately show ?thesis by (blast intro: reach_init reach_step)
qed

text \<open>
  C6. In every reachable state of the lock and its tasks a writer excludes every reader and every
  other writer, and the exposed counters report exactly the holders and the pending writers.
\<close>

theorem lock_exclusion:
  assumes "lock_reach s"
  shows "length (writers s) \<le> 1 \<and> \<not> (writers s \<noteq> [] \<and> readers s \<noteq> [])
    \<and> activeReaders (lk s) = int (length (readers s))
    \<and> writerActive (lk s) = (writers s \<noteq> [])
    \<and> pendingWriters (lk s) = int (length (writerQueue (lk s)))"
  using lock_reach_inv [OF assms] by (auto simp: lock_inv_def)

theorem lock_exclusion_witness:
  "length (writers contended) \<le> 1 \<and> activeReaders (lk contended) = 1
    \<and> pendingWriters (lk contended) = 1"
  using lock_exclusion [OF reach_contended] by (simp add: contended_def)

text \<open>
  Writer preference with a bound: while a queued writer waits, no reader is granted the lock
  that did not hold it already, whatever arrives in the meantime, and the number of releases it
  can sit through is smaller than the number of holders and writers ahead of it.
\<close>

theorem writer_bounded_wait:
  assumes "lock_reach s" and "k < length (writerQueue (lk s))" and "writerQueue (lk s) ! k = w"
    and "waits_through w s es t"
  shows "set (readers t) \<subseteq> set (readers s) \<and> length (filter is_release es) < writer_rank s k"
proof -
  from waits_through_rank [OF assms(4) lock_reach_inv [OF assms(1)] assms(2,3)]
  obtain k' where k': "k' < length (writerQueue (lk t))" "lock_inv t"
    "set (readers t) \<subseteq> set (readers s)"
    "length (filter is_release es) + writer_rank t k' \<le> writer_rank s k" by auto
  then have "0 < writer_rank t k'" by (auto simp: lock_inv_def writer_rank_def)
  with k' show ?thesis by auto
qed

theorem writer_bounded_wait_witness:
  "set (readers contended) \<subseteq> {1} \<and> length (filter is_release ([] :: nat lock_ev list)) < 1"
proof -
  have "waits_through 2 contended [] contended"
    by (rule wt_nil) (simp add: contended_def)
  from writer_bounded_wait [OF reach_contended _ _ this, of 0] show ?thesis
    by (simp add: contended_def writer_rank_def)
qed

text \<open>
  No lost wake-up: in a reachable state where nobody holds the lock nobody waits for it, and
  readers wait only behind a writer.
\<close>

theorem lock_no_lost_wakeup:
  assumes "lock_reach s"
  shows "(readers s = [] \<and> writers s = [] \<longrightarrow> writerQueue (lk s) = [] \<and> readerQueue (lk s) = [])
    \<and> (readerQueue (lk s) \<noteq> [] \<longrightarrow> writers s \<noteq> [] \<or> writerQueue (lk s) \<noteq> [])"
  using lock_reach_inv [OF assms] by (auto simp: lock_inv_def)

theorem lock_no_lost_wakeup_witness:
  "readerQueue (lk contended) \<noteq> [] \<and> writerQueue (lk contended) \<noteq> []"
  using lock_no_lost_wakeup [OF reach_contended] by (simp add: contended_def)

end
