(* ===== verification/Json.thy ===== *)
theory Json
  imports Torq_Prelude "HOL-Library.List_Lexorder" "HOL-Library.Multiset"
begin

text \<open>
  JSON text as the program produces it: values, the string escaping of \<open>JSON.stringify\<close>,
  UTF-8 length, and the canonical serializer of \<open>packages/collab/src/canonical.ts\<close> with its
  code-point key order and its refusals. Strings are lists of Unicode code points; numbers are
  integers (printed in plain decimal, as JavaScript does below \<open>10^21\<close>) or non-finite.
\<close>

type_synonym text_cp = "nat list"

definition cps :: "string \<Rightarrow> text_cp" where
  "cps s = map of_char s"

datatype jnum = Fin int | NotANumber | Infinite bool

text \<open>A JavaScript value as \<open>typeof\<close> sees it; a hole of a sparse array is \<open>None\<close>.\<close>

datatype jval =
    JNull
  | JBool bool
  | JNum jnum
  | JStr text_cp
  | JArr "jval option list"
  | JObj "(text_cp \<times> jval) list"
  | JUndefined
  | JFunction
  | JSymbol
  | JBigInt

datatype type_error =
    NonFinite | NotRepresentable | SparseHole nat | BadMember text_cp

subsection \<open>Leaves\<close>

definition hex4 :: "nat \<Rightarrow> text_cp" where
  "hex4 n = cps (let h = show_hex n in replicate (4 - length h) (CHR ''0'') @ h)"

definition escape_cp :: "nat \<Rightarrow> text_cp" where
  "escape_cp c =
     (if c = 34 then [92, 34] else if c = 92 then [92, 92]
      else if c = 8 then [92, 98] else if c = 12 then [92, 102]
      else if c = 10 then [92, 110] else if c = 13 then [92, 114] else if c = 9 then [92, 116]
      else if c < 32 \<or> (55296 \<le> c \<and> c \<le> 57343) then [92, 117] @ hex4 c
      else [c])"

definition serializeString :: "text_cp \<Rightarrow> text_cp" where
  "serializeString s = [34] @ concat (map escape_cp s) @ [34]"

definition show_int :: "int \<Rightarrow> text_cp" where
  "show_int n = cps (if n < 0 then CHR ''-'' # show_nat (nat (- n)) else show_nat (nat n))"

definition utf8_len :: "nat \<Rightarrow> nat" where
  "utf8_len c = (if c < 128 then 1 else if c < 2048 then 2 else if c < 65536 then 3 else 4)"

definition utf8_length :: "text_cp \<Rightarrow> nat" where
  "utf8_length s = sum_list (map utf8_len s)"

definition join :: "text_cp \<Rightarrow> text_cp list \<Rightarrow> text_cp" where
  "join sep parts = (case parts of [] \<Rightarrow> [] | p # ps \<Rightarrow> p @ concat (map (\<lambda>q. sep @ q) ps))"

lemma utf8_length_pos: "utf8_length s = 0 \<longleftrightarrow> s = []"
  by (cases s) (auto simp: utf8_length_def utf8_len_def)

lemma utf8_length_append: "utf8_length (s @ t) = utf8_length s + utf8_length t"
  by (simp add: utf8_length_def)

subsection \<open>Plain stringification of frames\<close>

text \<open>\<open>JSON.stringify\<close> on the values the frames hold: insertion order, no undefined members.\<close>

fun stringify :: "jval \<Rightarrow> text_cp" where
  "stringify JNull = cps ''null''"
| "stringify (JBool b) = cps (if b then ''true'' else ''false'')"
| "stringify (JNum (Fin n)) = show_int n"
| "stringify (JStr s) = serializeString s"
| "stringify (JArr xs) =
     [91] @ join [44] (map (\<lambda>x. case x of None \<Rightarrow> cps ''null'' | Some v \<Rightarrow> stringify v) xs) @ [93]"
| "stringify (JObj ms) =
     [123] @ join [44] (map (\<lambda>m. serializeString (fst m) @ [58] @ stringify (snd m)) ms) @ [125]"
| "stringify _ = cps ''null''"

subsection \<open>The canonical serializer\<close>

text \<open>
  \<open>compareByCodePoint\<close>: the first differing code point decides, then the length. Its sign is
  the lexicographic order on code-point lists.
\<close>

fun compareByCodePoint :: "text_cp \<Rightarrow> text_cp \<Rightarrow> int" where
  "compareByCodePoint (a # as) (b # bs) =
     (if a \<noteq> b then int a - int b else compareByCodePoint as bs)"
| "compareByCodePoint as bs = int (length as) - int (length bs)"

lemma nil_less_cp: "([] :: text_cp) < bs \<longleftrightarrow> bs \<noteq> []"
  by (cases bs) auto

lemma compareByCodePoint_less: "compareByCodePoint a b < 0 \<longleftrightarrow> a < b"
  by (induction a b rule: compareByCodePoint.induct) (auto simp: nil_less_cp)

lemma compareByCodePoint_zero: "compareByCodePoint a b = 0 \<longleftrightarrow> a = b"
  by (induction a b rule: compareByCodePoint.induct) auto

text \<open>The stable sort of the entries by key (\<open>sortByCodePoint\<close> on the keys, then lookup).\<close>

fun insert_by_cp :: "text_cp \<times> 'v \<Rightarrow> (text_cp \<times> 'v) list \<Rightarrow> (text_cp \<times> 'v) list" where
  "insert_by_cp x [] = [x]"
| "insert_by_cp x (y # ys) =
     (if compareByCodePoint (fst x) (fst y) \<le> 0 then x # y # ys else y # insert_by_cp x ys)"

definition sortByCodePoint :: "(text_cp \<times> 'v) list \<Rightarrow> (text_cp \<times> 'v) list" where
  "sortByCodePoint ms = foldr insert_by_cp ms []"

lemma mset_insert_by_cp: "mset (insert_by_cp x ys) = add_mset x (mset ys)"
  by (induction x ys rule: insert_by_cp.induct) auto

lemma mset_sortByCodePoint: "mset (sortByCodePoint ms) = mset ms"
  by (induction ms) (auto simp: sortByCodePoint_def mset_insert_by_cp)

lemma compareByCodePoint_le: "compareByCodePoint a b \<le> 0 \<longleftrightarrow> a \<le> b"
  using compareByCodePoint_less [of a b] compareByCodePoint_zero [of a b]
  by (auto simp: order_le_less)

lemma set_insert_by_cp: "set (insert_by_cp x ys) = insert x (set ys)"
  by (induction x ys rule: insert_by_cp.induct) auto

lemma sorted_insert_by_cp:
  "sorted (map fst ys) \<Longrightarrow> sorted (map fst (insert_by_cp x ys))"
  by (induction x ys rule: insert_by_cp.induct)
     (auto simp: compareByCodePoint_le set_insert_by_cp)

lemma sorted_sortByCodePoint: "sorted (map fst (sortByCodePoint ms))"
  by (induction ms) (auto simp: sortByCodePoint_def sorted_insert_by_cp)

lemma set_sortByCodePoint [simp]: "set (sortByCodePoint ms) = set ms"
  using mset_sortByCodePoint by (metis set_mset_mset)

lemma sortByCodePoint_perm:
  assumes "mset ms = mset ms'" and "distinct (map fst ms)"
  shows "sortByCodePoint ms = sortByCodePoint ms'"
proof (rule map_sorted_distinct_set_unique [where f = fst])
  have d': "distinct (map fst ms')"
    using assms by (metis mset_map mset_eq_imp_distinct_iff)
  have "mset (map fst (sortByCodePoint xs)) = mset (map fst xs)" for xs :: "(text_cp \<times> 'a) list"
    by (metis mset_map mset_sortByCodePoint)
  then show "distinct (map fst (sortByCodePoint ms))" "distinct (map fst (sortByCodePoint ms'))"
    using assms(2) d' mset_eq_imp_distinct_iff by blast+
  show "set (sortByCodePoint ms) = set (sortByCodePoint ms')"
    using assms(1) by (metis set_mset_mset set_sortByCodePoint)
  show "inj_on fst (set (sortByCodePoint ms) \<union> set (sortByCodePoint ms'))"
    using assms by (metis distinct_map mset_eq_setD set_sortByCodePoint sup.idem)
qed (simp_all add: sorted_sortByCodePoint)

text \<open>The parts of an array or an object, stopping at the first refusal.\<close>

fun seq_parts :: "(type_error + text_cp) list \<Rightarrow> type_error + text_cp list" where
  "seq_parts [] = Inr []"
| "seq_parts (Inl e # _) = Inl e"
| "seq_parts (Inr p # ps) = (case seq_parts ps of Inl e \<Rightarrow> Inl e | Inr qs \<Rightarrow> Inr (p # qs))"

lemma sum_list_snd_size: "(k, v) \<in> set ms \<Longrightarrow> size v < Suc (size_list (size_prod (\<lambda>_. 0) size) ms)"
  by (induction ms) auto

function (sequential) canonicalJson :: "jval \<Rightarrow> type_error + text_cp" where
  "canonicalJson JNull = Inr (cps ''null'')"
| "canonicalJson (JBool b) = Inr (cps (if b then ''true'' else ''false''))"
| "canonicalJson (JNum n) = (case n of Fin k \<Rightarrow> Inr (show_int k) | _ \<Rightarrow> Inl NonFinite)"
| "canonicalJson (JStr s) = Inr (serializeString s)"
| "canonicalJson (JArr xs) =
     (case seq_parts (map (\<lambda>(i, x). case x of None \<Rightarrow> Inl (SparseHole i) | Some v \<Rightarrow> canonicalJson v)
        (enumerate 0 xs)) of
        Inl e \<Rightarrow> Inl e
      | Inr ps \<Rightarrow> Inr ([91] @ join [44] ps @ [93]))"
| "canonicalJson (JObj ms) =
     (case seq_parts (map (\<lambda>(k, v).
          if v = JUndefined \<or> v = JFunction \<or> v = JSymbol then Inl (BadMember k)
          else case canonicalJson v of Inl e \<Rightarrow> Inl e
             | Inr p \<Rightarrow> Inr (serializeString k @ [58] @ p)) (sortByCodePoint ms)) of
        Inl e \<Rightarrow> Inl e
      | Inr ps \<Rightarrow> Inr ([123] @ join [44] ps @ [125]))"
| "canonicalJson _ = Inl NotRepresentable"
  by pat_completeness auto
termination
proof (relation "measure size", goal_cases)
  case (2 xs z i x v)
  then have "Some v \<in> set xs" by (auto simp: in_set_enumerate_eq) (metis nth_mem)
  then show ?case by (induction xs) auto
next
  case (3 ms z k v)
  then have "(k, v) \<in> set ms" by simp
  then show ?case by (induction ms) auto
qed simp

declare canonicalJson.simps [simp]

subsection \<open>Independence of member order\<close>

text \<open>Values equal up to the order of the members of the objects inside them.\<close>

inductive reordered :: "jval \<Rightarrow> jval \<Rightarrow> bool" where
  ro_refl: "reordered v v"
| ro_trans: "reordered u v \<Longrightarrow> reordered v w \<Longrightarrow> reordered u w"
| ro_members: "mset ms = mset ms' \<Longrightarrow> distinct (map fst ms) \<Longrightarrow>
     reordered (JObj ms) (JObj ms')"
| ro_in_object: "reordered v w \<Longrightarrow>
     reordered (JObj (ms @ (k, v) # ns)) (JObj (ms @ (k, w) # ns))"
| ro_in_array: "reordered v w \<Longrightarrow>
     reordered (JArr (xs @ Some v # ys)) (JArr (xs @ Some w # ys))"

definition refused_member :: "jval \<Rightarrow> bool" where
  "refused_member v \<longleftrightarrow> v = JUndefined \<or> v = JFunction \<or> v = JSymbol"

definition alike :: "text_cp \<times> jval \<Rightarrow> text_cp \<times> jval \<Rightarrow> bool" where
  "alike a b \<longleftrightarrow> fst a = fst b \<and> canonicalJson (snd a) = canonicalJson (snd b)
     \<and> refused_member (snd a) = refused_member (snd b)"

lemma alike_insert:
  "list_all2 alike ys zs \<Longrightarrow> alike x y \<Longrightarrow>
   list_all2 alike (insert_by_cp x ys) (insert_by_cp y zs)"
proof (induction ys arbitrary: zs)
  case (Cons a ys)
  then obtain b zs' where "zs = b # zs'" "alike a b" "list_all2 alike ys zs'"
    by (auto simp: list_all2_Cons1)
  with Cons show ?case by (auto simp: alike_def)
qed simp

lemma alike_sort:
  "list_all2 alike ms ns \<Longrightarrow> list_all2 alike (sortByCodePoint ms) (sortByCodePoint ns)"
  by (induction rule: list_all2_induct) (auto simp: sortByCodePoint_def alike_insert)

lemma alike_object: "list_all2 alike ms ns \<Longrightarrow> canonicalJson (JObj ms) = canonicalJson (JObj ns)"
proof -
  define part where "part = (\<lambda>(k, v). if v = JUndefined \<or> v = JFunction \<or> v = JSymbol
      then Inl (BadMember k) else case canonicalJson v of Inl e \<Rightarrow> Inl e
        | Inr p \<Rightarrow> Inr (serializeString k @ [58] @ p))"
  have part: "part a = part b" if "alike a b" for a b
    using that by (auto simp: alike_def part_def refused_member_def split: prod.splits)
  assume "list_all2 alike ms ns"
  then have "list_all2 alike (sortByCodePoint ms) (sortByCodePoint ns)" by (rule alike_sort)
  then have "map part (sortByCodePoint ms) = map part (sortByCodePoint ns)"
    by (induction rule: list_all2_induct) (auto simp: part)
  then show ?thesis by (simp add: part_def)
qed

lemma alike_array:
  assumes "canonicalJson v = canonicalJson w"
  shows "canonicalJson (JArr (xs @ Some v # ys)) = canonicalJson (JArr (xs @ Some w # ys))"
  using assms by (simp add: enumerate_append_eq)

lemma reordered_alike:
  "reordered v w \<Longrightarrow> canonicalJson v = canonicalJson w \<and> refused_member v = refused_member w"
proof (induction rule: reordered.induct)
  case (ro_members ms ms')
  then show ?case using sortByCodePoint_perm [of ms ms'] by (simp add: refused_member_def)
next
  case (ro_in_object v w ms k ns)
  have "list_all2 alike (ms @ (k, v) # ns) (ms @ (k, w) # ns)"
    using ro_in_object.IH by (auto simp: alike_def list_all2_appendI list_all2_same)
  from alike_object [OF this] show ?case by (simp only: refused_member_def jval.distinct)
next
  case (ro_in_array v w xs ys)
  from alike_array [OF conjunct1 [OF ro_in_array.IH], of xs ys] show ?case
    by (simp only: refused_member_def jval.distinct)
qed auto

text \<open>
  The canonical form does not depend on the order in which members were inserted into an
  object, at any depth: two values that differ only in member order serialize to the same text or
  are refused alike, so a request hash cannot change with key order.
\<close>

theorem canonical_key_order:
  assumes "reordered v w"
  shows "canonicalJson v = canonicalJson w"
  using reordered_alike [OF assms] by simp

theorem canonical_key_order_witness:
  "canonicalJson (JArr [Some (JObj [(cps ''b'', JNull), (cps ''a'', JNum (Fin 1))])])
   = Inr (cps ''[{'' @ [34] @ cps ''a'' @ [34] @ cps '':1,'' @ [34] @ cps ''b'' @ [34]
       @ cps '':null}]'')"
proof -
  have "reordered (JObj [(cps ''b'', JNull), (cps ''a'', JNum (Fin 1))])
      (JObj [(cps ''a'', JNum (Fin 1)), (cps ''b'', JNull)])"
    by (rule ro_members) (auto simp: cps_def)
  from canonical_key_order [OF ro_in_array [OF this, of "[]" "[]"]]
  show ?thesis
    by (simp add: cps_def sortByCodePoint_def serializeString_def escape_cp_def show_int_def
        show_nat_def digits_of.simps digit_char_def join_def)
qed

end
