(* ===== verification/Subscriptions.thy ===== *)
theory Subscriptions
  imports Json
begin

text \<open>
  Channel subscriptions of \<open>packages/collab/src/subscriptions.ts\<close> and the slow-consumer
  check of \<open>slowconsumer.ts\<close>: the frames, a subscription with its one FIFO queue and its
  delivery sink, and the registry with its two indexes. The sink is the log of the frames written
  to it; the injected clock is the \<open>now\<close> argument of each operation.
\<close>

subsection \<open>Frames\<close>

datatype SubscriptionCloseReason =
    Unsubscribed | AuthorizationLost | ChannelArchived | ChannelUnarchived
  | SlowConsumer | SessionClosed | SocketClosed

datatype SubscriptionState = Backlog | Live | Closed

record event_body =
  ev_id :: string
  ev_kind :: string
  ev_actor :: string
  ev_occurredAt :: string
  ev_payload :: jval

record ChannelEventFrame =
  ce_subscriptionId :: string
  ce_channelId :: string
  ce_cursor :: string
  ce_event :: event_body

record SubscriptionCloseFrame =
  sc_subscriptionId :: string
  sc_reason :: SubscriptionCloseReason

record CollabPresenceFrame =
  cp_subscriptionId :: string
  cp_channelId :: string
  cp_principalId :: string
  cp_working :: bool
  cp_since :: "string option"

datatype DeliveryFrame =
    ChannelEvent ChannelEventFrame
  | SubscriptionClosed SubscriptionCloseFrame
  | CollabPresence CollabPresenceFrame

fun reason_text :: "SubscriptionCloseReason \<Rightarrow> string" where
  "reason_text Unsubscribed = ''unsubscribed''"
| "reason_text AuthorizationLost = ''authorization_lost''"
| "reason_text ChannelArchived = ''channel_archived''"
| "reason_text ChannelUnarchived = ''channel_unarchived''"
| "reason_text SlowConsumer = ''slow_consumer''"
| "reason_text SessionClosed = ''session_closed''"
| "reason_text SocketClosed = ''socket_closed''"

definition jstr :: "string \<Rightarrow> jval" where
  "jstr s = JStr (cps s)"

definition jobj :: "(string \<times> jval) list \<Rightarrow> jval" where
  "jobj ms = JObj (map (\<lambda>(k, v). (cps k, v)) ms)"

fun frame_json :: "DeliveryFrame \<Rightarrow> jval" where
  "frame_json (ChannelEvent f) = jobj
     [(''type'', jstr ''channel_event''), (''protocolVersion'', JNum (Fin 2)),
      (''subscriptionId'', jstr (ce_subscriptionId f)), (''channelId'', jstr (ce_channelId f)),
      (''cursor'', jstr (ce_cursor f)),
      (''event'', jobj
        [(''id'', jstr (ev_id (ce_event f))), (''kind'', jstr (ev_kind (ce_event f))),
         (''actorPrincipalId'', jstr (ev_actor (ce_event f))),
         (''occurredAt'', jstr (ev_occurredAt (ce_event f))),
         (''payload'', ev_payload (ce_event f))])]"
| "frame_json (SubscriptionClosed f) = jobj
     [(''type'', jstr ''subscription_closed''), (''protocolVersion'', JNum (Fin 2)),
      (''subscriptionId'', jstr (sc_subscriptionId f)), (''state'', jstr ''closed''),
      (''reason'', jstr (reason_text (sc_reason f)))]"
| "frame_json (CollabPresence f) = jobj
     [(''type'', jstr ''collab_presence''), (''protocolVersion'', JNum (Fin 2)),
      (''subscriptionId'', jstr (cp_subscriptionId f)), (''channelId'', jstr (cp_channelId f)),
      (''principalId'', jstr (cp_principalId f)), (''working'', JBool (cp_working f)),
      (''since'', case cp_since f of None \<Rightarrow> JNull | Some t \<Rightarrow> jstr t)]"

definition estimateFrameBytes :: "DeliveryFrame \<Rightarrow> nat" where
  "estimateFrameBytes f = utf8_length (stringify (frame_json f))"

text \<open>A queued frame, and equally a write to the sink with its metadata.\<close>

record QueuedFrame =
  q_frame :: DeliveryFrame
  q_byteLength :: nat
  q_enqueuedAtMs :: int

definition queued :: "int \<Rightarrow> DeliveryFrame \<Rightarrow> QueuedFrame" where
  "queued now f = \<lparr>q_frame = f, q_byteLength = estimateFrameBytes f, q_enqueuedAtMs = now\<rparr>"

subsection \<open>A subscription\<close>

record EpochSnapshot =
  es_authEpoch :: int
  es_membershipEpoch :: int
  es_channelEpoch :: int

record SubscriptionParams =
  sp_subscriptionId :: string
  sp_sessionId :: string
  sp_channelId :: string
  sp_principalId :: string
  sp_credentialId :: string
  sp_rejoinedSeq :: int
  sp_epochSnapshot :: EpochSnapshot
  sp_highWaterCursor :: int

record Subscription =
  sb_params :: SubscriptionParams
  sb_state :: SubscriptionState
  sb_closeReason :: "SubscriptionCloseReason option"
  sb_queue :: "QueuedFrame list"
  sb_buffering :: bool
  sb_highestSeenSeq :: int
  sb_sink :: "QueuedFrame list"

definition new_subscription :: "SubscriptionParams \<Rightarrow> Subscription" where
  "new_subscription p = \<lparr>sb_params = p, sb_state = Backlog, sb_closeReason = None, sb_queue = [],
     sb_buffering = True, sb_highestSeenSeq = sp_highWaterCursor p, sb_sink = []\<rparr>"

definition sub_closed :: "Subscription \<Rightarrow> bool" where
  "sub_closed s \<longleftrightarrow> sb_state s = Closed"

definition queuedBytes :: "Subscription \<Rightarrow> nat" where
  "queuedBytes s = sum_list (map q_byteLength (sb_queue s))"

definition oldestQueuedAgeMs :: "Subscription \<Rightarrow> int \<Rightarrow> int" where
  "oldestQueuedAgeMs s now =
     (if sb_queue s = [] then 0 else now - q_enqueuedAtMs (hd (sb_queue s)))"

definition sink_write :: "QueuedFrame \<Rightarrow> Subscription \<Rightarrow> Subscription" where
  "sink_write q s = s\<lparr>sb_sink := sb_sink s @ [q]\<rparr>"

definition pushFrame :: "int \<Rightarrow> DeliveryFrame \<Rightarrow> Subscription \<Rightarrow> Subscription" where
  "pushFrame now f s = s\<lparr>sb_queue := sb_queue s @ [queued now f]\<rparr>"

definition deliverNow :: "DeliveryFrame \<Rightarrow> Subscription \<Rightarrow> Subscription" where
  "deliverNow f s =
     (let q = last (sb_queue s)
      in sink_write (q\<lparr>q_frame := f\<rparr>) (s\<lparr>sb_queue := butlast (sb_queue s)\<rparr>))"

definition deliverChannelEvent ::
  "int \<Rightarrow> ChannelEventFrame \<Rightarrow> int \<Rightarrow> Subscription \<Rightarrow> Subscription \<times> bool" where
  "deliverChannelEvent now f seq s =
     (if sb_state s = Closed then (s, False)
      else if seq \<le> sb_highestSeenSeq s then (s, False)
      else if sb_buffering s then
        (pushFrame now (ChannelEvent f) (s\<lparr>sb_highestSeenSeq := seq\<rparr>), True)
      else
        (deliverNow (ChannelEvent f)
           (pushFrame now (ChannelEvent f) (s\<lparr>sb_highestSeenSeq := seq\<rparr>)), True))"

definition deliverBacklogEvent ::
  "int \<Rightarrow> ChannelEventFrame \<Rightarrow> Subscription \<Rightarrow> Subscription \<times> bool" where
  "deliverBacklogEvent now f s =
     (if sb_state s = Closed then (s, False)
      else (sink_write (queued now (ChannelEvent f)) s, True))"

definition transitionToLive :: "Subscription \<Rightarrow> Subscription" where
  "transitionToLive s =
     (if sb_state s = Closed then s
      else (fold sink_write (sb_queue s) s)\<lparr>sb_buffering := False, sb_state := Live\<rparr>)"

definition close_sub :: "SubscriptionCloseReason \<Rightarrow> Subscription \<Rightarrow> Subscription" where
  "close_sub r s =
     (if sb_state s = Closed then s
      else s\<lparr>sb_state := Closed, sb_closeReason := Some r, sb_queue := []\<rparr>)"

text \<open>\<open>None\<close> is the thrown \<open>deliverCloseFrame called before close()\<close>.\<close>

definition deliverCloseFrame :: "int \<Rightarrow> Subscription \<Rightarrow> Subscription option" where
  "deliverCloseFrame now s =
     (case sb_closeReason s of
        None \<Rightarrow> None
      | Some r \<Rightarrow> Some (sink_write (queued now (SubscriptionClosed
          \<lparr>sc_subscriptionId = sp_subscriptionId (sb_params s), sc_reason = r\<rparr>)) s))"

definition deliverPresence ::
  "int \<Rightarrow> CollabPresenceFrame \<Rightarrow> Subscription \<Rightarrow> Subscription \<times> bool" where
  "deliverPresence now f s =
     (if sb_state s = Closed then (s, False)
      else (sink_write (queued now (CollabPresence f)) s, True))"

lemmas sub_ops = deliverChannelEvent_def deliverBacklogEvent_def transitionToLive_def
  close_sub_def deliverCloseFrame_def deliverPresence_def pushFrame_def deliverNow_def
  sink_write_def queued_def

lemma fold_sink_write: "fold sink_write qs s = s\<lparr>sb_sink := sb_sink s @ qs\<rparr>"
  by (induction qs arbitrary: s) (simp_all add: sink_write_def)

subsection \<open>Slow consumers\<close>

datatype slow_reason = BytesReason | AgeReason

record SlowConsumerCheckResult =
  sr_slow :: bool
  sr_reason :: "slow_reason option"
  sr_queuedBytes :: nat
  sr_oldestAgeMs :: int

definition SLOW_CONSUMER_BYTE_LIMIT :: nat where "SLOW_CONSUMER_BYTE_LIMIT = 1048576"
definition SLOW_CONSUMER_AGE_MS :: int where "SLOW_CONSUMER_AGE_MS = 10000"

definition checkSlowConsumer :: "Subscription \<Rightarrow> int \<Rightarrow> SlowConsumerCheckResult" where
  "checkSlowConsumer s now =
     (let b = queuedBytes s; a = oldestQueuedAgeMs s now
      in if b > SLOW_CONSUMER_BYTE_LIMIT then
           \<lparr>sr_slow = True, sr_reason = Some BytesReason, sr_queuedBytes = b, sr_oldestAgeMs = a\<rparr>
         else if a > SLOW_CONSUMER_AGE_MS then
           \<lparr>sr_slow = True, sr_reason = Some AgeReason, sr_queuedBytes = b, sr_oldestAgeMs = a\<rparr>
         else \<lparr>sr_slow = False, sr_reason = None, sr_queuedBytes = b, sr_oldestAgeMs = a\<rparr>)"

definition checkAndCloseSlowConsumer ::
  "Subscription \<Rightarrow> int \<Rightarrow> Subscription \<times> SlowConsumerCheckResult" where
  "checkAndCloseSlowConsumer s now =
     (let r = checkSlowConsumer s now
      in if sr_slow r \<and> \<not> sub_closed s then
           (case deliverCloseFrame now (close_sub SlowConsumer s) of
              Some s' \<Rightarrow> (s', r)
            | None \<Rightarrow> (s, r))
         else (s, r))"

fun tickSlowConsumers :: "Subscription list \<Rightarrow> int \<Rightarrow> Subscription list \<times> nat" where
  "tickSlowConsumers [] now = ([], 0)"
| "tickSlowConsumers (s # ss) now =
     (let rest = tickSlowConsumers ss now
      in if sub_closed s then (s # fst rest, snd rest)
         else let (s', r) = checkAndCloseSlowConsumer s now
              in (s' # fst rest, (if sr_slow r then 1 else 0) + snd rest))"

text \<open>What the limits promise of a subscription at a time.\<close>

definition within_limits :: "Subscription \<Rightarrow> int \<Rightarrow> bool" where
  "within_limits s now \<longleftrightarrow> queuedBytes s \<le> SLOW_CONSUMER_BYTE_LIMIT
     \<and> oldestQueuedAgeMs s now \<le> SLOW_CONSUMER_AGE_MS"

lemma slow_iff: "sr_slow (checkSlowConsumer s now) \<longleftrightarrow> \<not> within_limits s now"
  by (auto simp: checkSlowConsumer_def within_limits_def Let_def)

lemma checkAndClose_cases:
  "checkAndCloseSlowConsumer s now =
     (if within_limits s now \<or> sub_closed s then (s, checkSlowConsumer s now)
      else (s\<lparr>sb_state := Closed, sb_closeReason := Some SlowConsumer, sb_queue := [],
              sb_sink := sb_sink s @ [queued now (SubscriptionClosed
                \<lparr>sc_subscriptionId = sp_subscriptionId (sb_params s),
                  sc_reason = SlowConsumer\<rparr>)]\<rparr>, checkSlowConsumer s now))"
  by (simp add: checkAndCloseSlowConsumer_def Let_def slow_iff sub_ops sub_closed_def)

subsection \<open>The registry\<close>

record SubscriptionRegistry =
  rg_byId :: "(string, Subscription) omap"
  rg_byChannel :: "(string, string list) omap"
  rg_bySession :: "(string, string list) omap"

definition empty_registry :: SubscriptionRegistry where
  "empty_registry = \<lparr>rg_byId = [], rg_byChannel = [], rg_bySession = []\<rparr>"

text \<open>\<open>Set.add\<close> and \<open>Set.delete\<close> of an insertion-ordered set.\<close>

definition set_add :: "'a \<Rightarrow> 'a list \<Rightarrow> 'a list" where
  "set_add x xs = (if x \<in> set xs then xs else xs @ [x])"

definition index_add :: "string \<Rightarrow> string \<Rightarrow> (string, string list) omap
    \<Rightarrow> (string, string list) omap" where
  "index_add k i m =
     (case om_get m k of
        None \<Rightarrow> om_set k (set_add i []) m
      | Some ids \<Rightarrow> om_set k (set_add i ids) m)"

definition index_remove :: "string \<Rightarrow> string \<Rightarrow> (string, string list) omap
    \<Rightarrow> (string, string list) omap" where
  "index_remove k i m =
     (case om_get m k of
        None \<Rightarrow> m
      | Some ids \<Rightarrow> om_set k (filter (\<lambda>j. j \<noteq> i) ids) m)"

definition register ::
  "SubscriptionParams \<Rightarrow> SubscriptionRegistry \<Rightarrow> SubscriptionRegistry \<times> Subscription" where
  "register p g =
     (let sub = new_subscription p; i = sp_subscriptionId p
      in (\<lparr>rg_byId = om_set i sub (rg_byId g),
           rg_byChannel = index_add (sp_channelId p) i (rg_byChannel g),
           rg_bySession = index_add (sp_sessionId p) i (rg_bySession g)\<rparr>, sub))"

definition get_sub :: "SubscriptionRegistry \<Rightarrow> string \<Rightarrow> Subscription option" where
  "get_sub g i = om_get (rg_byId g) i"

definition lookup_ids :: "SubscriptionRegistry \<Rightarrow> string list option \<Rightarrow> Subscription list" where
  "lookup_ids g ids =
     (case ids of None \<Rightarrow> [] | Some is \<Rightarrow> List.map_filter (om_get (rg_byId g)) is)"

definition forChannel :: "SubscriptionRegistry \<Rightarrow> string \<Rightarrow> Subscription list" where
  "forChannel g c = lookup_ids g (om_get (rg_byChannel g) c)"

definition forSession :: "SubscriptionRegistry \<Rightarrow> string \<Rightarrow> Subscription list" where
  "forSession g c = lookup_ids g (om_get (rg_bySession g) c)"

definition all_subs :: "SubscriptionRegistry \<Rightarrow> Subscription list" where
  "all_subs g = map snd (rg_byId g)"

definition allActive :: "SubscriptionRegistry \<Rightarrow> Subscription list" where
  "allActive g = filter (\<lambda>s. \<not> sub_closed s) (all_subs g)"

definition remove_sub :: "string \<Rightarrow> SubscriptionRegistry \<Rightarrow> SubscriptionRegistry" where
  "remove_sub i g =
     (case om_get (rg_byId g) i of
        None \<Rightarrow> g
      | Some s \<Rightarrow>
          \<lparr>rg_byId = om_delete i (rg_byId g),
           rg_byChannel = index_remove (sp_channelId (sb_params s)) i (rg_byChannel g),
           rg_bySession = index_remove (sp_sessionId (sb_params s)) i (rg_bySession g)\<rparr>)"

text \<open>A method call on the registered object with that id.\<close>

definition on_sub :: "string \<Rightarrow> (Subscription \<Rightarrow> Subscription) \<Rightarrow> SubscriptionRegistry
    \<Rightarrow> SubscriptionRegistry" where
  "on_sub i f g =
     (case om_get (rg_byId g) i of
        None \<Rightarrow> g
      | Some s \<Rightarrow> g\<lparr>rg_byId := om_set i (f s) (rg_byId g)\<rparr>)"

subsection \<open>Runs of one subscription\<close>

datatype sub_op =
    OpEvent int ChannelEventFrame int
  | OpBacklog int ChannelEventFrame
  | OpPresence int CollabPresenceFrame
  | OpLive
  | OpClose SubscriptionCloseReason
  | OpCloseFrame int
  | OpSlow int

fun apply_op :: "sub_op \<Rightarrow> Subscription \<Rightarrow> Subscription" where
  "apply_op (OpEvent now f seq) s = fst (deliverChannelEvent now f seq s)"
| "apply_op (OpBacklog now f) s = fst (deliverBacklogEvent now f s)"
| "apply_op (OpPresence now f) s = fst (deliverPresence now f s)"
| "apply_op OpLive s = transitionToLive s"
| "apply_op (OpClose r) s = close_sub r s"
| "apply_op (OpCloseFrame now) s = (case deliverCloseFrame now s of None \<Rightarrow> s | Some s' \<Rightarrow> s')"
| "apply_op (OpSlow now) s = fst (checkAndCloseSlowConsumer s now)"

abbreviation apply_ops :: "sub_op list \<Rightarrow> Subscription \<Rightarrow> Subscription" where
  "apply_ops ops s \<equiv> fold apply_op ops s"

lemma apply_op_params: "sb_params (apply_op op s) = sb_params s"
  by (cases op) (auto simp: sub_ops fold_sink_write checkAndClose_cases Let_def
      split: option.splits)

lemma apply_ops_params: "sb_params (apply_ops ops s) = sb_params s"
  by (induction ops arbitrary: s) (simp_all add: apply_op_params)

lemma sink_append_only: "\<exists>ws. sb_sink (apply_op op s) = sb_sink s @ ws"
  by (cases op) (auto simp: sub_ops fold_sink_write checkAndClose_cases Let_def
      split: option.splits)

lemma sink_append_only_run: "\<exists>ws. sb_sink (apply_ops ops s) = sb_sink s @ ws"
proof (induction ops arbitrary: s)
  case (Cons op ops)
  from sink_append_only [of op s] Cons.IH [of "apply_op op s"] show ?case by auto
qed simp

subsection \<open>The backlog and live handshake\<close>

text \<open>
  The contract of delivery: of the events offered, those whose sequence number exceeds the high
  water mark and everything offered before, in the order offered.
\<close>

fun fresh_above :: "int \<Rightarrow> (ChannelEventFrame \<times> int) list \<Rightarrow> (ChannelEventFrame \<times> int) list" where
  "fresh_above h [] = []"
| "fresh_above h ((f, n) # es) =
     (if n \<le> h then fresh_above h es else (f, n) # fresh_above n es)"

fun seen_max :: "int \<Rightarrow> (ChannelEventFrame \<times> int) list \<Rightarrow> int" where
  "seen_max h [] = h"
| "seen_max h ((f, n) # es) = seen_max (max h n) es"

lemma fresh_above_append: "fresh_above h (xs @ ys) = fresh_above h xs @ fresh_above (seen_max h xs) ys"
  by (induction h xs rule: fresh_above.induct) (auto simp: max_def)

text \<open>The events offered by a run, and the event frames in a log.\<close>

fun offered :: "sub_op list \<Rightarrow> (ChannelEventFrame \<times> int) list" where
  "offered (OpEvent _ f n # ops) = (f, n) # offered ops"
| "offered (_ # ops) = offered ops"
| "offered [] = []"

fun replayed :: "sub_op list \<Rightarrow> ChannelEventFrame list" where
  "replayed (OpBacklog _ f # ops) = f # replayed ops"
| "replayed (_ # ops) = replayed ops"
| "replayed [] = []"

fun event_of :: "DeliveryFrame \<Rightarrow> ChannelEventFrame option" where
  "event_of (ChannelEvent f) = Some f"
| "event_of _ = None"

definition events_in :: "QueuedFrame list \<Rightarrow> ChannelEventFrame list" where
  "events_in qs = List.map_filter (\<lambda>q. event_of (q_frame q)) qs"

lemma events_in_append [simp]: "events_in (xs @ ys) = events_in xs @ events_in ys"
  by (simp add: events_in_def map_filter_def)

lemma events_in_simps [simp]:
  "events_in [] = []"
  "events_in (\<lparr>q_frame = ChannelEvent f, q_byteLength = b, q_enqueuedAtMs = t\<rparr> # qs) = f # events_in qs"
  "events_in (\<lparr>q_frame = CollabPresence p, q_byteLength = b, q_enqueuedAtMs = t\<rparr> # qs) = events_in qs"
  "events_in (\<lparr>q_frame = SubscriptionClosed c, q_byteLength = b, q_enqueuedAtMs = t\<rparr> # qs) = events_in qs"
  by (simp_all add: events_in_def map_filter_def)

fun replay_op :: "sub_op \<Rightarrow> bool" where
  "replay_op (OpEvent _ _ _) = True"
| "replay_op (OpBacklog _ _) = True"
| "replay_op (OpPresence _ _) = True"
| "replay_op _ = False"

fun live_op :: "sub_op \<Rightarrow> bool" where
  "live_op (OpEvent _ _ _) = True"
| "live_op (OpPresence _ _) = True"
| "live_op _ = False"

lemma buffering_run:
  assumes "sb_state s = Backlog" "sb_buffering s" "\<forall>op \<in> set ops. replay_op op"
  defines "t \<equiv> apply_ops ops s"
  shows "sb_state t = Backlog \<and> sb_buffering t
    \<and> events_in (sb_sink t) = events_in (sb_sink s) @ replayed ops
    \<and> events_in (sb_queue t)
        = events_in (sb_queue s) @ map fst (fresh_above (sb_highestSeenSeq s) (offered ops))
    \<and> sb_highestSeenSeq t = seen_max (sb_highestSeenSeq s) (offered ops)"
  unfolding t_def using assms(1-3)
proof (induction ops arbitrary: s)
  case (Cons op ops)
  from Cons.prems show ?case
    by (cases op) (simp_all add: Cons.IH sub_ops max_def)
qed simp

lemma live_run:
  assumes "sb_state s = Live" "\<not> sb_buffering s" "\<forall>op \<in> set ops. live_op op"
  defines "t \<equiv> apply_ops ops s"
  shows "sb_state t = Live \<and> \<not> sb_buffering t
    \<and> events_in (sb_sink t)
        = events_in (sb_sink s) @ map fst (fresh_above (sb_highestSeenSeq s) (offered ops))
    \<and> sb_queue t = sb_queue s"
  unfolding t_def using assms(1-3)
proof (induction ops arbitrary: s)
  case (Cons op ops)
  from Cons.prems show ?case
    by (cases op) (simp_all add: Cons.IH sub_ops Let_def)
qed simp

lemma offered_append: "offered (xs @ ys) = offered xs @ offered ys"
  by (induction xs rule: offered.induct) simp_all

text \<open>
  C12. Exactly-once ordered delivery across the backlog handshake: whatever interleaving of backlog
  replay, presence pushes and live fan-out happens before the transition to live, and whatever
  fan-out follows, the channel events written to the sink are the replayed backlog, then each
  offered event above the high-water mark once, at its first offer, in order; duplicates and
  events the backlog covers are dropped.
\<close>

theorem handshake_delivery:
  assumes "\<forall>op \<in> set pre. replay_op op" and "\<forall>op \<in> set post. live_op op"
  shows "events_in (sb_sink (apply_ops (pre @ OpLive # post) (new_subscription p)))
    = replayed pre @ map fst (fresh_above (sp_highWaterCursor p) (offered (pre @ OpLive # post)))"
proof -
  let ?b = "apply_ops pre (new_subscription p)"
  have b: "sb_state ?b = Backlog" "events_in (sb_sink ?b) = replayed pre"
    "events_in (sb_queue ?b) = map fst (fresh_above (sp_highWaterCursor p) (offered pre))"
    "sb_highestSeenSeq ?b = seen_max (sp_highWaterCursor p) (offered pre)"
    using buffering_run [of "new_subscription p" pre] assms(1)
    by (simp_all add: new_subscription_def)
  let ?l = "transitionToLive ?b"
  have l: "sb_state ?l = Live" "\<not> sb_buffering ?l"
    "events_in (sb_sink ?l) = events_in (sb_sink ?b) @ events_in (sb_queue ?b)"
    "sb_highestSeenSeq ?l = sb_highestSeenSeq ?b"
    using b(1) by (simp_all add: transitionToLive_def fold_sink_write)
  from live_run [OF l(1,2) assms(2)] l b show ?thesis
    by (simp add: offered_append fresh_above_append)
qed

definition example_event :: "string \<Rightarrow> ChannelEventFrame" where
  "example_event c = \<lparr>ce_subscriptionId = ''s'', ce_channelId = ''c'', ce_cursor = c,
     ce_event = \<lparr>ev_id = ''e'', ev_kind = ''message'', ev_actor = ''p'', ev_occurredAt = ''t'',
       ev_payload = JNull\<rparr>\<rparr>"

definition example_params :: "string \<Rightarrow> string \<Rightarrow> int \<Rightarrow> SubscriptionParams" where
  "example_params i c h = \<lparr>sp_subscriptionId = i, sp_sessionId = ''se'', sp_channelId = c,
     sp_principalId = ''p'', sp_credentialId = ''k'', sp_rejoinedSeq = 0,
     sp_epochSnapshot = \<lparr>es_authEpoch = 1, es_membershipEpoch = 1, es_channelEpoch = 1\<rparr>,
     sp_highWaterCursor = h\<rparr>"

theorem handshake_delivery_witness:
  "events_in (sb_sink (apply_ops
     ([OpEvent 5 (example_event ''3'') 3, OpBacklog 6 (example_event ''1''),
       OpEvent 7 (example_event ''3'') 3, OpBacklog 8 (example_event ''2'')]
      @ OpLive # [OpEvent 9 (example_event ''2'') 2, OpEvent 9 (example_event ''4'') 4])
     (new_subscription (example_params ''s'' ''c'' 2))))
   = map example_event [''1'', ''2'', ''3'', ''4'']"
proof (subst handshake_delivery)
  show "\<forall>op \<in> set [OpEvent 5 (example_event ''3'') 3, OpBacklog 6 (example_event ''1''),
       OpEvent 7 (example_event ''3'') 3, OpBacklog 8 (example_event ''2'')]. replay_op op" by simp
  show "\<forall>op \<in> set [OpEvent 9 (example_event ''2'') 2, OpEvent 9 (example_event ''4'') 4]. live_op op"
    by simp
qed (simp add: example_params_def)

subsection \<open>Closure\<close>

lemma closed_run:
  fixes ops :: "sub_op list"
  assumes "sb_state s = Closed" "sb_queue s = []" "sb_closeReason s = Some r"
  defines "t \<equiv> apply_ops ops s"
  shows "sb_state t = Closed \<and> sb_queue t = [] \<and> sb_closeReason t = Some r \<and>
    (\<exists>ws. sb_sink t = sb_sink s @ ws \<and> (\<forall>w \<in> set ws. q_frame w = SubscriptionClosed
       \<lparr>sc_subscriptionId = sp_subscriptionId (sb_params s), sc_reason = r\<rparr>))"
  unfolding t_def using assms(1-3)
proof (induction ops arbitrary: s)
  case (Cons op ops)
  have s: "apply_op op s = s \<or> (\<exists>now. apply_op op s = sink_write (queued now (SubscriptionClosed
      \<lparr>sc_subscriptionId = sp_subscriptionId (sb_params s), sc_reason = r\<rparr>)) s)"
    using Cons.prems
    by (cases op) (auto simp: deliverChannelEvent_def deliverBacklogEvent_def deliverPresence_def
        transitionToLive_def close_sub_def deliverCloseFrame_def checkAndClose_cases sub_closed_def)
  have n: "sb_state (apply_op op s) = Closed \<and> sb_queue (apply_op op s) = []
      \<and> sb_closeReason (apply_op op s) = Some r
      \<and> sb_params (apply_op op s) = sb_params s"
    using s Cons.prems by (auto simp: sink_write_def)
  obtain w where w: "sb_sink (apply_op op s) = sb_sink s @ w"
      "\<forall>x \<in> set w. q_frame x = SubscriptionClosed
         \<lparr>sc_subscriptionId = sp_subscriptionId (sb_params s), sc_reason = r\<rparr>"
    using s by (auto simp: sink_write_def queued_def)
  have n': "sb_state (apply_op op s) = Closed" "sb_queue (apply_op op s) = []"
      "sb_closeReason (apply_op op s) = Some r" "sb_params (apply_op op s) = sb_params s"
    using n by simp_all
  obtain ws where "sb_sink (apply_ops ops (apply_op op s)) = sb_sink (apply_op op s) @ ws"
      "\<forall>x \<in> set ws. q_frame x = SubscriptionClosed
         \<lparr>sc_subscriptionId = sp_subscriptionId (sb_params s), sc_reason = r\<rparr>"
    using Cons.IH [OF n'(1-3)] n'(4) by auto
  with w Cons.IH [OF n'(1-3)] show ?case by (auto intro!: exI [of _ "w @ ws"])
qed simp

text \<open>
  The terminal close is final and the close frame is last: after \<open>close\<close> of an open
  subscription, no later sequence of operations, a second \<open>close\<close> with another reason
  included, reopens it, changes its reason or writes anything to the sink except its own
  \<open>subscription_closed\<close> frame with the first reason; unsent frames are purged.
\<close>

theorem close_is_terminal:
  assumes "sb_state s \<noteq> Closed"
  shows "let t = apply_ops ops (close_sub r s) in sb_state t = Closed \<and> sb_queue t = [] \<and> sb_closeReason t = Some r \<and>
    (\<exists>ws. sb_sink t = sb_sink s @ ws \<and> (\<forall>w \<in> set ws. q_frame w = SubscriptionClosed
       \<lparr>sc_subscriptionId = sp_subscriptionId (sb_params s), sc_reason = r\<rparr>))"
  using closed_run [of "close_sub r s" r ops] assms by (simp add: close_sub_def Let_def)

theorem close_is_terminal_witness:
  "sb_closeReason (apply_ops [OpClose SocketClosed, OpLive, OpEvent 9 (example_event ''4'') 4]
      (close_sub AuthorizationLost (new_subscription (example_params ''s'' ''c'' 2))))
   = Some AuthorizationLost"
  using close_is_terminal [of "new_subscription (example_params ''s'' ''c'' 2)"
      "[OpClose SocketClosed, OpLive, OpEvent 9 (example_event ''4'') 4]" AuthorizationLost]
  by (simp add: new_subscription_def Let_def)

subsection \<open>The slow-consumer check\<close>

text \<open>
  Frames buffered during the backlog are never removed from the queue by the transition to
  live: it writes them to the sink but leaves them queued, and live delivery pops only the frame
  it has just pushed. So a subscription that buffered at least one event, whose consumer has
  received everything, is reported slow by age ten seconds later, whatever is delivered meanwhile,
  and the check closes it.
\<close>

theorem delivered_buffer_stays_queued:
  assumes "sb_state s = Backlog" and "sb_buffering s" and "sb_queue s = q # qs"
    and "\<forall>op \<in> set ops. live_op op"
    and "q_enqueuedAtMs q + SLOW_CONSUMER_AGE_MS < now"
  shows "let t = apply_ops (OpLive # ops) s in
    (\<exists>ws. sb_sink t = sb_sink s @ q # qs @ ws) \<and> sb_queue t = q # qs
    \<and> sr_slow (checkSlowConsumer t now)
    \<and> sb_closeReason (fst (checkAndCloseSlowConsumer t now)) = Some SlowConsumer"
proof -
  let ?l = "transitionToLive s"
  have l: "sb_state ?l = Live" "\<not> sb_buffering ?l" "sb_queue ?l = q # qs"
      "sb_sink ?l = sb_sink s @ q # qs"
    using assms(1,3) by (simp_all add: transitionToLive_def fold_sink_write sink_write_def)
  let ?t = "apply_ops ops ?l"
  have t: "sb_state ?t = Live" "sb_queue ?t = q # qs"
    using live_run [OF l(1,2) assms(4)] l(3) by simp_all
  obtain ws where "sb_sink ?t = sb_sink ?l @ ws" using sink_append_only_run by blast
  with t l assms(5) show ?thesis
    by (simp add: slow_iff within_limits_def oldestQueuedAgeMs_def checkAndClose_cases
        sub_closed_def)
qed

theorem delivered_buffer_stays_queued_witness:
  "sr_slow (checkSlowConsumer (apply_ops [OpEvent 100 (example_event ''3'') 3, OpLive]
     (new_subscription (example_params ''s'' ''c'' 2))) 10101)"
proof -
  let ?s = "apply_ops [OpEvent 100 (example_event ''3'') 3]
    (new_subscription (example_params ''s'' ''c'' 2))"
  have "sb_state ?s = Backlog" "sb_buffering ?s"
      "sb_queue ?s = queued 100 (ChannelEvent (example_event ''3'')) # []"
    by (simp_all add: new_subscription_def example_params_def sub_ops)
  from delivered_buffer_stays_queued [OF this, of "[]" 10101] show ?thesis
    by (simp add: queued_def SLOW_CONSUMER_AGE_MS_def Let_def)
qed

text \<open>
  A tick enforces both limits: afterwards every subscription still open is within 1 MiB of
  queued bytes and ten seconds of age, the ones within limits and the ones already closed are
  untouched, every other one is closed as a slow consumer with one close frame appended to what
  it had been sent, and the count returned is the number closed.
\<close>

theorem tick_enforces_limits:
  "fst (tickSlowConsumers ss now) = map (\<lambda>s. if within_limits s now \<or> sub_closed s then s
       else s\<lparr>sb_state := Closed, sb_closeReason := Some SlowConsumer, sb_queue := [],
              sb_sink := sb_sink s @ [queued now (SubscriptionClosed
                \<lparr>sc_subscriptionId = sp_subscriptionId (sb_params s),
                  sc_reason = SlowConsumer\<rparr>)]\<rparr>) ss
   \<and> snd (tickSlowConsumers ss now)
       = length (filter (\<lambda>s. \<not> sub_closed s \<and> \<not> within_limits s now) ss)"
  by (induction ss) (auto simp: Let_def checkAndClose_cases slow_iff)

subsection \<open>The registry's indexes\<close>

definition ids_of :: "string list option \<Rightarrow> string list" where
  "ids_of o' = (case o' of None \<Rightarrow> [] | Some is \<Rightarrow> is)"

definition index_exact ::
  "(SubscriptionParams \<Rightarrow> string) \<Rightarrow> (string, Subscription) omap \<Rightarrow> (string, string list) omap \<Rightarrow> bool" where
  "index_exact key subs idx \<longleftrightarrow>
     (\<forall>c. ids_of (om_get idx c) = map fst (filter (\<lambda>(i, s). key (sb_params s) = c) subs))"

definition reg_ok :: "SubscriptionRegistry \<Rightarrow> bool" where
  "reg_ok g \<longleftrightarrow> om_wf (rg_byId g)
     \<and> index_exact sp_channelId (rg_byId g) (rg_byChannel g)
     \<and> index_exact sp_sessionId (rg_byId g) (rg_bySession g)"

lemma index_add_get:
  "ids_of (om_get (index_add k i m) c)
   = (if c = k then set_add i (ids_of (om_get m k)) else ids_of (om_get m c))"
  by (auto simp: index_add_def om_get_set ids_of_def split: option.splits)

lemma index_remove_get:
  "ids_of (om_get (index_remove k i m) c)
   = (if c = k then filter (\<lambda>j. j \<noteq> i) (ids_of (om_get m k)) else ids_of (om_get m c))"
  by (auto simp: index_remove_def om_get_set ids_of_def split: option.splits)

lemma index_exact_add:
  assumes "index_exact key subs idx" and "i \<notin> fst ` set subs" and "key (sb_params s) = k"
  shows "index_exact key (om_set i s subs) (index_add k i idx)"
proof -
  have "om_get subs i = None" using assms(2) by (simp add: map_of_eq_None_iff)
  then have "om_set i s subs = subs @ [(i, s)]" by (rule om_set_new)
  moreover have "i \<notin> set (ids_of (om_get idx k))"
    using assms(1,2) by (force simp: index_exact_def)
  ultimately show ?thesis
    using assms(1,3) by (auto simp: index_exact_def index_add_get set_add_def)
qed

lemma index_exact_remove:
  assumes "index_exact key subs idx" and "om_wf subs" and "om_get subs i = Some s"
  shows "index_exact key (om_delete i subs) (index_remove (key (sb_params s)) i idx)"
proof -
  have *: "filter (\<lambda>j. j \<noteq> i) (map fst (filter (\<lambda>(i, s). key (sb_params s) = c) subs))
      = map fst (filter (\<lambda>(i, s). key (sb_params s) = c) (om_delete i subs))" for c
    by (auto simp: om_delete_def filter_map o_def case_prod_beta intro!: arg_cong [of _ _ "map fst"]
        filter_cong)
  have **: "i \<notin> set (map fst (filter (\<lambda>(i, s). key (sb_params s) = c) subs))"
    if "c \<noteq> key (sb_params s)" for c
    using that assms(2,3) by (auto simp: om_get_entry)
  show ?thesis
    unfolding index_exact_def index_remove_get
  proof (intro allI)
    fix c
    have "filter (\<lambda>j. j \<noteq> i) (map fst (filter (\<lambda>(i, s). key (sb_params s) = c) subs))
        = map fst (filter (\<lambda>(i, s). key (sb_params s) = c) subs)" if "c \<noteq> key (sb_params s)"
      using ** [OF that] by (metis (mono_tags, lifting) filter_True)
    then show "(if c = key (sb_params s) then filter (\<lambda>j. j \<noteq> i) (ids_of (om_get idx (key (sb_params s))))
        else ids_of (om_get idx c))
      = map fst (filter (\<lambda>(i, s). key (sb_params s) = c) (om_delete i subs))"
      using assms(1) * [of c] by (cases "c = key (sb_params s)") (simp_all add: index_exact_def)
  qed
qed

lemma index_exact_method:
  assumes "index_exact key subs idx" and "om_get subs i = Some s" and "sb_params (f s) = sb_params s"
  shows "index_exact key (om_set i (f s) subs) idx"
proof -
  have "map fst (filter (\<lambda>(i, s). key (sb_params s) = c) (om_set i (f s) subs))
      = map fst (filter (\<lambda>(i, s). key (sb_params s) = c) subs)" for c
    using assms(2,3) by (induction i "f s" subs rule: om_set.induct) auto
  with assms(1) show ?thesis by (simp add: index_exact_def)
qed

datatype reg_op = RegRegister SubscriptionParams | RegRemove string | RegMethod string sub_op

fun apply_reg :: "reg_op \<Rightarrow> SubscriptionRegistry \<Rightarrow> SubscriptionRegistry" where
  "apply_reg (RegRegister p) g = fst (register p g)"
| "apply_reg (RegRemove i) g = remove_sub i g"
| "apply_reg (RegMethod i op) g = on_sub i (apply_op op) g"

lemma reg_ok_register:
  "reg_ok g \<Longrightarrow> sp_subscriptionId p \<notin> fst ` set (rg_byId g) \<Longrightarrow> reg_ok (fst (register p g))"
  by (auto simp: reg_ok_def register_def Let_def new_subscription_def om_wf_set
      intro!: index_exact_add)

lemma reg_ok_remove: "reg_ok g \<Longrightarrow> reg_ok (remove_sub i g)"
  by (auto simp: reg_ok_def remove_sub_def om_wf_delete index_exact_remove split: option.splits)

lemma reg_ok_method: "reg_ok g \<Longrightarrow> reg_ok (on_sub i (apply_op op) g)"
  by (auto simp: reg_ok_def on_sub_def om_wf_set index_exact_method apply_op_params
      split: option.splits)

fun registered :: "reg_op list \<Rightarrow> string list" where
  "registered (RegRegister p # ops) = sp_subscriptionId p # registered ops"
| "registered (_ # ops) = registered ops"
| "registered [] = []"

lemma byId_keys_step:
  "fst ` set (rg_byId (apply_reg op g)) \<subseteq> fst ` set (rg_byId g) \<union> set (registered [op])"
proof (cases op)
  case (RegRegister p)
  then show ?thesis by (simp add: register_def Let_def keys_om_set flip: set_map)
next
  case (RegRemove i)
  then show ?thesis by (auto simp: remove_sub_def om_delete_def split: option.splits)
next
  case (RegMethod i op)
  then show ?thesis
    by (auto simp: on_sub_def keys_om_set simp flip: set_map split: option.splits)
      (metis domI dom_map_of_conv_image_fst list.set_map)
qed

lemma registered_cons: "registered (op # ops) = registered [op] @ registered ops"
  by (cases op) simp_all

lemma reg_ok_run:
  "reg_ok g \<Longrightarrow> distinct (registered ops) \<Longrightarrow> set (registered ops) \<inter> fst ` set (rg_byId g) = {} \<Longrightarrow>
   reg_ok (fold apply_reg ops g)"
proof (induction ops arbitrary: g)
  case (Cons op ops)
  have "reg_ok (apply_reg op g)"
    using Cons.prems by (cases op) (auto simp: reg_ok_register reg_ok_remove reg_ok_method)
  moreover have "distinct (registered ops)"
    "set (registered ops) \<inter> fst ` set (rg_byId (apply_reg op g)) = {}"
    using Cons.prems byId_keys_step [of op g] unfolding registered_cons [of op ops] distinct_append
      set_append by blast+
  ultimately show ?case using Cons.IH by simp
qed simp

lemma lookup_exact:
  assumes "om_wf (rg_byId g)" and "index_exact key (rg_byId g) idx"
  shows "lookup_ids g (om_get idx c) = filter (\<lambda>s. key (sb_params s) = c) (all_subs g)"
proof -
  have "List.map_filter (om_get (rg_byId g)) (map fst es) = map snd es"
    if "set es \<subseteq> set (rg_byId g)" for es
    using that assms(1) by (induction es) (auto simp: map_filter_def om_get_entry)
  from this [of "filter (\<lambda>(i, s). key (sb_params s) = c) (rg_byId g)"]
  have "List.map_filter (om_get (rg_byId g)) (ids_of (om_get idx c))
      = filter (\<lambda>s. key (sb_params s) = c) (all_subs g)"
    using assms(2) by (simp add: index_exact_def all_subs_def filter_map o_def case_prod_unfold)
  then show ?thesis
    by (auto simp: lookup_ids_def ids_of_def map_filter_def split: option.splits)
qed

text \<open>
  The fan-out and session indexes are exact: after any sequence of registrations under
  distinct ids, removals and method calls, \<open>forChannel\<close> and \<open>forSession\<close> return
  precisely the registered subscriptions of that channel or session, each once, in registration
  order, so no subscriber is missed and none is delivered another channel's events.
\<close>

theorem registry_index_exact:
  assumes "distinct (registered ops)"
  defines "g \<equiv> fold apply_reg ops empty_registry"
  shows "forChannel g c = filter (\<lambda>s. sp_channelId (sb_params s) = c) (all_subs g)
    \<and> forSession g c = filter (\<lambda>s. sp_sessionId (sb_params s) = c) (all_subs g)"
proof -
  have "reg_ok empty_registry"
    by (simp add: reg_ok_def empty_registry_def om_wf_def index_exact_def ids_of_def)
  with assms(1) have "reg_ok g"
    unfolding g_def by (intro reg_ok_run) (auto simp: empty_registry_def)
  then show ?thesis by (simp add: reg_ok_def forChannel_def forSession_def lookup_exact)
qed

theorem registry_index_exact_witness:
  "forChannel (fold apply_reg [RegRegister (example_params ''1'' ''c'' 0),
      RegRegister (example_params ''2'' ''d'' 0), RegRegister (example_params ''3'' ''c'' 0),
      RegRemove ''1''] empty_registry) ''c''
   = [new_subscription (example_params ''3'' ''c'' 0)]"
  using registry_index_exact [of "[RegRegister (example_params ''1'' ''c'' 0),
      RegRegister (example_params ''2'' ''d'' 0), RegRegister (example_params ''3'' ''c'' 0),
      RegRemove ''1'']" "''c''"]
  by (simp add: all_subs_def register_def remove_sub_def Let_def example_params_def
      empty_registry_def om_delete_def new_subscription_def)

end
