(* ===== verification/Js_Text.thy ===== *)
theory Js_Text
  imports Torq_Prelude "HOL-Library.Sublist"
begin

text \<open>
  The string operations of JavaScript the modelled code calls: \<open>trim\<close>, \<open>split\<close>,
  \<open>startsWith\<close>, \<open>includes\<close>, \<open>toLowerCase\<close>, \<open>parseInt\<close> in base 16, and the character
  classes of its regular expressions, on strings of Latin-1 characters.
\<close>

abbreviation code :: "char \<Rightarrow> nat" where
  "code c \<equiv> of_char c"

definition is_digit :: "char \<Rightarrow> bool" where
  "is_digit c \<longleftrightarrow> 48 \<le> code c \<and> code c \<le> 57"

definition is_lower :: "char \<Rightarrow> bool" where
  "is_lower c \<longleftrightarrow> 97 \<le> code c \<and> code c \<le> 122"

definition is_upper :: "char \<Rightarrow> bool" where
  "is_upper c \<longleftrightarrow> 65 \<le> code c \<and> code c \<le> 90"

definition is_lower_hex :: "char \<Rightarrow> bool" where
  "is_lower_hex c \<longleftrightarrow> is_digit c \<or> (97 \<le> code c \<and> code c \<le> 102)"

definition is_hex :: "char \<Rightarrow> bool" where
  "is_hex c \<longleftrightarrow> is_lower_hex c \<or> (65 \<le> code c \<and> code c \<le> 70)"

text \<open>The character class \<open>\w\<close>.\<close>

definition is_word :: "char \<Rightarrow> bool" where
  "is_word c \<longleftrightarrow> is_digit c \<or> is_lower c \<or> is_upper c \<or> c = CHR ''_''"

definition is_space :: "char \<Rightarrow> bool" where
  "is_space c \<longleftrightarrow> code c \<in> {9, 10, 11, 12, 13, 32, 160}"

definition lower_char :: "char \<Rightarrow> char" where
  "lower_char c = (if is_upper c \<or> (192 \<le> code c \<and> code c \<le> 222 \<and> code c \<noteq> 215)
     then char_of (code c + 32) else c)"

definition toLowerCase :: "string \<Rightarrow> string" where
  "toLowerCase s = map lower_char s"

definition trim :: "string \<Rightarrow> string" where
  "trim s = rev (dropWhile is_space (rev (dropWhile is_space s)))"

definition startsWith :: "string \<Rightarrow> string \<Rightarrow> bool" where
  "startsWith s p \<longleftrightarrow> prefix p s"

definition endsWith :: "string \<Rightarrow> string \<Rightarrow> bool" where
  "endsWith s p \<longleftrightarrow> suffix p s"

definition includes_sub :: "string \<Rightarrow> string \<Rightarrow> bool" where
  "includes_sub s p \<longleftrightarrow> sublist p s"

subsection \<open>Splitting and joining\<close>

fun split_char :: "char \<Rightarrow> string \<Rightarrow> string list" where
  "split_char c [] = [[]]"
| "split_char c (x # xs) =
     (case split_char c xs of [] \<Rightarrow> [[x]]
      | p # ps \<Rightarrow> if x = c then [] # p # ps else (x # p) # ps)"

fun join_char :: "char \<Rightarrow> string list \<Rightarrow> string" where
  "join_char c [] = []"
| "join_char c [p] = p"
| "join_char c (p # q # ps) = p @ c # join_char c (q # ps)"

lemma split_char_nonempty [simp]: "split_char c s \<noteq> []"
  by (cases s) (auto split: list.splits)

lemma split_char_no: "c \<notin> set p \<Longrightarrow> split_char c p = [p]"
  by (induction p) auto

lemma split_char_append:
  "c \<notin> set p \<Longrightarrow> split_char c (p @ c # s) = p # split_char c s"
  by (induction p) (auto split: list.splits)

lemma split_join_char:
  "ps \<noteq> [] \<Longrightarrow> \<forall>p \<in> set ps. c \<notin> set p \<Longrightarrow> split_char c (join_char c ps) = ps"
  by (induction c ps rule: join_char.induct) (auto simp: split_char_no split_char_append)

lemma join_split_char: "join_char c (split_char c s) = s"
proof (induction s)
  case (Cons x s)
  obtain p ps where "split_char c s = p # ps" by (meson neq_Nil_conv split_char_nonempty)
  with Cons.IH show ?case by (cases ps) auto
qed simp

text \<open>The first occurrence of a separator, and \<open>split\<close> on a separator of several characters.\<close>

fun find_sub :: "string \<Rightarrow> string \<Rightarrow> (string \<times> string) option" where
  "find_sub sep s =
     (if prefix sep s then Some ([], drop (length sep) s)
      else case s of [] \<Rightarrow> None
        | c # cs \<Rightarrow> map_option (\<lambda>(a, b). (c # a, b)) (find_sub sep cs))"

declare find_sub.simps [simp del]

lemma find_sub_Some: "find_sub sep s = Some (a, b) \<Longrightarrow> s = a @ sep @ b"
proof (induction s arbitrary: a)
  case Nil
  then show ?case by (auto simp: find_sub.simps split: if_splits)
next
  case (Cons c s)
  then show ?case
    by (subst (asm) find_sub.simps) (auto split: if_splits simp: prefix_def)
qed

function js_split :: "string \<Rightarrow> string \<Rightarrow> string list" where
  "js_split sep s =
     (if sep = [] then map (\<lambda>c. [c]) s
      else case find_sub sep s of None \<Rightarrow> [s] | Some (a, b) \<Rightarrow> a # js_split sep b)"
  by pat_completeness auto
termination
proof (relation "measure (\<lambda>(sep, s). length s)")
  fix sep s and x :: "string \<times> string" and a b
  assume "\<not> sep = []" "find_sub sep s = Some x" "(a, b) = x"
  then have "s = a @ sep @ b" using find_sub_Some by metis
  with \<open>\<not> sep = []\<close> show "((sep, b), sep, s) \<in> measure (\<lambda>(sep, s). length s)" by simp
qed simp

declare js_split.simps [simp del]

lemma includes_Cons: "includes_sub (c # s) p \<longleftrightarrow> prefix p (c # s) \<or> includes_sub s p"
  by (auto simp: includes_sub_def sublist_Cons_right)

subsection \<open>Hexadecimal values\<close>

definition hex_val :: "char \<Rightarrow> nat" where
  "hex_val c = (if is_digit c then code c - 48
     else if 97 \<le> code c then code c - 87 else code c - 55)"

definition parse_hex :: "string \<Rightarrow> nat" where
  "parse_hex s = num_of 16 (map hex_val s)"

definition parse_dec :: "string \<Rightarrow> nat" where
  "parse_dec s = num_of 10 (map (\<lambda>c. code c - 48) s)"

lemma num_of_append: "num_of b (xs @ ys) = num_of b xs * b ^ length ys + num_of b ys"
proof -
  have "foldl (\<lambda>a d. a * b + d) n ys = n * b ^ length ys + foldl (\<lambda>a d. a * b + d) 0 ys" for n
  proof (induction ys arbitrary: n)
    case (Cons y ys)
    show ?case
      using Cons.IH [of "n * b + y"] Cons.IH [of y] by (simp add: algebra_simps)
  qed simp
  from this [of "num_of b xs"] show ?thesis by (simp add: num_of_def)
qed

lemma num_of_bound: "\<forall>d \<in> set ds. d < b \<Longrightarrow> num_of b ds < b ^ length ds"
proof (induction ds rule: rev_induct)
  case (snoc d ds)
  then have "num_of b ds + 1 \<le> b ^ length ds" by simp
  then have "(num_of b ds + 1) * b \<le> b ^ length ds * b" by (rule mult_right_mono) simp
  with snoc.prems show ?case by (simp add: num_of_append num_of_def [of _ "[d]"] algebra_simps)
qed (simp add: num_of_def)

lemma hex_val_less: "is_hex c \<Longrightarrow> hex_val c < 16"
  by (auto simp: hex_val_def is_hex_def is_lower_hex_def is_digit_def)

lemma digits_of_less: "2 \<le> b \<Longrightarrow> d \<in> set (digits_of b n) \<Longrightarrow> d < b"
proof (induction b n rule: digits_of.induct)
  case (1 b n)
  then show ?case by (subst (asm) (2) digits_of.simps) (auto split: if_splits)
qed

lemma digit_char_hex: "d < 16 \<Longrightarrow> is_lower_hex (digit_char d) \<and> hex_val (digit_char d) = d"
  by (auto simp: digit_char_def is_lower_hex_def is_digit_def hex_val_def of_char_of)

lemma show_hex_chars: "c \<in> set (show_hex n) \<Longrightarrow> is_lower_hex c"
  by (auto simp: show_hex_def dest!: digits_of_less [rotated] intro: digit_char_hex [THEN conjunct1])

lemma parse_show_hex: "parse_hex (show_hex n) = n"
proof -
  have "map (hex_val \<circ> digit_char) (digits_of 16 n) = digits_of 16 n"
    by (rule map_idI) (simp add: digit_char_hex digits_of_less)
  then show ?thesis by (simp add: parse_hex_def show_hex_def num_of_digits_of)
qed

end
