(* ===== verification/Rate_Limit.thy ===== *)
theory Rate_Limit
  imports Js_Text
begin

text \<open>
  The authentication rate limiter of \<open>packages/collab/src/ratelimit.ts\<close>: normalization of
  credential ids and remote addresses, failure buckets with their amortized pruning, the two
  bounded bucket maps with sweep and eviction, \<open>check\<close> and \<open>recordAttempt\<close>. The injected
  clock is the \<open>now\<close> argument, in milliseconds.
\<close>

definition WINDOW_MS :: int where "WINDOW_MS = 5 * 60 * 1000"
definition LOCKOUT_MS :: int where "LOCKOUT_MS = 15 * 60 * 1000"
definition CREDENTIAL_THRESHOLD :: nat where "CREDENTIAL_THRESHOLD = 5"
definition ADDRESS_THRESHOLD :: nat where "ADDRESS_THRESHOLD = 20"
definition MAX_CREDENTIAL_BUCKETS :: nat where "MAX_CREDENTIAL_BUCKETS = 50000"
definition MAX_ADDRESS_BUCKETS :: nat where "MAX_ADDRESS_BUCKETS = 50000"

subsection \<open>Normalization\<close>

definition canonical_uuid :: "string \<Rightarrow> bool" where
  "canonical_uuid s \<longleftrightarrow> map length (split_char (CHR ''-'') s) = [8, 4, 4, 4, 12]
     \<and> (\<forall>p \<in> set (split_char (CHR ''-'') s). list_all is_lower_hex p)"

definition normalizeCredentialId :: "string \<Rightarrow> string option" where
  "normalizeCredentialId s = (if canonical_uuid s then Some s else None)"

definition short_digits :: "string \<Rightarrow> bool" where
  "short_digits p \<longleftrightarrow> 1 \<le> length p \<and> length p \<le> 3 \<and> list_all is_digit p"

definition isIPv4 :: "string \<Rightarrow> bool" where
  "isIPv4 addr \<longleftrightarrow>
     (let parts = split_char (CHR ''.'') addr
      in length parts = 4 \<and> list_all (\<lambda>p. short_digits p \<and> parse_dec p \<le> 255) parts)"

text \<open>The match of \<open>/^::ffff:(d.d.d.d)$/i\<close> with one to three digits per group.\<close>

definition v4Mapped :: "string \<Rightarrow> string option" where
  "v4Mapped addr =
     (let rest = drop 7 addr
      in if toLowerCase (take 7 addr) = ''::ffff:''
           \<and> length (split_char (CHR ''.'') rest) = 4
           \<and> list_all short_digits (split_char (CHR ''.'') rest)
         then Some rest else None)"

definition hextet_ok :: "string \<Rightarrow> bool" where
  "hextet_ok h \<longleftrightarrow> length h \<le> 4 \<and> list_all is_hex h"

definition norm_hextet :: "string \<Rightarrow> string" where
  "norm_hextet h = (if h = [] then ''0'' else show_hex (parse_hex h))"

definition nonempty_split :: "string \<Rightarrow> string list" where
  "nonempty_split s = (if s = [] then [] else split_char (CHR '':'') s)"

definition ipv6Slash64Prefix :: "string \<Rightarrow> string option" where
  "ipv6Slash64Prefix addr =
     (let base = hd (split_char (CHR ''%'') addr);
          pieces = js_split ''::'' base;
          (front, back) =
            (if includes_sub base ''::''
             then (nonempty_split (pieces ! 0), nonempty_split (pieces ! 1))
             else (split_char (CHR '':'') base, []))
      in if 8 < length front + length back then None
         else let hextets = front @ replicate (8 - (length front + length back)) ''0'' @ back
              in if list_all hextet_ok hextets
                 then Some (join_char (CHR '':'') (take 4 (map norm_hextet hextets)))
                 else None)"

definition v4Candidate :: "string \<Rightarrow> string" where
  "v4Candidate addr = (case v4Mapped addr of None \<Rightarrow> addr | Some a \<Rightarrow> a)"

definition normalizeAddress :: "string \<Rightarrow> string option" where
  "normalizeAddress raw =
     (let addr = trim raw
      in if isIPv4 (v4Candidate addr) then Some (v4Candidate addr)
         else if CHR '':'' \<in> set addr then ipv6Slash64Prefix addr
         else None)"

definition isLoopbackAddress :: "string \<Rightarrow> bool" where
  "isLoopbackAddress raw =
     (let addr = trim raw
      in if isIPv4 (v4Candidate addr) then startsWith (v4Candidate addr) ''127.''
         else addr = ''::1'')"

subsection \<open>Buckets\<close>

record Bucket =
  bk_failures :: "int list"
  bk_head :: nat
  bk_lockedUntil :: "int option"

definition newBucket :: Bucket where
  "newBucket = \<lparr>bk_failures = [], bk_head = 0, bk_lockedUntil = None\<rparr>"

definition liveFailureCount :: "Bucket \<Rightarrow> nat" where
  "liveFailureCount b = length (bk_failures b) - bk_head b"

definition isLockedOut :: "Bucket \<Rightarrow> int \<Rightarrow> bool" where
  "isLockedOut b now = (case bk_lockedUntil b of None \<Rightarrow> False | Some u \<Rightarrow> now < u)"

text \<open>The pruning loop: the new head and the visits it counted.\<close>

function advance_head :: "int list \<Rightarrow> int \<Rightarrow> nat \<Rightarrow> nat \<Rightarrow> nat \<times> nat" where
  "advance_head fs windowStart h visits =
     (if h < length fs \<and> fs ! h \<le> windowStart
      then advance_head fs windowStart (h + 1) (visits + 1) else (h, visits))"
  by pat_completeness auto
termination by (relation "measure (\<lambda>(fs, w, h, v). length fs - h)") auto

declare advance_head.simps [simp del]

definition recordFailure :: "Bucket \<Rightarrow> int \<Rightarrow> nat \<Rightarrow> nat \<Rightarrow> Bucket \<times> nat" where
  "recordFailure b now threshold visits =
     (let (h, visits') = advance_head (bk_failures b) (now - WINDOW_MS) (bk_head b) visits;
          (fs, h') = (if 2 * h > length (bk_failures b) then (drop h (bk_failures b), 0)
                      else (bk_failures b, h));
          b1 = b\<lparr>bk_failures := fs @ [now], bk_head := h'\<rparr>;
          b2 = (case bk_lockedUntil b1 of
                  Some u \<Rightarrow> if now \<ge> u then b1\<lparr>bk_lockedUntil := None\<rparr> else b1
                | None \<Rightarrow> b1);
          b3 = (if liveFailureCount b2 \<ge> threshold
                then b2\<lparr>bk_lockedUntil := Some (now + LOCKOUT_MS)\<rparr> else b2)
      in (b3, visits'))"

subsection \<open>The bounded bucket maps\<close>

text \<open>
  The credential and the address map have the same algorithm with their own bound and sweep
  time; a \<open>bucket_map\<close> is one of them.
\<close>

record bucket_map =
  bm_buckets :: "(string, Bucket) omap"
  bm_lastSweepMs :: "int option"

definition hasLiveFailures :: "Bucket \<Rightarrow> int \<Rightarrow> bool" where
  "hasLiveFailures b windowStart \<longleftrightarrow>
     liveFailureCount b > 0 \<and> last (bk_failures b) > windowStart"

text \<open>Phase 2: the first bucket in iteration order that is not locked out, and the visits.\<close>

fun evict_oldest :: "int \<Rightarrow> (string, Bucket) omap \<Rightarrow> nat \<Rightarrow> (string, Bucket) omap \<times> nat" where
  "evict_oldest now [] v = ([], v)"
| "evict_oldest now ((k, b) # m) v =
     (if \<not> isLockedOut b now then (m, v + 1)
      else let (m', v') = evict_oldest now m (v + 1) in ((k, b) # m', v'))"

definition sweep_due :: "bucket_map \<Rightarrow> int \<Rightarrow> bool" where
  "sweep_due bm now = (case bm_lastSweepMs bm of None \<Rightarrow> True | Some t \<Rightarrow> now - t \<ge> WINDOW_MS)"

definition evictBuckets :: "nat \<Rightarrow> int \<Rightarrow> bucket_map \<Rightarrow> nat \<Rightarrow> bucket_map \<times> nat" where
  "evictBuckets cap now bm visits =
     (let (bm1, v1) =
        (if sweep_due bm now then
           (\<lparr>bm_buckets = filter (\<lambda>(k, b). hasLiveFailures b (now - WINDOW_MS) \<or> isLockedOut b now)
               (bm_buckets bm),
             bm_lastSweepMs = Some now\<rparr>, visits + length (bm_buckets bm))
         else (bm, visits))
      in if length (bm_buckets bm1) < cap then (bm1, v1)
         else let (m, v2) = evict_oldest now (bm_buckets bm1) v1
              in (bm1\<lparr>bm_buckets := m\<rparr>, v2))"

definition getOrCreateBucket ::
  "nat \<Rightarrow> string \<Rightarrow> int \<Rightarrow> bucket_map \<Rightarrow> nat \<Rightarrow> bucket_map \<times> Bucket \<times> nat" where
  "getOrCreateBucket cap key now bm visits =
     (case om_get (bm_buckets bm) key of
        Some existing \<Rightarrow>
          (bm\<lparr>bm_buckets := om_set key existing (om_delete key (bm_buckets bm))\<rparr>, existing, visits)
      | None \<Rightarrow>
          let (bm1, v1) = (if length (bm_buckets bm) \<ge> cap then evictBuckets cap now bm visits
                           else (bm, visits))
          in (bm1\<lparr>bm_buckets := om_set key newBucket (bm_buckets bm1)\<rparr>, newBucket, v1))"

subsection \<open>The limiter\<close>

record AuthRateLimiter =
  rl_credential :: bucket_map
  rl_address :: bucket_map
  rl_visits :: nat

definition new_limiter :: AuthRateLimiter where
  "new_limiter = \<lparr>rl_credential = \<lparr>bm_buckets = [], bm_lastSweepMs = None\<rparr>,
     rl_address = \<lparr>bm_buckets = [], bm_lastSweepMs = None\<rparr>, rl_visits = 0\<rparr>"

definition evictCredentialBuckets :: "int \<Rightarrow> AuthRateLimiter \<Rightarrow> AuthRateLimiter" where
  "evictCredentialBuckets now l =
     (let (bm, v) = evictBuckets MAX_CREDENTIAL_BUCKETS now (rl_credential l) (rl_visits l)
      in l\<lparr>rl_credential := bm, rl_visits := v\<rparr>)"

definition evictAddressBuckets :: "int \<Rightarrow> AuthRateLimiter \<Rightarrow> AuthRateLimiter" where
  "evictAddressBuckets now l =
     (let (bm, v) = evictBuckets MAX_ADDRESS_BUCKETS now (rl_address l) (rl_visits l)
      in l\<lparr>rl_address := bm, rl_visits := v\<rparr>)"

text \<open>
  Get-or-create followed by \<open>recordFailure\<close> on the bucket object the map holds, as
  \<open>recordAttempt\<close> does for each counter.
\<close>

definition fail_in_map ::
  "nat \<Rightarrow> nat \<Rightarrow> string \<Rightarrow> int \<Rightarrow> bucket_map \<Rightarrow> nat \<Rightarrow> bucket_map \<times> nat" where
  "fail_in_map cap threshold key now bm visits =
     (let (bm1, b, v1) = getOrCreateBucket cap key now bm visits;
          (b', v2) = recordFailure b now threshold v1
      in (bm1\<lparr>bm_buckets := om_set key b' (bm_buckets bm1)\<rparr>, v2))"

definition failCredential :: "string \<Rightarrow> int \<Rightarrow> AuthRateLimiter \<Rightarrow> AuthRateLimiter" where
  "failCredential key now l =
     (let (bm, v) = fail_in_map MAX_CREDENTIAL_BUCKETS CREDENTIAL_THRESHOLD key now
        (rl_credential l) (rl_visits l)
      in l\<lparr>rl_credential := bm, rl_visits := v\<rparr>)"

definition failAddress :: "string \<Rightarrow> int \<Rightarrow> AuthRateLimiter \<Rightarrow> AuthRateLimiter" where
  "failAddress key now l =
     (let (bm, v) = fail_in_map MAX_ADDRESS_BUCKETS ADDRESS_THRESHOLD key now
        (rl_address l) (rl_visits l)
      in l\<lparr>rl_address := bm, rl_visits := v\<rparr>)"

definition cred_key :: "string option \<Rightarrow> string option" where
  "cred_key raw = (case raw of None \<Rightarrow> None | Some r \<Rightarrow> normalizeCredentialId r)"

definition locked_key :: "bucket_map \<Rightarrow> string option \<Rightarrow> int \<Rightarrow> bool" where
  "locked_key bm key now =
     (case key of None \<Rightarrow> False
      | Some k \<Rightarrow> (case om_get (bm_buckets bm) k of None \<Rightarrow> False | Some b \<Rightarrow> isLockedOut b now))"

definition check :: "string option \<Rightarrow> string \<Rightarrow> int \<Rightarrow> AuthRateLimiter \<Rightarrow> bool" where
  "check rawCredentialId rawAddress now l =
     (locked_key (rl_credential l) (cred_key rawCredentialId) now
      \<or> (\<not> isLoopbackAddress rawAddress
          \<and> locked_key (rl_address l) (normalizeAddress rawAddress) now))"

datatype AuthAttemptOutcome = Success | Failure

definition recordAttempt ::
  "string option \<Rightarrow> string \<Rightarrow> AuthAttemptOutcome \<Rightarrow> int \<Rightarrow> AuthRateLimiter \<Rightarrow> AuthRateLimiter" where
  "recordAttempt rawCredentialId rawAddress outcome now l =
     (if outcome = Success then l
      else let l1 = (case cred_key rawCredentialId of
                       None \<Rightarrow> l | Some k \<Rightarrow> failCredential k now l)
           in if isLoopbackAddress rawAddress then l1
              else case normalizeAddress rawAddress of
                     None \<Rightarrow> l1 | Some k \<Rightarrow> failAddress k now l1)"

subsection \<open>Pruning is the window filter\<close>

definition bucket_wf :: "Bucket \<Rightarrow> int \<Rightarrow> bool" where
  "bucket_wf b now \<longleftrightarrow> sorted (bk_failures b) \<and> bk_head b \<le> length (bk_failures b)
     \<and> (\<forall>t \<in> set (bk_failures b). t \<le> now)"

text \<open>What a bucket stands for: the failures not yet pruned.\<close>

definition live_failures :: "Bucket \<Rightarrow> int list" where
  "live_failures b = drop (bk_head b) (bk_failures b)"

lemma advance_head_spec:
  fixes w :: int and v :: nat
  assumes "sorted fs" and "h \<le> length fs"
  defines "r \<equiv> advance_head fs w h v"
  shows "drop (fst r) fs = filter (\<lambda>t. t > w) (drop h fs) \<and> h \<le> fst r \<and> fst r \<le> length fs
    \<and> snd r = v + (fst r - h)"
  unfolding r_def using assms(1,2)
proof (induction fs w h v rule: advance_head.induct)
  case (1 fs w h v)
  show ?case
  proof (cases "h < length fs \<and> fs ! h \<le> w")
    case True
    then have "drop h fs = fs ! h # drop (Suc h) fs" by (simp add: Cons_nth_drop_Suc)
    moreover from True have "advance_head fs w h v = advance_head fs w (h + 1) (v + 1)"
      by (simp add: advance_head.simps [of fs w h v])
    ultimately show ?thesis using True 1(1) [OF True 1(2)] by auto
  next
    case False
    have "filter (\<lambda>t. t > w) (drop h fs) = drop h fs"
    proof (rule filter_True, rule ballI)
      fix t assume "t \<in> set (drop h fs)"
      then obtain i where "i < length fs - h" "t = fs ! (h + i)"
        using 1(3) by (auto simp: in_set_conv_nth)
      then have i: "h + i < length fs" "t = fs ! (h + i)" by simp_all
      with False have "fs ! h > w" by auto
      with i 1(2) show "t > w" using sorted_nth_mono [of fs h "h + i"] by simp
    qed
    with False 1(3) show ?thesis by (auto simp: advance_head.simps [of fs w h v])
  qed
qed

lemma recordFailure_live:
  fixes threshold :: nat and v :: nat
  assumes "bucket_wf b now"
  defines "b' \<equiv> fst (recordFailure b now threshold v)"
  shows "bucket_wf b' now
    \<and> live_failures b' = filter (\<lambda>t. t > now - WINDOW_MS) (live_failures b) @ [now]
    \<and> bk_lockedUntil b' =
        (if length (live_failures b') \<ge> threshold then Some (now + LOCKOUT_MS)
         else if isLockedOut b now then bk_lockedUntil b else None)"
proof -
  obtain h v' where h: "advance_head (bk_failures b) (now - WINDOW_MS) (bk_head b) v = (h, v')"
    by fastforce
  have s: "drop h (bk_failures b) = filter (\<lambda>t. t > now - WINDOW_MS) (live_failures b)"
      "h \<le> length (bk_failures b)"
    using advance_head_spec [of "bk_failures b" "bk_head b" "now - WINDOW_MS" v] assms(1) h
    by (auto simp: bucket_wf_def live_failures_def)
  have f: "\<exists>fs h'. bk_failures b' = fs @ [now] \<and> bk_head b' = h' \<and> h' \<le> length fs
      \<and> drop h' fs = drop h (bk_failures b) \<and> sorted fs \<and> (\<forall>t \<in> set fs. t \<le> now)"
    using assms(1) s(2)
    by (auto simp: b'_def recordFailure_def h Let_def bucket_wf_def sorted_wrt_drop
        split: option.splits dest: in_set_dropD)
  then obtain fs h' where f: "bk_failures b' = fs @ [now]" "bk_head b' = h'" "h' \<le> length fs"
      "drop h' fs = drop h (bk_failures b)" "sorted fs" "\<forall>t \<in> set fs. t \<le> now" by blast
  have l: "live_failures b' = filter (\<lambda>t. t > now - WINDOW_MS) (live_failures b) @ [now]"
    using f s by (simp add: live_failures_def)
  have w: "bucket_wf b' now" using f by (simp add: bucket_wf_def sorted_append)
  have n: "liveFailureCount b' = length (live_failures b')"
    by (simp add: liveFailureCount_def live_failures_def)
  have "bk_lockedUntil b' =
        (if liveFailureCount b' \<ge> threshold then Some (now + LOCKOUT_MS)
         else if isLockedOut b now then bk_lockedUntil b else None)"
    by (auto simp: b'_def recordFailure_def h Let_def isLockedOut_def liveFailureCount_def
        split: option.splits)
  with l w n show ?thesis by simp
qed

lemma recordFailure_visits:
  fixes threshold :: nat
  assumes "bucket_wf b now"
  shows "snd (recordFailure b now threshold v) + length (live_failures (fst (recordFailure b now threshold v)))
    = v + length (live_failures b) + 1"
proof -
  obtain h v' where h: "advance_head (bk_failures b) (now - WINDOW_MS) (bk_head b) v = (h, v')"
    by fastforce
  have s: "drop h (bk_failures b) = filter (\<lambda>t. t > now - WINDOW_MS) (live_failures b)"
      "bk_head b \<le> h" "h \<le> length (bk_failures b)" "v' = v + (h - bk_head b)"
    using advance_head_spec [of "bk_failures b" "bk_head b" "now - WINDOW_MS" v] assms(1) h
    by (auto simp: bucket_wf_def live_failures_def)
  have "length (filter (\<lambda>t. t > now - WINDOW_MS) (live_failures b)) = length (bk_failures b) - h"
    using s(1) by (metis length_drop)
  moreover have "snd (recordFailure b now threshold v) = v'"
    by (simp add: recordFailure_def h Let_def case_prod_beta)
  ultimately show ?thesis
    using s recordFailure_live [OF assms, of threshold v] by (simp add: live_failures_def)
qed

definition fail_run :: "nat \<Rightarrow> int list \<Rightarrow> Bucket \<times> nat" where
  "fail_run threshold ts = fold (\<lambda>t (b, v). recordFailure b t threshold v) ts (newBucket, 0)"

lemma bucket_wf_mono: "bucket_wf b t \<Longrightarrow> t \<le> t' \<Longrightarrow> bucket_wf b t'"
  by (force simp: bucket_wf_def)

lemma fail_run_snoc:
  "fail_run threshold (ts @ [t]) = recordFailure (fst (fail_run threshold ts)) t threshold
     (snd (fail_run threshold ts))"
  by (simp add: fail_run_def case_prod_beta)

lemma fail_run_live:
  assumes "sorted ts" and "ts \<noteq> []"
  shows "bucket_wf (fst (fail_run threshold ts)) (last ts)
    \<and> live_failures (fst (fail_run threshold ts)) = filter (\<lambda>t. t > last ts - WINDOW_MS) ts
    \<and> snd (fail_run threshold ts) + length (live_failures (fst (fail_run threshold ts))) = length ts"
  using assms
proof (induction ts rule: rev_induct)
  case (snoc t ts)
  let ?b = "fst (fail_run threshold ts)"
  have b: "bucket_wf ?b t \<and> live_failures ?b = filter (\<lambda>x. x > (if ts = [] then t else last ts) - WINDOW_MS) ts
      \<and> snd (fail_run threshold ts) + length (live_failures ?b) = length ts"
  proof (cases "ts = []")
    case True
    then show ?thesis by (simp add: fail_run_def newBucket_def bucket_wf_def live_failures_def)
  next
    case False
    with snoc show ?thesis by (auto simp: sorted_append intro: bucket_wf_mono)
  qed
  have "filter (\<lambda>x. x > t - WINDOW_MS) (filter (\<lambda>x. x > (if ts = [] then t else last ts) - WINDOW_MS) ts)
      = filter (\<lambda>x. x > t - WINDOW_MS) ts"
    using snoc.prems by (auto simp: sorted_append intro!: filter_cong) (smt (verit) last_in_set)+
  with b recordFailure_live [of ?b t threshold "snd (fail_run threshold ts)"]
    recordFailure_visits [of ?b t threshold "snd (fail_run threshold ts)"]
  show ?case unfolding fail_run_snoc by (auto simp: WINDOW_MS_def)
qed simp

text \<open>
  The amortized head-index pruning computes the plain rolling window: after failures at
  non-decreasing times the bucket counts exactly those of the last five minutes, it is locked for
  fifteen minutes from the last one when they reach the threshold, and each failure is visited by
  the pruning at most once (visits plus live entries equals failures).
\<close>

theorem failures_in_window:
  assumes "sorted ts" and "ts \<noteq> []"
  shows "let (b, visits) = fail_run threshold ts;
             window = filter (\<lambda>t. t > last ts - WINDOW_MS) ts
    in live_failures b = window \<and> visits + length window = length ts
       \<and> (threshold \<le> length window \<longrightarrow> bk_lockedUntil b = Some (last ts + LOCKOUT_MS))"
proof -
  obtain us t where ts: "ts = us @ [t]" using assms(2) by (metis rev_exhaust)
  have "bucket_wf (fst (fail_run threshold us)) t"
  proof (cases "us = []")
    case True
    then show ?thesis by (simp add: fail_run_def newBucket_def bucket_wf_def)
  next
    case False
    with assms ts fail_run_live [of us threshold] show ?thesis
      by (auto simp: sorted_append intro: bucket_wf_mono)
  qed
  from recordFailure_live [OF this, of threshold "snd (fail_run threshold us)"]
    fail_run_live [OF assms, of threshold]
  show ?thesis unfolding ts by (auto simp: fail_run_snoc Let_def case_prod_beta WINDOW_MS_def)
qed

theorem failures_in_window_witness:
  "live_failures (fst (fail_run 3 [0, 100000, 350000, 360000])) = [100000, 350000, 360000]
   \<and> bk_lockedUntil (fst (fail_run 3 [0, 100000, 350000, 360000])) = Some 1260000"
  using failures_in_window [of "[0, 100000, 350000, 360000]" 3]
  by (simp add: Let_def case_prod_beta WINDOW_MS_def LOCKOUT_MS_def)

subsection \<open>A lockout holds until it expires\<close>

lemma om_get_filter:
  "om_get m k = Some b \<Longrightarrow> P (k, b) \<Longrightarrow> om_get (filter P m) k = Some b"
  by (induction m) (auto split: if_splits)

lemma evict_oldest_keeps:
  "om_get m k = Some b \<Longrightarrow> isLockedOut b now \<Longrightarrow> om_get (fst (evict_oldest now m v)) k = Some b"
  by (induction now m v rule: evict_oldest.induct) (auto simp: Let_def case_prod_beta split: if_splits)

lemma evictBuckets_keeps:
  assumes "om_get (bm_buckets bm) k = Some b" and "isLockedOut b now"
  shows "om_get (bm_buckets (fst (evictBuckets cap now bm v))) k = Some b"
proof -
  have "om_get (filter (\<lambda>(k, b). hasLiveFailures b (now - WINDOW_MS) \<or> isLockedOut b now)
      (bm_buckets bm)) k = Some b"
    using assms by (intro om_get_filter) simp_all
  with assms show ?thesis
    by (auto simp: evictBuckets_def Let_def case_prod_beta intro!: evict_oldest_keeps)
qed

lemma getOrCreate_keeps:
  assumes "om_get (bm_buckets bm) k = Some b" and "isLockedOut b now"
  shows "om_get (bm_buckets (fst (getOrCreateBucket cap key now bm v))) k = Some b"
  using assms evictBuckets_keeps [OF assms, of cap v]
  by (auto simp: getOrCreateBucket_def Let_def case_prod_beta om_get_set om_get_delete
      split: option.splits)

lemma getOrCreate_bucket:
  "fst (snd (getOrCreateBucket cap key now bm v))
   = (case om_get (bm_buckets bm) key of None \<Rightarrow> newBucket | Some b \<Rightarrow> b)"
  by (auto simp: getOrCreateBucket_def Let_def case_prod_beta split: option.splits)

lemma recordFailure_keeps_lock:
  assumes "bk_lockedUntil b = Some u" and "now < u" and "u \<le> now + LOCKOUT_MS"
  shows "\<exists>u'. bk_lockedUntil (fst (recordFailure b now threshold v)) = Some u' \<and> u \<le> u'"
  using assms by (auto simp: recordFailure_def Let_def case_prod_beta)

definition locked_until :: "bucket_map \<Rightarrow> string \<Rightarrow> int \<Rightarrow> bool" where
  "locked_until bm k u \<longleftrightarrow>
     (\<exists>b u'. om_get (bm_buckets bm) k = Some b \<and> bk_lockedUntil b = Some u' \<and> u \<le> u')"

text \<open>Every lock ends at most one lockout period after the time the map was last used.\<close>

definition locks_bounded :: "bucket_map \<Rightarrow> int \<Rightarrow> bool" where
  "locks_bounded bm now \<longleftrightarrow>
     (\<forall>(k, b) \<in> set (bm_buckets bm). \<forall>u. bk_lockedUntil b = Some u \<longrightarrow> u \<le> now + LOCKOUT_MS)"

lemma fail_in_map_keeps:
  assumes "locked_until bm k u" and "now < u" and "locks_bounded bm now"
  shows "locked_until (fst (fail_in_map cap threshold key now bm v)) k u"
proof -
  from assms(1) obtain b u' where b: "om_get (bm_buckets bm) k = Some b"
      "bk_lockedUntil b = Some u'" "u \<le> u'"
    by (auto simp: locked_until_def)
  have l: "isLockedOut b now" using b(2,3) assms(2) by (simp add: isLockedOut_def)
  have "u' \<le> now + LOCKOUT_MS"
    using assms(3) b(1,2) by (force simp: locks_bounded_def dest: map_of_SomeD)
  from recordFailure_keeps_lock [OF b(2) _ this] b(3) assms(2)
  have "\<exists>u'. bk_lockedUntil (fst (recordFailure b now threshold w)) = Some u' \<and> u \<le> u'" for w
    by force
  with getOrCreate_keeps [OF b(1) l, of cap key v] b(1) show ?thesis
    by (auto simp: locked_until_def fail_in_map_def Let_def case_prod_beta om_get_set
        getOrCreate_bucket b(2,3))
qed

lemma set_om_set: "set (om_set k v m) \<subseteq> insert (k, v) (set m)"
  by (induction k v m rule: om_set.induct) auto

lemma set_evict_oldest: "set (fst (evict_oldest now m v)) \<subseteq> set m"
  by (induction now m v rule: evict_oldest.induct) (auto simp: Let_def case_prod_beta)

lemma set_evictBuckets: "set (bm_buckets (fst (evictBuckets cap now bm v))) \<subseteq> set (bm_buckets bm)"
  by (auto simp: evictBuckets_def Let_def case_prod_beta split: if_splits
      dest!: set_evict_oldest [THEN subsetD])

lemma set_getOrCreate:
  "set (bm_buckets (fst (getOrCreateBucket cap key now bm v)))
   \<subseteq> insert (key, fst (snd (getOrCreateBucket cap key now bm v))) (set (bm_buckets bm))"
  by (auto simp: getOrCreateBucket_def Let_def case_prod_beta om_delete_def
      split: option.splits if_splits
      dest!: set_om_set [THEN subsetD] set_evictBuckets [THEN subsetD])

lemma set_fail_in_map:
  "set (bm_buckets (fst (fail_in_map cap threshold key now bm v)))
   \<subseteq> {(key, fst (recordFailure (case om_get (bm_buckets bm) key of None \<Rightarrow> newBucket | Some b \<Rightarrow> b)
          now threshold (snd (snd (getOrCreateBucket cap key now bm v))))),
       (key, case om_get (bm_buckets bm) key of None \<Rightarrow> newBucket | Some b \<Rightarrow> b)}
     \<union> set (bm_buckets bm)"
  by (auto simp: fail_in_map_def Let_def case_prod_beta getOrCreate_bucket
      dest!: set_om_set [THEN subsetD] set_getOrCreate [THEN subsetD])

lemma recordFailure_bounded:
  assumes "\<forall>u. bk_lockedUntil b = Some u \<longrightarrow> u \<le> now + LOCKOUT_MS"
  shows "\<forall>u. bk_lockedUntil (fst (recordFailure b now threshold v)) = Some u \<longrightarrow> u \<le> now + LOCKOUT_MS"
  using assms by (auto simp: recordFailure_def Let_def case_prod_beta split: option.splits if_splits)

lemma fail_in_map_bounded:
  assumes "locks_bounded bm now"
  shows "locks_bounded (fst (fail_in_map cap threshold key now bm v)) now"
proof -
  let ?b = "case om_get (bm_buckets bm) key of None \<Rightarrow> newBucket | Some b \<Rightarrow> b"
  have b: "\<forall>u. bk_lockedUntil ?b = Some u \<longrightarrow> u \<le> now + LOCKOUT_MS"
    using assms by (force simp: locks_bounded_def newBucket_def split: option.splits dest: map_of_SomeD)
  show ?thesis
    unfolding locks_bounded_def
  proof (intro ballI)
    fix e assume "e \<in> set (bm_buckets (fst (fail_in_map cap threshold key now bm v)))"
    then show "case e of (k, b) \<Rightarrow> \<forall>u. bk_lockedUntil b = Some u \<longrightarrow> u \<le> now + LOCKOUT_MS"
      using set_fail_in_map [of cap threshold key now bm v] b recordFailure_bounded [OF b]
        assms [unfolded locks_bounded_def] by fastforce
  qed
qed

lemma locks_bounded_mono: "locks_bounded bm t \<Longrightarrow> t \<le> t' \<Longrightarrow> locks_bounded bm t'"
  by (force simp: locks_bounded_def)

text \<open>An attempt, with its time; a run of attempts at non-decreasing times.\<close>

record attempt =
  at_credentialId :: "string option"
  at_address :: string
  at_outcome :: AuthAttemptOutcome
  at_time :: int

definition do_attempt :: "attempt \<Rightarrow> AuthRateLimiter \<Rightarrow> AuthRateLimiter" where
  "do_attempt a l = recordAttempt (at_credentialId a) (at_address a) (at_outcome a) (at_time a) l"

lemma do_attempt_credential:
  "rl_credential (do_attempt a l) = rl_credential l
   \<or> (\<exists>k v. cred_key (at_credentialId a) = Some k \<and> rl_credential (do_attempt a l)
        = fst (fail_in_map MAX_CREDENTIAL_BUCKETS CREDENTIAL_THRESHOLD k (at_time a)
            (rl_credential l) v))"
  by (auto simp: do_attempt_def recordAttempt_def failCredential_def failAddress_def Let_def
      case_prod_beta split: option.splits)

lemma attempts_keep_lock:
  "locked_until (rl_credential l) k u \<Longrightarrow> locks_bounded (rl_credential l) t0 \<Longrightarrow>
   sorted (t0 # map at_time as) \<Longrightarrow> \<forall>a \<in> set as. at_time a < u \<Longrightarrow>
   locked_until (rl_credential (fold do_attempt as l)) k u"
proof (induction as arbitrary: l t0)
  case (Cons a as)
  have b: "locks_bounded (rl_credential l) (at_time a)"
    using Cons.prems(2,3) by (auto intro: locks_bounded_mono)
  have "locked_until (rl_credential (do_attempt a l)) k u"
    using do_attempt_credential [of a l] Cons.prems(1,4) b by (auto simp: fail_in_map_keeps)
  moreover have "locks_bounded (rl_credential (do_attempt a l)) (at_time a)"
    using do_attempt_credential [of a l] b by (auto simp: fail_in_map_bounded)
  ultimately show ?case using Cons.prems(3,4) by (auto intro!: Cons.IH [of _ "at_time a"])
qed simp

lemma failCredential_locks:
  assumes "om_get (bm_buckets (rl_credential l)) k = Some b" and "bucket_wf b now"
    and "CREDENTIAL_THRESHOLD \<le> length (filter (\<lambda>t. t > now - WINDOW_MS) (live_failures b)) + 1"
    and "cred_key c = Some k"
  shows "locked_until (rl_credential (recordAttempt c addr Failure now l)) k (now + LOCKOUT_MS)"
proof -
  have "rl_credential (recordAttempt c addr Failure now l)
      = fst (fail_in_map MAX_CREDENTIAL_BUCKETS CREDENTIAL_THRESHOLD k now
          (rl_credential l) (rl_visits l))"
    using assms(4) by (auto simp: recordAttempt_def failCredential_def failAddress_def Let_def
        case_prod_beta split: option.splits)
  moreover have "bk_lockedUntil (fst (recordFailure b now CREDENTIAL_THRESHOLD v))
      = Some (now + LOCKOUT_MS)" for v
    using recordFailure_live [OF assms(2), of CREDENTIAL_THRESHOLD v] assms(3) by simp
  ultimately show ?thesis
    using assms(1) by (simp add: locked_until_def fail_in_map_def Let_def case_prod_beta om_get_set
        getOrCreate_bucket)
qed

text \<open>
  C18. A lockout cannot be flushed: once a credential id's fifth failure within five minutes is
  recorded, every check of that id in the next fifteen minutes reports it locked out, whatever
  attempts (any number of other ids or addresses, forcing any evictions and sweeps) are recorded
  in between.
\<close>

theorem lockout_survives_flood:
  assumes "om_get (bm_buckets (rl_credential l)) k = Some b" and "bucket_wf b now"
    and "locks_bounded (rl_credential l) now"
    and "4 \<le> length (filter (\<lambda>t. t > now - WINDOW_MS) (live_failures b))"
    and "normalizeCredentialId k = Some k"
    and "sorted (now # map at_time as @ [t])" and "t < now + LOCKOUT_MS"
  shows "check (Some k) addr' t (fold do_attempt as (recordAttempt (Some k) addr Failure now l))"
proof -
  let ?l = "recordAttempt (Some k) addr Failure now l"
  have k: "cred_key (Some k) = Some k" using assms(5) by (simp add: cred_key_def)
  have u: "locked_until (rl_credential ?l) k (now + LOCKOUT_MS)"
    using failCredential_locks [OF assms(1,2) _ k] assms(4) by (simp add: CREDENTIAL_THRESHOLD_def)
  have "locks_bounded (rl_credential ?l) now"
    using do_attempt_credential [of "\<lparr>at_credentialId = Some k, at_address = addr,
        at_outcome = Failure, at_time = now\<rparr>" l] assms(3)
    by (auto simp: do_attempt_def fail_in_map_bounded)
  from attempts_keep_lock [OF u this] assms(6,7)
  have "locked_until (rl_credential (fold do_attempt as ?l)) k (now + LOCKOUT_MS)"
    by (force simp: sorted_append)
  then show ?thesis
    using assms(7) k by (auto simp: check_def locked_key_def locked_until_def isLockedOut_def)
qed

definition example_id :: string where
  "example_id = ''00000000-0000-0000-0000-00000000000a''"

definition example_limiter :: AuthRateLimiter where
  "example_limiter = \<lparr>rl_credential = \<lparr>bm_buckets = [(example_id,
      \<lparr>bk_failures = [0, 1, 2, 3], bk_head = 0, bk_lockedUntil = None\<rparr>)], bm_lastSweepMs = None\<rparr>,
    rl_address = \<lparr>bm_buckets = [], bm_lastSweepMs = None\<rparr>, rl_visits = 0\<rparr>"

theorem lockout_survives_flood_witness:
  "check (Some example_id) ''10.0.0.1'' 900003
     (fold do_attempt [\<lparr>at_credentialId = None, at_address = ''::1'', at_outcome = Failure, at_time = 7\<rparr>]
       (recordAttempt (Some example_id) ''10.0.0.2'' Failure 4 example_limiter))"
proof (rule lockout_survives_flood)
  show "om_get (bm_buckets (rl_credential example_limiter)) example_id
      = Some \<lparr>bk_failures = [0, 1, 2, 3], bk_head = 0, bk_lockedUntil = None\<rparr>"
    by (simp add: example_limiter_def)
  show "normalizeCredentialId example_id = Some example_id"
    by code_simp
qed (simp_all add: bucket_wf_def locks_bounded_def example_limiter_def live_failures_def
    WINDOW_MS_def LOCKOUT_MS_def)

subsection \<open>Which counters an attempt touches\<close>

lemma do_attempt_address:
  "rl_address (do_attempt a l) = rl_address l
   \<or> (\<not> isLoopbackAddress (at_address a)
      \<and> (\<exists>k v. normalizeAddress (at_address a) = Some k \<and> rl_address (do_attempt a l)
        = fst (fail_in_map MAX_ADDRESS_BUCKETS ADDRESS_THRESHOLD k (at_time a) (rl_address l) v)))"
  by (auto simp: do_attempt_def recordAttempt_def failCredential_def failAddress_def Let_def
      case_prod_beta split: option.splits)

lemma keys_fail_in_map:
  "set (om_keys (bm_buckets (fst (fail_in_map cap threshold key now bm v))))
   \<subseteq> insert key (set (om_keys (bm_buckets bm)))"
  using set_fail_in_map [of cap threshold key now bm v] by fastforce

lemma canonical_keys_run:
  "\<forall>k \<in> set (om_keys (bm_buckets (rl_credential l))). canonical_uuid k \<Longrightarrow>
   \<forall>k \<in> set (om_keys (bm_buckets (rl_credential (fold do_attempt as l)))). canonical_uuid k"
proof (induction as arbitrary: l)
  case (Cons a as)
  have "\<forall>k \<in> set (om_keys (bm_buckets (rl_credential (do_attempt a l)))). canonical_uuid k"
    using do_attempt_credential [of a l]
  proof
    assume "\<exists>k v. cred_key (at_credentialId a) = Some k \<and> rl_credential (do_attempt a l)
        = fst (fail_in_map MAX_CREDENTIAL_BUCKETS CREDENTIAL_THRESHOLD k (at_time a)
            (rl_credential l) v)"
    then obtain k v where k: "cred_key (at_credentialId a) = Some k"
        "rl_credential (do_attempt a l) = fst (fail_in_map MAX_CREDENTIAL_BUCKETS
           CREDENTIAL_THRESHOLD k (at_time a) (rl_credential l) v)" by blast
    have "canonical_uuid k"
      using k(1) by (auto simp: cred_key_def normalizeCredentialId_def split: option.splits if_splits)
    show ?thesis unfolding k(2)
    proof
      fix x assume "x \<in> set (om_keys (bm_buckets (fst (fail_in_map MAX_CREDENTIAL_BUCKETS
        CREDENTIAL_THRESHOLD k (at_time a) (rl_credential l) v))))"
      with keys_fail_in_map have "x \<in> insert k (set (om_keys (bm_buckets (rl_credential l))))"
        by (rule subsetD)
      then show "canonical_uuid x" using Cons.prems \<open>canonical_uuid k\<close> by (elim insertE) auto
    qed
  qed (use Cons.prems in simp)
  from Cons.IH [OF this] show ?case by (simp only: fold_Cons o_apply)
qed simp

text \<open>
  The counters' scope: whatever was attempted before, the credential map holds canonical
  UUIDs only; a success changes nothing; a malformed or missing credential id leaves the
  credential map alone; a loopback or unparseable address leaves the address map alone.
\<close>

theorem attempt_scope:
  "let l = fold do_attempt as new_limiter; l' = do_attempt a l in
    (\<forall>k \<in> set (om_keys (bm_buckets (rl_credential l'))). canonical_uuid k)
    \<and> (at_outcome a \<noteq> Success \<or> l' = l)
    \<and> (cred_key (at_credentialId a) \<noteq> None \<or> rl_credential l' = rl_credential l)
    \<and> ((\<not> isLoopbackAddress (at_address a) \<and> normalizeAddress (at_address a) \<noteq> None)
        \<or> rl_address l' = rl_address l)"
proof -
  let ?l = "fold do_attempt as new_limiter"
  have "\<forall>k \<in> set (om_keys (bm_buckets (rl_credential (do_attempt a ?l)))). canonical_uuid k"
    using canonical_keys_run [of new_limiter "as @ [a]"] by (simp add: new_limiter_def)
  moreover have "at_outcome a \<noteq> Success \<or> do_attempt a ?l = ?l"
    by (simp add: do_attempt_def recordAttempt_def)
  moreover have "cred_key (at_credentialId a) \<noteq> None \<or> rl_credential (do_attempt a ?l) = rl_credential ?l"
    using do_attempt_credential [of a ?l] by blast
  moreover have "(\<not> isLoopbackAddress (at_address a) \<and> normalizeAddress (at_address a) \<noteq> None)
      \<or> rl_address (do_attempt a ?l) = rl_address ?l"
    using do_attempt_address [of a ?l] by blast
  ultimately show ?thesis by (simp only: Let_def)
qed

theorem attempt_scope_witness:
  "let a = \<lparr>at_credentialId = Some ''garbage'', at_address = ''127.0.0.1'', at_outcome = Failure,
             at_time = 1\<rparr>; l' = do_attempt a new_limiter in
    rl_credential l' = rl_credential new_limiter \<and> rl_address l' = rl_address new_limiter"
proof -
  have "cred_key (Some ''garbage'') = None" "isLoopbackAddress ''127.0.0.1''" by code_simp+
  then show ?thesis
    using attempt_scope [of "[]" "\<lparr>at_credentialId = Some ''garbage'', at_address = ''127.0.0.1'',
        at_outcome = Failure, at_time = 1\<rparr>"]
    by (simp add: Let_def)
qed

subsection \<open>The maps stay bounded\<close>

lemma om_wf_evict_oldest: "om_wf m \<Longrightarrow> om_wf (fst (evict_oldest now m v))"
proof (induction now m v rule: evict_oldest.induct)
  case (2 now k b m v)
  have "fst ` set (fst (evict_oldest now m (v + 1))) \<subseteq> fst ` set m"
    using set_evict_oldest by (rule image_mono)
  with 2 show ?case by (auto simp: om_wf_def Let_def case_prod_beta)
qed (simp add: om_wf_def)

lemma om_wf_evictBuckets:
  "om_wf (bm_buckets bm) \<Longrightarrow> om_wf (bm_buckets (fst (evictBuckets cap now bm v)))"
  by (auto simp: evictBuckets_def Let_def case_prod_beta om_wf_filter om_wf_evict_oldest)

lemma om_wf_fail_in_map:
  "om_wf (bm_buckets bm) \<Longrightarrow> om_wf (bm_buckets (fst (fail_in_map cap threshold key now bm v)))"
  by (auto simp: fail_in_map_def getOrCreateBucket_def Let_def case_prod_beta om_wf_set
      om_wf_delete om_wf_evictBuckets split: option.splits)

lemma length_evict_oldest:
  "length (fst (evict_oldest now m v))
   = (if \<forall>(k, b) \<in> set m. isLockedOut b now then length m else length m - 1)"
  by (induction now m v rule: evict_oldest.induct)
     (auto simp: Let_def case_prod_beta dest!: length_pos_if_in_set)

lemma length_om_touch:
  assumes "om_wf m" and "om_get m k = Some b"
  shows "length (om_set k b (om_delete k m)) = length m"
proof -
  have "length (om_delete k m) + 1 = length m"
    using assms
  proof (induction m)
    case (Cons e m)
    have "om_delete k m = m" if "k \<notin> fst ` set m"
      using that by (force simp: om_delete_def filter_id_conv)
    with Cons show ?case by (cases "fst e = k") (auto simp: om_delete_def om_wf_def)
  qed simp
  moreover have "k \<notin> fst ` set (om_delete k m)" by (auto simp: om_delete_def)
  ultimately show ?thesis by (simp add: length_om_set)
qed

lemma length_evictBuckets:
  assumes "\<exists>(k, b) \<in> set (bm_buckets bm). \<not> isLockedOut b now"
  shows "length (bm_buckets (fst (evictBuckets cap now bm v))) < max cap (length (bm_buckets bm))"
proof -
  let ?f = "filter (\<lambda>(k, b). hasLiveFailures b (now - WINDOW_MS) \<or> isLockedOut b now) (bm_buckets bm)"
  have f: "length ?f < length (bm_buckets bm)" if "\<forall>(k, b) \<in> set ?f. isLockedOut b now"
  proof -
    from assms obtain k b where "(k, b) \<in> set (bm_buckets bm)" "\<not> isLockedOut b now" by auto
    with that show ?thesis by (intro length_filter_less [of "(k, b)"]) auto
  qed
  have "0 < length (bm_buckets bm)" using assms by auto
  then have step: "length (fst (evict_oldest now m w)) < max cap (length (bm_buckets bm))"
    if "length m < length (bm_buckets bm) \<or> (length m = length (bm_buckets bm)
      \<and> (\<exists>(k, b) \<in> set m. \<not> isLockedOut b now))" for m w
    using that by (auto simp: length_evict_oldest less_max_iff_disj)
  show ?thesis
  proof (cases "sweep_due bm now")
    case True
    have "length ?f < length (bm_buckets bm) \<or> (length ?f = length (bm_buckets bm)
      \<and> (\<exists>(k, b) \<in> set ?f. \<not> isLockedOut b now))"
    proof (cases "\<forall>(k, b) \<in> set ?f. isLockedOut b now")
      case True
      then show ?thesis using f by blast
    next
      case False
      then have "\<exists>(k, b) \<in> set ?f. \<not> isLockedOut b now" by blast
      then show ?thesis using le_neq_implies_less [OF length_filter_le] by blast
    qed
    from step [OF this] True show ?thesis
      by (auto simp: evictBuckets_def Let_def case_prod_beta)
  next
    case False
    from step [of "bm_buckets bm"] assms False show ?thesis
      by (auto simp: evictBuckets_def Let_def case_prod_beta)
  qed
qed

lemma length_fail_in_map:
  assumes "om_wf (bm_buckets bm)" and "0 < cap"
  shows "length (bm_buckets (fst (fail_in_map cap threshold key now bm v)))
      \<le> max cap (length (bm_buckets bm))
    \<or> (\<forall>(k, b) \<in> set (bm_buckets bm). isLockedOut b now)"
proof (cases "om_get (bm_buckets bm) key")
  case None
  have g: "length (bm_buckets (fst (getOrCreateBucket cap key now bm v))) \<le> max cap (length (bm_buckets bm))"
    if "\<exists>(k, b) \<in> set (bm_buckets bm). \<not> isLockedOut b now"
    using None length_evictBuckets [OF that, of cap v]
    by (auto simp: getOrCreateBucket_def Let_def case_prod_beta length_om_set)
  have "key \<in> fst ` set (bm_buckets (fst (getOrCreateBucket cap key now bm v)))"
    using None by (auto simp: getOrCreateBucket_def Let_def case_prod_beta keys_om_set
        simp flip: set_map)
  with g show ?thesis by (auto simp: fail_in_map_def Let_def case_prod_beta length_om_set)
next
  case (Some b)
  have "key \<in> fst ` set (om_set key b (om_delete key (bm_buckets bm)))"
    by (simp add: keys_om_set flip: set_map)
  with Some length_om_touch [OF assms(1) Some] show ?thesis
    by (simp add: fail_in_map_def getOrCreateBucket_def Let_def case_prod_beta length_om_set)
qed

lemma om_wf_run:
  "om_wf (bm_buckets (rl_credential l)) \<and> om_wf (bm_buckets (rl_address l)) \<Longrightarrow>
   om_wf (bm_buckets (rl_credential (fold do_attempt as l)))
   \<and> om_wf (bm_buckets (rl_address (fold do_attempt as l)))"
proof (induction as arbitrary: l)
  case (Cons a as)
  have "om_wf (bm_buckets (rl_credential (do_attempt a l)))
      \<and> om_wf (bm_buckets (rl_address (do_attempt a l)))"
    using do_attempt_credential [of a l] do_attempt_address [of a l] Cons.prems
    by (auto simp: om_wf_fail_in_map)
  with Cons.IH show ?case by simp
qed simp

text \<open>
  Memory stays bounded: whatever was attempted before, an attempt never takes a bucket map
  past its bound of 50,000 (or past its present size) unless every bucket already in it is
  locked out at that moment.
\<close>

theorem buckets_bounded:
  "let l = fold do_attempt as new_limiter; l' = do_attempt a l;
       count = (\<lambda>bm. length (bm_buckets bm));
       all_locked = (\<lambda>bm. list_all (\<lambda>(k, b). isLockedOut b (at_time a)) (bm_buckets bm)) in
    (count (rl_credential l') \<le> max MAX_CREDENTIAL_BUCKETS (count (rl_credential l))
      \<or> all_locked (rl_credential l))
    \<and> (count (rl_address l') \<le> max MAX_ADDRESS_BUCKETS (count (rl_address l))
      \<or> all_locked (rl_address l))"
proof -
  let ?l = "fold do_attempt as new_limiter"
  have wf: "om_wf (bm_buckets (rl_credential ?l)) \<and> om_wf (bm_buckets (rl_address ?l))"
    by (rule om_wf_run) (simp add: new_limiter_def om_wf_def)
  have cap: "0 < MAX_CREDENTIAL_BUCKETS" "0 < MAX_ADDRESS_BUCKETS"
    by (simp_all add: MAX_CREDENTIAL_BUCKETS_def MAX_ADDRESS_BUCKETS_def)
  have "length (bm_buckets (rl_credential (do_attempt a ?l)))
        \<le> max MAX_CREDENTIAL_BUCKETS (length (bm_buckets (rl_credential ?l)))
      \<or> list_all (\<lambda>(k, b). isLockedOut b (at_time a)) (bm_buckets (rl_credential ?l))"
    using do_attempt_credential [of a ?l] length_fail_in_map [OF conjunct1 [OF wf] cap(1)]
    by (fastforce simp: list_all_iff)
  moreover have "length (bm_buckets (rl_address (do_attempt a ?l)))
        \<le> max MAX_ADDRESS_BUCKETS (length (bm_buckets (rl_address ?l)))
      \<or> list_all (\<lambda>(k, b). isLockedOut b (at_time a)) (bm_buckets (rl_address ?l))"
    using do_attempt_address [of a ?l] length_fail_in_map [OF conjunct2 [OF wf] cap(2)]
    by (fastforce simp: list_all_iff)
  ultimately show ?thesis by (simp only: Let_def)
qed

subsection \<open>The cost of eviction\<close>

definition fail_keys ::
  "nat \<Rightarrow> nat \<Rightarrow> int \<Rightarrow> string list \<Rightarrow> bucket_map \<times> nat \<Rightarrow> bucket_map \<times> nat" where
  "fail_keys cap threshold now ks s =
     fold (\<lambda>k (bm, v). fail_in_map cap threshold k now bm v) ks s"

lemma evict_oldest_prefix:
  "\<forall>(k, b) \<in> set m. isLockedOut b now \<Longrightarrow> \<not> isLockedOut b0 now \<Longrightarrow>
   evict_oldest now (m @ [(k0, b0)]) v = (m, v + length m + 1)"
  by (induction m arbitrary: v) auto

lemma recordFailure_new:
  "2 \<le> threshold \<Longrightarrow> recordFailure newBucket now threshold v
     = (\<lparr>bk_failures = [now], bk_head = 0, bk_lockedUntil = None\<rparr>, v)"
  by (simp add: recordFailure_def newBucket_def advance_head.simps [of "[]"] liveFailureCount_def)

lemma fail_new_at_capacity:
  assumes "bm_buckets bm = m @ [(k0, b0)]" and "\<forall>(k, b) \<in> set m. isLockedOut b now"
    and "\<not> isLockedOut b0 now" and "\<not> sweep_due bm now" and "2 \<le> threshold"
    and "k \<notin> set (om_keys m)" and "k \<noteq> k0"
  shows "fail_in_map (length m + 1) threshold k now bm v
    = (bm\<lparr>bm_buckets := m @ [(k, \<lparr>bk_failures = [now], bk_head = 0, bk_lockedUntil = None\<rparr>)]\<rparr>,
       v + length m + 1)"
proof -
  have n: "om_get (m @ [(k0, b0)]) k = None" "om_get m k = None"
    using assms(6,7) by (auto simp: map_of_eq_None_iff)
  have set_last: "om_set k b' (m @ [(k, b)]) = m @ [(k, b')]" for b b'
    using assms(6) by (induction m) auto
  have "evictBuckets (length m + 1) now bm v = (bm\<lparr>bm_buckets := m\<rparr>, v + length m + 1)"
    using assms(1,4) by (simp add: evictBuckets_def evict_oldest_prefix [OF assms(2,3)])
  then have "getOrCreateBucket (length m + 1) k now bm v
      = (bm\<lparr>bm_buckets := m @ [(k, newBucket)]\<rparr>, newBucket, v + length m + 1)"
    using n(2) assms(1,7) by (simp add: getOrCreateBucket_def om_set_new map_add_def)
  then show ?thesis by (simp add: fail_in_map_def recordFailure_new assms(5) set_last)
qed

text \<open>
  Between sweeps, eviction is not constant time: with the map at its bound and all buckets
  but the newest locked out, every insertion of a fresh key walks over all the locked buckets
  again, so \<open>n\<close> insertions visit \<open>n\<close> times the bound, not at most \<open>n\<close>.
\<close>

theorem eviction_rescans_locked_prefix:
  assumes "bm_buckets bm = m @ [(k0, b0)]" and "\<forall>(k, b) \<in> set m. isLockedOut b now"
    and "\<not> isLockedOut b0 now" and "\<not> sweep_due bm now" and "2 \<le> threshold"
    and "distinct (k0 # ks)" and "set ks \<inter> set (om_keys m) = {}"
  shows "snd (fail_keys (length m + 1) threshold now ks (bm, v)) = v + length ks * (length m + 1)"
  using assms(1,3,4,6,7)
proof (induction ks arbitrary: bm k0 b0 v)
  case (Cons k ks)
  let ?b = "\<lparr>bk_failures = [now], bk_head = 0, bk_lockedUntil = None\<rparr>"
  let ?bm = "bm\<lparr>bm_buckets := m @ [(k, ?b)]\<rparr>"
  have "fail_in_map (length m + 1) threshold k now bm v = (?bm, v + length m + 1)"
    using fail_new_at_capacity [OF Cons.prems(1) assms(2) Cons.prems(2,3) assms(5), of k v]
      Cons.prems by auto
  moreover have "snd (fail_keys (length m + 1) threshold now ks (?bm, v + length m + 1))
      = v + length m + 1 + length ks * (length m + 1)"
    using Cons.prems by (intro Cons.IH [of ?bm k ?b]) (auto simp: isLockedOut_def sweep_due_def)
  ultimately show ?case by (simp add: fail_keys_def)
qed (simp add: fail_keys_def)

theorem eviction_rescans_locked_prefix_witness:
  "snd (fail_keys 3 5 10 [''x'', ''y'']
     (\<lparr>bm_buckets = [(''a'', \<lparr>bk_failures = [1], bk_head = 0, bk_lockedUntil = Some 99\<rparr>),
         (''b'', \<lparr>bk_failures = [1], bk_head = 0, bk_lockedUntil = Some 99\<rparr>), (''c'', newBucket)],
       bm_lastSweepMs = Some 5\<rparr>, 0)) = 6"
  using eviction_rescans_locked_prefix [of
      "\<lparr>bm_buckets = [(''a'', \<lparr>bk_failures = [1], bk_head = 0, bk_lockedUntil = Some 99\<rparr>),
         (''b'', \<lparr>bk_failures = [1], bk_head = 0, bk_lockedUntil = Some 99\<rparr>), (''c'', newBucket)],
       bm_lastSweepMs = Some 5\<rparr>"
      "[(''a'', \<lparr>bk_failures = [1], bk_head = 0, bk_lockedUntil = Some 99\<rparr>),
         (''b'', \<lparr>bk_failures = [1], bk_head = 0, bk_lockedUntil = Some 99\<rparr>)]"
      "''c''" newBucket 10 5 "[''x'', ''y'']" 0]
  by (simp add: isLockedOut_def newBucket_def sweep_due_def WINDOW_MS_def numeral_3_eq_3)

subsection \<open>IPv6 addresses are grouped by their /64\<close>

lemma hex_not_colon: "is_hex c \<Longrightarrow> c \<noteq> CHR '':'' \<and> c \<noteq> CHR ''%'' \<and> \<not> is_space c"
  by (auto simp: is_hex_def is_lower_hex_def is_digit_def is_space_def)

lemma lower_hex_not_colon: "is_hex c \<Longrightarrow> code (lower_char c) \<noteq> 58"
  by (auto simp: lower_char_def is_upper_def is_hex_def is_lower_hex_def is_digit_def of_char_of)

lemma no_double_colon:
  "\<forall>p \<in> set ps. p \<noteq> [] \<and> CHR '':'' \<notin> set p \<Longrightarrow> \<not> sublist ''::'' (join_char (CHR '':'') ps)"
proof (induction "CHR '':''" ps rule: join_char.induct)
  case (2 p)
  then show ?case by (auto simp: sublist_def)
next
  case (3 p q ps)
  have skip: "sublist ''::'' (xs @ ys) \<Longrightarrow> CHR '':'' \<notin> set xs \<Longrightarrow> sublist ''::'' ys" for xs ys
    by (induction xs) (auto simp: sublist_Cons_right)
  have "\<not> prefix '':'' (join_char CHR '':'' (q # ps))"
    using 3(2) by (cases q; cases ps) auto
  with 3 skip [of p "CHR '':'' # join_char CHR '':'' (q # ps)"] show ?case
    by (auto simp: sublist_Cons_right)
qed (simp add: sublist_def)

lemma colon_not_ipv4: "CHR '':'' \<in> set a \<Longrightarrow> \<not> isIPv4 a"
proof
  assume a: "CHR '':'' \<in> set a" "isIPv4 a"
  have "set (join_char c ps) \<subseteq> insert c (\<Union> (set ` set ps))" for c :: char and ps
    by (induction c ps rule: join_char.induct) auto
  from this [of "CHR ''.''" "split_char (CHR ''.'') a"] a(1)
  obtain p where "p \<in> set (split_char (CHR ''.'') a)" "CHR '':'' \<in> set p"
    by (auto simp: join_split_char)
  with a(2) have "is_digit (CHR '':'')"
    by (auto simp: isIPv4_def Let_def list_all_iff short_digits_def)
  then show False by (simp add: is_digit_def)
qed

lemma join_char_ends:
  assumes "ps \<noteq> []" and "\<forall>p \<in> set ps. p \<noteq> []"
  shows "join_char c ps \<noteq> [] \<and> hd (join_char c ps) = hd (hd ps)
    \<and> last (join_char c ps) = last (last ps)"
  using assms by (induction c ps rule: join_char.induct) auto

text \<open>
  One bucket per /64: a fully written IPv6 address is keyed by the values of its first four
  hextets, so neither the last four hextets nor the case or the leading zeros of the first four
  give an attacker another bucket.
\<close>

theorem slash64_groups:
  assumes "length hs = 8" and "\<forall>h \<in> set hs. h \<noteq> [] \<and> hextet_ok h"
  shows "normalizeAddress (join_char (CHR '':'') hs)
    = Some (join_char (CHR '':'') (map (show_hex \<circ> parse_hex) (take 4 hs)))"
proof -
  let ?a = "join_char (CHR '':'') hs"
  have hex: "\<forall>h \<in> set hs. \<forall>c \<in> set h. is_hex c"
    using assms(2) by (auto simp: hextet_ok_def list_all_iff)
  have ne: "hs \<noteq> []" "\<forall>h \<in> set hs. h \<noteq> []" using assms by auto
  have ends: "?a \<noteq> []" "hd ?a = hd (hd hs)" "last ?a = last (last hs)"
    using join_char_ends [OF ne] by auto
  have hd: "is_hex (hd ?a)" and la: "is_hex (last ?a)"
    using hex ne ends by (metis hd_in_set, metis last_in_set)
  have "\<not> is_space (hd ?a)" and "\<not> is_space (hd (rev ?a))"
    using hex_not_colon [OF hd] hex_not_colon [OF la] ends(1) by (auto simp: hd_rev)
  then have "dropWhile is_space ?a = ?a" "dropWhile is_space (rev ?a) = rev ?a"
    by (simp_all add: dropWhile_eq_self_iff)
  then have t: "trim ?a = ?a" by (simp add: trim_def)
  obtain h1 h2 hs' where hs: "hs = h1 # h2 # hs'"
    using assms(1) by (cases hs; cases "tl hs") auto
  have colon: "CHR '':'' \<in> set ?a" by (simp add: hs)
  obtain c cs where c: "?a = c # cs" "is_hex c" using ends(1) hd by (cases ?a) auto
  have "toLowerCase (take 7 ?a) \<noteq> ''::ffff:''"
    using lower_hex_not_colon [OF c(2)] by (auto simp: c(1) toLowerCase_def)
  then have "v4Mapped ?a = None" by (simp add: v4Mapped_def Let_def)
  then have v4: "v4Candidate ?a = ?a" by (simp add: v4Candidate_def)
  have in_join: "c \<in> set (join_char d ps) \<Longrightarrow> c = d \<or> (\<exists>p \<in> set ps. c \<in> set p)" for c d :: char and ps
    by (induction d ps rule: join_char.induct) auto
  have "CHR ''%'' \<notin> set ?a"
    using in_join [of "CHR ''%''" "CHR '':''" hs] hex hex_not_colon by auto
  then have z: "split_char (CHR ''%'') ?a = [?a]" by (rule split_char_no)
  have nc: "\<forall>h \<in> set hs. CHR '':'' \<notin> set h" using hex hex_not_colon by blast
  have d: "\<not> includes_sub ?a ''::''"
    using no_double_colon [of hs] ne nc by (simp add: includes_sub_def)
  have sp: "split_char (CHR '':'') ?a = hs" by (rule split_join_char [OF ne(1) nc])
  have ok: "list_all hextet_ok hs" using assms(2) by (simp add: list_all_iff)
  have n: "map norm_hextet (take 4 hs) = map (show_hex \<circ> parse_hex) (take 4 hs)"
    using ne(2) by (auto simp: norm_hextet_def dest: in_set_takeD)
  have "ipv6Slash64Prefix ?a = Some (join_char (CHR '':'') (map norm_hextet (take 4 hs)))"
    using assms(1) ok by (simp add: ipv6Slash64Prefix_def z d sp Let_def take_map)
  with t v4 colon colon_not_ipv4 [OF colon] show ?thesis
    unfolding n [symmetric] by (simp add: normalizeAddress_def Let_def)
qed

theorem slash64_groups_witness:
  "normalizeAddress ''2001:0DB8:0:1:a:b:c:d'' = normalizeAddress ''2001:db8:0:1:1:2:3:4''"
proof -
  have "normalizeAddress (join_char (CHR '':'') [''2001'', ''0DB8'', ''0'', ''1'', ''a'', ''b'', ''c'', ''d''])
      = Some (join_char (CHR '':'') (map (show_hex \<circ> parse_hex) (take 4
          [''2001'', ''0DB8'', ''0'', ''1'', ''a'', ''b'', ''c'', ''d''])))"
    by (rule slash64_groups) code_simp+
  moreover have "normalizeAddress (join_char (CHR '':'') [''2001'', ''db8'', ''0'', ''1'', ''1'', ''2'', ''3'', ''4''])
      = Some (join_char (CHR '':'') (map (show_hex \<circ> parse_hex) (take 4
          [''2001'', ''db8'', ''0'', ''1'', ''1'', ''2'', ''3'', ''4''])))"
    by (rule slash64_groups) code_simp+
  moreover have "map (show_hex \<circ> parse_hex) [''2001'', ''0DB8'', ''0'', ''1'']
      = map (show_hex \<circ> parse_hex) [''2001'', ''db8'', ''0'', ''1'']"
    by (simp add: parse_hex_def num_of_def hex_val_def is_digit_def)
  ultimately show ?thesis by simp
qed

end
