(* ===== verification/Router.thy ===== *)
theory Router
  imports Js_Text Complex_Main
begin

text \<open>
  The tier router of \<open>packages/router/src/engine.ts\<close> over the request types of
  \<open>packages/contracts/src/routing.ts\<close>: the two intent regular expressions as values of a small
  regular-expression type with the matching of \<open>RegExp.test\<close>, the rules in their order, and the
  warm lease of the local model with its timer. The context size and the confidence of the classifier
  are reals, the scores naturals. The sentence for people (\<open>humanReason\<close>) is left out; of the texts that
  explain a rejected tier the one of the low-confidence rule is cut before its dash, and no property
  depends on any of them.
\<close>

subsection \<open>Regular expressions\<close>

datatype char_class = AnyChar | Space | HyphenSpace

fun in_class :: "char_class \<Rightarrow> char \<Rightarrow> bool" where
  "in_class AnyChar c = (code c \<noteq> 10 \<and> code c \<noteq> 13)"
| "in_class Space c = is_space c"
| "in_class HyphenSpace c = (c = CHR ''-'' \<or> c = CHR '' '')"

text \<open>\<open>Word\<close> matches its text ignoring case, \<open>Many k lo hi\<close> is a class repeated.\<close>

datatype regex =
    Word string
  | Boundary
  | Many char_class nat "nat option"
  | Seq regex regex
  | Alt regex regex

definition word_at :: "string \<Rightarrow> nat \<Rightarrow> bool" where
  "word_at s i \<longleftrightarrow> i < length s \<and> is_word (s ! i)"

definition boundary_at :: "string \<Rightarrow> nat \<Rightarrow> bool" where
  "boundary_at s i \<longleftrightarrow> (0 < i \<and> word_at s (i - 1)) \<noteq> word_at s i"

definition run_length :: "char_class \<Rightarrow> string \<Rightarrow> nat \<Rightarrow> nat" where
  "run_length k s i = length (takeWhile (in_class k) (drop i s))"

fun ends :: "regex \<Rightarrow> string \<Rightarrow> nat \<Rightarrow> nat list" where
  "ends (Word w) s i =
     (if toLowerCase (take (length w) (drop i s)) = toLowerCase w then [i + length w] else [])"
| "ends Boundary s i = (if boundary_at s i then [i] else [])"
| "ends (Many k lo hi) s i =
     (let n = run_length k s i; m = (case hi of None \<Rightarrow> n | Some h \<Rightarrow> min h n)
      in map ((+) i) [lo..<Suc m])"
| "ends (Seq a b) s i = concat (map (ends b s) (ends a s i))"
| "ends (Alt a b) s i = ends a s i @ ends b s i"

definition re_test :: "regex \<Rightarrow> string \<Rightarrow> bool" where
  "re_test r s \<longleftrightarrow> list_ex (\<lambda>i. ends r s i \<noteq> []) [0..<Suc (length s)]"

fun alts :: "regex list \<Rightarrow> regex" where
  "alts [] = Word []"
| "alts [r] = r"
| "alts (r # rs) = Alt r (alts rs)"

fun seqs :: "regex list \<Rightarrow> regex" where
  "seqs [] = Word []"
| "seqs [r] = r"
| "seqs (r # rs) = Seq r (seqs rs)"

definition opt_hyphen_space :: regex where
  "opt_hyphen_space = Many HyphenSpace 0 (Some 1)"

definition one_hyphen_space :: regex where
  "one_hyphen_space = Many HyphenSpace 1 (Some 1)"

definition local_phrases :: "string list" where
  "local_phrases = [''local agent'', ''local model'', ''this machine'', ''on this machine'',
     ''this computer'', ''on this computer'', ''my computer'', ''this pc'', ''on this pc'', ''my pc'',
     ''this desktop'', ''on this desktop'', ''local edge'', ''locally'']"

definition on_device :: regex where
  "on_device = seqs [Word ''on'', one_hyphen_space, Word ''device'']"

definition LOCAL_INTENT :: regex where
  "LOCAL_INTENT = seqs [Boundary,
     alts (map Word local_phrases @ [on_device,
       seqs [alts [Word ''train'', seqs [Word ''fine'', opt_hyphen_space, Word ''tune''],
                   Word ''improve'', Word ''teach''],
             Many AnyChar 0 (Some 30), Boundary,
             alts [Word ''local'', Word ''agent'', Word ''model'', on_device]]]),
     Boundary]"

definition LOCAL_TOOL_INTENT :: regex where
  "LOCAL_TOOL_INTENT = Alt
     (seqs [Boundary, Word ''local'', Boundary, Many AnyChar 0 (Some 20), Boundary,
        alts [Word ''tv'', seqs [Word ''trading'', Many Space 0 None, Word ''view''], Word ''chart'',
              Word ''desktop app'', Word ''mcp'', Word ''tool'', Word ''server''],
        Boundary])
     (seqs [Boundary, alts [Word ''browser'', Word ''terminal'', Word ''powershell'',
        Word ''command prompt'', Word ''shell''], Boundary])"

subsection \<open>Requests and diagnostics\<close>

datatype TaskType =
    DATA_EXTRACTION | SUMMARIZATION | ROUTINE_AUTOMATION | AUTONOMOUS_RESEARCH | COMPLEX_CODING

datatype ComputeTier = LOCAL_EDGE | FRONTIER

datatype RouterRuleId =
    PRIVACY_OVERRIDE | USER_LOCAL_ONLY | LOCAL_INTENT_RULE | LOCAL_TOOL_INTENT_RULE
  | AGENT_REACH_LOCAL | AGENT_REACH_FRONTIER | AGENT_SUBSCRIPTION_PROVIDER
  | LOW_CLASSIFIER_CONFIDENCE | TOOL_COUNT_OVERFLOW | LATENCY_CRITICAL | HEURISTIC_EVAL

datatype executionMode = AUTO | LOCAL_ONLY | CLOUD_OK
datatype latency = HIGH | LOW

record AgentReachRouting =
  ar_localSatisfies :: bool
  ar_frontierSatisfies :: bool

record SubscriptionExecutionTarget =
  st_providerId :: string
  st_confirmed :: bool

record GatewayRequest =
  rq_prompt :: string
  rq_contextSize :: real
  rq_requiredTools :: "string list"
  rq_taskType :: TaskType
  rq_subscriptionTarget :: "SubscriptionExecutionTarget option"
  rq_latencySensitivity :: latency
  rq_containsSensitiveData :: bool
  rq_executionMode :: executionMode
  rq_classifierConfidence :: real
  rq_agentReach :: "AgentReachRouting option"

record RouterDiagnostics =
  rd_score :: nat
  rd_reason :: string
  rd_tier :: ComputeTier
  rd_ruleId :: RouterRuleId
  rd_blocked :: "(ComputeTier \<times> string) list"
  rd_overridable :: bool
  rd_safetyLock :: "string option"

fun RULE_META :: "RouterRuleId \<Rightarrow> bool \<times> string option" where
  "RULE_META PRIVACY_OVERRIDE = (False, Some ''SENSITIVE_DATA'')"
| "RULE_META USER_LOCAL_ONLY = (False, Some ''USER_LOCAL_ONLY'')"
| "RULE_META LOCAL_INTENT_RULE = (False, None)"
| "RULE_META LOCAL_TOOL_INTENT_RULE = (False, Some ''LOCAL_TOOL_INTENT'')"
| "RULE_META AGENT_REACH_LOCAL = (True, None)"
| "RULE_META AGENT_REACH_FRONTIER = (True, None)"
| "RULE_META AGENT_SUBSCRIPTION_PROVIDER = (False, None)"
| "RULE_META LOW_CLASSIFIER_CONFIDENCE = (True, None)"
| "RULE_META TOOL_COUNT_OVERFLOW = (True, None)"
| "RULE_META LATENCY_CRITICAL = (True, None)"
| "RULE_META HEURISTIC_EVAL = (True, None)"

definition diag ::
  "nat \<Rightarrow> string \<Rightarrow> ComputeTier \<Rightarrow> RouterRuleId \<Rightarrow> ComputeTier \<Rightarrow> string \<Rightarrow> RouterDiagnostics" where
  "diag score reason tier rule blocked why =
     \<lparr>rd_score = score, rd_reason = reason, rd_tier = tier, rd_ruleId = rule,
      rd_blocked = [(blocked, why)], rd_overridable = fst (RULE_META rule),
      rd_safetyLock = snd (RULE_META rule)\<rparr>"

subsection \<open>The warm lease\<close>

record router_state =
  rt_warm :: bool
  rt_warmTimer :: "int option"

definition new_router :: "bool \<Rightarrow> router_state" where
  "new_router initialWarmState = \<lparr>rt_warm = initialWarmState, rt_warmTimer = None\<rparr>"

definition markLocalModelWarm :: "int \<Rightarrow> int \<Rightarrow> router_state \<Rightarrow> router_state" where
  "markLocalModelWarm keepAliveMs now s = s\<lparr>rt_warm := True, rt_warmTimer := Some (now + keepAliveMs)\<rparr>"

text \<open>The timer queue runs: the pending timer fires when it is due.\<close>

definition fire_timer :: "int \<Rightarrow> router_state \<Rightarrow> router_state" where
  "fire_timer now s =
     (case rt_warmTimer s of
        Some t \<Rightarrow> if t \<le> now then s\<lparr>rt_warm := False, rt_warmTimer := None\<rparr> else s
      | None \<Rightarrow> s)"

subsection \<open>The rules\<close>

definition heuristic_score :: "GatewayRequest \<Rightarrow> nat" where
  "heuristic_score req =
     (if rq_taskType req = AUTONOMOUS_RESEARCH \<or> rq_taskType req = COMPLEX_CODING then 50 else 0)
     + (if rq_contextSize req > 8192 then 40 else 0)
     + length (rq_requiredTools req) * 10"

definition heuristic_eval :: "bool \<Rightarrow> GatewayRequest \<Rightarrow> RouterDiagnostics" where
  "heuristic_eval preferCloud req =
     (let score = heuristic_score req;
          threshold = (if preferCloud then 1 else 50 :: nat);
          tier = (if score \<ge> threshold then FRONTIER else LOCAL_EDGE);
          note = (if preferCloud then '' (prefer-cloud: slow local hardware)'' else '''');
          reason = ''HEURISTIC_EVAL: calculated score '' @ show_nat score @ ''/100.'' @ note
      in if tier = FRONTIER
         then diag score reason tier HEURISTIC_EVAL LOCAL_EDGE
           (''The heuristic score ('' @ show_nat score @ ''/100) met or exceeded the ''
              @ show_nat threshold @ '' threshold for cloud routing.'')
         else diag score reason tier HEURISTIC_EVAL FRONTIER
           (''The heuristic score ('' @ show_nat score @ ''/100) stayed below the ''
              @ show_nat threshold @ '' threshold for cloud routing.''))"

definition reach_local :: "GatewayRequest \<Rightarrow> bool" where
  "reach_local req = (case rq_agentReach req of None \<Rightarrow> False | Some a \<Rightarrow> ar_localSatisfies a)"

definition reach_frontier :: "GatewayRequest \<Rightarrow> bool" where
  "reach_frontier req = (case rq_agentReach req of None \<Rightarrow> False
     | Some a \<Rightarrow> \<not> ar_localSatisfies a \<and> ar_frontierSatisfies a)"

definition confirmed_target :: "GatewayRequest \<Rightarrow> SubscriptionExecutionTarget option" where
  "confirmed_target req =
     (case rq_subscriptionTarget req of None \<Rightarrow> None
      | Some t \<Rightarrow> if st_confirmed t then Some t else None)"

definition evaluateRequest ::
  "router_state \<Rightarrow> bool \<Rightarrow> GatewayRequest \<Rightarrow> RouterDiagnostics" where
  "evaluateRequest s preferCloud req =
     (if rq_containsSensitiveData req then
        diag 0 ''PRIVACY_OVERRIDE: regulated data detected; forcing local edge.'' LOCAL_EDGE
          PRIVACY_OVERRIDE FRONTIER ''Sensitive data must never leave this machine.''
      else if rq_executionMode req = LOCAL_ONLY then
        diag 0 ''USER_LOCAL_ONLY: user restricted this task to the local edge.'' LOCAL_EDGE
          USER_LOCAL_ONLY FRONTIER ''The user explicitly restricted this task to the local edge.''
      else if re_test LOCAL_INTENT (rq_prompt req) then
        diag 0 ''LOCAL_INTENT: task targets the local agent/machine; keeping it local.'' LOCAL_EDGE
          LOCAL_INTENT_RULE FRONTIER
          ''The prompt targets the local agent/machine; the cloud is the wrong tier for this intent.''
      else if re_test LOCAL_TOOL_INTENT (rq_prompt req) then
        diag 0 ''LOCAL_TOOL_INTENT: prompt names a local-only tool/integration; keeping it local.''
          LOCAL_EDGE LOCAL_TOOL_INTENT_RULE FRONTIER
          ''The named tool/integration lives only on the local edge bridge; the frontier engine cannot reach it.''
      else case confirmed_target req of Some t \<Rightarrow>
        diag 100 (''AGENT_SUBSCRIPTION_PROVIDER: confirmed '' @ st_providerId t @ '' runtime binding.'')
          FRONTIER AGENT_SUBSCRIPTION_PROVIDER LOCAL_EDGE
          ''The selected agent is explicitly bound to an external subscription provider.''
      | None \<Rightarrow>
      if reach_local req then
        diag 20 ''AGENT_REACH_LOCAL: every requested channel is available locally.'' LOCAL_EDGE
          AGENT_REACH_LOCAL FRONTIER
          ''The required Agent Reach channels are already available locally.''
      else if reach_frontier req then
        diag 80 ''AGENT_REACH_FRONTIER: local channels missing; frontier availability confirmed.''
          FRONTIER AGENT_REACH_FRONTIER LOCAL_EDGE
          ''At least one requested Agent Reach channel is unavailable locally.''
      else if rq_classifierConfidence req < 1 / 2 then
        diag 75 ''LOW_CLASSIFIER_CONFIDENCE: enrichment uncertain; buying capability headroom.''
          FRONTIER LOW_CLASSIFIER_CONFIDENCE LOCAL_EDGE
          ''With low classifier confidence, the tool prediction and complexity score are both suspect.''
      else if length (rq_requiredTools req) > 3 then
        diag 100 ''TOOL_COUNT_OVERFLOW: >3 tools requested; elevating to frontier.'' FRONTIER
          TOOL_COUNT_OVERFLOW LOCAL_EDGE ''Small local models lose coherence past ~3 tools.''
      else if rq_latencySensitivity req = HIGH \<and> \<not> rt_warm s then
        diag 90 ''LATENCY_CRITICAL: local model cold (5-10s spin-up); routing to warm cloud API.''
          FRONTIER LATENCY_CRITICAL LOCAL_EDGE
          ''The local model is cold and needs a 5-10s spin-up, which is too slow for a latency-critical request.''
      else heuristic_eval preferCloud req)"

subsection \<open>Data that must stay never leaves\<close>

lemma diag_sel [simp]:
  "rd_score (diag sc r t u b w) = sc" "rd_tier (diag sc r t u b w) = t"
  "rd_ruleId (diag sc r t u b w) = u" "rd_overridable (diag sc r t u b w) = fst (RULE_META u)"
  "rd_safetyLock (diag sc r t u b w) = snd (RULE_META u)" "rd_blocked (diag sc r t u b w) = [(b, w)]"
  by (simp_all add: diag_def)

text \<open>
  Case analysis on a decision, one branch at a time: a property of every branch is a property of
  the decision.
\<close>

lemma branch_if: "(c \<Longrightarrow> P x) \<Longrightarrow> (\<not> c \<Longrightarrow> P y) \<Longrightarrow> P (if c then x else y)"
  by simp

lemma branch_target:
  "(\<And>t. confirmed_target req = Some t \<Longrightarrow> P (f t)) \<Longrightarrow> (confirmed_target req = None \<Longrightarrow> P y) \<Longrightarrow>
   P (case confirmed_target req of Some t \<Rightarrow> f t | None \<Rightarrow> y)"
  by (cases "confirmed_target req") simp_all

lemmas branches = branch_if branch_target

definition explained :: "GatewayRequest \<Rightarrow> RouterDiagnostics \<Rightarrow> bool" where
  "explained req d \<longleftrightarrow>
    map fst (rd_blocked d) = [if rd_tier d = FRONTIER then LOCAL_EDGE else FRONTIER]
    \<and> (rd_safetyLock d = None \<or> (rd_tier d = LOCAL_EDGE \<and> rd_overridable d = False))
    \<and> (rd_tier d = LOCAL_EDGE \<or> rd_overridable d = True \<or> confirmed_target req = None
        \<or> rd_ruleId d = AGENT_SUBSCRIPTION_PROVIDER)"

lemma explained_diag:
  "explained req (diag sc r t u b w) \<longleftrightarrow> b = (if t = FRONTIER then LOCAL_EDGE else FRONTIER)
    \<and> (snd (RULE_META u) = None \<or> (t = LOCAL_EDGE \<and> \<not> fst (RULE_META u)))
    \<and> (t = LOCAL_EDGE \<or> fst (RULE_META u) \<or> confirmed_target req = None
        \<or> u = AGENT_SUBSCRIPTION_PROVIDER)"
  by (auto simp: explained_def)

lemma explained_heuristic: "explained req (heuristic_eval p req)"
  unfolding heuristic_eval_def Let_def
  by (rule branch_if; simp only: explained_diag RULE_META.simps fst_conv snd_conv)
     (simp_all split: if_splits)

lemma evaluate_explained: "explained req (evaluateRequest s p req)"
  unfolding evaluateRequest_def
  by (intro branches [where P = "explained req"];
      (rule explained_heuristic | simp only: explained_diag RULE_META.simps fst_conv snd_conv; simp))

lemma evaluate_early_or_heuristic:
  "(\<exists>d. \<forall>p. evaluateRequest s p req = d \<and> rd_score d \<le> 100)
   \<or> (\<forall>p. evaluateRequest s p req = heuristic_eval p req \<and> length (rq_requiredTools req) \<le> 3)"
proof (cases "rq_containsSensitiveData req \<or> rq_executionMode req = LOCAL_ONLY
    \<or> re_test LOCAL_INTENT (rq_prompt req) \<or> re_test LOCAL_TOOL_INTENT (rq_prompt req)
    \<or> confirmed_target req \<noteq> None \<or> reach_local req \<or> reach_frontier req
    \<or> rq_classifierConfidence req < 1 / 2 \<or> length (rq_requiredTools req) > 3
    \<or> (rq_latencySensitivity req = HIGH \<and> \<not> rt_warm s)")
  case False
  then have "evaluateRequest s p req = heuristic_eval p req" for p
    unfolding evaluateRequest_def by (simp only: if_False option.case de_Morgan_disj not_not simp_thms)
  with False show ?thesis by auto
next
  case True
  have "evaluateRequest s p req = evaluateRequest s False req" for p
    unfolding evaluateRequest_def using True
    by (intro if_cong refl option.case_cong) simp_all
  moreover have "rd_score (evaluateRequest s False req) \<le> 100"
    unfolding evaluateRequest_def using True
    by (intro branches [where P = "\<lambda>d. rd_score d \<le> 100"]; simp)
  ultimately show ?thesis by blast
qed

text \<open>
  C24. Privacy and the user's choice beat everything: a request with sensitive data or restricted to
  this machine is routed to the local edge with a safety lock no user can override, whatever its
  prompt, confirmed external provider, agent reach, confidence, tools, latency, warm state and
  cloud preference.
\<close>

theorem sensitive_stays_local:
  assumes "rq_containsSensitiveData req \<or> rq_executionMode req = LOCAL_ONLY"
  shows "let d = evaluateRequest s preferCloud req in
    rd_tier d = LOCAL_EDGE \<and> \<not> rd_overridable d
    \<and> rd_safetyLock d = Some (if rq_containsSensitiveData req then ''SENSITIVE_DATA'' else ''USER_LOCAL_ONLY'')
    \<and> map fst (rd_blocked d) = [FRONTIER]"
  using assms by (auto simp: evaluateRequest_def Let_def)

definition example_request :: GatewayRequest where
  "example_request = \<lparr>rq_prompt = ''hi'', rq_contextSize = 9000, rq_requiredTools = [''a'', ''b'', ''c''],
     rq_taskType = COMPLEX_CODING,
     rq_subscriptionTarget = Some \<lparr>st_providerId = ''kimi-subscription'', st_confirmed = True\<rparr>,
     rq_latencySensitivity = LOW, rq_containsSensitiveData = True, rq_executionMode = CLOUD_OK,
     rq_classifierConfidence = 1, rq_agentReach = None\<rparr>"

theorem sensitive_stays_local_witness:
  "rd_tier (evaluateRequest (new_router False) True example_request) = LOCAL_EDGE"
  using sensitive_stays_local [of example_request "new_router False" True]
  by (simp add: example_request_def Let_def)

text \<open>
  Every decision explains itself consistently: the tier it blocks is exactly the other tier, a
  safety lock is never overridable, and the cloud is chosen without the user being able to
  override it only for a confirmed subscription binding.
\<close>

theorem diagnostics_consistent:
  "let d = evaluateRequest s preferCloud req in
    map fst (rd_blocked d) = [if rd_tier d = FRONTIER then LOCAL_EDGE else FRONTIER]
    \<and> (rd_safetyLock d = None \<or> (rd_tier d = LOCAL_EDGE \<and> rd_overridable d = False))
    \<and> (rd_tier d = LOCAL_EDGE \<or> rd_overridable d = True \<or> confirmed_target req = None
        \<or> rd_ruleId d = AGENT_SUBSCRIPTION_PROVIDER)"
  using evaluate_explained [of req s preferCloud] by (simp only: explained_def Let_def)

text \<open>
  The cloud preference touches only the heuristic: switching it on changes no decision made by
  an earlier rule, keeps rule and score, and can only move a heuristic decision from the local
  edge to the cloud, which it does exactly for scores from 1 to 49. Heuristic scores are bounded by
  120, not by the 100 its messages print.
\<close>

theorem prefer_cloud_scope:
  "let off = evaluateRequest s False req; on = evaluateRequest s True req in
    rd_ruleId on = rd_ruleId off \<and> rd_score on = rd_score off \<and> rd_score off \<le> 120
    \<and> (on = off \<or> rd_ruleId off = HEURISTIC_EVAL)
    \<and> (rd_tier on = rd_tier off
        \<or> (rd_tier off = LOCAL_EDGE \<and> rd_tier on = FRONTIER \<and> rd_score off \<in> {1..49}))"
  using evaluate_early_or_heuristic [of s req]
proof
  assume "\<exists>d. \<forall>p. evaluateRequest s p req = d \<and> rd_score d \<le> 100"
  then show ?thesis by (auto simp: Let_def)
next
  assume h: "\<forall>p. evaluateRequest s p req = heuristic_eval p req \<and> length (rq_requiredTools req) \<le> 3"
  have sel: "rd_ruleId (heuristic_eval p req) = HEURISTIC_EVAL"
      "rd_score (heuristic_eval p req) = heuristic_score req"
      "rd_tier (heuristic_eval p req)
        = (if heuristic_score req \<ge> (if p then 1 else 50) then FRONTIER else LOCAL_EDGE)" for p
    by (simp_all add: heuristic_eval_def Let_def)
  have "heuristic_score req \<le> 120" using h by (auto simp: heuristic_score_def)
  then show ?thesis using h by (simp add: Let_def sel)
qed

subsection \<open>The local intent\<close>

lemma toLowerCase_append: "toLowerCase (a @ b) = toLowerCase a @ toLowerCase b"
  by (simp add: toLowerCase_def)

lemma length_toLowerCase [simp]: "length (toLowerCase a) = length a"
  by (simp add: toLowerCase_def)

lemma ends_alts: "r \<in> set rs \<Longrightarrow> set (ends r s i) \<subseteq> set (ends (alts rs) s i)"
  by (induction rs rule: alts.induct) auto

lemma re_testI: "i \<le> length s \<Longrightarrow> x \<in> set (ends r s i) \<Longrightarrow> re_test r s"
  unfolding re_test_def list_ex_iff by (rule bexI [of _ i]) auto

lemma boundary_before:
  "(a = [] \<or> \<not> is_word (last a)) \<Longrightarrow> w \<noteq> [] \<Longrightarrow> is_word (hd w) \<Longrightarrow>
   boundary_at (a @ w @ b) (length a)"
  by (cases a rule: rev_cases; cases w)
     (auto simp: boundary_at_def word_at_def nth_append)

lemma boundary_after:
  "(b = [] \<or> \<not> is_word (hd b)) \<Longrightarrow> w \<noteq> [] \<Longrightarrow> is_word (last w) \<Longrightarrow>
   boundary_at (a @ w @ b) (length a + length w)"
  by (cases w rule: rev_cases; cases b)
     (auto simp: boundary_at_def word_at_def nth_append)

lemma is_word_lower: "is_word (lower_char c) \<Longrightarrow> code c < 128 \<Longrightarrow> is_word c"
  by (auto simp: is_word_def lower_char_def is_upper_def is_lower_def is_digit_def of_char_of
      split: if_splits)

lemma phrase_ends: "p \<in> set local_phrases \<Longrightarrow> p \<noteq> [] \<and> is_word (hd p) \<and> is_word (last p)"
  by (auto simp: local_phrases_def is_word_def is_lower_def)

text \<open>
  A task about this machine stays on it: a prompt that contains one of the local phrases (``my
  computer'', ``locally'', ``local agent'' ...) in any letter case as whole words, anywhere, is
  routed to the local edge, with any confirmed provider and any classifier confidence.
\<close>

theorem local_phrase_stays_local:
  assumes "p \<in> set local_phrases" and "toLowerCase w = p" and "\<forall>c \<in> set w. code c < 128"
    and "a = [] \<or> \<not> is_word (last a)" and "b = [] \<or> \<not> is_word (hd b)"
    and "rq_prompt req = a @ w @ b"
  shows "rd_tier (evaluateRequest s preferCloud req) = LOCAL_EDGE"
proof -
  have pw: "w \<noteq> []" "is_word (hd w)" "is_word (last w)"
  proof -
    have "p \<noteq> []" "is_word (hd p)" "is_word (last p)" using phrase_ends [OF assms(1)] by auto
    then show w: "w \<noteq> []" and "is_word (hd w)" and "is_word (last w)"
      using assms(2,3) is_word_lower [of "hd w"] is_word_lower [of "last w"]
      by (cases "w = []"; auto simp: toLowerCase_def hd_map last_map)+
  qed
  let ?s = "a @ w @ b"
  have l: "length p = length w" "toLowerCase p = p"
    using assms(1,2) by (auto simp: local_phrases_def toLowerCase_def lower_char_def is_upper_def)
  have "length a + length w \<in> set (ends (Word p) ?s (length a))"
    using assms(2) l by simp
  then have m: "length a + length w \<in> set (ends (alts (map Word local_phrases @ x)) ?s (length a))" for x
    using assms(1) ends_alts [of "Word p" "map Word local_phrases @ x"] by force
  have "boundary_at ?s (length a)" "boundary_at ?s (length a + length w)"
    using boundary_before [OF assms(4) pw(1,2)] boundary_after [OF assms(5) pw(1,3)] by auto
  then have "length a + length w \<in> set (ends LOCAL_INTENT ?s (length a))"
    unfolding LOCAL_INTENT_def using m by (auto intro!: bexI [of _ "length a + length w"])
  then have "re_test LOCAL_INTENT ?s" by (intro re_testI [of "length a"]) auto
  then show ?thesis by (simp add: evaluateRequest_def assms(6))
qed

theorem local_phrase_stays_local_witness:
  "rd_tier (evaluateRequest (new_router False) True (example_request
     \<lparr>rq_containsSensitiveData := False, rq_prompt := ''Tidy MY Computer, please''\<rparr>)) = LOCAL_EDGE"
  by (rule local_phrase_stays_local [of "''my computer''" "''MY Computer''" "''Tidy ''" "'', please''"])
     (code_simp+)

subsection \<open>The lease\<close>

text \<open>
  The warm lease follows the last completion: after a successful local completion the model
  counts as warm exactly until its keep-alive has elapsed, whatever was marked before, however
  often the timers run, so a renewed lease is not cut short by the earlier timer.
\<close>

theorem warm_lease:
  assumes "0 < keepAliveMs" and "sorted (now # ts)" and "ts \<noteq> []"
  shows "rt_warm (fold fire_timer ts (markLocalModelWarm keepAliveMs now s))
    \<longleftrightarrow> last ts < now + keepAliveMs"
proof -
  have run: "fold fire_timer us r = r" if "rt_warmTimer r = None" for us r
    using that by (induction us) (simp_all add: fire_timer_def)
  have "rt_warm (fold fire_timer ts (s\<lparr>rt_warm := True, rt_warmTimer := Some d\<rparr>)) \<longleftrightarrow> last ts < d"
    if "ts \<noteq> []" "sorted ts" for ts d
    using that
  proof (induction ts)
    case (Cons t ts)
    show ?case
    proof (cases "d \<le> t")
      case True
      have "t \<le> last (t # ts)" using Cons.prems by (cases ts) (auto simp: last_in_set)
      moreover have "fold fire_timer (t # ts) (s\<lparr>rt_warm := True, rt_warmTimer := Some d\<rparr>)
          = s\<lparr>rt_warm := False, rt_warmTimer := None\<rparr>"
        using True run [of "s\<lparr>rt_warm := False, rt_warmTimer := None\<rparr>" ts]
        by (simp add: fire_timer_def [of t])
      ultimately show ?thesis using True by simp
    next
      case False
      with Cons show ?thesis by (cases ts) (auto simp: fire_timer_def)
    qed
  qed simp
  with assms show ?thesis by (simp add: markLocalModelWarm_def)
qed

theorem warm_lease_witness:
  "rt_warm (fold fire_timer [5, 600004] (markLocalModelWarm 600000 5 (new_router False)))"
  using warm_lease [of 600000 5 "[5, 600004]" "new_router False"] by simp

end
