(* ===== verification/Tool_Policy.thy ===== *)
theory Tool_Policy
  imports Js_Text
begin

text \<open>
  What a tool may do and which paths it may touch: the capability resolution of
  \<open>packages/bridge/src/capability.ts\<close> and the filesystem scopes of
  \<open>packages/bridge/src/pathScope.ts\<close>, with the POSIX path resolution of Node's
  \<open>path.resolve\<close>; the home and working directories are arguments.
\<close>

subsection \<open>Capabilities\<close>

datatype Capability = Read | Write | Exec | Send

definition isWriteClass :: "Capability \<Rightarrow> bool" where
  "isWriteClass c \<longleftrightarrow> c = Write \<or> c = Exec \<or> c = Send"

datatype ScopeMode = ReadMode | WriteMode

definition scopeModeFor :: "Capability \<Rightarrow> ScopeMode" where
  "scopeModeFor c = (if isWriteClass c then WriteMode else ReadMode)"

record McpAnnotations =
  readOnlyHint :: bool
  destructiveHint :: bool
  openWorldHint :: bool

fun boundaries :: "string \<Rightarrow> string" where
  "boundaries (a # b # s) =
     (if (is_lower a \<or> is_digit a) \<and> is_upper b then a # CHR ''_'' # boundaries (b # s)
      else a # boundaries (b # s))"
| "boundaries s = s"

fun split_seps :: "string \<Rightarrow> string list" where
  "split_seps [] = [[]]"
| "split_seps (c # s) =
     (case split_seps s of [] \<Rightarrow> [[c]]
      | p # ps \<Rightarrow> if c = CHR ''_'' \<or> c = CHR ''-'' then [] # p # ps else (c # p) # ps)"

definition tokenize :: "string \<Rightarrow> string list" where
  "tokenize name = filter (\<lambda>t. t \<noteq> []) (map toLowerCase (split_seps (boundaries name)))"

definition P4_DESTRUCTIVE :: "string list" where
  "P4_DESTRUCTIVE = [''delete'', ''remove'', ''rm'', ''destroy'', ''drop'', ''kill'', ''wipe'',
     ''purge'', ''truncate'', ''erase'', ''shred'', ''obliterate'', ''nuke'']"

definition P4_EXEC :: "string list" where
  "P4_EXEC = [''exec'', ''run'', ''shell'', ''terminal'', ''eval'', ''command'', ''spawn'',
     ''fork'', ''launch'']"

definition P4_SEND :: "string list" where
  "P4_SEND = [''send'', ''publish'', ''post'', ''email'', ''notify'', ''tweet'', ''transmit'',
     ''dispatch'']"

definition P4_WRITE :: "string list" where
  "P4_WRITE = [''write'', ''edit'', ''create'', ''update'', ''append'', ''move'', ''patch'',
     ''set'', ''put'', ''push'', ''replace'', ''insert'', ''upsert'', ''merge'', ''rename'',
     ''sync'', ''save'', ''copy'', ''apply'', ''submit'', ''deploy'', ''add'', ''upload'',
     ''transfer'', ''grant'', ''revoke'', ''chmod'', ''chown'', ''sign'', ''encrypt'',
     ''decrypt'', ''mount'', ''unmount'', ''install'', ''uninstall'', ''migrate'', ''seed'',
     ''import'', ''rotate'', ''reset'', ''restore'', ''rollback'', ''overwrite'', ''disable'',
     ''enable'', ''activate'', ''deactivate'', ''cancel'', ''close'', ''flush'', ''unlink'',
     ''format'', ''reboot'', ''shutdown'', ''freeze'', ''suspend'', ''quarantine'', ''seize'',
     ''ban'', ''blacklist'', ''deprovision'', ''decommission'', ''teardown'', ''scrub'',
     ''redact'', ''anonymize'', ''tokenize'', ''rekey'', ''reissue'', ''impersonate'',
     ''escalate'', ''unseal'', ''liquidate'', ''sell'', ''charge'', ''debit'', ''payout'',
     ''wire'', ''disburse'', ''withdraw'', ''hijack'', ''spoof'', ''bypass'', ''poison'',
     ''corrupt'', ''tamper'', ''brick'', ''detonate'']"

definition some_token :: "string list \<Rightarrow> string list \<Rightarrow> bool" where
  "some_token verbs tokens = list_ex (\<lambda>t. t \<in> set verbs) tokens"

definition classifyByNameTokens :: "string \<Rightarrow> Capability option" where
  "classifyByNameTokens rawName =
     (let tokens = tokenize rawName
      in if some_token P4_DESTRUCTIVE tokens then Some Write
         else if some_token P4_EXEC tokens then Some Exec
         else if some_token P4_SEND tokens then Some Send
         else if some_token P4_WRITE tokens then Some Write
         else None)"

definition classifyCapability ::
  "string \<Rightarrow> McpAnnotations option \<Rightarrow> Capability option \<Rightarrow> Capability" where
  "classifyCapability rawName annotations configCapability =
     (case configCapability of
        Some c \<Rightarrow> c
      | None \<Rightarrow>
          if (case annotations of None \<Rightarrow> False | Some a \<Rightarrow> readOnlyHint a) then Read
          else if (case annotations of None \<Rightarrow> False | Some a \<Rightarrow> destructiveHint a \<or> openWorldHint a)
          then Write
          else case classifyByNameTokens rawName of Some c \<Rightarrow> c | None \<Rightarrow> Write)"

text \<open>
  Unknown never means read: a tool is classified \<open>read\<close> precisely when the operator's
  configuration says so or, without configuration, the server's read-only hint does. Its name has
  no say: without either it gets a class that needs approval and the write scope.
\<close>

theorem name_never_read:
  "(classifyCapability n a c = Read)
     = (c = Some Read \<or> (c = None \<and> (\<exists>h. a = Some h \<and> readOnlyHint h)))
   \<and> (classifyCapability n a c = Read) = (\<not> isWriteClass (classifyCapability n a c))
   \<and> (classifyCapability n a c = Read) = (scopeModeFor (classifyCapability n a c) = ReadMode)"
proof -
  have n: "classifyByNameTokens n \<noteq> Some Read"
    by (simp add: classifyByNameTokens_def Let_def)
  have "(classifyCapability n a c = Read)
     = (c = Some Read \<or> (c = None \<and> (\<exists>h. a = Some h \<and> readOnlyHint h)))"
    using n by (auto simp: classifyCapability_def split: option.splits)
  then show ?thesis
    by (cases "classifyCapability n a c") (simp_all add: isWriteClass_def scopeModeFor_def)
qed

subsection \<open>Naming styles\<close>

definition word_token :: "string \<Rightarrow> bool" where
  "word_token t \<longleftrightarrow> 2 \<le> length t \<and> list_all is_lower t"

definition upper_char :: "char \<Rightarrow> char" where
  "upper_char c = char_of (code c - 32)"

fun capitalize :: "string \<Rightarrow> string" where
  "capitalize [] = []"
| "capitalize (c # s) = upper_char c # s"

definition camel :: "string list \<Rightarrow> string" where
  "camel ts = (case ts of [] \<Rightarrow> [] | t # us \<Rightarrow> t @ concat (map capitalize us))"

lemma lower_facts: "is_lower c \<Longrightarrow> \<not> is_upper c \<and> lower_char c = c \<and> c \<noteq> CHR ''_'' \<and> c \<noteq> CHR ''-''"
  by (auto simp: is_lower_def is_upper_def lower_char_def)

lemma upper_facts:
  "is_lower c \<Longrightarrow> is_upper (upper_char c) \<and> lower_char (upper_char c) = c \<and> \<not> is_lower (upper_char c)
     \<and> \<not> is_digit (upper_char c) \<and> upper_char c \<noteq> CHR ''_'' \<and> upper_char c \<noteq> CHR ''-''"
proof -
  assume "is_lower c"
  then have c: "97 \<le> code c" "code c \<le> 122" by (simp_all add: is_lower_def)
  then have u: "code (upper_char c) = code c - 32" by (simp add: upper_char_def of_char_of)
  have "65 \<le> code c - 32" "code c - 32 \<le> 90" using c by linarith+
  then have "is_upper (upper_char c)" by (simp add: is_upper_def u)
  then have "lower_char (upper_char c) = char_of (code c)"
    using c u by (simp add: lower_char_def)
  with c u show ?thesis
    by (auto simp: is_upper_def is_lower_def is_digit_def)
qed

lemma split_seps_nonempty [simp]: "split_seps s \<noteq> []"
  by (cases s) (auto split: list.splits)

lemma split_seps_no: "list_all (\<lambda>c. c \<noteq> CHR ''_'' \<and> c \<noteq> CHR ''-'') p \<Longrightarrow> split_seps p = [p]"
  by (induction p) (auto split: list.splits)

lemma split_seps_append:
  "list_all (\<lambda>c. c \<noteq> CHR ''_'' \<and> c \<noteq> CHR ''-'') p \<Longrightarrow> d = CHR ''_'' \<or> d = CHR ''-'' \<Longrightarrow>
   split_seps (p @ d # s) = p # split_seps s"
  by (induction p) (auto split: list.splits)

lemma boundaries_no_upper: "list_all (\<lambda>c. \<not> is_upper c) s \<Longrightarrow> boundaries s = s"
  by (induction s rule: boundaries.induct) auto

lemma boundaries_lower_append:
  "list_all is_lower t \<Longrightarrow> t \<noteq> [] \<Longrightarrow> is_upper b \<Longrightarrow>
   boundaries (t @ b # s) = t @ CHR ''_'' # boundaries (b # s)"
proof (induction t)
  case (Cons c t)
  then show ?case by (cases t) (auto simp: lower_facts)
qed simp

lemma boundaries_upper_lower:
  "is_lower c \<Longrightarrow> boundaries (upper_char c # s) = upper_char c # boundaries s"
  by (cases s) (auto simp: upper_facts)

lemma lower_self: "list_all is_lower t \<Longrightarrow> toLowerCase t = t"
  by (auto simp: toLowerCase_def list_all_iff lower_facts intro: map_idI)

lemma lower_no_seps:
  "list_all is_lower t \<Longrightarrow> list_all (\<lambda>c. c \<noteq> CHR ''_'' \<and> c \<noteq> CHR ''-'') t
    \<and> list_all (\<lambda>c. \<not> is_upper c) t"
  by (auto simp: list_all_iff dest: lower_facts)

lemma tokens_camel:
  "list_all is_lower t \<Longrightarrow> t \<noteq> [] \<Longrightarrow> list_all word_token us \<Longrightarrow>
   map toLowerCase (split_seps (boundaries (t @ concat (map capitalize us)))) = t # us"
proof (induction us arbitrary: t)
  case Nil
  then show ?case
    using lower_no_seps [of t] by (simp add: boundaries_no_upper split_seps_no lower_self)
next
  case (Cons u us)
  then obtain c v where u: "u = c # v" "is_lower c" "list_all is_lower v" "v \<noteq> []"
    by (cases u; cases "tl u") (auto simp: word_token_def)
  let ?rest = "v @ concat (map capitalize us)"
  have "boundaries (t @ concat (map capitalize (u # us)))
      = t @ CHR ''_'' # upper_char c # boundaries ?rest"
    using Cons.prems u upper_facts [OF u(2)]
    by (simp add: boundaries_lower_append boundaries_upper_lower)
  moreover obtain q qs where q: "split_seps (boundaries ?rest) = q # qs"
    by (meson neq_Nil_conv split_seps_nonempty)
  then have "split_seps (upper_char c # boundaries ?rest) = (upper_char c # q) # qs"
    using upper_facts [OF u(2)] by simp
  moreover have "toLowerCase q = v" "map toLowerCase qs = us"
    using Cons.IH [of v] Cons.prems u q by simp_all
  ultimately show ?case
    using Cons.prems u lower_no_seps [of t] upper_facts [OF u(2)]
    by (simp add: split_seps_append lower_self) (simp add: toLowerCase_def)
qed

lemma word_tokens_kept: "list_all word_token ts \<Longrightarrow> filter (\<lambda>t. t \<noteq> []) ts = ts"
  by (induction ts) (auto simp: word_token_def)

lemma tokenize_camel: "list_all word_token ts \<Longrightarrow> tokenize (camel ts) = ts"
proof (cases ts)
  case Nil
  then show ?thesis by (simp add: camel_def tokenize_def toLowerCase_def)
next
  case (Cons t us)
  assume ts: "list_all word_token ts"
  then have "map toLowerCase (split_seps (boundaries (t @ concat (map capitalize us)))) = t # us"
    using Cons by (intro tokens_camel) (auto simp: word_token_def)
  with word_tokens_kept [OF ts] Cons show ?thesis
    by (simp only: tokenize_def camel_def list.case)
qed

lemma tokenize_joined:
  assumes "list_all word_token ts" and "d = CHR ''_'' \<or> d = CHR ''-''"
  shows "tokenize (join_char d ts) = ts"
proof -
  have "list_all (\<lambda>c. \<not> is_upper c) (join_char d ts)"
    using assms
  proof (induction d ts rule: join_char.induct)
    case (2 c p)
    then show ?case using lower_no_seps by (auto simp: word_token_def)
  next
    case (3 c p q ps)
    then show ?case using lower_no_seps [of p] by (auto simp: word_token_def is_upper_def)
  qed simp
  then have "boundaries (join_char d ts) = join_char d ts" by (rule boundaries_no_upper)
  moreover have "ts \<noteq> [] \<Longrightarrow> split_seps (join_char d ts) = ts"
    using assms
  proof (induction d ts rule: join_char.induct)
    case (2 c p)
    then show ?case using lower_no_seps [of p] by (auto simp: word_token_def split_seps_no)
  next
    case (3 c p q ps)
    then show ?case using lower_no_seps [of p] by (auto simp: word_token_def split_seps_append)
  qed simp
  moreover have "map toLowerCase ts = ts"
    using assms(1) by (auto simp: list_all_iff word_token_def lower_self intro: map_idI)
  ultimately show ?thesis
    using assms(1) by (cases "ts = []") (simp_all add: tokenize_def word_tokens_kept toLowerCase_def)
qed

text \<open>
  The naming convention of a server does not change how its tools are gated: the snake-case,
  kebab-case and camel-case spellings of the same words get the same class, and the class depends
  on whole words, so a verb anywhere among the words is found and one inside a longer word is not.
\<close>

theorem naming_style_irrelevant:
  assumes "list_all word_token ts"
  shows "classifyByNameTokens (camel ts) = classifyByNameTokens (join_char (CHR ''_'') ts)
    \<and> classifyByNameTokens (join_char (CHR ''-'') ts) = classifyByNameTokens (join_char (CHR ''_'') ts)
    \<and> (classifyByNameTokens (camel ts) = Some Exec) = (set ts \<inter> set P4_DESTRUCTIVE = {} \<and> set ts \<inter> set P4_EXEC \<noteq> {})"
proof -
  have t: "tokenize (camel ts) = ts" "tokenize (join_char (CHR ''_'') ts) = ts"
      "tokenize (join_char (CHR ''-'') ts) = ts"
    using assms tokenize_camel tokenize_joined by simp_all
  have "(some_token vs ts) = (set ts \<inter> set vs \<noteq> {})" for vs
    by (auto simp: some_token_def list_ex_iff)
  with t show ?thesis by (auto simp: classifyByNameTokens_def Let_def)
qed

theorem naming_style_irrelevant_witness:
  "classifyByNameTokens ''runCommandNow'' = Some Exec \<and> classifyByNameTokens ''get-deployment'' = None"
proof -
  have "camel [''run'', ''command'', ''now''] = ''runCommandNow''"
      "join_char (CHR ''-'') [''get'', ''deployment''] = ''get-deployment''"
    by code_simp+
  moreover have "list_all word_token [''run'', ''command'', ''now'']"
      "list_all word_token [''get'', ''deployment'']" by code_simp+
  moreover have "classifyByNameTokens (join_char (CHR ''_'') [''get'', ''deployment'']) = None"
    by code_simp
  moreover have "(set [''run'', ''command'', ''now''] \<inter> set P4_DESTRUCTIVE = {}
      \<and> set [''run'', ''command'', ''now''] \<inter> set P4_EXEC \<noteq> {})"
    by (simp add: P4_DESTRUCTIVE_def P4_EXEC_def)
  ultimately show ?thesis
    using naming_style_irrelevant [of "[''run'', ''command'', ''now'']"]
      naming_style_irrelevant [of "[''get'', ''deployment'']"] by metis
qed

subsection \<open>Path scopes\<close>

record PathScope =
  ps_read :: "string list"
  ps_write :: "string list"
  ps_deny :: "string list"

text \<open>
  The components of a path after \<open>path.resolve\<close>: empty and \<open>.\<close> segments vanish, \<open>..\<close> drops the
  component before it.
\<close>

definition path_step :: "string list \<Rightarrow> string \<Rightarrow> string list" where
  "path_step cs seg = (if seg = [] \<or> seg = ''.'' then cs
     else if seg = ''..'' then butlast cs else cs @ [seg])"

definition components :: "string \<Rightarrow> string list" where
  "components s = foldl path_step [] (split_char (CHR ''/'') s)"

definition path_text :: "string list \<Rightarrow> string" where
  "path_text cs = CHR ''/'' # join_char (CHR ''/'') cs"

definition absolute :: "string \<Rightarrow> string \<Rightarrow> string \<Rightarrow> string" where
  "absolute home cwd p =
     (let expanded = (if p = ''~'' \<or> startsWith p ''~/'' \<or> startsWith p (''~'' @ [char_of (92 :: nat)])
                      then home @ drop 1 p else p)
      in if startsWith expanded ''/'' then expanded else cwd @ ''/'' @ expanded)"

definition normalizePath :: "string \<Rightarrow> string \<Rightarrow> string \<Rightarrow> string" where
  "normalizePath home cwd p = path_text (components (absolute home cwd p))"

definition isUnder :: "string \<Rightarrow> string \<Rightarrow> bool" where
  "isUnder child base =
     (child = base \<or> startsWith child (if endsWith base ''/'' then base else base @ ''/''))"

definition scope_list :: "PathScope \<Rightarrow> ScopeMode \<Rightarrow> string list" where
  "scope_list scope mode = (case mode of ReadMode \<Rightarrow> ps_read scope | WriteMode \<Rightarrow> ps_write scope)"

definition checkPath ::
  "string \<Rightarrow> string \<Rightarrow> string \<Rightarrow> PathScope \<Rightarrow> ScopeMode \<Rightarrow> string option" where
  "checkPath home cwd rawPath scope mode =
     (let p = normalizePath home cwd rawPath
      in case find (\<lambda>d. isUnder p (normalizePath home cwd d)) (ps_deny scope) of
           Some d \<Rightarrow> Some (''denied: '' @ rawPath @ '' is under a blocked path ('' @ d @ '')'')
         | None \<Rightarrow>
             let allow = scope_list scope mode
             in if allow = [] then None
                else if list_ex (\<lambda>a. isUnder p (normalizePath home cwd a)) allow then None
                else Some (''denied: '' @ rawPath @ '' is outside the allowed ''
                  @ (case mode of ReadMode \<Rightarrow> ''read'' | WriteMode \<Rightarrow> ''write'') @ '' paths''))"

datatype arg_value = StrArg string | ArrArg "string option list" | OtherArg

definition COMMON_PATH_KEYS :: "string list" where
  "COMMON_PATH_KEYS = [''path'', ''paths'', ''file'', ''filepath'', ''file_path'', ''filename'',
     ''dir'', ''directory'', ''source'', ''destination'', ''src'', ''dst'', ''target'']"

text \<open>Arguments as an object of values; an array keeps its string items (\<open>Some\<close>).\<close>

definition extractPaths :: "(string, arg_value) omap option \<Rightarrow> string list option \<Rightarrow> string list" where
  "extractPaths args pathArgKeys =
     (case args of
        None \<Rightarrow> []
      | Some obj \<Rightarrow>
          concat (map (\<lambda>k. case om_get obj k of
              Some (StrArg v) \<Rightarrow> [v]
            | Some (ArrArg vs) \<Rightarrow> List.map_filter (\<lambda>x. x) vs
            | _ \<Rightarrow> [])
          (case pathArgKeys of Some (k # ks) \<Rightarrow> k # ks | _ \<Rightarrow> COMMON_PATH_KEYS)))"

definition clean :: "string list \<Rightarrow> bool" where
  "clean cs \<longleftrightarrow> (\<forall>c \<in> set cs. c \<noteq> [] \<and> CHR ''/'' \<notin> set c)"

lemma split_char_parts: "p \<in> set (split_char c s) \<Longrightarrow> c \<notin> set p"
  by (induction s arbitrary: p) (auto split: list.splits if_splits)

lemma clean_step: "clean cs \<Longrightarrow> CHR ''/'' \<notin> set g \<Longrightarrow> clean (path_step cs g)"
  by (auto simp: path_step_def clean_def dest: in_set_butlastD)

lemma clean_components: "clean (components s)"
proof -
  have "clean (foldl path_step cs segs)" if "clean cs" "\<forall>g \<in> set segs. CHR ''/'' \<notin> set g" for cs segs
    using that by (induction segs arbitrary: cs) (simp_all add: clean_step)
  moreover have "\<forall>g \<in> set (split_char (CHR ''/'') s). CHR ''/'' \<notin> set g"
    using split_char_parts by blast
  moreover have "clean []" by (simp add: clean_def)
  ultimately show ?thesis unfolding components_def by blast
qed

lemma split_join_append:
  "ps \<noteq> [] \<Longrightarrow> \<forall>p \<in> set ps. c \<notin> set p \<Longrightarrow>
   split_char c (join_char c ps @ c # s) = ps @ split_char c s"
  by (induction c ps rule: join_char.induct) (auto simp: split_char_append)

lemma join_char_append:
  "ps \<noteq> [] \<Longrightarrow> qs \<noteq> [] \<Longrightarrow> join_char c (ps @ qs) = join_char c ps @ c # join_char c qs"
  by (induction c ps rule: join_char.induct) (auto simp: neq_Nil_conv)

text \<open>Being under a base is having its components as a prefix, so \<open>/a/bcd\<close> is not under \<open>/a/b\<close>.\<close>

lemma isUnder_components:
  assumes "clean ps" and "clean bs"
  shows "isUnder (path_text ps) (path_text bs) \<longleftrightarrow> prefix bs ps"
proof (cases "bs = []")
  case True
  then show ?thesis
    by (simp add: isUnder_def path_text_def startsWith_def endsWith_def suffix_def)
next
  case False
  have nb: "\<forall>b \<in> set bs. CHR ''/'' \<notin> set b" and np: "\<forall>p \<in> set ps. CHR ''/'' \<notin> set p"
    using assms by (auto simp: clean_def)
  have last: "join_char (CHR ''/'') bs \<noteq> [] \<and> last (join_char (CHR ''/'') bs) \<noteq> CHR ''/''"
    using False assms(2)
  proof (induction "CHR ''/''" bs rule: join_char.induct)
    case (2 p)
    then show ?case by (auto simp: clean_def) (metis last_in_set)
  next
    case (3 p q ps)
    then show ?case by (auto simp: clean_def)
  qed simp
  then have base: "\<not> endsWith (path_text bs) ''/''"
    by (auto simp: endsWith_def path_text_def suffix_def)
       (metis append_self_conv2 last_ConsR last_snoc snoc_eq_iff_butlast)
  show ?thesis
  proof
    assume "isUnder (path_text ps) (path_text bs)"
    then consider "join_char (CHR ''/'') ps = join_char (CHR ''/'') bs"
      | s where "join_char (CHR ''/'') ps = join_char (CHR ''/'') bs @ CHR ''/'' # s"
      using base by (auto simp: isUnder_def path_text_def startsWith_def prefix_def)
    then show "prefix bs ps"
    proof cases
      case 1
      then have "ps \<noteq> []" using last by auto
      then have "ps = bs" using 1 False nb np by (metis split_join_char)
      then show ?thesis by simp
    next
      case 2
      then have "ps \<noteq> []" by auto
      then have "ps = bs @ split_char (CHR ''/'') s"
        using 2 np by (metis split_join_char split_join_append [OF False nb])
      then show ?thesis by (simp add: prefix_def)
    qed
  next
    assume "prefix bs ps"
    then obtain rs where rs: "ps = bs @ rs" by (auto simp: prefix_def)
    show "isUnder (path_text ps) (path_text bs)"
    proof (cases "rs = []")
      case True
      then show ?thesis by (simp add: isUnder_def rs)
    next
      case False
      from join_char_append [OF \<open>bs \<noteq> []\<close> this, of "CHR ''/''"] base rs show ?thesis
        by (simp add: isUnder_def path_text_def startsWith_def)
    qed
  qed
qed

text \<open>
  A path is allowed exactly when, component by component of the resolved paths, no denied
  directory contains it and, if the mode has an allow list, some allowed directory does: \<open>..\<close>,
  \<open>.\<close>, doubled separators, \<open>~\<close> and relative spellings cannot bypass a deny, a sibling with a
  common name prefix is not covered, and deny wins over allow.
\<close>

theorem scope_by_components:
  "(checkPath home cwd p scope mode = None)
   = (list_all (\<lambda>d. \<not> prefix (components (absolute home cwd d)) (components (absolute home cwd p)))
        (ps_deny scope)
      \<and> (scope_list scope mode = []
         \<or> list_ex (\<lambda>a. prefix (components (absolute home cwd a)) (components (absolute home cwd p)))
             (scope_list scope mode)))"
  by (auto simp: checkPath_def Let_def normalizePath_def isUnder_components clean_components
      find_None_iff find_Some_iff list_all_iff list_ex_iff split: option.splits ScopeMode.splits)

end
