(* ===== verification/Authz.thy ===== *)
theory Authz
  imports Torq_Prelude
begin

text \<open>
  Command authorization, \<open>packages/gateway/src/authz.ts\<close>: the seat roles, the surface layer of the
  operator seat and the default-deny decision on the client commands of
  \<open>packages/contracts/src/commands.ts\<close>. Of a command only its action and the fields the decision
  reads are kept; the live reads (\<open>currentRole\<close>, \<open>holdsAuthority\<close>, \<open>lookupTaskSession\<close>) are the
  values and functions of the context at decision time.
\<close>

datatype Role = Operator | Channel | Node

datatype memory_op = SHOW | FORGET_SESSION

datatype ClientCommand =
    SUBMIT_PROMPT | APPROVE_SKILL | GET_SKILL_DRAFT | APPROVE_TOOL | CANCEL_TASK string
  | MEMORY memory_op | LIST_RECEIPTS | LIST_AGENTS | LIST_AGENT_PROVIDERS | CREATE_AGENT
  | UPDATE_AGENT_PROFILE | SET_LOCAL_AGENT_AUTOSTART | GET_RECEIPT | GET_COST_SUMMARY
  | PREVIEW_ROUTE | LIST_APPROVALS | GET_SAFE_EXPORT | LIST_CHANNELS | LIST_CHANNEL_MEMBERS
  | SET_CHANNEL_EXTERNAL_EXPORT_POLICY | GET_CHANNEL_TIMELINE | ACK_CHANNEL_CURSOR
  | CREATE_ROOM_JOB | GET_ROOM_JOB | GET_ROOM_JOB_ARTIFACT | LIST_ROOM_JOBS | CANCEL_ROOM_JOB
  | ADD_ROOM_JOB_FACTS | START_ROOM_JOB | POST_CHANNEL_MESSAGE | SET_AUTOREPLY_STOP
  | CREATE_SCHEDULE | SET_SCHEDULE_STATE | LIST_SCHEDULES | ADD_CHANNEL_MEMBER
  | REMOVE_CHANNEL_MEMBER

datatype SurfaceRole = OperatorSurface | AgentSurface | AutomationSurface
datatype Authority = Approve | Cancel | Delegate

record SurfaceAuthzContext =
  su_currentRole :: "SurfaceRole option"
  su_holdsAuthority :: "Authority \<Rightarrow> bool"

record AuthzContext =
  cx_lookupTaskSession :: "string \<Rightarrow> string option"
  cx_sessionId :: string
  cx_surface :: "SurfaceAuthzContext option"
  cx_agentCollabWrite :: bool

datatype AuthzDecision =
    ALLOW | DENY_SURFACE_NOT_OPERATOR | DENY_AUTHORITY | DENY_NOT_PERMITTED | DENY_NOT_OWNED

definition delegate_command :: "ClientCommand \<Rightarrow> bool" where
  "delegate_command cmd \<longleftrightarrow> cmd = CREATE_AGENT \<or> cmd = UPDATE_AGENT_PROFILE \<or> cmd = LIST_AGENTS
     \<or> cmd = SET_LOCAL_AGENT_AUTOSTART \<or> cmd = ADD_CHANNEL_MEMBER \<or> cmd = REMOVE_CHANNEL_MEMBER"

definition authorizeOperator :: "ClientCommand \<Rightarrow> AuthzContext \<Rightarrow> AuthzDecision" where
  "authorizeOperator cmd ctx =
     (if delegate_command cmd then
        (case cx_surface ctx of
           None \<Rightarrow> DENY_AUTHORITY
         | Some surface \<Rightarrow>
             if su_currentRole surface \<noteq> Some OperatorSurface then DENY_SURFACE_NOT_OPERATOR
             else if su_holdsAuthority surface Delegate then ALLOW else DENY_AUTHORITY)
      else case cx_surface ctx of
        None \<Rightarrow> ALLOW
      | Some surface \<Rightarrow>
          if cmd = LIST_AGENT_PROVIDERS then
            (if su_currentRole surface = Some OperatorSurface then ALLOW
             else DENY_SURFACE_NOT_OPERATOR)
          else if cmd = APPROVE_TOOL \<or> cmd = APPROVE_SKILL then
            (if su_currentRole surface \<noteq> Some OperatorSurface then DENY_SURFACE_NOT_OPERATOR
             else if \<not> su_holdsAuthority surface Approve then DENY_AUTHORITY
             else ALLOW)
          else ALLOW)"

fun authorizeChannel :: "ClientCommand \<Rightarrow> AuthzContext \<Rightarrow> AuthzDecision" where
  "authorizeChannel SUBMIT_PROMPT ctx = ALLOW"
| "authorizeChannel (MEMORY op) ctx = (if op = SHOW then ALLOW else DENY_NOT_PERMITTED)"
| "authorizeChannel (CANCEL_TASK taskId) ctx =
     (case cx_lookupTaskSession ctx taskId of
        None \<Rightarrow> DENY_NOT_OWNED
      | Some owner \<Rightarrow> if owner = cx_sessionId ctx then ALLOW else DENY_NOT_OWNED)"
| "authorizeChannel _ ctx = DENY_NOT_PERMITTED"

definition authorize :: "Role \<Rightarrow> ClientCommand \<Rightarrow> AuthzContext \<Rightarrow> AuthzDecision" where
  "authorize role cmd ctx =
     (case role of
        Operator \<Rightarrow> authorizeOperator cmd ctx
      | Node \<Rightarrow> if cmd = POST_CHANNEL_MESSAGE \<and> cx_agentCollabWrite ctx then ALLOW
                else DENY_NOT_PERMITTED
      | Channel \<Rightarrow> authorizeChannel cmd ctx)"

text \<open>
  Default deny off the operator seat: a channel seat may submit prompts, show its memory and
  cancel tasks of its own session, a node seat may post a channel message when its agent
  participation holds, and every other command of the protocol is denied to both, whatever the
  surface holds.
\<close>

theorem seat_allow_list:
  "(authorize Channel cmd ctx = ALLOW)
     = (cmd = SUBMIT_PROMPT \<or> cmd = MEMORY SHOW
        \<or> (\<exists>t. cmd = CANCEL_TASK t \<and> cx_lookupTaskSession ctx t = Some (cx_sessionId ctx)))
   \<and> (authorize Node cmd ctx = ALLOW) = (cmd = POST_CHANNEL_MESSAGE \<and> cx_agentCollabWrite ctx)"
  by (cases cmd) (auto simp: authorize_def split: option.splits)

text \<open>What a surface may lose without a command becoming allowed.\<close>

definition weaker_surface :: "SurfaceAuthzContext \<Rightarrow> SurfaceAuthzContext \<Rightarrow> bool" where
  "weaker_surface s t \<longleftrightarrow>
     (su_currentRole s = su_currentRole t \<or> su_currentRole s \<noteq> Some OperatorSurface)
     \<and> (\<forall>a \<in> {Approve, Cancel, Delegate}. su_holdsAuthority s a \<le> su_holdsAuthority t a)"

text \<open>
  Operator authority is intersected with the presenting surface: approvals, agent and
  membership mutations need a surface that is operator-role now and holds the matching authority,
  a surface that loses its role or an authority never gains a command, and execution commands
  outside those classes are unaffected.
\<close>

theorem operator_intersection:
  "(authorize Operator cmd (ctx\<lparr>cx_surface := Some s\<rparr>) = ALLOW)
     = ((delegate_command cmd \<and> su_currentRole s = Some OperatorSurface \<and> su_holdsAuthority s Delegate)
        \<or> (cmd \<in> {APPROVE_TOOL, APPROVE_SKILL} \<and> su_currentRole s = Some OperatorSurface
            \<and> su_holdsAuthority s Approve)
        \<or> (cmd = LIST_AGENT_PROVIDERS \<and> su_currentRole s = Some OperatorSurface)
        \<or> \<not> (delegate_command cmd \<or> cmd \<in> {APPROVE_TOOL, APPROVE_SKILL, LIST_AGENT_PROVIDERS}))
   \<and> (weaker_surface s t \<and> authorize Operator cmd (ctx\<lparr>cx_surface := Some s\<rparr>) = ALLOW
        \<longrightarrow> authorize Operator cmd (ctx\<lparr>cx_surface := Some t\<rparr>) = ALLOW)"
proof -
  have a: "(authorize Operator cmd (ctx\<lparr>cx_surface := Some s\<rparr>) = ALLOW)
     = ((delegate_command cmd \<and> su_currentRole s = Some OperatorSurface \<and> su_holdsAuthority s Delegate)
        \<or> (cmd \<in> {APPROVE_TOOL, APPROVE_SKILL} \<and> su_currentRole s = Some OperatorSurface
            \<and> su_holdsAuthority s Approve)
        \<or> (cmd = LIST_AGENT_PROVIDERS \<and> su_currentRole s = Some OperatorSurface)
        \<or> \<not> (delegate_command cmd \<or> cmd \<in> {APPROVE_TOOL, APPROVE_SKILL, LIST_AGENT_PROVIDERS}))" for s
    by (auto simp: authorize_def authorizeOperator_def delegate_command_def)
  show ?thesis unfolding a by (auto simp: weaker_surface_def)
qed

definition example_surface :: SurfaceAuthzContext where
  "example_surface = \<lparr>su_currentRole = Some OperatorSurface, su_holdsAuthority = (\<lambda>a. a = Approve)\<rparr>"

definition example_context :: AuthzContext where
  "example_context = \<lparr>cx_lookupTaskSession = (\<lambda>t. if t = ''t1'' then Some ''s1'' else None),
     cx_sessionId = ''s1'', cx_surface = Some example_surface, cx_agentCollabWrite = False\<rparr>"

theorem operator_intersection_witness:
  "authorize Operator APPROVE_TOOL
     (example_context\<lparr>cx_surface := Some (example_surface\<lparr>su_holdsAuthority := \<lambda>a. True\<rparr>)\<rparr>) = ALLOW
   \<and> authorize Operator CREATE_AGENT (example_context\<lparr>cx_surface := Some example_surface\<rparr>) \<noteq> ALLOW"
proof -
  have "weaker_surface example_surface (example_surface\<lparr>su_holdsAuthority := \<lambda>a. True\<rparr>)"
    by (simp add: weaker_surface_def example_surface_def)
  moreover have "\<not> su_holdsAuthority example_surface Delegate" "delegate_command CREATE_AGENT"
      "su_currentRole example_surface = Some OperatorSurface" "su_holdsAuthority example_surface Approve"
    by (simp_all add: example_surface_def delegate_command_def)
  ultimately show ?thesis
    using operator_intersection [of APPROVE_TOOL example_surface example_context
        "example_surface\<lparr>su_holdsAuthority := \<lambda>a. True\<rparr>"]
      operator_intersection [of CREATE_AGENT example_surface example_context example_surface]
    by simp
qed

text \<open>
  Without a surface layer the operator seat is not a blanket allow: the agent and membership
  mutations are denied and everything else is allowed.
\<close>

theorem operator_without_surface:
  "authorize Operator cmd (ctx\<lparr>cx_surface := None\<rparr>)
   = (if cmd \<in> {CREATE_AGENT, UPDATE_AGENT_PROFILE, LIST_AGENTS, SET_LOCAL_AGENT_AUTOSTART,
                ADD_CHANNEL_MEMBER, REMOVE_CHANNEL_MEMBER}
      then DENY_AUTHORITY else ALLOW)"
  by (simp add: authorize_def authorizeOperator_def delegate_command_def)

end
