(* ===== verification/Surface_Security.thy ===== *)
theory Surface_Security
  imports Authz
begin

text \<open>
  The enforcement projection of surfaces in the gateway database,
  \<open>packages/gateway/src/surfaceSecurity.ts\<close>: activation, deny-first revocation, control-plane
  authorities with their epoch match and the immutable profile delegations, and the start-up repair
  of the operator surface in \<open>collabIdentity.ts\<close>. Rows are records, tables row lists; times are
  integers; a thrown error leaves the database as it was.
\<close>

subsection \<open>Tables\<close>

datatype SurfaceKind = Desktop | Mobile | Http | Telegram | Slack | Automation

definition NON_OPERATOR_KINDS :: "SurfaceKind set" where
  "NON_OPERATOR_KINDS = {Telegram, Slack, Automation}"

datatype RowState = Active | Revoked

record surface_row =
  sf_id :: string
  sf_principal :: string
  sf_kind :: SurfaceKind
  sf_role :: SurfaceRole
  sf_state :: RowState
  sf_authEpoch :: int
  sf_classes :: "string list"
  sf_ops :: "string list"
  sf_capabilityRevision :: int
  sf_sourceRevision :: string
  sf_activatedAt :: int
  sf_revokedAt :: "int option"

record authority_row =
  au_grantId :: string
  au_surface :: string
  au_authority :: Authority
  au_grantedAt :: int
  au_epoch :: int
  au_revokedAt :: "int option"

record delegation_row =
  dl_id :: string
  dl_surface :: string
  dl_profile :: string
  dl_revision :: int
  dl_schemaVersion :: string
  dl_profileVersion :: int
  dl_registryVersion :: string
  dl_policyHash :: string
  dl_registryHash :: string
  dl_grantedAt :: int
  dl_revokedAt :: "int option"

record security_db =
  db_surfaces :: "surface_row list"
  db_authorities :: "authority_row list"
  db_delegations :: "delegation_row list"

definition empty_security_db :: security_db where
  "empty_security_db = \<lparr>db_surfaces = [], db_authorities = [], db_delegations = []\<rparr>"

datatype AuthorityError =
    CHANNEL_CANNOT_BE_OPERATOR | INVALID_AUTH_EPOCH | INVALID_CAPABILITY_REVISION
  | AUTHORITY_IN_CAPABILITY | INVALID_CAPABILITY_CLASS | NO_LIVE_PROJECTION
  | CT2_NOT_OPERATOR_ROLE | CT2_CHANNEL_KIND | AUTHORITY_ALREADY_HELD
  | INVALID_DELEGATION_REVISION | CONSTRAINT_VIOLATED

subsection \<open>Activation and revocation\<close>

record ActivateSurfaceParams =
  ap_surface :: string
  ap_principal :: string
  ap_kind :: SurfaceKind
  ap_role :: SurfaceRole
  ap_classes :: "string list"
  ap_ops :: "string list"
  ap_authEpoch :: int
  ap_capabilityRevision :: int
  ap_sourceRevision :: string

definition safe_positive :: "int \<Rightarrow> bool" where
  "safe_positive n \<longleftrightarrow> 0 < n \<and> n \<le> 9007199254740991"

definition class_error :: "string \<Rightarrow> AuthorityError option" where
  "class_error cls =
     (if cls \<in> {''approve'', ''cancel'', ''delegate''} then Some AUTHORITY_IN_CAPABILITY
      else if cls \<notin> {''read'', ''write'', ''exec'', ''send''} then Some INVALID_CAPABILITY_CLASS
      else None)"

definition surface_row_of :: "security_db \<Rightarrow> string \<Rightarrow> surface_row option" where
  "surface_row_of db sid = tbl_get (\<lambda>r. sf_id r = sid) (db_surfaces db)"

definition upsert_surface :: "surface_row \<Rightarrow> surface_row list \<Rightarrow> surface_row list" where
  "upsert_surface new t =
     (case tbl_get (\<lambda>r. sf_id r = sf_id new) t of
        None \<Rightarrow> t @ [new]
      | Some _ \<Rightarrow> tbl_update (\<lambda>r. sf_id r = sf_id new) (\<lambda>_. new) t)"

definition activation_refused :: "ActivateSurfaceParams \<Rightarrow> AuthorityError option" where
  "activation_refused p =
     (if ap_role p = OperatorSurface \<and> ap_kind p \<in> NON_OPERATOR_KINDS
      then Some CHANNEL_CANNOT_BE_OPERATOR
      else if \<not> safe_positive (ap_authEpoch p) then Some INVALID_AUTH_EPOCH
      else if \<not> safe_positive (ap_capabilityRevision p) then Some INVALID_CAPABILITY_REVISION
      else case List.map_filter class_error (ap_classes p) of [] \<Rightarrow> None | e # _ \<Rightarrow> Some e)"

definition effective_epoch :: "security_db \<Rightarrow> ActivateSurfaceParams \<Rightarrow> int" where
  "effective_epoch db p =
     (case surface_row_of db (ap_surface p) of
        None \<Rightarrow> ap_authEpoch p
      | Some previous \<Rightarrow>
          if sf_role previous \<noteq> ap_role p then max (ap_authEpoch p) (sf_authEpoch previous + 1)
          else ap_authEpoch p)"

definition activateSurfaceProjection ::
  "int \<Rightarrow> ActivateSurfaceParams \<Rightarrow> security_db \<Rightarrow> AuthorityError + security_db" where
  "activateSurfaceProjection now p db =
     (case activation_refused p of
        Some e \<Rightarrow> Inl e
      | None \<Rightarrow> Inr (db\<lparr>db_surfaces := upsert_surface
          \<lparr>sf_id = ap_surface p, sf_principal = ap_principal p, sf_kind = ap_kind p,
           sf_role = ap_role p, sf_state = Active, sf_authEpoch = effective_epoch db p,
           sf_classes = ap_classes p, sf_ops = ap_ops p,
           sf_capabilityRevision = ap_capabilityRevision p, sf_sourceRevision = ap_sourceRevision p,
           sf_activatedAt = now, sf_revokedAt = None\<rparr> (db_surfaces db)\<rparr>))"

definition liveSurfaceSecurity :: "security_db \<Rightarrow> string \<Rightarrow> surface_row option" where
  "liveSurfaceSecurity db sid =
     (case surface_row_of db sid of
        None \<Rightarrow> None
      | Some r \<Rightarrow> if sf_state r = Active then Some r else None)"

definition revokeSurfaceProjection ::
  "int \<Rightarrow> string \<Rightarrow> security_db \<Rightarrow> security_db \<times> bool \<times> nat \<times> int option" where
  "revokeSurfaceProjection now sid db =
     (case surface_row_of db sid of
        None \<Rightarrow> (db, False, 0, None)
      | Some row \<Rightarrow>
          let newEpoch = sf_authEpoch row + 1;
              hit = (\<lambda>a. au_surface a = sid \<and> au_revokedAt a = None)
          in (db\<lparr>db_surfaces := tbl_update (\<lambda>r. sf_id r = sid)
                   (\<lambda>r. r\<lparr>sf_state := Revoked, sf_revokedAt := Some now, sf_authEpoch := newEpoch\<rparr>)
                   (db_surfaces db),
                 db_authorities := tbl_update hit (\<lambda>a. a\<lparr>au_revokedAt := Some now\<rparr>)
                   (db_authorities db)\<rparr>,
              sf_state row = Active, tbl_changes hit (db_authorities db), Some newEpoch))"

subsection \<open>Authorities\<close>

definition live_authority :: "string \<Rightarrow> Authority \<Rightarrow> authority_row \<Rightarrow> bool" where
  "live_authority sid a r \<longleftrightarrow> au_surface r = sid \<and> au_authority r = a \<and> au_revokedAt r = None"

definition grantAuthority ::
  "int \<Rightarrow> string \<Rightarrow> Authority \<Rightarrow> string \<Rightarrow> security_db \<Rightarrow> AuthorityError + security_db" where
  "grantAuthority now sid a grantId db =
     (case liveSurfaceSecurity db sid of
        None \<Rightarrow> Inl NO_LIVE_PROJECTION
      | Some live \<Rightarrow>
          if a = Approve \<and> sf_role live \<noteq> OperatorSurface then Inl CT2_NOT_OPERATOR_ROLE
          else if a = Approve \<and> sf_kind live \<in> NON_OPERATOR_KINDS then Inl CT2_CHANNEL_KIND
          else if tbl_get (live_authority sid a) (db_authorities db) \<noteq> None
          then Inl AUTHORITY_ALREADY_HELD
          else if tbl_get (\<lambda>r. au_grantId r = grantId) (db_authorities db) \<noteq> None
          then Inl CONSTRAINT_VIOLATED
          else Inr (db\<lparr>db_authorities := db_authorities db @
            [\<lparr>au_grantId = grantId, au_surface = sid, au_authority = a, au_grantedAt = now,
              au_epoch = sf_authEpoch live, au_revokedAt = None\<rparr>]\<rparr>))"

definition revokeAuthority ::
  "int \<Rightarrow> string \<Rightarrow> Authority \<Rightarrow> security_db \<Rightarrow> security_db \<times> nat" where
  "revokeAuthority now sid a db =
     (db\<lparr>db_authorities := tbl_update (live_authority sid a) (\<lambda>r. r\<lparr>au_revokedAt := Some now\<rparr>)
         (db_authorities db)\<rparr>,
      tbl_changes (live_authority sid a) (db_authorities db))"

definition holdsAuthority :: "security_db \<Rightarrow> string \<Rightarrow> Authority \<Rightarrow> bool" where
  "holdsAuthority db sid a =
     (case liveSurfaceSecurity db sid of
        None \<Rightarrow> False
      | Some live \<Rightarrow>
          tbl_get (\<lambda>r. live_authority sid a r \<and> au_epoch r = sf_authEpoch live)
            (db_authorities db) \<noteq> None)"

subsection \<open>Delegations\<close>

definition live_delegation :: "string \<Rightarrow> string \<Rightarrow> delegation_row \<Rightarrow> bool" where
  "live_delegation sid pid r \<longleftrightarrow> dl_surface r = sid \<and> dl_profile r = pid \<and> dl_revokedAt r = None"

definition revoke_delegations ::
  "int \<Rightarrow> string \<Rightarrow> string \<Rightarrow> delegation_row list \<Rightarrow> delegation_row list" where
  "revoke_delegations now sid pid =
     tbl_update (live_delegation sid pid) (\<lambda>r. r\<lparr>dl_revokedAt := Some now\<rparr>)"

definition grantProfileDelegation ::
  "int \<Rightarrow> delegation_row \<Rightarrow> security_db \<Rightarrow> AuthorityError + security_db" where
  "grantProfileDelegation now p db =
     (if \<not> safe_positive (dl_revision p) then Inl INVALID_DELEGATION_REVISION
      else if liveSurfaceSecurity db (dl_surface p) = None then Inl NO_LIVE_PROJECTION
      else if tbl_get (\<lambda>r. dl_id r = dl_id p) (db_delegations db) \<noteq> None
      then Inl CONSTRAINT_VIOLATED
      else Inr (db\<lparr>db_delegations :=
        revoke_delegations now (dl_surface p) (dl_profile p) (db_delegations db)
        @ [p\<lparr>dl_grantedAt := now, dl_revokedAt := None\<rparr>]\<rparr>))"

definition revokeProfileDelegation ::
  "int \<Rightarrow> string \<Rightarrow> string \<Rightarrow> security_db \<Rightarrow> security_db \<times> nat" where
  "revokeProfileDelegation now sid pid db =
     (db\<lparr>db_delegations := revoke_delegations now sid pid (db_delegations db)\<rparr>,
      tbl_changes (live_delegation sid pid) (db_delegations db))"

definition liveProfileDelegation :: "security_db \<Rightarrow> string \<Rightarrow> string \<Rightarrow> delegation_row option" where
  "liveProfileDelegation db sid pid = tbl_get (live_delegation sid pid) (db_delegations db)"

definition delegationById :: "security_db \<Rightarrow> string \<Rightarrow> delegation_row option" where
  "delegationById db did = tbl_get (\<lambda>r. dl_id r = did) (db_delegations db)"

subsection \<open>The operator surface at start-up\<close>

text \<open>
  The repair branch of the operator's self-provisioning: the collab side has an active operator
  surface with an active credential; if the gateway has no live projection of it, it is activated.
\<close>

definition repairOperatorSurface ::
  "int \<Rightarrow> string \<Rightarrow> string \<Rightarrow> security_db \<Rightarrow> AuthorityError + security_db" where
  "repairOperatorSurface now sid operatorPrincipalId db =
     (if liveSurfaceSecurity db sid \<noteq> None then Inr db
      else activateSurfaceProjection now
        \<lparr>ap_surface = sid, ap_principal = operatorPrincipalId, ap_kind = Desktop,
         ap_role = OperatorSurface, ap_classes = [], ap_ops = [], ap_authEpoch = 1,
         ap_capabilityRevision = 1, ap_sourceRevision = sid\<rparr> db)"

text \<open>The surface context the server hands to the command authorization.\<close>

definition surface_context :: "security_db \<Rightarrow> string \<Rightarrow> SurfaceAuthzContext" where
  "surface_context db sid =
     \<lparr>su_currentRole = map_option sf_role (liveSurfaceSecurity db sid),
      su_holdsAuthority = holdsAuthority db sid\<rparr>"

subsection \<open>Invariant\<close>

definition one_live_authority :: "authority_row list \<Rightarrow> bool" where
  "one_live_authority t \<longleftrightarrow> (\<forall>sid a. length (filter (live_authority sid a) t) \<le> 1)"

definition one_live_delegation :: "delegation_row list \<Rightarrow> bool" where
  "one_live_delegation t \<longleftrightarrow> (\<forall>sid pid. length (filter (live_delegation sid pid) t) \<le> 1)"

definition security_ok :: "security_db \<Rightarrow> bool" where
  "security_ok db \<longleftrightarrow> key_unique sf_id (db_surfaces db) \<and> key_unique au_grantId (db_authorities db)
     \<and> key_unique dl_id (db_delegations db)
     \<and> (\<forall>r \<in> set (db_surfaces db). sf_role r = OperatorSurface \<longrightarrow> sf_kind r \<notin> NON_OPERATOR_KINDS)
     \<and> one_live_authority (db_authorities db) \<and> one_live_delegation (db_delegations db)"

datatype security_op =
    Activate int ActivateSurfaceParams
  | RevokeSurface int string
  | GrantAuth int string Authority string
  | RevokeAuth int string Authority
  | GrantDeleg int delegation_row
  | RevokeDeleg int string string
  | Repair int string string

definition keep :: "security_db \<Rightarrow> 'e + security_db \<Rightarrow> security_db" where
  "keep db r = (case r of Inl _ \<Rightarrow> db | Inr db' \<Rightarrow> db')"

fun apply_security :: "security_op \<Rightarrow> security_db \<Rightarrow> security_db" where
  "apply_security (Activate now p) db = keep db (activateSurfaceProjection now p db)"
| "apply_security (RevokeSurface now sid) db = fst (revokeSurfaceProjection now sid db)"
| "apply_security (GrantAuth now sid a g) db = keep db (grantAuthority now sid a g db)"
| "apply_security (RevokeAuth now sid a) db = fst (revokeAuthority now sid a db)"
| "apply_security (GrantDeleg now p) db = keep db (grantProfileDelegation now p db)"
| "apply_security (RevokeDeleg now sid pid) db = fst (revokeProfileDelegation now sid pid db)"
| "apply_security (Repair now sid pid) db = keep db (repairOperatorSurface now sid pid db)"

lemma one_live_after_stamp:
  "one_live_authority t \<Longrightarrow> one_live_authority (tbl_update H (\<lambda>r. r\<lparr>au_revokedAt := Some now\<rparr>) t)"
  unfolding one_live_authority_def
proof (intro allI)
  fix sid a
  assume "\<forall>sid a. length (filter (live_authority sid a) t) \<le> 1"
  moreover have "length (filter (live_authority sid a)
      (tbl_update H (\<lambda>r. r\<lparr>au_revokedAt := Some now\<rparr>) t)) \<le> length (filter (live_authority sid a) t)"
    by (rule filter_update_shrinks) (simp add: live_authority_def)
  ultimately show "length (filter (live_authority sid a)
      (tbl_update H (\<lambda>r. r\<lparr>au_revokedAt := Some now\<rparr>) t)) \<le> 1"
    using order_trans by blast
qed

lemma activate_cases:
  "activateSurfaceProjection now p db = Inr db' \<Longrightarrow>
   activation_refused p = None \<and> db_authorities db' = db_authorities db
   \<and> db_delegations db' = db_delegations db
   \<and> (\<exists>new. db_surfaces db' = upsert_surface new (db_surfaces db)
       \<and> sf_id new = ap_surface p \<and> sf_role new = ap_role p \<and> sf_kind new = ap_kind p
       \<and> sf_state new = Active \<and> sf_authEpoch new = effective_epoch db p)"
  by (auto simp: activateSurfaceProjection_def split: option.splits)

lemma key_unique_upsert: "key_unique sf_id t \<Longrightarrow> key_unique sf_id (upsert_surface new t)"
proof (cases "tbl_get (\<lambda>r. sf_id r = sf_id new) t")
  case None
  assume "key_unique sf_id t"
  with None show ?thesis
    unfolding upsert_surface_def tbl_get_None by (simp add: tbl_get_None key_unique_append None)
next
  case (Some r)
  assume u: "key_unique sf_id t"
  have "map sf_id (tbl_update (\<lambda>r. sf_id r = sf_id new) (\<lambda>_. new) t) = map sf_id t"
    by (auto simp: tbl_update_def)
  with u Some show ?thesis by (simp add: upsert_surface_def key_unique_def)
qed

lemma set_upsert: "set (upsert_surface new t) \<subseteq> insert new (set t)"
  by (auto simp: upsert_surface_def set_tbl_update split: option.splits if_splits)

lemma surface_row_upsert:
  assumes "key_unique sf_id t"
  shows "tbl_get (\<lambda>r. sf_id r = sid) (upsert_surface new t)
    = (if sid = sf_id new then Some new else tbl_get (\<lambda>r. sf_id r = sid) t)"
proof (cases "tbl_get (\<lambda>r. sf_id r = sf_id new) t")
  case None
  then have a: "upsert_surface new t = t @ [new]" by (simp add: upsert_surface_def)
  show ?thesis
  proof (cases "sid = sf_id new")
    case True
    with None show ?thesis by (simp add: a tbl_get_snoc)
  next
    case False
    then show ?thesis by (simp add: a tbl_get_snoc split: option.split)
  qed
next
  case (Some r)
  have "tbl_get (\<lambda>r. sf_id r = sid) (tbl_update (\<lambda>r. sf_id r = sf_id new) (\<lambda>_. new) t)
      = (if sid = sf_id new then (if \<exists>r \<in> set t. sf_id r = sid then Some new else None)
         else tbl_get (\<lambda>r. sf_id r = sid) t)"
    by (induction t) (auto simp: tbl_update_def tbl_get_def)
  with Some show ?thesis by (auto simp: upsert_surface_def dest!: tbl_get_Some)
qed

lemma activation_not_channel:
  "activation_refused p = None \<Longrightarrow> ap_role p = OperatorSurface \<Longrightarrow> ap_kind p \<notin> NON_OPERATOR_KINDS"
  by (auto simp: activation_refused_def split: if_splits)

lemma security_ok_activate:
  assumes "security_ok db"
  shows "security_ok (keep db (activateSurfaceProjection now p db))"
proof (cases "activateSurfaceProjection now p db")
  case (Inr db')
  from activate_cases [OF Inr] obtain new where n: "activation_refused p = None"
      "db_authorities db' = db_authorities db" "db_delegations db' = db_delegations db"
      "db_surfaces db' = upsert_surface new (db_surfaces db)" "sf_role new = ap_role p"
      "sf_kind new = ap_kind p" by blast
  have "sf_role new = OperatorSurface \<longrightarrow> sf_kind new \<notin> NON_OPERATOR_KINDS"
    using activation_not_channel [OF n(1)] n(5,6) by simp
  then have "\<forall>r \<in> set (upsert_surface new (db_surfaces db)). sf_role r = OperatorSurface \<longrightarrow>
      sf_kind r \<notin> NON_OPERATOR_KINDS"
    using assms set_upsert [of new "db_surfaces db"] unfolding security_ok_def by blast
  with assms n Inr show ?thesis by (simp add: keep_def security_ok_def key_unique_upsert)
qed (use assms in \<open>simp add: keep_def\<close>)

lemma security_ok_revoke: "security_ok db \<Longrightarrow> security_ok (fst (revokeSurfaceProjection now sid db))"
  by (auto simp: revokeSurfaceProjection_def security_ok_def Let_def key_unique_update set_tbl_update
      one_live_after_stamp split: option.splits if_splits)

lemma security_ok_grant:
  assumes "security_ok db"
  shows "security_ok (keep db (grantAuthority now sid a g db))"
proof (cases "grantAuthority now sid a g db")
  case (Inr db')
  then obtain e where db': "db' = db\<lparr>db_authorities := db_authorities db @
      [\<lparr>au_grantId = g, au_surface = sid, au_authority = a, au_grantedAt = now,
        au_epoch = e, au_revokedAt = None\<rparr>]\<rparr>"
    and none: "tbl_get (live_authority sid a) (db_authorities db) = None"
      "tbl_get (\<lambda>r. au_grantId r = g) (db_authorities db) = None"
    by (auto simp: grantAuthority_def split: option.splits if_splits)
  have "filter (live_authority sid a) (db_authorities db) = []"
    using none(1) by (simp add: tbl_get_None filter_empty_conv)
  with assms none(2) show ?thesis
    by (auto simp: Inr keep_def db' security_ok_def one_live_authority_def key_unique_append tbl_get_None)
      (auto simp: live_authority_def)
qed (use assms in \<open>simp add: keep_def\<close>)

lemma security_ok_revoke_authority:
  "security_ok db \<Longrightarrow> security_ok (fst (revokeAuthority now sid a db))"
  by (simp add: revokeAuthority_def security_ok_def key_unique_update one_live_after_stamp)

lemma one_live_after_revoke:
  "one_live_delegation t \<Longrightarrow> one_live_delegation (revoke_delegations now sid pid t)"
  unfolding one_live_delegation_def
proof (intro allI)
  fix sid' pid'
  assume "\<forall>sid pid. length (filter (live_delegation sid pid) t) \<le> 1"
  moreover have "length (filter (live_delegation sid' pid') (revoke_delegations now sid pid t))
      \<le> length (filter (live_delegation sid' pid') t)"
    unfolding revoke_delegations_def by (rule filter_update_shrinks) (simp add: live_delegation_def)
  ultimately show "length (filter (live_delegation sid' pid') (revoke_delegations now sid pid t)) \<le> 1"
    using order_trans by blast
qed

lemma none_live_after_revoke: "filter (live_delegation sid pid) (revoke_delegations now sid pid t) = []"
  unfolding revoke_delegations_def
  by (induction t) (simp_all add: tbl_update_def live_delegation_def)

lemma security_ok_grant_delegation:
  assumes "security_ok db"
  shows "security_ok (keep db (grantProfileDelegation now p db))"
proof (cases "grantProfileDelegation now p db")
  case (Inr db')
  then have db': "db' = db\<lparr>db_delegations :=
        revoke_delegations now (dl_surface p) (dl_profile p) (db_delegations db)
        @ [p\<lparr>dl_grantedAt := now, dl_revokedAt := None\<rparr>]\<rparr>"
    and none: "tbl_get (\<lambda>r. dl_id r = dl_id p) (db_delegations db) = None"
    by (auto simp: grantProfileDelegation_def split: if_splits)
  let ?t = "revoke_delegations now (dl_surface p) (dl_profile p) (db_delegations db)"
  have u: "key_unique dl_id ?t" "\<forall>r \<in> set ?t. dl_id r \<noteq> dl_id p"
    using assms none
    by (auto simp: security_ok_def revoke_delegations_def key_unique_update set_tbl_update tbl_get_None)
  have "one_live_delegation ?t" using assms by (simp add: security_ok_def one_live_after_revoke)
  then have "one_live_delegation (?t @ [p\<lparr>dl_grantedAt := now, dl_revokedAt := None\<rparr>])"
    using none_live_after_revoke [of "dl_surface p" "dl_profile p" now "db_delegations db"]
    by (auto simp: one_live_delegation_def) (auto simp: live_delegation_def)
  with assms u show ?thesis
    by (simp add: Inr keep_def db' security_ok_def key_unique_append)
qed (use assms in \<open>simp add: keep_def\<close>)

lemma security_ok_step: "security_ok db \<Longrightarrow> security_ok (apply_security op db)"
proof (cases op)
  case (RevokeDeleg now sid pid)
  assume "security_ok db"
  with RevokeDeleg show ?thesis
    by (auto simp: revokeProfileDelegation_def security_ok_def one_live_after_revoke)
      (simp add: revoke_delegations_def key_unique_update)
next
  case (Repair now sid pid)
  assume "security_ok db"
  with Repair show ?thesis
    by (auto simp: repairOperatorSurface_def security_ok_activate keep_def [of _ "Inr _"])
qed (simp_all add: security_ok_activate security_ok_revoke security_ok_grant
    security_ok_revoke_authority security_ok_grant_delegation)

lemma security_ok_empty: "security_ok empty_security_db"
  by (simp add: security_ok_def empty_security_db_def key_unique_def one_live_authority_def
      one_live_delegation_def)

text \<open>
  The enforcement tables keep their invariant under every sequence of operations: identifiers
  are unique, no channel or automation surface is ever operator-role, and a surface has at most one
  live row per authority and at most one live delegation per profile.
\<close>

theorem security_invariant:
  "security_ok (fold apply_security ops empty_security_db)"
proof -
  have "security_ok db \<Longrightarrow> security_ok (fold apply_security ops db)" for db
    by (induction ops arbitrary: db) (simp_all add: security_ok_step)
  then show ?thesis using security_ok_empty by blast
qed

subsection \<open>A revoked surface is powerless\<close>

lemma security_ok_unique: "security_ok db \<Longrightarrow> key_unique sf_id (db_surfaces db)"
  by (simp add: security_ok_def)

lemma surface_row_revoke:
  "surface_row_of (fst (revokeSurfaceProjection now sid db)) s
   = map_option (\<lambda>r. if s = sid then r\<lparr>sf_state := Revoked, sf_revokedAt := Some now,
        sf_authEpoch := sf_authEpoch r + 1\<rparr> else r) (surface_row_of db s)"
proof (cases "surface_row_of db sid")
  case None
  then show ?thesis by (auto simp: revokeSurfaceProjection_def map_option_case split: option.splits)
next
  case (Some row)
  let ?f = "\<lambda>r. r\<lparr>sf_state := Revoked, sf_revokedAt := Some now, sf_authEpoch := sf_authEpoch row + 1\<rparr>"
  have "tbl_get (\<lambda>r. sf_id r = s) (tbl_update (\<lambda>r. sf_id r = sid) ?f (db_surfaces db))
      = map_option (\<lambda>r. if sf_id r = sid then ?f r else r) (tbl_get (\<lambda>r. sf_id r = s) (db_surfaces db))"
    by (rule tbl_get_tbl_update) simp
  with Some show ?thesis
    by (auto simp: revokeSurfaceProjection_def surface_row_of_def Let_def map_option_case
        split: option.splits dest!: tbl_get_Some)
qed

lemma surface_row_activate:
  assumes "security_ok db" and "activateSurfaceProjection now p db = Inr db'"
  shows "\<exists>new. (\<forall>s. surface_row_of db' s = (if s = ap_surface p then Some new else surface_row_of db s))
    \<and> sf_role new = ap_role p \<and> sf_kind new = ap_kind p \<and> sf_state new = Active
    \<and> sf_authEpoch new = effective_epoch db p"
  using activate_cases [OF assms(2)] surface_row_upsert [OF security_ok_unique [OF assms(1)]]
  by (fastforce simp: surface_row_of_def)

fun touches :: "string \<Rightarrow> security_op \<Rightarrow> bool" where
  "touches sid (Activate _ p) = (ap_surface p = sid)"
| "touches sid (Repair _ s _) = (s = sid)"
| "touches sid _ = False"

lemma surface_row_other_ops:
  assumes "security_ok db" and "\<not> touches sid op"
  shows "surface_row_of (apply_security op db) sid
    = (case op of RevokeSurface now s \<Rightarrow> surface_row_of (fst (revokeSurfaceProjection now s db)) sid
       | _ \<Rightarrow> surface_row_of db sid)"
proof -
  have act: "surface_row_of (keep db (activateSurfaceProjection now p db)) sid = surface_row_of db sid"
    if "ap_surface p \<noteq> sid" for now p
    using that surface_row_activate [OF assms(1), of now p]
    by (cases "activateSurfaceProjection now p db") (auto simp: keep_def)
  show ?thesis
  proof (cases op)
    case (Repair now s pid)
    then show ?thesis using assms(2) act by (auto simp: repairOperatorSurface_def keep_def [of _ "Inr _"])
  qed (use assms(2) act in \<open>auto simp: keep_def grantAuthority_def revokeAuthority_def
      grantProfileDelegation_def revokeProfileDelegation_def surface_row_of_def
      split: option.splits\<close>)
qed

definition no_live :: "security_db \<Rightarrow> string \<Rightarrow> bool" where
  "no_live db sid \<longleftrightarrow> liveSurfaceSecurity db sid = None"

lemma no_live_step:
  assumes "security_ok db" and "no_live db sid" and "\<not> touches sid op"
  shows "no_live (apply_security op db) sid"
  using assms(2) surface_row_other_ops [OF assms(1,3)]
  by (auto simp: no_live_def liveSurfaceSecurity_def surface_row_revoke
      split: option.splits if_splits security_op.splits)

text \<open>
  Deny-first revocation is effective and lasting: once a surface's projection is revoked it has
  no live projection and holds no authority, so the command authorization denies it every approval
  and every agent or membership mutation, through any later operations that do not activate that
  surface again.
\<close>

theorem revoked_surface_powerless:
  assumes "\<not> list_ex (touches sid) ops"
  shows "let db = fold apply_security (pre @ RevokeSurface now sid # ops) empty_security_db in
    liveSurfaceSecurity db sid = None \<and> \<not> holdsAuthority db sid a
    \<and> (\<not> (delegate_command cmd \<or> cmd \<in> {APPROVE_TOOL, APPROVE_SKILL, LIST_AGENT_PROVIDERS})
       \<or> authorize Operator cmd (ctx\<lparr>cx_surface := Some (surface_context db sid)\<rparr>) \<noteq> ALLOW)"
proof -
  let ?db0 = "fold apply_security pre empty_security_db"
  have ok: "security_ok (fold apply_security xs db)" if "security_ok db" for xs db
    using that by (induction xs arbitrary: db) (simp_all add: security_ok_step)
  have ok0: "security_ok ?db0" by (rule ok [OF security_ok_empty])
  have "no_live (apply_security (RevokeSurface now sid) ?db0) sid"
    by (auto simp: no_live_def liveSurfaceSecurity_def surface_row_revoke split: option.splits)
  moreover have "no_live (fold apply_security xs db) sid"
    if "security_ok db" "no_live db sid" "\<not> list_ex (touches sid) xs" for xs db
    using that by (induction xs arbitrary: db) (simp_all add: security_ok_step no_live_step)
  ultimately have n: "no_live (fold apply_security (pre @ RevokeSurface now sid # ops) empty_security_db) sid"
    using assms security_ok_step [OF ok0, of "RevokeSurface now sid"] by simp
  then show ?thesis
    by (auto simp: Let_def no_live_def holdsAuthority_def surface_context_def authorize_def
        authorizeOperator_def)
qed

definition example_activation :: "SurfaceRole \<Rightarrow> int \<Rightarrow> ActivateSurfaceParams" where
  "example_activation role e = \<lparr>ap_surface = ''s'', ap_principal = ''p'', ap_kind = Desktop, ap_role = role,
     ap_classes = [''read''], ap_ops = [], ap_authEpoch = e, ap_capabilityRevision = 1,
     ap_sourceRevision = ''r''\<rparr>"

theorem revoked_surface_powerless_witness:
  "\<not> holdsAuthority (fold apply_security ([Activate 1 (example_activation OperatorSurface 1),
       GrantAuth 2 ''s'' Approve ''g''] @ RevokeSurface 3 ''s'' # [GrantAuth 4 ''s'' Approve ''h''])
     empty_security_db) ''s'' Approve"
  using revoked_surface_powerless [of "''s''" "[GrantAuth 4 ''s'' Approve ''h'']"
      "[Activate 1 (example_activation OperatorSurface 1), GrantAuth 2 ''s'' Approve ''g'']" 3]
  by (simp add: Let_def)

subsection \<open>Authority follows the role as long as epochs do not go back\<close>

fun never_back :: "security_op list \<Rightarrow> security_db \<Rightarrow> bool" where
  "never_back [] db = True"
| "never_back (op # ops) db =
     ((case op of
         Activate now p \<Rightarrow>
           (case surface_row_of db (ap_surface p) of None \<Rightarrow> True
            | Some row \<Rightarrow> sf_authEpoch row \<le> effective_epoch db p)
       | Repair now s pid \<Rightarrow> surface_row_of db s = None \<or> liveSurfaceSecurity db s \<noteq> None
       | _ \<Rightarrow> True)
      \<and> never_back ops (apply_security op db))"

definition authority_ok :: "security_db \<Rightarrow> bool" where
  "authority_ok db \<longleftrightarrow> (\<forall>r \<in> set (db_authorities db). au_revokedAt r = None \<longrightarrow>
     (\<exists>row. surface_row_of db (au_surface r) = Some row \<and> au_epoch r \<le> sf_authEpoch row
        \<and> (au_authority r = Approve \<and> au_epoch r = sf_authEpoch row \<longrightarrow> sf_role row = OperatorSurface)))"

lemma authority_ok_activate:
  assumes "security_ok db" and "authority_ok db" and "activateSurfaceProjection now p db = Inr db'"
    and "case surface_row_of db (ap_surface p) of None \<Rightarrow> True
         | Some row \<Rightarrow> sf_authEpoch row \<le> effective_epoch db p"
  shows "authority_ok db'"
  unfolding authority_ok_def
proof (intro ballI impI)
  fix r assume r: "r \<in> set (db_authorities db')" "au_revokedAt r = None"
  from surface_row_activate [OF assms(1,3)] obtain new where
    n: "\<forall>s. surface_row_of db' s = (if s = ap_surface p then Some new else surface_row_of db s)"
      "sf_role new = ap_role p" "sf_authEpoch new = effective_epoch db p" by blast
  have "db_authorities db' = db_authorities db" using activate_cases [OF assms(3)] by blast
  with r assms(2) obtain row where row: "surface_row_of db (au_surface r) = Some row"
      "au_epoch r \<le> sf_authEpoch row"
      "au_authority r = Approve \<and> au_epoch r = sf_authEpoch row \<longrightarrow> sf_role row = OperatorSurface"
    by (auto simp: authority_ok_def)
  show "\<exists>row. surface_row_of db' (au_surface r) = Some row \<and> au_epoch r \<le> sf_authEpoch row
      \<and> (au_authority r = Approve \<and> au_epoch r = sf_authEpoch row \<longrightarrow> sf_role row = OperatorSurface)"
  proof (cases "au_surface r = ap_surface p")
    case True
    have le: "sf_authEpoch row \<le> effective_epoch db p" using assms(4) row(1) True by simp
    have "ap_role p = OperatorSurface" if "au_authority r = Approve" "au_epoch r = effective_epoch db p"
    proof (cases "sf_role row = ap_role p")
      case True
      with le row that show ?thesis by simp
    next
      case False
      then have "sf_authEpoch row < effective_epoch db p"
        using row(1) True by (simp add: effective_epoch_def)
      with row(2) that show ?thesis by simp
    qed
    with le n row True show ?thesis by auto
  qed (use n row in auto)
qed

lemma authority_ok_stamp:
  "authority_ok db \<Longrightarrow> \<forall>s. surface_row_of db' s = surface_row_of db s \<Longrightarrow>
   db_authorities db' = tbl_update H (\<lambda>r. r\<lparr>au_revokedAt := Some now\<rparr>) (db_authorities db) \<Longrightarrow>
   authority_ok db'"
  by (auto simp: authority_ok_def set_tbl_update split: if_splits)

lemma authority_ok_revoke:
  assumes "authority_ok db"
  shows "authority_ok (fst (revokeSurfaceProjection now sid db))"
  unfolding authority_ok_def
proof (intro ballI impI)
  let ?db = "fst (revokeSurfaceProjection now sid db)"
  fix r assume r: "r \<in> set (db_authorities ?db)" "au_revokedAt r = None"
  have "r \<in> set (db_authorities db) \<and> (surface_row_of db sid = None \<or> au_surface r \<noteq> sid)"
    using r by (auto simp: revokeSurfaceProjection_def Let_def set_tbl_update split: option.splits if_splits)
  with r(2) assms show "\<exists>row. surface_row_of ?db (au_surface r) = Some row \<and> au_epoch r \<le> sf_authEpoch row
      \<and> (au_authority r = Approve \<and> au_epoch r = sf_authEpoch row \<longrightarrow> sf_role row = OperatorSurface)"
    by (fastforce simp: authority_ok_def surface_row_revoke)
qed

lemma authority_ok_grant:
  assumes "authority_ok db" and "grantAuthority now sid a g db = Inr db'"
  shows "authority_ok db'"
proof -
  from assms(2) obtain live where l: "liveSurfaceSecurity db sid = Some live"
      "a = Approve \<longrightarrow> sf_role live = OperatorSurface"
      "db' = db\<lparr>db_authorities := db_authorities db @ [\<lparr>au_grantId = g, au_surface = sid,
         au_authority = a, au_grantedAt = now, au_epoch = sf_authEpoch live, au_revokedAt = None\<rparr>]\<rparr>"
    by (auto simp: grantAuthority_def split: option.splits if_splits)
  have "surface_row_of db sid = Some live"
    using l(1) by (auto simp: liveSurfaceSecurity_def split: option.splits if_splits)
  with assms(1) l show ?thesis by (auto simp: authority_ok_def surface_row_of_def)
qed

lemma authority_ok_step:
  assumes "security_ok db" and "authority_ok db" and "never_back (op # ops) db"
  shows "authority_ok (apply_security op db)"
proof (cases op)
  case (Activate now p)
  then show ?thesis
    using assms authority_ok_activate [OF assms(1,2)]
    by (cases "activateSurfaceProjection now p db") (auto simp: keep_def)
next
  case (Repair now s pid)
  show ?thesis
  proof (cases "liveSurfaceSecurity db s = None")
    case True
    with Repair assms(3) have "surface_row_of db s = None" by simp
    with Repair True assms(2) show ?thesis
      using authority_ok_activate [OF assms(1,2), of now]
      by (auto simp: repairOperatorSurface_def keep_def split: sum.splits)
  qed (use Repair assms(2) in \<open>simp add: repairOperatorSurface_def keep_def\<close>)
next
  case (GrantAuth now sid a g)
  then show ?thesis
    using assms authority_ok_grant [OF assms(2), of now sid a g]
    by (cases "grantAuthority now sid a g db") (auto simp: keep_def)
next
  case (RevokeAuth now sid a)
  then show ?thesis
    using assms(2)
    by (auto simp: revokeAuthority_def surface_row_of_def intro!: authority_ok_stamp [OF assms(2)])
next
  case (RevokeSurface now sid)
  then show ?thesis using assms(2) by (simp add: authority_ok_revoke)
qed (use assms(2) in \<open>auto simp: keep_def grantProfileDelegation_def
    revokeProfileDelegation_def authority_ok_def surface_row_of_def\<close>)

text \<open>
  Approval authority follows the role: in any history whose activations never put a surface's
  epoch back, a surface that holds \<open>approve\<close> is operator-role and not of a channel or automation
  kind at that moment, so a demotion or a revocation ends the authority without anyone revoking the
  grant.
\<close>

theorem approve_follows_role:
  assumes "never_back ops empty_security_db"
    and "holdsAuthority (fold apply_security ops empty_security_db) sid Approve"
  shows "\<exists>live. liveSurfaceSecurity (fold apply_security ops empty_security_db) sid = Some live
    \<and> sf_role live = OperatorSurface \<and> sf_kind live \<notin> NON_OPERATOR_KINDS"
proof -
  let ?db = "fold apply_security ops empty_security_db"
  have "security_ok (fold apply_security ops db) \<and> authority_ok (fold apply_security ops db)"
    if "security_ok db" "authority_ok db" "never_back ops db" for db
    using that
  proof (induction ops arbitrary: db)
    case (Cons op ops)
    then show ?case using security_ok_step authority_ok_step by auto
  qed simp
  moreover have "authority_ok empty_security_db"
    by (simp add: authority_ok_def empty_security_db_def)
  ultimately have ok: "security_ok ?db" "authority_ok ?db"
    using assms(1) security_ok_empty by blast+
  from assms(2) obtain live r where l: "liveSurfaceSecurity ?db sid = Some live"
      and r: "tbl_get (\<lambda>r. live_authority sid Approve r \<and> au_epoch r = sf_authEpoch live)
          (db_authorities ?db) = Some r"
    by (auto simp: holdsAuthority_def split: option.splits)
  have row: "surface_row_of ?db sid = Some live"
    using l by (auto simp: liveSurfaceSecurity_def split: option.splits if_splits)
  from tbl_get_Some [OF r] have "sf_role live = OperatorSurface"
    using ok(2) row by (auto simp: authority_ok_def live_authority_def)
  moreover have "live \<in> set (db_surfaces ?db)"
    using row by (auto simp: surface_row_of_def dest: tbl_get_Some)
  ultimately show ?thesis using l ok(1) by (auto simp: security_ok_def)
qed

theorem approve_follows_role_witness:
  "\<exists>live. liveSurfaceSecurity (fold apply_security [Activate 1 (example_activation OperatorSurface 1),
       GrantAuth 2 ''s'' Approve ''g''] empty_security_db) ''s'' = Some live
     \<and> sf_role live = OperatorSurface \<and> sf_kind live \<notin> NON_OPERATOR_KINDS"
  by (rule approve_follows_role)
     (simp_all add: activateSurfaceProjection_def activation_refused_def example_activation_def
      safe_positive_def map_filter_def class_error_def upsert_surface_def tbl_get_def keep_def
      empty_security_db_def surface_row_of_def grantAuthority_def liveSurfaceSecurity_def
      NON_OPERATOR_KINDS_def live_authority_def holdsAuthority_def effective_epoch_def)

text \<open>
  Without that discipline the epoch does go back: an activation with an unchanged role stores
  the caller's epoch even when it is lower, so a demoted surface that is activated once more at its
  old epoch holds the \<open>approve\<close> grant of before the demotion again, in the agent role.
\<close>

theorem demoted_surface_regains_approve:
  "let ops = [Activate 1 (example_activation OperatorSurface 1), GrantAuth 2 ''s'' Approve ''g'',
              Activate 3 (example_activation AgentSurface 1)];
       demoted = fold apply_security ops empty_security_db;
       again = apply_security (Activate 4 (example_activation AgentSurface 1)) demoted
   in \<not> holdsAuthority demoted ''s'' Approve \<and> holdsAuthority again ''s'' Approve
      \<and> map_option sf_role (liveSurfaceSecurity again ''s'') = Some AgentSurface"
  by (simp add: activateSurfaceProjection_def activation_refused_def example_activation_def
      safe_positive_def map_filter_def class_error_def upsert_surface_def tbl_get_def tbl_update_def
      keep_def empty_security_db_def surface_row_of_def grantAuthority_def liveSurfaceSecurity_def
      NON_OPERATOR_KINDS_def live_authority_def holdsAuthority_def effective_epoch_def Let_def)

text \<open>
  The start-up repair undoes a committed deny: when an operator surface has been revoked in the
  gateway but the collab bookkeeping did not follow, the repair finds no live projection, takes it
  for missing and activates the surface again, at epoch 1 whatever epoch the revocation had reached.
\<close>

theorem repair_undoes_revocation:
  assumes "security_ok db" and "surface_row_of db sid = Some row" and "sf_role row = OperatorSurface"
  shows "\<exists>db' live. repairOperatorSurface now' sid pid (fst (revokeSurfaceProjection now sid db)) = Inr db'
    \<and> liveSurfaceSecurity db' sid = Some live \<and> sf_role live = OperatorSurface
    \<and> sf_authEpoch live = 1"
proof -
  let ?db = "fst (revokeSurfaceProjection now sid db)"
  have r: "surface_row_of ?db sid = Some (row\<lparr>sf_state := Revoked, sf_revokedAt := Some now,
      sf_authEpoch := sf_authEpoch row + 1\<rparr>)"
    using assms(2) by (simp add: surface_row_revoke)
  then have none: "liveSurfaceSecurity ?db sid = None" by (simp add: liveSurfaceSecurity_def)
  let ?p = "\<lparr>ap_surface = sid, ap_principal = pid, ap_kind = Desktop,
         ap_role = OperatorSurface, ap_classes = [], ap_ops = [], ap_authEpoch = 1,
         ap_capabilityRevision = 1, ap_sourceRevision = sid\<rparr>"
  obtain db' where a: "activateSurfaceProjection now' ?p ?db = Inr db'"
    by (simp add: activateSurfaceProjection_def activation_refused_def NON_OPERATOR_KINDS_def
        safe_positive_def map_filter_def)
  from surface_row_activate [OF security_ok_revoke [OF assms(1)] a] r assms(3) none a
  show ?thesis
    by (auto simp: repairOperatorSurface_def liveSurfaceSecurity_def effective_epoch_def)
qed

theorem repair_undoes_revocation_witness:
  "\<exists>db' live. repairOperatorSurface 9 ''s'' ''p'' (fst (revokeSurfaceProjection 8 ''s''
       (fold apply_security [Activate 1 (example_activation OperatorSurface 7)] empty_security_db))) = Inr db'
     \<and> liveSurfaceSecurity db' ''s'' = Some live \<and> sf_role live = OperatorSurface \<and> sf_authEpoch live = 1"
proof -
  let ?db = "fold apply_security [Activate 1 (example_activation OperatorSurface 7)] empty_security_db"
  have ok: "security_ok ?db"
    by (simp add: security_ok_def activateSurfaceProjection_def activation_refused_def
        example_activation_def safe_positive_def map_filter_def class_error_def upsert_surface_def
        tbl_get_def keep_def empty_security_db_def NON_OPERATOR_KINDS_def key_unique_def
        one_live_authority_def one_live_delegation_def)
  obtain row where "surface_row_of ?db ''s'' = Some row" "sf_role row = OperatorSurface"
    by (simp add: activateSurfaceProjection_def activation_refused_def
        example_activation_def safe_positive_def map_filter_def class_error_def upsert_surface_def
        tbl_get_def keep_def empty_security_db_def NON_OPERATOR_KINDS_def surface_row_of_def)
  then show ?thesis by (rule repair_undoes_revocation [OF ok])
qed

end
