(* ===== verification/Action_Hash.thy ===== *)
theory Action_Hash
  imports Json
begin

text \<open>
  The digests that bind an approval to one action, \<open>packages/gateway/src/approvalContext.ts\<close>:
  UTF-8 encoding, the length-prefixed framing shared by both digests, the argument validation and
  \<open>ACTIONHASH_V1\<close>, \<open>CTXHASH_V1\<close>. SHA-256 is an argument, a function from bytes to digests.
\<close>

type_synonym digest = "nat list"

subsection \<open>UTF-8\<close>

definition scalar :: "nat \<Rightarrow> bool" where
  "scalar c \<longleftrightarrow> c < 1114112 \<and> \<not> (55296 \<le> c \<and> c \<le> 57343)"

text \<open>A lone surrogate is written as the replacement character, as \<open>Buffer.from\<close> does.\<close>

definition utf8_bytes :: "nat \<Rightarrow> nat list" where
  "utf8_bytes c =
     (if c < 128 then [c]
      else if c < 2048 then [192 + c div 64, 128 + c mod 64]
      else if 55296 \<le> c \<and> c \<le> 57343 then [239, 191, 189]
      else if c < 65536 then [224 + c div 4096, 128 + c div 64 mod 64, 128 + c mod 64]
      else [240 + c div 262144, 128 + c div 4096 mod 64, 128 + c div 64 mod 64, 128 + c mod 64])"

definition utf8 :: "text_cp \<Rightarrow> nat list" where
  "utf8 s = concat (map utf8_bytes s)"

lemma div_mod_inj: "(c::nat) div k = d div k \<Longrightarrow> c mod k = d mod k \<Longrightarrow> c = d"
  by (metis div_mult_mod_eq)

lemma div64_steps: "(c::nat) div 4096 = c div 64 div 64" "(c::nat) div 262144 = c div 4096 div 64"
  by (simp_all add: div_mult2_eq [symmetric])

definition utf8_width :: "nat \<Rightarrow> nat" where
  "utf8_width b = (if b < 128 then 1 else if b < 224 then 2 else if b < 240 then 3 else 4)"

lemma utf8_width_head:
  "scalar c \<Longrightarrow> utf8_bytes c \<noteq> [] \<and> utf8_width (hd (utf8_bytes c)) = length (utf8_bytes c)"
proof -
  assume "scalar c"
  then have "c < 1114112" "\<not> (55296 \<le> c \<and> c \<le> 57343)" by (simp_all add: scalar_def)
  moreover have "c < 2048 \<Longrightarrow> c div 64 < 32" "c < 65536 \<Longrightarrow> c div 4096 < 16" by linarith+
  ultimately show ?thesis by (auto simp: utf8_bytes_def utf8_width_def)
qed

lemma length_utf8_bytes:
  "\<not> (55296 \<le> c \<and> c \<le> 57343) \<Longrightarrow> length (utf8_bytes c)
   = (if c < 128 then 1 else if c < 2048 then 2 else if c < 65536 then 3 else 4)"
  by (auto simp: utf8_bytes_def)

lemma utf8_Cons_nonempty: "utf8 (c # s) \<noteq> []"
  by (simp add: utf8_def utf8_bytes_def)

lemma utf8_bytes_inj:
  assumes "scalar c" and "scalar d" and "utf8_bytes c = utf8_bytes d"
  shows "c = d"
proof -
  have s: "\<not> (55296 \<le> c \<and> c \<le> 57343)" "\<not> (55296 \<le> d \<and> d \<le> 57343)"
    using assms(1,2) by (simp_all add: scalar_def)
  have two: "c div 64 = d div 64 \<Longrightarrow> c mod 64 = d mod 64 \<Longrightarrow> c = d" by (rule div_mod_inj)
  have three: "c div 4096 = d div 4096 \<Longrightarrow> c div 64 mod 64 = d div 64 mod 64 \<Longrightarrow> c mod 64 = d mod 64 \<Longrightarrow> c = d"
    unfolding div64_steps by (blast intro: div_mod_inj)
  have four: "c div 262144 = d div 262144 \<Longrightarrow> c div 4096 mod 64 = d div 4096 mod 64 \<Longrightarrow>
      c div 64 mod 64 = d div 64 mod 64 \<Longrightarrow> c mod 64 = d mod 64 \<Longrightarrow> c = d"
    unfolding div64_steps by (blast intro: div_mod_inj)
  have len: "length (utf8_bytes c) = length (utf8_bytes d)" using assms(3) by simp
  consider "c < 128" | "128 \<le> c" "c < 2048" | "2048 \<le> c" "c < 65536" | "65536 \<le> c" by linarith
  then show ?thesis
  proof cases
    case 1
    then have "d < 128" using len s by (simp add: length_utf8_bytes split: if_splits)
    with 1 assms(3) show ?thesis by (simp add: utf8_bytes_def)
  next
    case 2
    then have "128 \<le> d" "d < 2048" using len s by (simp_all add: length_utf8_bytes split: if_splits)
    with 2 assms(3) have "c div 64 = d div 64" "c mod 64 = d mod 64" by (simp_all add: utf8_bytes_def)
    then show ?thesis by (rule two)
  next
    case 3
    then have "2048 \<le> d" "d < 65536" using len s by (simp_all add: length_utf8_bytes split: if_splits)
    with 3 assms(3) s have "c div 4096 = d div 4096" "c div 64 mod 64 = d div 64 mod 64" "c mod 64 = d mod 64"
      by (simp_all add: utf8_bytes_def not_le)
    then show ?thesis by (rule three)
  next
    case 4
    then have "65536 \<le> d" using len s by (simp_all add: length_utf8_bytes split: if_splits)
    with 4 assms(3) have "c div 262144 = d div 262144" "c div 4096 mod 64 = d div 4096 mod 64"
        "c div 64 mod 64 = d div 64 mod 64" "c mod 64 = d mod 64"
      by (simp_all add: utf8_bytes_def)
    then show ?thesis by (rule four)
  qed
qed

lemma utf8_prefix_free:
  assumes "scalar c" and "scalar d" and "utf8_bytes c @ x = utf8_bytes d @ y"
  shows "c = d \<and> x = y"
proof -
  have "hd (utf8_bytes c) = hd (utf8_bytes d)"
    using assms utf8_width_head by (metis hd_append2)
  then have "length (utf8_bytes c) = length (utf8_bytes d)"
    using utf8_width_head assms(1,2) by metis
  with assms(3) have "utf8_bytes c = utf8_bytes d \<and> x = y" by simp
  then show ?thesis using utf8_bytes_inj [OF assms(1,2)] by simp
qed

lemma utf8_inj: "\<forall>c \<in> set s. scalar c \<Longrightarrow> \<forall>c \<in> set t. scalar c \<Longrightarrow> utf8 s = utf8 t \<Longrightarrow> s = t"
proof (induction s arbitrary: t)
  case Nil
  then show ?case by (cases t) (auto simp: utf8_def [of "[]"] utf8_Cons_nonempty [symmetric])
next
  case (Cons c s)
  then obtain d t' where t: "t = d # t'"
    using utf8_Cons_nonempty [of c s] by (cases t) (auto simp: utf8_def [of "[]"])
  have e: "utf8_bytes c @ utf8 s = utf8_bytes d @ utf8 t'" using Cons.prems(3) by (simp add: utf8_def t)
  have "c = d \<and> utf8 s = utf8 t'" using utf8_prefix_free [OF _ _ e] Cons.prems(1,2) t by simp
  then show ?case using Cons.IH [of t'] Cons.prems(1,2) t by simp
qed

subsection \<open>Framing\<close>

text \<open>\<open>None\<close> is the refusal of a length beyond 32 bits.\<close>

definition u32be :: "nat \<Rightarrow> nat list option" where
  "u32be n = (if n > 4294967295 then None
     else Some [n div 16777216 mod 256, n div 65536 mod 256, n div 256 mod 256, n mod 256])"

fun frame_rest :: "text_cp list \<Rightarrow> nat list option" where
  "frame_rest [] = Some []"
| "frame_rest (f # fs) =
     (case u32be (length (utf8 f)) of
        None \<Rightarrow> None
      | Some l \<Rightarrow> (case frame_rest fs of None \<Rightarrow> None | Some r \<Rightarrow> Some (l @ utf8 f @ r)))"

definition frameFields :: "string \<Rightarrow> text_cp list \<Rightarrow> nat list option" where
  "frameFields versionTag fields =
     (case frame_rest fields of None \<Rightarrow> None | Some r \<Rightarrow> Some (utf8 (cps versionTag) @ r))"

definition scalars :: "text_cp \<Rightarrow> bool" where
  "scalars s \<longleftrightarrow> (\<forall>c \<in> set s. scalar c)"

lemma scalars_cps: "scalars (cps s)"
proof -
  have "scalar (of_char c)" for c :: char
  proof -
    have "of_char c < (55296 :: nat)" using nat_of_char_less_256 [of c] by linarith
    moreover have "of_char c < (1114112 :: nat)" using nat_of_char_less_256 [of c] by linarith
    ultimately show ?thesis by (simp add: scalar_def)
  qed
  then show ?thesis by (simp add: scalars_def cps_def)
qed

lemma cps_inj: "cps s = cps t \<Longrightarrow> s = t"
  unfolding cps_def by (rule injD [OF inj_mapI]) (auto intro: injI)

lemma u32be_inj: "u32be m = Some l \<Longrightarrow> u32be n = Some l \<Longrightarrow> m = n"
proof -
  assume "u32be m = Some l" "u32be n = Some l"
  then have b: "m \<le> 4294967295" "n \<le> 4294967295"
    and e: "m div 16777216 mod 256 = n div 16777216 mod 256" "m div 65536 mod 256 = n div 65536 mod 256"
      "m div 256 mod 256 = n div 256 mod 256" "m mod 256 = n mod 256"
    by (auto simp: u32be_def split: if_splits)
  have "m div 16777216 = n div 16777216" using e(1) b by simp
  then have "m div 65536 div 256 = n div 65536 div 256" by (simp add: div_mult2_eq [symmetric])
  with e(2) have "m div 65536 = n div 65536" by (blast intro: div_mod_inj)
  then have "m div 256 div 256 = n div 256 div 256" by (simp add: div_mult2_eq [symmetric])
  with e(3) have "m div 256 = n div 256" by (blast intro: div_mod_inj)
  with e(4) show "m = n" by (blast intro: div_mod_inj)
qed

lemma u32be_length: "u32be n = Some l \<Longrightarrow> length l = 4"
  by (auto simp: u32be_def split: if_splits)

lemma frame_rest_inj:
  "length fs = length gs \<Longrightarrow> list_all scalars fs \<Longrightarrow> list_all scalars gs \<Longrightarrow>
   frame_rest fs = Some r \<Longrightarrow> frame_rest gs = Some r \<Longrightarrow> fs = gs"
proof (induction fs gs arbitrary: r rule: list_induct2)
  case (Cons f fs g gs)
  from Cons.prems obtain l l' x x' where
    l: "u32be (length (utf8 f)) = Some l" "u32be (length (utf8 g)) = Some l'"
    and x: "frame_rest fs = Some x" "frame_rest gs = Some x'"
    and e: "l @ utf8 f @ x = l' @ utf8 g @ x'"
    by (auto split: option.splits)
  have "l = l'" using e u32be_length [OF l(1)] u32be_length [OF l(2)] by simp
  then have "length (utf8 f) = length (utf8 g)" using l by (auto intro: u32be_inj)
  with e \<open>l = l'\<close> have "utf8 f = utf8 g" "x = x'" by simp_all
  then show ?case using Cons.IH [of x] Cons.prems x utf8_inj [of f g] by (simp add: scalars_def)
qed simp

text \<open>
  The framing of the digests loses nothing: two lists of as many well-formed fields under the
  same version tag give the same bytes only when they are the same fields, so no value can be moved
  from one field into another and no two actions share a preimage.
\<close>

theorem framing_injective:
  assumes "length fs = length gs" and "list_all scalars fs" and "list_all scalars gs"
    and "frameFields v fs \<noteq> None" and "frameFields v fs = frameFields v gs"
  shows "fs = gs"
proof -
  from assms(4,5) obtain r where "frame_rest fs = Some r" "frame_rest gs = Some r"
    by (auto simp: frameFields_def split: option.splits)
  then show ?thesis by (rule frame_rest_inj [OF assms(1-3)])
qed

theorem framing_injective_witness:
  "frameFields ''V'' [cps ''a'', cps ''bc''] \<noteq> frameFields ''V'' [cps ''ab'', cps ''c'']"
proof
  assume e: "frameFields ''V'' [cps ''a'', cps ''bc''] = frameFields ''V'' [cps ''ab'', cps ''c'']"
  have "[cps ''a'', cps ''bc''] = [cps ''ab'', cps ''c'']"
    by (rule framing_injective [OF _ _ _ _ e])
       (simp_all add: frameFields_def u32be_def utf8_def utf8_bytes_def cps_def scalars_def scalar_def)
  then show False by (simp add: cps_def)
qed

subsection \<open>Arguments and the two digests\<close>

datatype ContextError =
    ARGS_ABSENT | ARGS_NOT_PLAIN_OBJECT | ARGS_NON_FINITE | ARGS_UNDEFINED_MEMBER | ARGS_FUNCTION
  | ARGS_SYMBOL | ARGS_BIGINT | ARGS_SPARSE_ARRAY | ARGS_NOT_CANONICALIZABLE | FIELD_TOO_LONG

fun first_error :: "'e option list \<Rightarrow> 'e option" where
  "first_error [] = None"
| "first_error (Some e # _) = Some e"
| "first_error (None # es) = first_error es"

text \<open>The plain-JSON walk; values of the model are acyclic and their objects plain.\<close>

fun assertAcyclicPlain :: "jval \<Rightarrow> ContextError option" where
  "assertAcyclicPlain JNull = None"
| "assertAcyclicPlain (JStr _) = None"
| "assertAcyclicPlain (JBool _) = None"
| "assertAcyclicPlain (JNum n) = (case n of Fin _ \<Rightarrow> None | _ \<Rightarrow> Some ARGS_NON_FINITE)"
| "assertAcyclicPlain JUndefined = Some ARGS_UNDEFINED_MEMBER"
| "assertAcyclicPlain JFunction = Some ARGS_FUNCTION"
| "assertAcyclicPlain JSymbol = Some ARGS_SYMBOL"
| "assertAcyclicPlain JBigInt = Some ARGS_BIGINT"
| "assertAcyclicPlain (JArr xs) =
     first_error (map (\<lambda>x. case x of None \<Rightarrow> Some ARGS_SPARSE_ARRAY | Some v \<Rightarrow> assertAcyclicPlain v) xs)"
| "assertAcyclicPlain (JObj ms) = first_error (map (\<lambda>m. assertAcyclicPlain (snd m)) ms)"

definition validateAndCanonicalizeArgs :: "jval \<Rightarrow> ContextError + text_cp" where
  "validateAndCanonicalizeArgs args =
     (case args of
        JNull \<Rightarrow> Inl ARGS_ABSENT
      | JUndefined \<Rightarrow> Inl ARGS_ABSENT
      | JObj ms \<Rightarrow>
          (case assertAcyclicPlain args of
             Some e \<Rightarrow> Inl e
           | None \<Rightarrow> (case canonicalJson args of
               Inl _ \<Rightarrow> Inl ARGS_NOT_CANONICALIZABLE
             | Inr s \<Rightarrow> Inr s))
      | _ \<Rightarrow> Inl ARGS_NOT_PLAIN_OBJECT)"

definition actionHash ::
  "(nat list \<Rightarrow> digest) \<Rightarrow> string \<Rightarrow> string \<Rightarrow> text_cp \<Rightarrow> digest option" where
  "actionHash sha requestId toolName canonicalArgs =
     map_option sha (frameFields ''ACTIONHASH_V1'' [cps requestId, cps toolName, canonicalArgs])"

record ContextHashInput =
  ci_originPrincipalId :: string
  ci_originSurfaceId :: string
  ci_sourceRequestId :: string
  ci_originSurfaceKind :: string
  ci_profileId :: string
  ci_toolName :: string
  ci_canonicalArgs :: text_cp
  ci_privacyContextHash :: string
  ci_routingContextHash :: string
  ci_securityPolicyHash :: string

definition contextHashFields :: "ContextHashInput \<Rightarrow> text_cp list" where
  "contextHashFields i =
     [cps (ci_originPrincipalId i), cps (ci_originSurfaceId i), cps (ci_sourceRequestId i),
      cps (ci_originSurfaceKind i), cps (ci_profileId i), cps (ci_toolName i), ci_canonicalArgs i,
      cps (ci_privacyContextHash i), cps (ci_routingContextHash i), cps (ci_securityPolicyHash i)]"

definition contextHash :: "(nat list \<Rightarrow> digest) \<Rightarrow> ContextHashInput \<Rightarrow> digest option" where
  "contextHash sha i = map_option sha (frameFields ''CTXHASH_V1'' (contextHashFields i))"

text \<open>Arguments that pass the walk never fail to canonicalize.\<close>

lemma first_error_None: "first_error es = None \<longleftrightarrow> (\<forall>e \<in> set es. e = None)"
  by (induction es rule: first_error.induct) auto

lemma seq_parts_ok: "(\<forall>p \<in> set ps. \<exists>s. p = Inr s) \<Longrightarrow> \<exists>qs. seq_parts ps = Inr qs"
  by (induction ps rule: seq_parts.induct) auto

lemma plain_canonical: "assertAcyclicPlain v = None \<Longrightarrow> \<exists>s. canonicalJson v = Inr s"
proof (induction v rule: assertAcyclicPlain.induct)
  case (4 n)
  then show ?case by (auto split: jnum.splits)
next
  case (9 xs)
  have p: "\<forall>p \<in> set (map (\<lambda>(i, x). case x of None \<Rightarrow> Inl (SparseHole i) | Some v \<Rightarrow> canonicalJson v)
      (enumerate 0 xs)). \<exists>s. p = Inr s"
  proof
    fix p assume "p \<in> set (map (\<lambda>(i, x). case x of None \<Rightarrow> Inl (SparseHole i)
        | Some v \<Rightarrow> canonicalJson v) (enumerate 0 xs))"
    then obtain i x where x: "p = (case x of None \<Rightarrow> Inl (SparseHole i) | Some v \<Rightarrow> canonicalJson v)"
        "x \<in> set xs"
      by (auto simp: in_set_enumerate_eq)
    then show "\<exists>s. p = Inr s"
      using 9 by (fastforce simp: first_error_None split: option.splits)
  qed
  from seq_parts_ok [OF p] show ?case by auto
next
  case (10 ms)
  have p: "\<forall>p \<in> set (map (\<lambda>(k, v). if v = JUndefined \<or> v = JFunction \<or> v = JSymbol
      then Inl (BadMember k) else case canonicalJson v of Inl e \<Rightarrow> Inl e
        | Inr p \<Rightarrow> Inr (serializeString k @ [58] @ p)) (sortByCodePoint ms)). \<exists>s. p = Inr s"
  proof
    fix p assume "p \<in> set (map (\<lambda>(k, v). if v = JUndefined \<or> v = JFunction \<or> v = JSymbol
      then Inl (BadMember k) else case canonicalJson v of Inl e \<Rightarrow> Inl e
        | Inr p \<Rightarrow> Inr (serializeString k @ [58] @ p)) (sortByCodePoint ms))"
    then obtain k v where v: "p = (if v = JUndefined \<or> v = JFunction \<or> v = JSymbol
        then Inl (BadMember k) else case canonicalJson v of Inl e \<Rightarrow> Inl e
        | Inr p \<Rightarrow> Inr (serializeString k @ [58] @ p))" "(k, v) \<in> set ms"
      by auto
    then have "assertAcyclicPlain v = None" using 10(2) by (force simp: first_error_None)
    moreover from this have "\<exists>s. canonicalJson v = Inr s" using 10(1) [OF v(2)] by simp
    ultimately show "\<exists>s. p = Inr s" using v(1) by auto
  qed
  from seq_parts_ok [OF p] show ?case by auto
qed simp_all

end
