(* ===== verification/Approvals.thy ===== *)
theory Approvals
  imports Surface_Security Action_Hash
begin

text \<open>
  Approvals and one-shot action grants: the centralized writer
  \<open>packages/gateway/src/approvalWriter.ts\<close> (registration, decision, expiry) and the admission seam
  \<open>grantAdmission.ts\<close>. One \<open>BEGIN IMMEDIATE\<close> transaction is one function on the database; a throw
  inside it rolls back, so the error comes with the database of before. The database clock, the
  random identifiers and SHA-256 are arguments; times are milliseconds.
\<close>

definition APPROVAL_TTL_SECONDS :: int where "APPROVAL_TTL_SECONDS = 15 * 60"
definition GRANT_TTL_SECONDS :: int where "GRANT_TTL_SECONDS = 60"

definition addSeconds :: "int \<Rightarrow> int \<Rightarrow> int" where
  "addSeconds now seconds = now + seconds * 1000"

subsection \<open>Rows\<close>

datatype ApprovalStatus = Pending | Approved | Rejected | Expired

record ApprovalRow =
  tp_approvalId :: string
  tp_requestId :: string
  tp_toolName :: string
  tp_status :: ApprovalStatus
  tp_argsJson :: text_cp
  tp_originPrincipalId :: "string option"
  tp_originSurfaceId :: "string option"
  tp_decidedPrincipalId :: "string option"
  tp_decidedSurfaceId :: "string option"
  tp_decidedAt :: "int option"
  tp_expiresAt :: "int option"
  tp_contextHash :: "digest option"

record BindingRow =
  bn_approvalId :: string
  bn_requestId :: string
  bn_actionHash :: digest
  bn_canonicalArgsHash :: digest
  bn_registrationContextHash :: digest
  bn_delegationId :: string
  bn_delegationRevision :: int
  bn_profileId :: string
  bn_policyHash :: string
  bn_capabilityRevision :: int
  bn_registryHash :: string

record GrantRow =
  gr_grantId :: string
  gr_approvalId :: string
  gr_sourceRequestId :: string
  gr_dispatchRequestId :: string
  gr_toolName :: string
  gr_actionHash :: digest
  gr_contextHash :: digest
  gr_originSurfaceId :: string
  gr_decidingSurfaceId :: string
  gr_originAuthEpoch :: int
  gr_decidingAuthEpoch :: int
  gr_originCapabilityRevision :: int
  gr_delegationId :: string
  gr_delegationRevision :: int
  gr_decidingAuthorityGrantId :: string
  gr_policyHash :: string
  gr_registryHash :: string
  gr_expiresAt :: int
  gr_createdAt :: int
  gr_consumedAt :: "int option"
  gr_revokedAt :: "int option"

record state_db =
  st_security :: security_db
  st_approvals :: "ApprovalRow list"
  st_bindings :: "BindingRow list"
  st_grants :: "GrantRow list"
  st_tasks :: "string list"

definition readApproval :: "state_db \<Rightarrow> string \<Rightarrow> ApprovalRow option" where
  "readApproval db a = tbl_get (\<lambda>r. tp_approvalId r = a) (st_approvals db)"

definition readBinding :: "state_db \<Rightarrow> string \<Rightarrow> BindingRow option" where
  "readBinding db a = tbl_get (\<lambda>r. bn_approvalId r = a) (st_bindings db)"

definition grant_for :: "state_db \<Rightarrow> string \<Rightarrow> GrantRow option" where
  "grant_for db d = tbl_get (\<lambda>g. gr_dispatchRequestId g = d) (st_grants db)"

subsection \<open>Expiry\<close>

definition past_deadline :: "int \<Rightarrow> ApprovalRow \<Rightarrow> bool" where
  "past_deadline now r \<longleftrightarrow> tp_status r = Pending
     \<and> (case tp_expiresAt r of None \<Rightarrow> False | Some t \<Rightarrow> t \<le> now)"

definition materializeExpiry :: "int \<Rightarrow> string \<Rightarrow> state_db \<Rightarrow> state_db \<times> nat" where
  "materializeExpiry now a db =
     (let hit = (\<lambda>r. tp_approvalId r = a \<and> past_deadline now r)
      in (db\<lparr>st_approvals := tbl_update hit (\<lambda>r. r\<lparr>tp_status := Expired\<rparr>) (st_approvals db)\<rparr>,
          tbl_changes hit (st_approvals db)))"

definition sweepExpiredApprovals :: "int \<Rightarrow> state_db \<Rightarrow> state_db \<times> nat" where
  "sweepExpiredApprovals now db =
     (db\<lparr>st_approvals := tbl_update (past_deadline now) (\<lambda>r. r\<lparr>tp_status := Expired\<rparr>) (st_approvals db)\<rparr>,
      tbl_changes (past_deadline now) (st_approvals db))"

definition open_grant :: "GrantRow \<Rightarrow> bool" where
  "open_grant g \<longleftrightarrow> gr_consumedAt g = None \<and> gr_revokedAt g = None"

definition revoke_grants :: "int \<Rightarrow> (GrantRow \<Rightarrow> bool) \<Rightarrow> state_db \<Rightarrow> state_db \<times> nat" where
  "revoke_grants now P db =
     (db\<lparr>st_grants := tbl_update (\<lambda>g. open_grant g \<and> P g) (\<lambda>g. g\<lparr>gr_revokedAt := Some now\<rparr>) (st_grants db)\<rparr>,
      tbl_changes (\<lambda>g. open_grant g \<and> P g) (st_grants db))"

definition sweepExpiredGrants :: "int \<Rightarrow> state_db \<Rightarrow> state_db \<times> nat" where
  "sweepExpiredGrants now db = revoke_grants now (\<lambda>g. gr_expiresAt g \<le> now) db"

definition revokeInertGrants :: "int \<Rightarrow> int \<Rightarrow> state_db \<Rightarrow> state_db \<times> nat" where
  "revokeInertGrants now olderThanSeconds db =
     revoke_grants now (\<lambda>g. gr_createdAt g \<le> now - olderThanSeconds * 1000) db"

definition legacyStatusTransition :: "int \<Rightarrow> string \<Rightarrow> bool \<Rightarrow> state_db \<Rightarrow> state_db \<times> nat" where
  "legacyStatusTransition now a approve db =
     (let hit = (\<lambda>r. tp_approvalId r = a \<and> tp_status r = Pending)
      in (db\<lparr>st_approvals := tbl_update hit
            (\<lambda>r. r\<lparr>tp_status := if approve then Approved else Rejected, tp_decidedAt := Some now\<rparr>)
            (st_approvals db)\<rparr>,
          tbl_changes hit (st_approvals db)))"

subsection \<open>Registration\<close>

record RegisterC2Params =
  rp_approvalId :: string
  rp_requestId :: string
  rp_toolName :: string
  rp_canonicalArgs :: text_cp
  rp_originPrincipalId :: string
  rp_originSurfaceId :: string
  rp_contextInput :: ContextHashInput
  rp_delegationId :: string
  rp_delegationRevision :: int
  rp_profileId :: string
  rp_policyHash :: string
  rp_capabilityRevision :: int
  rp_registryHash :: string

text \<open>A failed insert (a duplicate key) or a digest that refuses its fields throws.\<close>

definition registerC2Approval ::
  "(nat list \<Rightarrow> digest) \<Rightarrow> int \<Rightarrow> RegisterC2Params \<Rightarrow> state_db \<Rightarrow> state_db option" where
  "registerC2Approval sha now p db =
     (if readApproval db (rp_approvalId p) \<noteq> None \<or> readBinding db (rp_approvalId p) \<noteq> None then None
      else case (actionHash sha (rp_requestId p) (rp_toolName p) (rp_canonicalArgs p),
                 contextHash sha (rp_contextInput p)) of
        (Some ah, Some ch) \<Rightarrow> Some (db
          \<lparr>st_approvals := st_approvals db @
             [\<lparr>tp_approvalId = rp_approvalId p, tp_requestId = rp_requestId p,
               tp_toolName = rp_toolName p, tp_status = Pending, tp_argsJson = rp_canonicalArgs p,
               tp_originPrincipalId = Some (rp_originPrincipalId p),
               tp_originSurfaceId = Some (rp_originSurfaceId p), tp_decidedPrincipalId = None,
               tp_decidedSurfaceId = None, tp_decidedAt = None,
               tp_expiresAt = Some (addSeconds now APPROVAL_TTL_SECONDS), tp_contextHash = None\<rparr>],
           st_bindings := st_bindings db @
             [\<lparr>bn_approvalId = rp_approvalId p, bn_requestId = rp_requestId p, bn_actionHash = ah,
               bn_canonicalArgsHash = sha (utf8 (rp_canonicalArgs p)),
               bn_registrationContextHash = ch, bn_delegationId = rp_delegationId p,
               bn_delegationRevision = rp_delegationRevision p, bn_profileId = rp_profileId p,
               bn_policyHash = rp_policyHash p, bn_capabilityRevision = rp_capabilityRevision p,
               bn_registryHash = rp_registryHash p\<rparr>]\<rparr>)
      | _ \<Rightarrow> None)"

subsection \<open>Decision\<close>

datatype ApprovalRefusal =
    ApprovalExpired | LegacyReissueRequired | SurfaceNotOperator
  | CrossChannelApprovalForbidden | AuthorityDenied | ChannelSelfApproveRefused
  | ApprovalContextInvalidated | ProfileDelegationStale | CapabilityRevisionStale
  | ContextRefused | ConstraintViolated

record DecideC2Params =
  dp_approvalId :: string
  dp_approve :: bool
  dp_decidingPrincipalId :: string
  dp_decidingSurfaceId :: string
  dp_currentContext :: ContextHashInput
  dp_dispatchRequestId :: string

record DecidedC2Approval =
  dc_approvalId :: string
  dc_requestId :: string
  dc_toolName :: string
  dc_status :: ApprovalStatus
  dc_grantId :: "string option"
  dc_dispatchRequestId :: "string option"
  dc_contextHash :: digest

definition delegation_stale :: "delegation_row option \<Rightarrow> int \<Rightarrow> string \<Rightarrow> string \<Rightarrow> bool" where
  "delegation_stale d revision policyHash registryHash =
     (case d of
        None \<Rightarrow> True
      | Some r \<Rightarrow> dl_revokedAt r \<noteq> None \<or> dl_revision r \<noteq> revision \<or> dl_policyHash r \<noteq> policyHash
          \<or> dl_registryHash r \<noteq> registryHash)"

text \<open>Steps 3a to 3d: the refusal the checks throw, if any, for a pending bound approval.\<close>

definition decision_refusal ::
  "(nat list \<Rightarrow> digest) \<Rightarrow> DecideC2Params \<Rightarrow> ApprovalRow \<Rightarrow> BindingRow \<Rightarrow> state_db \<Rightarrow> ApprovalRefusal option" where
  "decision_refusal sha p approval binding db =
     (let sec = st_security db in
      case liveSurfaceSecurity sec (dp_decidingSurfaceId p) of
        None \<Rightarrow> Some SurfaceNotOperator
      | Some deciding \<Rightarrow>
          if sf_role deciding \<noteq> OperatorSurface then Some SurfaceNotOperator
          else if sf_kind deciding \<in> NON_OPERATOR_KINDS then Some CrossChannelApprovalForbidden
          else if \<not> holdsAuthority sec (dp_decidingSurfaceId p) Approve then Some AuthorityDenied
          else if tp_originSurfaceId approval = Some (dp_decidingSurfaceId p)
               \<and> (case liveSurfaceSecurity sec (dp_decidingSurfaceId p) of
                    None \<Rightarrow> True
                  | Some origin \<Rightarrow> sf_role origin \<noteq> OperatorSurface \<or> sf_kind origin \<in> NON_OPERATOR_KINDS)
          then Some ChannelSelfApproveRefused
          else case contextHash sha (dp_currentContext p) of
            None \<Rightarrow> Some ContextRefused
          | Some digest \<Rightarrow>
              if digest \<noteq> bn_registrationContextHash binding then Some ApprovalContextInvalidated
              else if delegation_stale (delegationById sec (bn_delegationId binding))
                        (bn_delegationRevision binding) (bn_policyHash binding) (bn_registryHash binding)
              then Some ProfileDelegationStale
              else if sf_capabilityRevision deciding \<noteq> bn_capabilityRevision binding
              then Some CapabilityRevisionStale
              else None)"

definition mint_grant ::
  "string \<Rightarrow> int \<Rightarrow> DecideC2Params \<Rightarrow> ApprovalRow \<Rightarrow> BindingRow \<Rightarrow> digest \<Rightarrow> state_db \<Rightarrow> GrantRow" where
  "mint_grant grantId now p approval binding digest db =
     (let sec = st_security db;
          deciding = liveSurfaceSecurity sec (dp_decidingSurfaceId p);
          epoch = (case deciding of None \<Rightarrow> 0 | Some d \<Rightarrow> sf_authEpoch d);
          caprev = (case deciding of None \<Rightarrow> 0 | Some d \<Rightarrow> sf_capabilityRevision d);
          origin = (case tp_originSurfaceId approval of None \<Rightarrow> None
                    | Some s \<Rightarrow> if s = [] then None else liveSurfaceSecurity sec s);
          authority = tbl_get (\<lambda>r. live_authority (dp_decidingSurfaceId p) Approve r \<and> au_epoch r = epoch)
                        (db_authorities sec)
      in \<lparr>gr_grantId = grantId, gr_approvalId = dp_approvalId p,
          gr_sourceRequestId = tp_requestId approval, gr_dispatchRequestId = dp_dispatchRequestId p,
          gr_toolName = tp_toolName approval, gr_actionHash = bn_actionHash binding,
          gr_contextHash = digest,
          gr_originSurfaceId = (case tp_originSurfaceId approval of None \<Rightarrow> [] | Some s \<Rightarrow> s),
          gr_decidingSurfaceId = dp_decidingSurfaceId p,
          gr_originAuthEpoch = (case origin of None \<Rightarrow> epoch | Some o' \<Rightarrow> sf_authEpoch o'),
          gr_decidingAuthEpoch = epoch,
          gr_originCapabilityRevision = (case origin of None \<Rightarrow> caprev | Some o' \<Rightarrow> sf_capabilityRevision o'),
          gr_delegationId = bn_delegationId binding,
          gr_delegationRevision = bn_delegationRevision binding,
          gr_decidingAuthorityGrantId = (case authority of None \<Rightarrow> [] | Some a \<Rightarrow> au_grantId a),
          gr_policyHash = (case delegationById sec (bn_delegationId binding) of None \<Rightarrow> [] | Some d \<Rightarrow> dl_policyHash d),
          gr_registryHash = (case delegationById sec (bn_delegationId binding) of None \<Rightarrow> [] | Some d \<Rightarrow> dl_registryHash d),
          gr_expiresAt = addSeconds now GRANT_TTL_SECONDS, gr_createdAt = now,
          gr_consumedAt = None, gr_revokedAt = None\<rparr>)"

definition grant_conflict :: "GrantRow \<Rightarrow> state_db \<Rightarrow> bool" where
  "grant_conflict g db \<longleftrightarrow>
     tbl_get (\<lambda>h. gr_grantId h = gr_grantId g \<or> gr_approvalId h = gr_approvalId g
        \<or> gr_dispatchRequestId h = gr_dispatchRequestId g) (st_grants db) \<noteq> None
     \<or> gr_dispatchRequestId g \<in> set (st_tasks db)"

text \<open>The guarded transition: its \<open>WHERE\<close> clause and the evidence it writes.\<close>

definition evidence :: "ApprovalStatus \<Rightarrow> int \<Rightarrow> DecideC2Params \<Rightarrow> digest \<Rightarrow> ApprovalRow \<Rightarrow> ApprovalRow" where
  "evidence status now p digest r = r\<lparr>tp_status := status, tp_decidedAt := Some now,
     tp_decidedPrincipalId := Some (dp_decidingPrincipalId p),
     tp_decidedSurfaceId := Some (dp_decidingSurfaceId p), tp_contextHash := Some digest\<rparr>"

definition decidable :: "int \<Rightarrow> DecideC2Params \<Rightarrow> ApprovalRow \<Rightarrow> bool" where
  "decidable now p r \<longleftrightarrow> tp_approvalId r = dp_approvalId p \<and> tp_status r = Pending
     \<and> (case tp_expiresAt r of None \<Rightarrow> False | Some t \<Rightarrow> t > now)"

definition decide_tx ::
  "(nat list \<Rightarrow> digest) \<Rightarrow> string \<Rightarrow> int \<Rightarrow> DecideC2Params \<Rightarrow> state_db
   \<Rightarrow> state_db \<times> (ApprovalRefusal + DecidedC2Approval option)" where
  "decide_tx sha grantId now p db =
     (case readApproval db (dp_approvalId p) of
        None \<Rightarrow> (db, Inr None)
      | Some approval \<Rightarrow>
          if tp_status approval \<noteq> Pending then (db, Inr None)
          else case readBinding db (dp_approvalId p) of
            None \<Rightarrow> (db, Inl LegacyReissueRequired)
          | Some binding \<Rightarrow>
              if tp_expiresAt approval = None then (db, Inl LegacyReissueRequired)
              else case decision_refusal sha p approval binding db of
                Some e \<Rightarrow> (db, Inl e)
              | None \<Rightarrow>
                  let digest = bn_registrationContextHash binding;
                      status = (if dp_approve p then Approved else Rejected);
                      db1 = db\<lparr>st_approvals := tbl_update (decidable now p) (evidence status now p digest)
                               (st_approvals db)\<rparr>;
                      g = mint_grant grantId now p approval binding digest db
                  in if tbl_changes (decidable now p) (st_approvals db) = 0 then (db, Inr None)
                     else if dp_approve p then
                       (if grant_conflict g db then (db, Inl ConstraintViolated)
                        else (db1\<lparr>st_tasks := st_tasks db @ [dp_dispatchRequestId p],
                                  st_grants := st_grants db @ [g]\<rparr>,
                              Inr (Some \<lparr>dc_approvalId = dp_approvalId p,
                                dc_requestId = tp_requestId approval, dc_toolName = tp_toolName approval,
                                dc_status = Approved, dc_grantId = Some grantId,
                                dc_dispatchRequestId = Some (dp_dispatchRequestId p),
                                dc_contextHash = digest\<rparr>)))
                     else (db1, Inr (Some \<lparr>dc_approvalId = dp_approvalId p,
                                dc_requestId = tp_requestId approval, dc_toolName = tp_toolName approval,
                                dc_status = Rejected, dc_grantId = None,
                                dc_dispatchRequestId = None, dc_contextHash = digest\<rparr>)))"

text \<open>Expiry is materialized in its own transaction before the decision's (\<open>now\<close>, then \<open>now'\<close>).\<close>

definition decideC2Approval ::
  "(nat list \<Rightarrow> digest) \<Rightarrow> string \<Rightarrow> int \<Rightarrow> int \<Rightarrow> DecideC2Params \<Rightarrow> state_db
   \<Rightarrow> state_db \<times> (ApprovalRefusal + DecidedC2Approval option)" where
  "decideC2Approval sha grantId now now' p db =
     (let (db1, n) = materializeExpiry now (dp_approvalId p) db
      in if n > 0 then (db1, Inl ApprovalExpired) else decide_tx sha grantId now' p db1)"

subsection \<open>Admission\<close>

datatype AdmissionRefusal =
    GrantMissing | GrantConsumed | GrantRevoked | GrantExpired | ActionBindingMismatch
  | DelegationStale | AuthorityEpochStale | FrontierUnavailable | ArgsInvalid

datatype ExecutionPath = LocalEdgePath | BridgePath | FrontierPath

record AdmitParams =
  am_dispatchRequestId :: string
  am_toolName :: string
  am_args :: jval
  am_path :: ExecutionPath

text \<open>The guard of the consuming update.\<close>

definition consumable :: "int \<Rightarrow> GrantRow \<Rightarrow> GrantRow \<Rightarrow> bool" where
  "consumable now g h \<longleftrightarrow> gr_grantId h = gr_grantId g \<and> open_grant h \<and> gr_expiresAt h > now"

definition admit_tx ::
  "(nat list \<Rightarrow> digest) \<Rightarrow> int \<Rightarrow> AdmitParams \<Rightarrow> text_cp \<Rightarrow> state_db
   \<Rightarrow> state_db \<times> (AdmissionRefusal + string \<times> string)" where
  "admit_tx sha now p canonicalArgs db =
     (case grant_for db (am_dispatchRequestId p) of
        None \<Rightarrow> (db, Inl GrantMissing)
      | Some g \<Rightarrow>
          if gr_consumedAt g \<noteq> None then (db, Inl GrantConsumed)
          else if gr_revokedAt g \<noteq> None then (db, Inl GrantRevoked)
          else if gr_expiresAt g \<le> now then
            (fst (revoke_grants now (\<lambda>h. gr_grantId h = gr_grantId g) db), Inl GrantExpired)
          else if actionHash sha (gr_sourceRequestId g) (am_toolName p) canonicalArgs \<noteq> Some (gr_actionHash g)
          then (db, Inl ActionBindingMismatch)
          else if delegation_stale (delegationById (st_security db) (gr_delegationId g))
                    (gr_delegationRevision g) (gr_policyHash g) (gr_registryHash g)
          then (db, Inl DelegationStale)
          else if (case liveSurfaceSecurity (st_security db) (gr_decidingSurfaceId g) of
                     None \<Rightarrow> True
                   | Some deciding \<Rightarrow> sf_authEpoch deciding \<noteq> gr_decidingAuthEpoch g)
          then (db, Inl AuthorityEpochStale)
          else if tbl_changes (consumable now g) (st_grants db) \<noteq> 1 then (db, Inl GrantConsumed)
          else (db\<lparr>st_grants := tbl_update (consumable now g) (\<lambda>h. h\<lparr>gr_consumedAt := Some now\<rparr>)
                  (st_grants db)\<rparr>,
                Inr (gr_grantId g, gr_toolName g)))"

definition admitToolCall ::
  "(nat list \<Rightarrow> digest) \<Rightarrow> int \<Rightarrow> AdmitParams \<Rightarrow> state_db
   \<Rightarrow> state_db \<times> (AdmissionRefusal + string \<times> string)" where
  "admitToolCall sha now p db =
     (if am_path p = FrontierPath then (db, Inl FrontierUnavailable)
      else case validateAndCanonicalizeArgs (am_args p) of
        Inl _ \<Rightarrow> (db, Inl ArgsInvalid)
      | Inr canonicalArgs \<Rightarrow> admit_tx sha now p canonicalArgs db)"

subsection \<open>Histories\<close>

datatype broker_op =
    Register int RegisterC2Params
  | Decide string int int DecideC2Params
  | LegacyDecide int string bool
  | SweepApprovals int
  | SweepGrants int
  | RevokeInert int int
  | Admit int AdmitParams
  | Security security_op

fun broker_step :: "(nat list \<Rightarrow> digest) \<Rightarrow> broker_op \<Rightarrow> state_db \<Rightarrow> state_db" where
  "broker_step sha (Register now p) db = (case registerC2Approval sha now p db of None \<Rightarrow> db | Some d \<Rightarrow> d)"
| "broker_step sha (Decide g now now' p) db = fst (decideC2Approval sha g now now' p db)"
| "broker_step sha (LegacyDecide now a b) db = fst (legacyStatusTransition now a b db)"
| "broker_step sha (SweepApprovals now) db = fst (sweepExpiredApprovals now db)"
| "broker_step sha (SweepGrants now) db = fst (sweepExpiredGrants now db)"
| "broker_step sha (RevokeInert now s) db = fst (revokeInertGrants now s db)"
| "broker_step sha (Admit now p) db = fst (admitToolCall sha now p db)"
| "broker_step sha (Security op) db = db\<lparr>st_security := apply_security op (st_security db)\<rparr>"

text \<open>The attempts that count: an admitted call of a dispatch request, a decision of an approval.\<close>

definition admit_step :: "(nat list \<Rightarrow> digest) \<Rightarrow> string \<Rightarrow> broker_op \<Rightarrow> state_db \<Rightarrow> state_db \<times> bool" where
  "admit_step sha d op db = (broker_step sha op db,
     case op of
       Admit now p \<Rightarrow> am_dispatchRequestId p = d
         \<and> (case snd (admitToolCall sha now p db) of Inl _ \<Rightarrow> False | Inr _ \<Rightarrow> True)
     | _ \<Rightarrow> False)"

definition decide_step :: "(nat list \<Rightarrow> digest) \<Rightarrow> string \<Rightarrow> broker_op \<Rightarrow> state_db \<Rightarrow> state_db \<times> bool" where
  "decide_step sha a op db = (broker_step sha op db,
     case op of
       Decide g now now' p \<Rightarrow> dp_approvalId p = a
         \<and> (case snd (decideC2Approval sha g now now' p db) of Inr (Some _) \<Rightarrow> True | _ \<Rightarrow> False)
     | LegacyDecide now b _ \<Rightarrow> b = a \<and> 0 < snd (legacyStatusTransition now a True db)
     | _ \<Rightarrow> False)"

subsection \<open>The invariant of the approval tables\<close>

text \<open>
  A binding digests the action of its own approval row; a grant belongs to an approved row and
  carries that row's request, tool and action digest. Identifiers are unique.
\<close>

definition action_of :: "(nat list \<Rightarrow> digest) \<Rightarrow> ApprovalRow \<Rightarrow> digest option" where
  "action_of sha r = actionHash sha (tp_requestId r) (tp_toolName r) (tp_argsJson r)"

definition binding_ok :: "(nat list \<Rightarrow> digest) \<Rightarrow> ApprovalRow list \<Rightarrow> BindingRow \<Rightarrow> bool" where
  "binding_ok sha rows b \<longleftrightarrow>
     (\<exists>r \<in> set rows. tp_approvalId r = bn_approvalId b \<and> action_of sha r = Some (bn_actionHash b))"

definition grant_ok :: "(nat list \<Rightarrow> digest) \<Rightarrow> ApprovalRow list \<Rightarrow> GrantRow \<Rightarrow> bool" where
  "grant_ok sha rows g \<longleftrightarrow>
     (\<exists>r \<in> set rows. tp_approvalId r = gr_approvalId g \<and> tp_status r = Approved
        \<and> tp_toolName r = gr_toolName g \<and> tp_requestId r = gr_sourceRequestId g
        \<and> action_of sha r = Some (gr_actionHash g))"

definition broker_ok :: "(nat list \<Rightarrow> digest) \<Rightarrow> state_db \<Rightarrow> bool" where
  "broker_ok sha db \<longleftrightarrow> key_unique tp_approvalId (st_approvals db)
     \<and> key_unique gr_grantId (st_grants db) \<and> key_unique gr_approvalId (st_grants db)
     \<and> key_unique gr_dispatchRequestId (st_grants db)
     \<and> list_all (binding_ok sha (st_approvals db)) (st_bindings db)
     \<and> list_all (grant_ok sha (st_approvals db)) (st_grants db)"

text \<open>An update of pending rows that keeps what the invariant reads.\<close>

definition same_action :: "ApprovalRow \<Rightarrow> ApprovalRow \<Rightarrow> bool" where
  "same_action r r' \<longleftrightarrow> tp_approvalId r' = tp_approvalId r \<and> tp_requestId r' = tp_requestId r
     \<and> tp_toolName r' = tp_toolName r \<and> tp_argsJson r' = tp_argsJson r"

lemma action_of_same: "same_action r r' \<Longrightarrow> action_of sha r' = action_of sha r"
  by (simp add: same_action_def action_of_def)

lemma binding_ok_update:
  assumes "binding_ok sha rows b" and "\<And>r. same_action r (f r)"
  shows "binding_ok sha (tbl_update H f rows) b"
proof -
  obtain r where r: "r \<in> set rows" "tp_approvalId r = bn_approvalId b" "action_of sha r = Some (bn_actionHash b)"
    using assms(1) by (auto simp: binding_ok_def)
  let ?r = "if H r then f r else r"
  have s: "same_action r ?r" using assms(2) by (simp add: same_action_def)
  have "?r \<in> set (tbl_update H f rows)" unfolding set_tbl_update using r(1) by (rule imageI)
  moreover have "tp_approvalId ?r = bn_approvalId b" using s r(2) by (simp add: same_action_def)
  moreover have "action_of sha ?r = Some (bn_actionHash b)" using action_of_same [OF s] r(3) by simp
  ultimately show ?thesis unfolding binding_ok_def by blast
qed

lemma grant_ok_update:
  assumes "grant_ok sha rows g" and "\<And>r. H r \<Longrightarrow> tp_status r = Pending"
  shows "grant_ok sha (tbl_update H f rows) g"
proof -
  obtain r where r: "r \<in> set rows" "tp_status r = Approved" "tp_approvalId r = gr_approvalId g"
      "tp_toolName r = gr_toolName g" "tp_requestId r = gr_sourceRequestId g"
      "action_of sha r = Some (gr_actionHash g)"
    using assms(1) by (auto simp: grant_ok_def)
  then have "\<not> H r" using assms(2) by auto
  with r show ?thesis unfolding grant_ok_def set_tbl_update by (intro bexI [of _ r]) auto
qed

lemma broker_ok_approvals_update:
  assumes "broker_ok sha db" and f: "\<And>r. same_action r (f r)" and H: "\<And>r. H r \<Longrightarrow> tp_status r = Pending"
  shows "broker_ok sha (db\<lparr>st_approvals := tbl_update H f (st_approvals db)\<rparr>)"
proof -
  have k: "key_unique tp_approvalId (tbl_update H f (st_approvals db))"
    using assms(1) f by (intro key_unique_update) (auto simp: broker_ok_def same_action_def)
  have b: "binding_ok sha (tbl_update H f (st_approvals db)) b" if "b \<in> set (st_bindings db)" for b
    using assms(1) that by (intro binding_ok_update f) (auto simp: broker_ok_def list_all_iff)
  have g: "grant_ok sha (tbl_update H f (st_approvals db)) g" if "g \<in> set (st_grants db)" for g
    using assms(1) that by (intro grant_ok_update H) (auto simp: broker_ok_def list_all_iff)
  show ?thesis using assms(1) k b g by (simp add: broker_ok_def list_all_iff)
qed

lemma grant_ok_cong:
  "gr_approvalId g' = gr_approvalId g \<Longrightarrow> gr_toolName g' = gr_toolName g \<Longrightarrow>
   gr_sourceRequestId g' = gr_sourceRequestId g \<Longrightarrow> gr_actionHash g' = gr_actionHash g \<Longrightarrow>
   grant_ok sha rows g' = grant_ok sha rows g"
  by (simp add: grant_ok_def)

definition same_grant :: "GrantRow \<Rightarrow> GrantRow \<Rightarrow> bool" where
  "same_grant g g' \<longleftrightarrow> gr_grantId g' = gr_grantId g \<and> gr_approvalId g' = gr_approvalId g
     \<and> gr_dispatchRequestId g' = gr_dispatchRequestId g \<and> gr_toolName g' = gr_toolName g
     \<and> gr_sourceRequestId g' = gr_sourceRequestId g \<and> gr_actionHash g' = gr_actionHash g"

lemma broker_ok_grants_update:
  assumes "broker_ok sha db" and f: "\<And>g. same_grant g (f g)"
  shows "broker_ok sha (db\<lparr>st_grants := tbl_update H f (st_grants db)\<rparr>)"
proof -
  have g: "grant_ok sha rows (f g) = grant_ok sha rows g" for rows g
    using f [of g] by (intro grant_ok_cong) (simp_all add: same_grant_def)
  have k: "gr_grantId (f g) = gr_grantId g" "gr_approvalId (f g) = gr_approvalId g"
    "gr_dispatchRequestId (f g) = gr_dispatchRequestId g" for g
    using f [of g] by (simp_all add: same_grant_def)
  have l: "list_all (grant_ok sha (st_approvals db)) (tbl_update H f (st_grants db))"
    using assms(1) by (auto simp: broker_ok_def list_all_iff set_tbl_update g)
  show ?thesis using assms(1) l
    by (simp add: broker_ok_def key_unique_update k)
qed

lemma broker_ok_revoke_grants: "broker_ok sha db \<Longrightarrow> broker_ok sha (fst (revoke_grants now P db))"
  unfolding revoke_grants_def fst_conv
  by (rule broker_ok_grants_update) (simp_all add: same_grant_def)

lemma binding_ok_mono: "binding_ok sha rows b \<Longrightarrow> binding_ok sha (rows @ rest) b"
  by (auto simp: binding_ok_def)

lemma grant_ok_mono: "grant_ok sha rows g \<Longrightarrow> grant_ok sha (rows @ rest) g"
  by (auto simp: grant_ok_def)

lemma broker_ok_register:
  assumes ok: "broker_ok sha db" and reg: "registerC2Approval sha now p db = Some db'"
  shows "broker_ok sha db'"
proof -
  obtain ah ch where h: "actionHash sha (rp_requestId p) (rp_toolName p) (rp_canonicalArgs p) = Some ah"
      "contextHash sha (rp_contextInput p) = Some ch" and fresh: "readApproval db (rp_approvalId p) = None"
    using reg by (auto simp: registerC2Approval_def split: if_splits option.splits)
  obtain r b where db': "db' = db\<lparr>st_approvals := st_approvals db @ [r], st_bindings := st_bindings db @ [b]\<rparr>"
    and r: "tp_approvalId r = rp_approvalId p" "action_of sha r = Some ah"
    and b: "bn_approvalId b = rp_approvalId p" "bn_actionHash b = ah"
    using reg h by (auto simp: registerC2Approval_def action_of_def split: if_splits)
  have "\<forall>r' \<in> set (st_approvals db). tp_approvalId r' \<noteq> tp_approvalId r"
    using fresh r by (simp add: readApproval_def tbl_get_None)
  then have k: "key_unique tp_approvalId (st_approvals db @ [r])"
    using ok by (intro key_unique_append) (auto simp: broker_ok_def)
  have "binding_ok sha (st_approvals db @ [r]) b" using r b by (auto simp: binding_ok_def)
  moreover have "list_all (binding_ok sha (st_approvals db @ [r])) (st_bindings db)"
    "list_all (grant_ok sha (st_approvals db @ [r])) (st_grants db)"
    using ok binding_ok_mono grant_ok_mono by (auto simp: broker_ok_def list_all_iff)
  ultimately show ?thesis using ok k by (simp add: db' broker_ok_def)
qed

text \<open>What a decision that returned a row has read and written.\<close>

lemma decide_tx_cases:
  assumes "decide_tx sha gid now p db = (db', Inr (Some d))"
  obtains approval binding where
    "readApproval db (dp_approvalId p) = Some approval" "tp_status approval = Pending"
    "readBinding db (dp_approvalId p) = Some binding"
    "decision_refusal sha p approval binding db = None"
    "tbl_changes (decidable now p) (st_approvals db) \<noteq> 0"
    "d = \<lparr>dc_approvalId = dp_approvalId p, dc_requestId = tp_requestId approval,
        dc_toolName = tp_toolName approval, dc_status = (if dp_approve p then Approved else Rejected),
        dc_grantId = (if dp_approve p then Some gid else None),
        dc_dispatchRequestId = (if dp_approve p then Some (dp_dispatchRequestId p) else None),
        dc_contextHash = bn_registrationContextHash binding\<rparr>"
    "st_security db' = st_security db" "st_bindings db' = st_bindings db"
    "st_approvals db' = tbl_update (decidable now p)
        (evidence (dc_status d) now p (bn_registrationContextHash binding)) (st_approvals db)"
    "st_grants db' = st_grants db @ (if dp_approve p
        then [mint_grant gid now p approval binding (bn_registrationContextHash binding) db] else [])"
    "dp_approve p \<Longrightarrow> \<not> grant_conflict
        (mint_grant gid now p approval binding (bn_registrationContextHash binding) db) db"
  using assms
  by (cases "dp_approve p")
     (auto simp: decide_tx_def Let_def split: option.splits if_splits)

lemma decide_tx_other: "(\<nexists>d. snd (decide_tx sha gid now p db) = Inr (Some d)) \<Longrightarrow> fst (decide_tx sha gid now p db) = db"
  by (auto simp: decide_tx_def Let_def split: option.splits if_splits)

lemma same_action_evidence: "same_action r (evidence st now p dg r)"
  by (simp add: same_action_def evidence_def)

lemma mint_grant_simps:
  "gr_grantId (mint_grant gid now p r b dg db) = gid"
  "gr_approvalId (mint_grant gid now p r b dg db) = dp_approvalId p"
  "gr_dispatchRequestId (mint_grant gid now p r b dg db) = dp_dispatchRequestId p"
  "gr_toolName (mint_grant gid now p r b dg db) = tp_toolName r"
  "gr_sourceRequestId (mint_grant gid now p r b dg db) = tp_requestId r"
  "gr_actionHash (mint_grant gid now p r b dg db) = bn_actionHash b"
  "open_grant (mint_grant gid now p r b dg db)"
  "gr_expiresAt (mint_grant gid now p r b dg db) = now + 60000"
  "gr_decidingSurfaceId (mint_grant gid now p r b dg db) = dp_decidingSurfaceId p"
  by (simp_all add: mint_grant_def Let_def open_grant_def addSeconds_def GRANT_TTL_SECONDS_def)

lemma readApproval_row:
  "key_unique tp_approvalId (st_approvals db) \<Longrightarrow> r \<in> set (st_approvals db) \<Longrightarrow>
   tp_approvalId r = a \<Longrightarrow> readApproval db a = Some r"
  unfolding readApproval_def by (rule tbl_get_unique)

text \<open>A decided row: the one the decision read, with the evidence.\<close>

lemma decided_row:
  assumes ok: "key_unique tp_approvalId (st_approvals db)"
    and r: "readApproval db (dp_approvalId p) = Some r"
    and ch: "tbl_changes (decidable now p) (st_approvals db) \<noteq> 0"
  shows "decidable now p r" and "r \<in> set (st_approvals db)"
proof -
  show m: "r \<in> set (st_approvals db)" using r by (auto simp: readApproval_def dest: tbl_get_Some)
  obtain x where x: "x \<in> set (st_approvals db)" "decidable now p x" using ch by (auto simp: tbl_changes_0)
  then have "readApproval db (dp_approvalId p) = Some x"
    by (intro readApproval_row [OF ok]) (auto simp: decidable_def)
  with r x show "decidable now p r" by simp
qed

lemma broker_ok_decide_tx:
  assumes ok: "broker_ok sha db"
  shows "broker_ok sha (fst (decide_tx sha gid now p db))"
proof (cases "\<exists>d. snd (decide_tx sha gid now p db) = Inr (Some d)")
  case False
  then show ?thesis using decide_tx_other ok by metis
next
  case True
  then obtain d db' where e: "decide_tx sha gid now p db = (db', Inr (Some d))" by (metis prod.collapse)
  then show ?thesis
  proof (cases rule: decide_tx_cases)
    case (1 r b)
    let ?dg = "bn_registrationContextHash b"
    let ?g = "mint_grant gid now p r b ?dg db"
    let ?rows = "tbl_update (decidable now p) (evidence (dc_status d) now p ?dg) (st_approvals db)"
    have ku: "key_unique tp_approvalId (st_approvals db)" using ok by (simp add: broker_ok_def)
    note dec = decided_row [OF ku 1(1) 1(5)]
    have u: "broker_ok sha (db\<lparr>st_approvals := ?rows\<rparr>)"
      by (rule broker_ok_approvals_update [OF ok same_action_evidence]) (simp add: decidable_def)
    show ?thesis
    proof (cases "dp_approve p")
      case False
      with u 1 show ?thesis by (simp add: e broker_ok_def)
    next
      case True
      let ?r = "evidence (dc_status d) now p ?dg r"
      have "?r \<in> set ?rows" using dec by (force simp: set_tbl_update)
      moreover have "b \<in> set (st_bindings db)" "bn_approvalId b = dp_approvalId p"
        using 1(3) by (auto simp: readBinding_def dest: tbl_get_Some)
      then obtain x where x: "x \<in> set (st_approvals db)" "tp_approvalId x = dp_approvalId p"
          "action_of sha x = Some (bn_actionHash b)"
        using ok by (auto simp: broker_ok_def list_all_iff binding_ok_def)
      then have "x = r" using readApproval_row [OF ku x(1,2)] 1(1) by simp
      ultimately have g: "grant_ok sha ?rows ?g"
        unfolding grant_ok_def using x dec(1) 1(6) True
        by (intro bexI [of _ ?r]) (auto simp: mint_grant_simps evidence_def decidable_def action_of_def)
      have fresh: "\<forall>h \<in> set (st_grants db). gr_grantId h \<noteq> gid \<and> gr_approvalId h \<noteq> dp_approvalId p
          \<and> gr_dispatchRequestId h \<noteq> dp_dispatchRequestId p"
        using 1(11) [OF True] by (auto simp: grant_conflict_def tbl_get_None mint_grant_simps)
      then have "key_unique gr_grantId (st_grants db @ [?g])" "key_unique gr_approvalId (st_grants db @ [?g])"
        "key_unique gr_dispatchRequestId (st_grants db @ [?g])"
        using ok by (auto simp: broker_ok_def mint_grant_simps intro!: key_unique_append)
      with u g 1 True show ?thesis by (simp add: e broker_ok_def)
    qed
  qed
qed

lemma broker_ok_materialize: "broker_ok sha db \<Longrightarrow> broker_ok sha (fst (materializeExpiry now a db))"
  unfolding materializeExpiry_def Let_def fst_conv
  by (rule broker_ok_approvals_update) (auto simp: same_action_def past_deadline_def)

lemma broker_ok_decide:
  assumes "broker_ok sha db"
  shows "broker_ok sha (fst (decideC2Approval sha gid now now' p db))"
  using broker_ok_materialize [OF assms] broker_ok_decide_tx
  by (simp add: decideC2Approval_def case_prod_beta)

lemma broker_ok_admit_tx: "broker_ok sha db \<Longrightarrow> broker_ok sha (fst (admit_tx sha now p c db))"
  by (auto simp: admit_tx_def broker_ok_revoke_grants same_grant_def split: option.split
      intro!: broker_ok_grants_update)

lemma broker_ok_admit: "broker_ok sha db \<Longrightarrow> broker_ok sha (fst (admitToolCall sha now p db))"
  by (auto simp: admitToolCall_def broker_ok_admit_tx split: sum.split)

lemma broker_ok_step: "broker_ok sha db \<Longrightarrow> broker_ok sha (broker_step sha op db)"
proof (induction sha op db rule: broker_step.induct)
  case (1 sha now p db)
  then show ?case by (auto split: option.split intro: broker_ok_register)
next
  case (3 sha now a b db)
  then show ?case unfolding broker_step.simps legacyStatusTransition_def Let_def fst_conv
    by (intro broker_ok_approvals_update) (auto simp: same_action_def)
next
  case (4 sha now db)
  then show ?case unfolding broker_step.simps sweepExpiredApprovals_def fst_conv
    by (intro broker_ok_approvals_update) (auto simp: same_action_def past_deadline_def)
qed (simp_all add: broker_ok_decide broker_ok_admit broker_ok_revoke_grants sweepExpiredGrants_def
    revokeInertGrants_def, simp add: broker_ok_def)

subsection \<open>One admission per dispatch, one decision per approval\<close>

definition grant_live :: "string \<Rightarrow> state_db \<Rightarrow> bool" where
  "grant_live d db = (case grant_for db d of None \<Rightarrow> True | Some g \<Rightarrow> open_grant g)"

definition approval_live :: "string \<Rightarrow> state_db \<Rightarrow> bool" where
  "approval_live a db = (case readApproval db a of None \<Rightarrow> True | Some r \<Rightarrow> tp_status r = Pending)"

lemma admit_tx_ok:
  assumes "admit_tx sha now p c db = (db', Inr (gid, tool))"
  obtains g where "grant_for db (am_dispatchRequestId p) = Some g" "open_grant g"
    "gr_grantId g = gid" "gr_toolName g = tool" "now < gr_expiresAt g"
    "actionHash sha (gr_sourceRequestId g) (am_toolName p) c = Some (gr_actionHash g)"
    "\<not> delegation_stale (delegationById (st_security db) (gr_delegationId g))
        (gr_delegationRevision g) (gr_policyHash g) (gr_registryHash g)"
    "\<exists>s. liveSurfaceSecurity (st_security db) (gr_decidingSurfaceId g) = Some s
        \<and> sf_authEpoch s = gr_decidingAuthEpoch g"
    "db' = db\<lparr>st_grants := tbl_update (consumable now g) (\<lambda>h. h\<lparr>gr_consumedAt := Some now\<rparr>) (st_grants db)\<rparr>"
proof -
  obtain g where g: "grant_for db (am_dispatchRequestId p) = Some g"
    using assms by (auto simp: admit_tx_def split: option.splits)
  show thesis
    by (rule that [OF g])
       (use assms g in \<open>auto simp: admit_tx_def open_grant_def split: if_splits option.splits\<close>)
qed

lemma grant_for_grants_update:
  assumes "\<And>g. gr_dispatchRequestId (f g) = gr_dispatchRequestId g"
  shows "grant_for (db\<lparr>st_grants := tbl_update H f (st_grants db)\<rparr>) d
    = map_option (\<lambda>g. if H g then f g else g) (grant_for db d)"
  unfolding grant_for_def by (simp add: tbl_get_tbl_update assms)

lemma grant_closed_revoke:
  "\<not> grant_live d db \<Longrightarrow> \<not> grant_live d (fst (revoke_grants now P db))"
  unfolding revoke_grants_def fst_conv grant_live_def
  by (subst grant_for_grants_update) (auto split: option.splits)

lemma grant_closed_consume:
  "\<not> grant_live d db \<Longrightarrow>
   \<not> grant_live d (db\<lparr>st_grants := tbl_update H (\<lambda>h. h\<lparr>gr_consumedAt := Some now\<rparr>) (st_grants db)\<rparr>)"
  unfolding grant_live_def by (subst grant_for_grants_update) (auto simp: open_grant_def split: option.splits)

lemma decide_tx_grants: "\<exists>new. st_grants (fst (decide_tx sha gid now p db)) = st_grants db @ new"
proof (cases "\<exists>x. snd (decide_tx sha gid now p db) = Inr (Some x)")
  case False
  then show ?thesis using decide_tx_other [of sha gid now p db] by simp
next
  case True
  then obtain x db' where e: "decide_tx sha gid now p db = (db', Inr (Some x))" by (metis prod.collapse)
  then show ?thesis by (rule decide_tx_cases) (simp add: e)
qed

lemma grant_closed_append:
  "\<not> grant_live d db \<Longrightarrow> st_grants db' = st_grants db @ new \<Longrightarrow> \<not> grant_live d db'"
  by (auto simp: grant_live_def grant_for_def tbl_get_append split: option.splits)

lemma grant_closed_decide:
  assumes "\<not> grant_live d db"
  shows "\<not> grant_live d (fst (decideC2Approval sha gid now now' p db))"
proof -
  let ?db1 = "fst (materializeExpiry now (dp_approvalId p) db)"
  have m: "st_grants ?db1 = st_grants db" by (simp add: materializeExpiry_def Let_def)
  obtain new where "st_grants (fst (decide_tx sha gid now' p ?db1)) = st_grants db @ new"
    using decide_tx_grants [of sha gid now' p ?db1] m by auto
  then have "\<not> grant_live d (fst (decide_tx sha gid now' p ?db1))"
    by (rule grant_closed_append [OF assms])
  moreover have "\<not> grant_live d ?db1" by (rule grant_closed_append [OF assms, of _ "[]"]) (simp add: m)
  ultimately show ?thesis by (simp add: decideC2Approval_def case_prod_beta)
qed

lemma grant_closed_admit:
  assumes "\<not> grant_live d db"
  shows "\<not> grant_live d (fst (admitToolCall sha now p db))"
proof -
  have "\<not> grant_live d (fst (admit_tx sha now p c db))" for c
    using assms by (simp add: admit_tx_def grant_closed_revoke grant_closed_consume split: option.split)
  then show ?thesis using assms by (auto simp: admitToolCall_def split: sum.split)
qed

lemma grant_closed_step: "\<not> grant_live d db \<Longrightarrow> \<not> grant_live d (broker_step sha op db)"
proof (induction sha op db rule: broker_step.induct)
  case (1 sha now p db)
  then show ?case
    by (auto simp: registerC2Approval_def grant_live_def grant_for_def split: if_splits option.splits)
qed (simp_all add: grant_closed_decide grant_closed_admit grant_closed_revoke sweepExpiredGrants_def
    revokeInertGrants_def, simp_all add: grant_live_def grant_for_def legacyStatusTransition_def
    sweepExpiredApprovals_def Let_def)

lemma admission_wins:
  assumes "snd (admit_step sha d op db)"
  obtains now p c db' r where "op = Admit now p" "am_dispatchRequestId p = d"
    "admit_tx sha now p c db = (db', Inr r)" "broker_step sha op db = db'"
proof -
  obtain now p where op: "op = Admit now p" "am_dispatchRequestId p = d"
    and ok: "\<exists>r. snd (admitToolCall sha now p db) = Inr r"
    using assms by (auto simp: admit_step_def split: broker_op.splits sum.splits)
  then obtain c where "admitToolCall sha now p db = admit_tx sha now p c db"
    by (auto simp: admitToolCall_def split: if_splits sum.splits)
  with op ok that show ?thesis by (metis broker_step.simps(7) prod.collapse)
qed

interpretation admission: one_shot "admit_step sha d" "grant_live d" "\<lambda>_. True"
proof unfold_locales
  fix op :: broker_op and db :: state_db
  assume w: "snd (admit_step sha d op db)"
  then obtain now p c db' r where w: "op = Admit now p" "am_dispatchRequestId p = d"
      "admit_tx sha now p c db = (db', Inr r)" "broker_step sha op db = db'"
    by (rule admission_wins)
  obtain gid tool where "r = (gid, tool)" by (cases r)
  with w(3) have "admit_tx sha now p c db = (db', Inr (gid, tool))" by simp
  then obtain g where g: "grant_for db d = Some g" "open_grant g" "now < gr_expiresAt g"
      "db' = db\<lparr>st_grants := tbl_update (consumable now g) (\<lambda>h. h\<lparr>gr_consumedAt := Some now\<rparr>) (st_grants db)\<rparr>"
    by (rule admit_tx_ok) (use w(2) in blast)
  show "grant_live d db" using g by (simp add: grant_live_def)
  have "grant_for db' d = Some (g\<lparr>gr_consumedAt := Some now\<rparr>)"
    using g by (simp add: grant_for_grants_update consumable_def)
  with w(4) show "\<not> grant_live d (fst (admit_step sha d op db))"
    by (simp add: admit_step_def grant_live_def open_grant_def)
qed (simp_all add: admit_step_def grant_closed_step)

lemma readApproval_update:
  assumes "\<And>r. same_action r (f r)"
  shows "readApproval (db\<lparr>st_approvals := tbl_update H f (st_approvals db)\<rparr>) a
    = map_option (\<lambda>r. if H r then f r else r) (readApproval db a)"
  unfolding readApproval_def using assms by (simp add: tbl_get_tbl_update same_action_def)

lemma approval_closed_update:
  assumes "\<not> approval_live a db" and "\<And>r. same_action r (f r)" and "\<And>r. H r \<Longrightarrow> tp_status r = Pending"
  shows "\<not> approval_live a (db\<lparr>st_approvals := tbl_update H f (st_approvals db)\<rparr>)"
  unfolding approval_live_def readApproval_update [of f, OF assms(2)]
  using assms(1,3) by (auto simp: approval_live_def split: option.splits)

lemma decideC2_ok:
  assumes "snd (decideC2Approval sha gid now now' p db) = Inr (Some d)"
  shows "decide_tx sha gid now' p db = (fst (decideC2Approval sha gid now now' p db), Inr (Some d))"
proof -
  have n: "snd (materializeExpiry now (dp_approvalId p) db) = 0"
    using assms by (auto simp: decideC2Approval_def case_prod_beta split: if_splits)
  have "fst (materializeExpiry now (dp_approvalId p) db) = db"
    using n by (simp add: materializeExpiry_def Let_def tbl_update_unchanged)
  with n assms show ?thesis by (simp add: decideC2Approval_def case_prod_beta prod_eq_iff)
qed

lemma decided_closed:
  assumes "broker_ok sha db" and "decide_tx sha gid now p db = (db', Inr (Some d))"
  shows "\<exists>r. readApproval db (dp_approvalId p) = Some r \<and> tp_status r = Pending
    \<and> readApproval db' (dp_approvalId p) = Some (evidence (if dp_approve p then Approved else Rejected) now p (dc_contextHash d) r)"
  using assms(2)
proof (cases rule: decide_tx_cases)
  case (1 r b)
  have ku: "key_unique tp_approvalId (st_approvals db)" using assms(1) by (simp add: broker_ok_def)
  have "decidable now p r" by (rule decided_row [OF ku 1(1) 1(5)])
  moreover have "readApproval db' a = readApproval (db\<lparr>st_approvals := st_approvals db'\<rparr>) a" for a
    by (simp add: readApproval_def)
  ultimately show ?thesis using 1 by (simp add: readApproval_update same_action_evidence)
qed

lemma approval_closed_decide_tx:
  assumes "\<not> approval_live a db"
  shows "\<not> approval_live a (fst (decide_tx sha gid now p db))"
proof (cases "\<exists>x. snd (decide_tx sha gid now p db) = Inr (Some x)")
  case False
  then show ?thesis using decide_tx_other [of sha gid now p db] assms by simp
next
  case True
  then obtain x db' where e: "decide_tx sha gid now p db = (db', Inr (Some x))" by (metis prod.collapse)
  then show ?thesis
  proof (cases rule: decide_tx_cases)
    case (1 r b)
    have "\<not> approval_live a (db\<lparr>st_approvals := st_approvals db'\<rparr>)" unfolding 1(9)
      by (rule approval_closed_update [OF assms same_action_evidence]) (simp add: decidable_def)
    then show ?thesis by (simp add: e approval_live_def readApproval_def)
  qed
qed

lemma approval_closed_step:
  assumes "\<not> approval_live a db"
  shows "\<not> approval_live a (broker_step sha op db)"
proof (cases op)
  case (Register now p)
  then show ?thesis using assms
    by (auto simp: registerC2Approval_def approval_live_def readApproval_def tbl_get_snoc
        split: if_splits option.splits)
next
  case (Decide g now now' p)
  have "\<not> approval_live a (fst (materializeExpiry now (dp_approvalId p) db))"
    unfolding materializeExpiry_def Let_def fst_conv
    by (rule approval_closed_update [OF assms]) (auto simp: same_action_def past_deadline_def)
  then show ?thesis using approval_closed_decide_tx
    by (simp add: Decide decideC2Approval_def case_prod_beta)
next
  case (LegacyDecide now b x)
  then show ?thesis unfolding LegacyDecide broker_step.simps legacyStatusTransition_def Let_def fst_conv
    by (intro approval_closed_update [OF assms]) (auto simp: same_action_def)
next
  case (SweepApprovals now)
  then show ?thesis unfolding SweepApprovals broker_step.simps sweepExpiredApprovals_def fst_conv
    by (intro approval_closed_update [OF assms]) (auto simp: same_action_def past_deadline_def)
next
  case (Admit now p)
  have "st_approvals (fst (admit_tx sha now p c db)) = st_approvals db" for c
    by (auto simp: admit_tx_def revoke_grants_def split: option.split)
  then have "st_approvals (broker_step sha op db) = st_approvals db"
    by (auto simp: Admit admitToolCall_def split: sum.split)
  then show ?thesis using assms by (simp add: approval_live_def readApproval_def)
qed (use assms in \<open>simp_all add: approval_live_def readApproval_def sweepExpiredGrants_def
    revokeInertGrants_def revoke_grants_def\<close>)

lemma legacy_wins:
  assumes ok: "broker_ok sha db" and w: "0 < snd (legacyStatusTransition now a b db)"
  shows "approval_live a db" and "\<not> approval_live a (fst (legacyStatusTransition now a c db))"
proof -
  have ku: "key_unique tp_approvalId (st_approvals db)" using ok by (simp add: broker_ok_def)
  obtain r where r: "r \<in> set (st_approvals db)" "tp_approvalId r = a" "tp_status r = Pending"
    using w tbl_changes_0 [of "\<lambda>r. tp_approvalId r = a \<and> tp_status r = Pending" "st_approvals db"]
    by (fastforce simp: legacyStatusTransition_def Let_def)
  then have rd: "readApproval db a = Some r" by (intro readApproval_row [OF ku])
  with r show "approval_live a db" by (simp add: approval_live_def)
  show "\<not> approval_live a (fst (legacyStatusTransition now a c db))"
    using r rd unfolding legacyStatusTransition_def Let_def fst_conv approval_live_def
    by (subst readApproval_update) (auto simp: same_action_def)
qed

interpretation decision: one_shot "decide_step sha a" "approval_live a" "broker_ok sha"
proof unfold_locales
  fix op :: broker_op and db :: state_db
  assume ok: "broker_ok sha db"
  show "broker_ok sha (fst (decide_step sha a op db))"
    using broker_ok_step [OF ok] by (simp add: decide_step_def)
  show "\<not> approval_live a (fst (decide_step sha a op db))" if "\<not> approval_live a db"
    using approval_closed_step [OF that] by (simp add: decide_step_def)
  assume w: "snd (decide_step sha a op db)"
  have "approval_live a db \<and> \<not> approval_live a (broker_step sha op db)"
  proof (cases op)
    case (Decide g now now' p)
    then obtain d where p: "dp_approvalId p = a" and d: "snd (decideC2Approval sha g now now' p db) = Inr (Some d)"
      using w by (auto simp: decide_step_def split: sum.splits option.splits)
    show ?thesis using decided_closed [OF ok decideC2_ok [OF d]] p
      by (auto simp: Decide approval_live_def evidence_def split: if_splits)
  next
    case (LegacyDecide now b x)
    with w legacy_wins(1) [OF ok, of now a True] legacy_wins(2) [OF ok, of now a True x] show ?thesis by (auto simp: decide_step_def)
  qed (use w in \<open>simp_all add: decide_step_def\<close>)
  then show "approval_live a db" "\<not> approval_live a (fst (decide_step sha a op db))"
    by (simp_all add: decide_step_def)
qed

subsection \<open>Properties\<close>

definition empty_state :: state_db where
  "empty_state = \<lparr>st_security = empty_security_db, st_approvals = [], st_bindings = [],
     st_grants = [], st_tasks = []\<rparr>"

lemma broker_ok_empty: "broker_ok sha empty_state"
  by (simp add: broker_ok_def empty_state_def key_unique_def)

lemma broker_ok_history: "broker_ok sha (fold (broker_step sha) ops empty_state)"
proof -
  have "broker_ok sha (fold (broker_step sha) ops db)" if "broker_ok sha db" for db
    using that by (induction ops arbitrary: db) (simp_all add: broker_ok_step)
  then show ?thesis using broker_ok_empty by blast
qed

text \<open>Registered argument texts are well-formed Unicode.\<close>

fun scalar_op :: "broker_op \<Rightarrow> bool" where
  "scalar_op (Register _ p) = scalars (rp_canonicalArgs p)"
| "scalar_op _ = True"

definition args_ok :: "state_db \<Rightarrow> bool" where
  "args_ok db \<longleftrightarrow> list_all (\<lambda>r. scalars (tp_argsJson r)) (st_approvals db)"

lemma args_ok_update:
  "args_ok db \<Longrightarrow> (\<And>r. tp_argsJson (f r) = tp_argsJson r) \<Longrightarrow>
   st_approvals db' = tbl_update H f (st_approvals db) \<Longrightarrow> args_ok db'"
  by (auto simp: args_ok_def list_all_iff set_tbl_update)

lemma args_ok_decide_tx: "args_ok db \<Longrightarrow> args_ok (fst (decide_tx sha gid now p db))"
proof (cases "\<exists>x. snd (decide_tx sha gid now p db) = Inr (Some x)")
  case True
  assume ok: "args_ok db"
  from True obtain x db' where e: "decide_tx sha gid now p db = (db', Inr (Some x))" by (metis prod.collapse)
  then show ?thesis
  proof (cases rule: decide_tx_cases)
    case (1 r b)
    have "args_ok db'" by (rule args_ok_update [OF ok _ 1(9)]) (simp add: evidence_def)
    then show ?thesis by (simp add: e)
  qed
qed (use decide_tx_other [of sha gid now p db] in simp)

lemma args_ok_step:
  assumes "args_ok db" and "scalar_op op"
  shows "args_ok (broker_step sha op db)"
proof (cases op)
  case (Register now p)
  then show ?thesis using assms
    by (auto simp: registerC2Approval_def args_ok_def split: option.split)
next
  case (Decide g now now' p)
  have "args_ok (fst (materializeExpiry now (dp_approvalId p) db))"
    using assms(1) by (auto simp: materializeExpiry_def Let_def args_ok_def list_all_iff set_tbl_update)
  then show ?thesis using args_ok_decide_tx
    by (simp add: Decide decideC2Approval_def case_prod_beta)
next
  case (LegacyDecide now b x)
  show ?thesis unfolding LegacyDecide broker_step.simps legacyStatusTransition_def Let_def fst_conv
    using assms(1) by (auto simp: args_ok_def list_all_iff set_tbl_update)
next
  case (SweepApprovals now)
  show ?thesis unfolding SweepApprovals broker_step.simps sweepExpiredApprovals_def fst_conv
    using assms(1) by (auto simp: args_ok_def list_all_iff set_tbl_update)
next
  case (Admit now p)
  have "st_approvals (fst (admit_tx sha now p c db)) = st_approvals db" for c
    by (auto simp: admit_tx_def revoke_grants_def split: option.split)
  then have "st_approvals (broker_step sha op db) = st_approvals db"
    by (auto simp: Admit admitToolCall_def split: sum.split)
  then show ?thesis using assms by (simp add: args_ok_def)
qed (use assms in \<open>simp_all add: args_ok_def sweepExpiredGrants_def revokeInertGrants_def revoke_grants_def\<close>)

lemma args_ok_history:
  "list_all scalar_op ops \<Longrightarrow> args_ok (fold (broker_step sha) ops empty_state)"
proof -
  have "args_ok (fold (broker_step sha) ops db)" if "list_all scalar_op ops" "args_ok db" for db
    using that by (induction ops arbitrary: db) (simp_all add: args_ok_step)
  moreover have "args_ok empty_state" by (simp add: args_ok_def empty_state_def)
  ultimately show "list_all scalar_op ops \<Longrightarrow> ?thesis" by blast
qed

lemma actionHash_inj:
  assumes "inj sha" and "actionHash sha r t c = Some h" and "actionHash sha r' t' c' = Some h"
    and "scalars c" and "scalars c'"
  shows "r = r' \<and> t = t' \<and> c = c'"
proof -
  obtain x where x: "frameFields ''ACTIONHASH_V1'' [cps r, cps t, c] = Some x" "sha x = h"
    using assms(2) by (auto simp: actionHash_def)
  obtain y where y: "frameFields ''ACTIONHASH_V1'' [cps r', cps t', c'] = Some y" "sha y = h"
    using assms(3) by (auto simp: actionHash_def)
  have "x = y" using assms(1) x(2) y(2) by (auto dest: injD)
  then obtain z where "frame_rest [cps r, cps t, c] = Some z" "frame_rest [cps r', cps t', c'] = Some z"
    using x(1) y(1) unfolding frameFields_def by (cases "frame_rest [cps r, cps t, c]"; cases "frame_rest [cps r', cps t', c']") auto
  then have "[cps r, cps t, c] = [cps r', cps t', c']"
    by (intro frame_rest_inj) (simp_all add: scalars_cps assms(4,5) del: frame_rest.simps)
  then show ?thesis using cps_inj by auto
qed

text \<open>
  C40. One-shot grants: over any history of registrations, decisions, expiry sweeps, revocations and
  admissions, from any database, at most one tool call is admitted for a dispatch request; the
  consumed, revoked or expired grant never becomes usable again.
\<close>

theorem grant_admitted_once: "wins (snd (run_steps (admit_step sha d) ops db)) \<le> 1"
  by (rule admission.at_most_one_win) (rule TrueI)

text \<open>
  An approval is decided at most once: over any history starting from the empty database,
  whatever mix of C2 decisions, flag-off transitions and expiry, at most one decision of an
  approval id takes effect, and every later one is a harmless no-op.
\<close>

theorem approval_decided_once: "wins (snd (run_steps (decide_step sha a) ops empty_state)) \<le> 1"
  by (rule decision.at_most_one_win) (rule broker_ok_empty)

lemma readApproval_in: "readApproval db a = Some r \<Longrightarrow> r \<in> set (st_approvals db) \<and> tp_approvalId r = a"
  by (auto simp: readApproval_def dest: tbl_get_Some)

text \<open>The scenario of the witnesses: one desktop operator surface approves one call.\<close>

definition demo_ctx :: ContextHashInput where
  "demo_ctx = \<lparr>ci_originPrincipalId = [], ci_originSurfaceId = [], ci_sourceRequestId = [],
     ci_originSurfaceKind = [], ci_profileId = [], ci_toolName = [], ci_canonicalArgs = [],
     ci_privacyContextHash = [], ci_routingContextHash = [], ci_securityPolicyHash = []\<rparr>"

definition demo_security :: security_db where
  "demo_security = \<lparr>db_surfaces = [\<lparr>sf_id = ''s'', sf_principal = ''o'', sf_kind = Desktop,
      sf_role = OperatorSurface, sf_state = Active, sf_authEpoch = 1, sf_classes = [], sf_ops = [],
      sf_capabilityRevision = 1, sf_sourceRevision = ''s'', sf_activatedAt = 0, sf_revokedAt = None\<rparr>],
    db_authorities = [\<lparr>au_grantId = ''a'', au_surface = ''s'', au_authority = Approve,
      au_grantedAt = 0, au_epoch = 1, au_revokedAt = None\<rparr>],
    db_delegations = [\<lparr>dl_id = ''d'', dl_surface = ''s'', dl_profile = ''p'', dl_revision = 1,
      dl_schemaVersion = [], dl_profileVersion = 1, dl_registryVersion = [], dl_policyHash = [],
      dl_registryHash = [], dl_grantedAt = 0, dl_revokedAt = None\<rparr>]\<rparr>"

definition demo_setup :: "broker_op list" where
  "demo_setup =
     [Security (Repair 0 ''s'' ''o''), Security (GrantAuth 0 ''s'' Approve ''a''),
      Security (GrantDeleg 0 (hd (db_delegations demo_security)))]"

definition demo_register :: RegisterC2Params where
  "demo_register = \<lparr>rp_approvalId = ''x'', rp_requestId = [], rp_toolName = ''t'',
     rp_canonicalArgs = [123, 125], rp_originPrincipalId = ''o'', rp_originSurfaceId = ''s'',
     rp_contextInput = demo_ctx, rp_delegationId = ''d'', rp_delegationRevision = 1,
     rp_profileId = ''p'', rp_policyHash = [], rp_capabilityRevision = 1, rp_registryHash = []\<rparr>"

definition demo_decide :: DecideC2Params where
  "demo_decide = \<lparr>dp_approvalId = ''x'', dp_approve = True, dp_decidingPrincipalId = ''o'',
     dp_decidingSurfaceId = ''s'', dp_currentContext = demo_ctx, dp_dispatchRequestId = ''q''\<rparr>"

definition demo_admit :: AdmitParams where
  "demo_admit = \<lparr>am_dispatchRequestId = ''q'', am_toolName = ''t'', am_args = JObj [],
     am_path = BridgePath\<rparr>"

definition demo_ah :: digest where "demo_ah = the (actionHash id [] ''t'' [123, 125])"
definition demo_ch :: digest where "demo_ch = the (contextHash id demo_ctx)"

lemma demo_frames: "actionHash id [] ''t'' [123, 125] = Some demo_ah" "contextHash id demo_ctx = Some demo_ch"
  by (simp_all add: demo_ah_def demo_ch_def actionHash_def contextHash_def contextHashFields_def
      demo_ctx_def frameFields_def u32be_def utf8_def utf8_bytes_def cps_def)

lemma demo_security_run:
  "fold (broker_step sha) demo_setup empty_state = empty_state\<lparr>st_security := demo_security\<rparr>"
  by (simp add: demo_setup_def demo_security_def empty_state_def empty_security_db_def
      repairOperatorSurface_def liveSurfaceSecurity_def surface_row_of_def tbl_get_def
      activateSurfaceProjection_def activation_refused_def safe_positive_def NON_OPERATOR_KINDS_def
      effective_epoch_def upsert_surface_def keep_def grantAuthority_def grantProfileDelegation_def
      revoke_delegations_def tbl_update_def map_filter_def)

definition demo_row :: ApprovalRow where
  "demo_row = \<lparr>tp_approvalId = ''x'', tp_requestId = [], tp_toolName = ''t'', tp_status = Pending,
     tp_argsJson = [123, 125], tp_originPrincipalId = Some ''o'', tp_originSurfaceId = Some ''s'',
     tp_decidedPrincipalId = None, tp_decidedSurfaceId = None, tp_decidedAt = None,
     tp_expiresAt = Some 900001, tp_contextHash = None\<rparr>"

definition demo_binding :: BindingRow where
  "demo_binding = \<lparr>bn_approvalId = ''x'', bn_requestId = [], bn_actionHash = demo_ah,
     bn_canonicalArgsHash = utf8 [123, 125], bn_registrationContextHash = demo_ch,
     bn_delegationId = ''d'', bn_delegationRevision = 1, bn_profileId = ''p'', bn_policyHash = [],
     bn_capabilityRevision = 1, bn_registryHash = []\<rparr>"

definition demo_pending :: state_db where
  "demo_pending = \<lparr>st_security = demo_security, st_approvals = [demo_row],
     st_bindings = [demo_binding], st_grants = [], st_tasks = []\<rparr>"

lemma demo_pending_run:
  "fold (broker_step id) (demo_setup @ [Register 1 demo_register]) empty_state = demo_pending"
  unfolding fold_append comp_def demo_security_run
  by (simp add: registerC2Approval_def demo_register_def readApproval_def
      readBinding_def tbl_get_def empty_state_def demo_frames demo_pending_def demo_row_def
      demo_binding_def addSeconds_def APPROVAL_TTL_SECONDS_def)

lemma demo_args: "validateAndCanonicalizeArgs (JObj []) = Inr [123, 125]"
  by (simp add: validateAndCanonicalizeArgs_def sortByCodePoint_def join_def)

lemmas demo_eval = decideC2Approval_def materializeExpiry_def past_deadline_def decide_tx_def Let_def
  demo_decide_def demo_pending_def readApproval_def readBinding_def tbl_get_def tbl_changes_def
  tbl_update_def demo_row_def demo_binding_def decision_refusal_def demo_security_def
  liveSurfaceSecurity_def surface_row_of_def NON_OPERATOR_KINDS_def holdsAuthority_def
  live_authority_def demo_frames delegation_stale_def delegationById_def decidable_def
  grant_conflict_def

lemma demo_decide_run:
  "\<exists>db d. decideC2Approval id ''g'' 2 2 demo_decide demo_pending = (db, Inr (Some d))"
  by (simp add: demo_eval)

lemma demo_admit_run:
  "\<exists>db. admitToolCall id 3 demo_admit
     (fst (decideC2Approval id ''g'' 2 2 demo_decide demo_pending)) = (db, Inr (''g'', ''t''))"
  by (simp add: demo_eval mint_grant_def evidence_def addSeconds_def GRANT_TTL_SECONDS_def
      admitToolCall_def demo_admit_def demo_args admit_tx_def grant_for_def consumable_def
      open_grant_def)

definition live_delegation_matches :: "security_db \<Rightarrow> string \<Rightarrow> int \<Rightarrow> string \<Rightarrow> string \<Rightarrow> bool" where
  "live_delegation_matches sec did rv ph rh \<longleftrightarrow>
     (\<exists>d. delegationById sec did = Some d \<and> dl_revokedAt d = None \<and> dl_revision d = rv
        \<and> dl_policyHash d = ph \<and> dl_registryHash d = rh)"

lemma delegation_stale_matches:
  "\<not> delegation_stale (delegationById sec did) rv ph rh \<longleftrightarrow> live_delegation_matches sec did rv ph rh"
  by (auto simp: delegation_stale_def live_delegation_matches_def split: option.splits)

text \<open>
  C1. Exact-action admission. If a tool call is admitted after any history, then it does not run on
  the frontier path and some approval row is in the approved state whose tool and whose
  canonical arguments are those of the call, byte for byte; its one-shot grant was open and
  unexpired, the delegation the approval was registered against is live and unchanged, and the
  deciding surface is live at the authorization epoch of the decision. SHA-256 is taken as
  collision-free.
\<close>

theorem exact_action_admission:
  assumes "inj sha" and "list_all scalar_op ops"
    and "db = fold (broker_step sha) ops empty_state"
    and "validateAndCanonicalizeArgs (am_args p) = Inr c" and "scalars c"
    and "snd (admitToolCall sha now p db) = Inr (gid, tool)"
  shows "am_path p \<noteq> FrontierPath
    \<and> (\<exists>g \<in> set (st_grants db). gr_dispatchRequestId g = am_dispatchRequestId p
        \<and> open_grant g \<and> now < gr_expiresAt g
        \<and> live_delegation_matches (st_security db) (gr_delegationId g) (gr_delegationRevision g)
            (gr_policyHash g) (gr_registryHash g)
        \<and> map_option sf_authEpoch (liveSurfaceSecurity (st_security db) (gr_decidingSurfaceId g))
            = Some (gr_decidingAuthEpoch g)
        \<and> (\<exists>r \<in> set (st_approvals db). tp_approvalId r = gr_approvalId g \<and> tp_status r = Approved
             \<and> tp_toolName r = am_toolName p \<and> tool = am_toolName p \<and> tp_argsJson r = c))"
proof -
  have path: "am_path p \<noteq> FrontierPath" and tx: "snd (admit_tx sha now p c db) = Inr (gid, tool)"
    using assms(4,6) by (auto simp: admitToolCall_def split: if_splits)
  from tx obtain db' where "admit_tx sha now p c db = (db', Inr (gid, tool))" by (metis prod.collapse)
  then show ?thesis
  proof (cases rule: admit_tx_ok)
    case (1 g)
    have g: "g \<in> set (st_grants db)" "gr_dispatchRequestId g = am_dispatchRequestId p"
      using 1(1) by (auto simp: grant_for_def dest: tbl_get_Some)
    have "grant_ok sha (st_approvals db) g"
      using broker_ok_history [of sha ops] g(1) assms(3) by (simp add: broker_ok_def list_all_iff)
    then obtain r where r: "r \<in> set (st_approvals db)" "tp_approvalId r = gr_approvalId g"
        "tp_status r = Approved" "tp_toolName r = gr_toolName g" "tp_requestId r = gr_sourceRequestId g"
        "action_of sha r = Some (gr_actionHash g)"
      by (auto simp: grant_ok_def)
    have "scalars (tp_argsJson r)"
      using args_ok_history [OF assms(2), of sha] r(1) assms(3) by (simp add: args_ok_def list_all_iff)
    then have "tp_toolName r = am_toolName p \<and> tp_argsJson r = c"
      using actionHash_inj [OF assms(1) r(6) [unfolded action_of_def] 1(6)] assms(5) by simp
    with path g r 1 show ?thesis by (auto simp: delegation_stale_matches intro!: bexI [of _ g] bexI [of _ r])
  qed
qed

theorem exact_action_admission_witness:
  "let db = fold (broker_step id) (demo_setup @ [Register 1 demo_register, Decide ''g'' 2 2 demo_decide]) empty_state
   in \<exists>g \<in> set (st_grants db). \<exists>r \<in> set (st_approvals db). tp_approvalId r = gr_approvalId g
        \<and> tp_status r = Approved \<and> tp_argsJson r = [123, 125]"
proof -
  let ?ops = "(demo_setup @ [Register 1 demo_register]) @ [Decide ''g'' 2 2 demo_decide]"
  have run: "fold (broker_step id) ?ops empty_state = fst (decideC2Approval id ''g'' 2 2 demo_decide demo_pending)"
    unfolding fold_append [of _ "demo_setup @ [Register 1 demo_register]"] comp_def demo_pending_run by simp
  have adm: "snd (admitToolCall id 3 demo_admit (fold (broker_step id) ?ops empty_state)) = Inr (''g'', ''t'')"
    using demo_admit_run unfolding run by force
  have ops: "list_all scalar_op ?ops"
    by (simp add: demo_setup_def demo_register_def scalars_def scalar_def)
  have args: "validateAndCanonicalizeArgs (am_args demo_admit) = Inr [123, 125]"
    by (simp add: demo_admit_def demo_args)
  have c: "scalars [123, 125]" by (simp add: scalars_def scalar_def)
  show ?thesis using exact_action_admission [OF inj_on_id ops refl args c adm] by (auto simp: Let_def)
qed

lemma decision_refusal_None:
  assumes "decision_refusal sha p r b db = None"
  obtains s where "liveSurfaceSecurity (st_security db) (dp_decidingSurfaceId p) = Some s"
    "sf_role s = OperatorSurface" "sf_kind s \<notin> NON_OPERATOR_KINDS"
    "holdsAuthority (st_security db) (dp_decidingSurfaceId p) Approve"
    "contextHash sha (dp_currentContext p) = Some (bn_registrationContextHash b)"
    "live_delegation_matches (st_security db) (bn_delegationId b) (bn_delegationRevision b)
       (bn_policyHash b) (bn_registryHash b)"
    "sf_capabilityRevision s = bn_capabilityRevision b"
  using assms unfolding delegation_stale_matches [symmetric]
  by (auto simp: decision_refusal_def Let_def split: option.splits if_splits)

text \<open>
  C31. Who may decide, and what a decision leaves. A decision takes effect only from a live operator
  surface that is no channel or automation surface and holds the approve authority at its current
  epoch; the digest recomputed over the current context equals the one of the registration, the
  delegation and capability revision are those registered, and the approval was pending before its
  deadline. APPROVE adds exactly one open grant, for this approval and dispatch, that lapses after
  sixty seconds; REJECT adds none.
\<close>

theorem approve_requires_live_operator:
  assumes "broker_ok sha db"
    and "decideC2Approval sha gid now now' p db = (db', Inr (Some d))"
  shows "(\<exists>s r b t. liveSurfaceSecurity (st_security db) (dp_decidingSurfaceId p) = Some s
      \<and> sf_role s = OperatorSurface \<and> sf_kind s \<notin> NON_OPERATOR_KINDS
      \<and> holdsAuthority (st_security db) (dp_decidingSurfaceId p) Approve
      \<and> readApproval db (dp_approvalId p) = Some r \<and> tp_status r = Pending
      \<and> tp_expiresAt r = Some t \<and> now' < t
      \<and> readBinding db (dp_approvalId p) = Some b
      \<and> contextHash sha (dp_currentContext p) = Some (bn_registrationContextHash b)
      \<and> live_delegation_matches (st_security db) (bn_delegationId b) (bn_delegationRevision b)
          (bn_policyHash b) (bn_registryHash b)
      \<and> sf_capabilityRevision s = bn_capabilityRevision b)
    \<and> (if dp_approve p
       then (\<exists>g. st_grants db' = st_grants db @ [g] \<and> open_grant g \<and> gr_expiresAt g = now' + 60000
              \<and> gr_approvalId g = dp_approvalId p \<and> gr_dispatchRequestId g = dp_dispatchRequestId p
              \<and> gr_decidingSurfaceId g = dp_decidingSurfaceId p)
       else st_grants db' = st_grants db)"
proof -
  have "decide_tx sha gid now' p db = (db', Inr (Some d))"
    using decideC2_ok [of sha gid now now' p db d] assms(2) by simp
  then show ?thesis
  proof (cases rule: decide_tx_cases)
    case (1 r b)
    have ku: "key_unique tp_approvalId (st_approvals db)" using assms(1) by (simp add: broker_ok_def)
    obtain t where t: "tp_expiresAt r = Some t" "now' < t"
      using decided_row(1) [OF ku 1(1) 1(5)] by (auto simp: decidable_def split: option.splits)
    obtain s where "liveSurfaceSecurity (st_security db) (dp_decidingSurfaceId p) = Some s"
      "sf_role s = OperatorSurface" "sf_kind s \<notin> NON_OPERATOR_KINDS"
      "holdsAuthority (st_security db) (dp_decidingSurfaceId p) Approve"
      "contextHash sha (dp_currentContext p) = Some (bn_registrationContextHash b)"
      "live_delegation_matches (st_security db) (bn_delegationId b) (bn_delegationRevision b)
         (bn_policyHash b) (bn_registryHash b)"
      "sf_capabilityRevision s = bn_capabilityRevision b"
      by (rule decision_refusal_None [OF 1(4)])
    with t 1(1-3) 1(10) show ?thesis by (simp add: mint_grant_simps)
  qed
qed

theorem approve_requires_live_operator_witness:
  "\<exists>db'. \<exists>g. st_grants db' = [g] \<and> gr_approvalId g = ''x'' \<and> gr_expiresAt g = 60002
     \<and> db' = fst (decideC2Approval id ''g'' 2 2 demo_decide demo_pending)"
proof -
  obtain db' d where d: "decideC2Approval id ''g'' 2 2 demo_decide demo_pending = (db', Inr (Some d))"
    using demo_decide_run by blast
  have "broker_ok id demo_pending" using broker_ok_history unfolding demo_pending_run [symmetric] .
  from approve_requires_live_operator [OF this d] have "\<exists>g. st_grants db' = st_grants demo_pending @ [g]
      \<and> gr_expiresAt g = 2 + 60000 \<and> gr_approvalId g = dp_approvalId demo_decide"
    by (auto simp: demo_decide_def)
  then show ?thesis using d by (auto simp: demo_pending_def demo_decide_def)
qed

text \<open>
  Revoking an authority does not reach the grants already minted with it: the admission of a
  tool call gives the same answer before and after the revocation of any authority of any surface,
  the approve authority of the deciding surface included. Only the surface's epoch is read again.
\<close>

theorem authority_revocation_not_rechecked:
  "snd (admitToolCall sha now p (db\<lparr>st_security := fst (revokeAuthority t sid a (st_security db))\<rparr>))
   = snd (admitToolCall sha now p db)"
proof -
  have s: "liveSurfaceSecurity (fst (revokeAuthority t sid a sec)) = liveSurfaceSecurity sec"
    "delegationById (fst (revokeAuthority t sid a sec)) = delegationById sec" for sec
    by (auto simp: revokeAuthority_def liveSurfaceSecurity_def surface_row_of_def delegationById_def
        fun_eq_iff)
  have "snd (admit_tx sha now p c (db\<lparr>st_security := fst (revokeAuthority t sid a (st_security db))\<rparr>))
      = snd (admit_tx sha now p c db)" for c
    by (cases "grant_for db (am_dispatchRequestId p)") (simp_all add: admit_tx_def s grant_for_def)
  then show ?thesis by (simp add: admitToolCall_def split: sum.split)
qed

end
