(* ===== verification/Collab_Text.thy ===== *)
theory Collab_Text
  imports Json
begin

text \<open>
  Normalization of names and messages, \<open>packages/collab/src/text.ts\<close> and \<open>fold.ts\<close>, on
  code points. The Unicode NFC transform is an argument, as is the case folding table, which the
  code reads from a vendored data file.
\<close>

definition C0_CONTROLS :: "nat \<Rightarrow> bool" where
  "C0_CONTROLS c \<longleftrightarrow> c \<le> 31"

definition C1_CONTROLS :: "nat \<Rightarrow> bool" where
  "C1_CONTROLS c \<longleftrightarrow> 128 \<le> c \<and> c \<le> 159"

definition MESSAGE_ALLOWED_CONTROLS :: "nat \<Rightarrow> bool" where
  "MESSAGE_ALLOWED_CONTROLS c \<longleftrightarrow> c = 9 \<or> c = 10 \<or> c = 13"

definition BIDI_CONTROLS :: "nat \<Rightarrow> bool" where
  "BIDI_CONTROLS c \<longleftrightarrow> (8234 \<le> c \<and> c \<le> 8238) \<or> (8294 \<le> c \<and> c \<le> 8297)"

definition SEPARATOR_CHARS :: "nat \<Rightarrow> bool" where
  "SEPARATOR_CHARS c \<longleftrightarrow> c = 8232 \<or> c = 8233"

text \<open>The length of the JSON string form, without the quotes.\<close>

definition countJsonEncodedBytes :: "text_cp \<Rightarrow> nat" where
  "countJsonEncodedBytes t = utf8_length (serializeString t) - 2"

definition normalizeMessageText :: "(text_cp \<Rightarrow> text_cp) \<Rightarrow> text_cp \<Rightarrow> text_cp option" where
  "normalizeMessageText nfc raw =
     (let t = nfc raw
      in if utf8_length t < 1 \<or> 16384 < utf8_length t \<or> 16384 < countJsonEncodedBytes t then None
         else if list_ex (\<lambda>c. (C0_CONTROLS c \<or> C1_CONTROLS c) \<and> \<not> MESSAGE_ALLOWED_CONTROLS c) t
         then None else Some t)"

text \<open>The white space and line terminators of \<open>String.prototype.trim\<close>.\<close>

definition js_space :: "nat \<Rightarrow> bool" where
  "js_space c \<longleftrightarrow> (9 \<le> c \<and> c \<le> 13) \<or> c = 32 \<or> c = 160 \<or> c = 5760 \<or> (8192 \<le> c \<and> c \<le> 8202)
     \<or> c = 8232 \<or> c = 8233 \<or> c = 8239 \<or> c = 8287 \<or> c = 12288 \<or> c = 65279"

definition trim_cp :: "text_cp \<Rightarrow> text_cp" where
  "trim_cp t = rev (dropWhile js_space (rev (dropWhile js_space t)))"

definition normalizeName :: "(text_cp \<Rightarrow> text_cp) \<Rightarrow> text_cp \<Rightarrow> text_cp option" where
  "normalizeName nfc raw =
     (let t = trim_cp (nfc raw)
      in if length t < 1 \<or> 80 < length t
            \<or> list_ex (\<lambda>c. C0_CONTROLS c \<or> C1_CONTROLS c \<or> SEPARATOR_CHARS c \<or> BIDI_CONTROLS c) t
         then None else Some t)"

definition nameKey :: "(nat \<Rightarrow> text_cp option) \<Rightarrow> text_cp \<Rightarrow> text_cp" where
  "nameKey foldTable t = concat (map (\<lambda>c. case foldTable c of None \<Rightarrow> [c] | Some m \<Rightarrow> m) t)"

lemma normalizeName_shape:
  "normalizeName nfc raw = Some t \<Longrightarrow> t \<noteq> [] \<and> length t \<le> 80 \<and> \<not> list_ex C0_CONTROLS t"
  by (auto simp: normalizeName_def Let_def list_ex_iff split: if_splits)

lemma normalizeMessageText_shape:
  "normalizeMessageText nfc raw = Some t \<Longrightarrow> t = nfc raw \<and> t \<noteq> [] \<and> utf8_length t \<le> 16384"
  by (auto simp: normalizeMessageText_def Let_def utf8_length_pos split: if_splits)

end
