(* ===== verification/Collab_Db.thy ===== *)
theory Collab_Db
  imports Collab_Text Action_Hash
begin

text \<open>
  The collaboration database and the transaction drivers of \<open>packages/collab/src/store.ts\<close>:
  rows, the in-transaction predicates, the event log of a channel and the keyed (idempotent)
  command driver. A transaction is a function on the database; a throw rolls it back. The clock and
  the identifier source are read in call order, so an environment is a function of the call number.
\<close>

subsection \<open>Rows\<close>

datatype PrincipalKind = OperatorKind | AgentKind
datatype PrincipalStatus = PActive | PSuspended | PRevoked

record PrincipalRow =
  pr_id :: string
  pr_kind :: PrincipalKind
  pr_displayName :: text_cp
  pr_owner :: "string option"
  pr_status :: PrincipalStatus
  pr_authEpoch :: int
  pr_revokedAt :: "string option"

datatype CredentialState = CredActive | CredRevoked

record CredentialRow =
  cr_id :: string
  cr_principal :: string
  cr_secretHmac :: digest
  cr_state :: CredentialState
  cr_revokedAt :: "string option"

datatype ChannelState = ChActive | ChArchived
datatype ExportPolicy = LocalOnly | OperatorConfirmedNonSensitive

record ChannelRow =
  ch_id :: string
  ch_name :: text_cp
  ch_nameKey :: text_cp
  ch_state :: ChannelState
  ch_owner :: string
  ch_epoch :: int
  ch_policy :: ExportPolicy

datatype MemberRole = OwnerRole | AgentRole
datatype MemberState = MActive | MRemoved

record MemberRow =
  mb_channel :: string
  mb_principal :: string
  mb_role :: MemberRole
  mb_state :: MemberState
  mb_epoch :: int
  mb_rejoinedSeq :: nat
  mb_joinedAt :: string
  mb_removedAt :: "string option"

text \<open>The state of a room job and the steps of its life; both name events of the channel log.\<close>

datatype RoomJobState = JobCreated | JobCancelled

datatype RoomJobLifecycleKind =
    job_created | cancel_requested | job_cancelled | artifact_committed | attempt_started
  | draft_committed | review_committed | execution_failed

datatype EventKind =
    channel_created | member_added | member_removed | message_posted | channel_archived
  | channel_unarchived | room_job RoomJobLifecycleKind

record EventRow =
  ev_id :: string
  ev_channel :: string
  ev_seq :: nat
  ev_actor :: string
  ev_kind :: EventKind
  ev_content :: jval
  ev_createdAt :: string

record CursorRow =
  cu_channel :: string
  cu_principal :: string
  cu_ack :: nat

text \<open>
  The tables of agent participation. Instants that the code compares or adds to are milliseconds;
  the ISO texts it stores have a fixed width, so they compare like the instants they denote.
\<close>

record AgentSchedule =
  sr_id :: string
  sr_channel :: string
  sr_agent :: string
  sr_creator :: string
  sr_interval :: int
  sr_hint :: "text_cp option"
  sr_active :: bool
  sr_nextSeq :: nat
  sr_nextAt :: int
  sr_lastAt :: "int option"
  sr_key :: string

datatype ScheduleRunState =
    RunDispatched | RunCompleted | RunNoPost | RunTerminated | RunBlockedAwaitingApproval

record ScheduleRun =
  sn_schedule :: string
  sn_seq :: nat
  sn_channel :: string
  sn_agent :: string
  sn_state :: ScheduleRunState
  sn_request :: "string option"
  sn_refusal :: "string option"
  sn_firedAt :: int
  sn_resolved :: bool

datatype AgentTurnState = TurnDispatched | TurnCompleted | TurnNoPost | TurnTerminated
datatype OutputKind = ToolOutput | FallbackOutput

record PersonaFields =
  pe_version :: "int option"
  pe_content :: "text_cp option"
  pe_revision :: "int option"
  pe_sha :: "string option"

record TurnRow =
  tu_channel :: string
  tu_agent :: string
  tu_seq :: int
  tu_trigger :: string
  tu_state :: AgentTurnState
  tu_request :: "string option"
  tu_dispatchedAt :: int
  tu_resolved :: bool
  tu_output :: "(string \<times> OutputKind) option"
  tu_attempt :: nat
  tu_lease :: "string option"
  tu_persona :: PersonaFields
  tu_note :: "string option"

record StopRow =
  so_channel :: "string option"
  so_by :: string
  so_at :: int

record RuntimeProfileRow =
  rp_agent :: string
  rp_account :: string
  rp_adapter :: string
  rp_model :: string
  rp_autostart :: bool
  rp_confirmed :: bool
  rp_xAccount :: "string option"
  rp_xModel :: "string option"
  rp_xFingerprint :: "string option"
  rp_xExactModel :: "string option"
  rp_xRevision :: "int option"
  rp_xSha :: "string option"
  rp_createdAt :: string
  rp_updatedAt :: string

record PersonaRow =
  ps_agent :: string
  ps_icon :: string
  ps_directives :: text_cp
  ps_revision :: int
  ps_createdAt :: string
  ps_updatedAt :: string

record AgentRuntimeProfile =
  ap_agent :: string
  ap_account :: string
  ap_adapter :: string
  ap_model :: string
  ap_autostart :: bool
  ap_confirmed :: bool
  ap_fingerprint :: "string option"
  ap_exactModel :: "string option"
  ap_revision :: "int option"
  ap_sha :: "string option"
  ap_createdAt :: string
  ap_updatedAt :: string

text \<open>
  The tables of room jobs. The execution migration adds the generation column and the tables of
  facts, attempts, outbox and acknowledgements; whether it has run is a flag of the record.
\<close>

datatype RoomArtifactType = Proposal | DecisionSummary | ResearchSource | IndependentReview
datatype RoomArtifactProvenanceKind = UserProvided | ToolObserved | ModelAssertion | TestFixture
datatype RoomJobStage = Draft | Review

datatype AttemptState =
    Queued | AtDraftCommitted | AtReviewCommitted | CompletedInternal | AtCancelled | ValidationFailed
  | AtRecoveryNeeded | AtRuntimeUnavailable

datatype OutboxState = ObPending | ObClaimed | ObAcknowledged | ObCancelled | ObRecoveryNeeded | ObRefused

record RoomJobRow =
  rj_id :: string
  rj_channel :: string
  rj_creator :: string
  rj_brief :: text_cp
  rj_briefSha :: string
  rj_state :: RoomJobState
  rj_revision :: int
  rj_createdAt :: string
  rj_cancelRequestedAt :: "string option"
  rj_cancelledAt :: "string option"
  rj_generation :: int

record RoomJobEventRow =
  re_job :: string
  re_seq :: nat
  re_event :: string
  re_kind :: RoomJobLifecycleKind
  re_state :: RoomJobState
  re_revision :: int
  re_createdAt :: string

record RoomArtifactRow =
  ra_id :: string
  ra_job :: string
  ra_revision :: int
  ra_type :: RoomArtifactType
  ra_kind :: RoomArtifactProvenanceKind
  ra_provenance :: text_cp
  ra_content :: "nat list"
  ra_sha :: string
  ra_createdAt :: string

record RoomFactRow =
  rf_id :: string
  rf_job :: string
  rf_ordinal :: nat
  rf_content :: "nat list"
  rf_sha :: string
  rf_createdAt :: string

record RoomAttemptRow =
  rt_id :: string
  rt_job :: string
  rt_owner :: string
  rt_generation :: int
  rt_inputHash :: string
  rt_configuration :: string
  rt_state :: AttemptState
  rt_reason :: "string option"
  rt_createdAt :: string
  rt_updatedAt :: string

record RoomAttemptFactRow =
  tf_attempt :: string
  tf_fact :: string
  tf_ordinal :: nat
  tf_sha :: string

record RoomOutboxRow =
  ob_id :: string
  ob_attempt :: string
  ob_stage :: RoomJobStage
  ob_payload :: string
  ob_state :: OutboxState
  ob_createdAt :: string
  ob_ackAt :: "string option"

record RoomAckRow =
  ak_attempt :: string
  ak_stage :: RoomJobStage
  ak_request :: string
  ak_generation :: int
  ak_hash :: string

record room_tables =
  rm_jobs :: "RoomJobRow list"
  rm_events :: "RoomJobEventRow list"
  rm_artifacts :: "RoomArtifactRow list"
  rm_execution :: bool
  rm_facts :: "RoomFactRow list"
  rm_attempts :: "RoomAttemptRow list"
  rm_attemptFacts :: "RoomAttemptFactRow list"
  rm_outbox :: "RoomOutboxRow list"
  rm_acks :: "RoomAckRow list"

definition empty_rooms :: "bool \<Rightarrow> room_tables" where
  "empty_rooms execution = \<lparr>rm_jobs = [], rm_events = [], rm_artifacts = [], rm_execution = execution,
     rm_facts = [], rm_attempts = [], rm_attemptFacts = [], rm_outbox = [], rm_acks = []\<rparr>"

text \<open>What the room commands answer.\<close>

record RoomJobListEntry =
  le_job :: string
  le_channel :: string
  le_state :: RoomJobState
  le_revision :: int
  le_createdAt :: string
  le_cancelledAt :: "string option"
  le_briefBytes :: nat
  le_canCreate :: bool
  le_canCancel :: bool

record RoomJobFactMetadata =
  fm_id :: string
  fm_ordinal :: nat
  fm_sha :: string
  fm_createdAt :: string

record RoomJobAttemptMetadata =
  am_id :: string
  am_generation :: int
  am_inputHash :: string
  am_configuration :: string
  am_state :: AttemptState
  am_reason :: "string option"
  am_createdAt :: string
  am_updatedAt :: string

datatype command_name =
    CREATE_AGENT_CMD | CREATE_PRINCIPAL_CREDENTIAL | SUSPEND_AGENT | RESTORE_AGENT | REVOKE_AGENT
  | ROTATE_PRINCIPAL_CREDENTIAL | REVOKE_PRINCIPAL_CREDENTIAL | CREATE_CHANNEL
  | SET_CHANNEL_EXTERNAL_EXPORT_POLICY_CMD | ADD_CHANNEL_MEMBER_CMD | REMOVE_CHANNEL_MEMBER_CMD
  | ARCHIVE_CHANNEL | UNARCHIVE_CHANNEL | POST_CHANNEL_MESSAGE_CMD | PROVISION_AGENT_CMD
  | UPSERT_AGENT_RUNTIME_PROFILE_CMD | UPSERT_AGENT_PERSONA_CMD | SET_LOCAL_AGENT_AUTOSTART_CMD
  | CREATE_ROOM_JOB | CANCEL_ROOM_JOB | ADD_ROOM_JOB_FACTS | START_ROOM_JOB

text \<open>The results of the commands; a credential carries its one-time token or none.\<close>

datatype reply =
    CredentialReply string string "string option"
  | RotateReply string string "string option" string
  | LifecycleReply string PrincipalStatus int
  | RevokeAgentReply string int nat
  | RevokeCredentialReply string string
  | ChannelReply string text_cp
  | PolicyReply string ExportPolicy string
  | MemberReply string string int
  | ArchiveReply string ChannelState int
  | PostReply string string string
  | ProfileReply AgentRuntimeProfile
  | PersonaReply PersonaRow
  | ProvisionReply text_cp AgentRuntimeProfile "string list"
  | CreateRoomJobReply RoomJobListEntry string
  | CancelRoomJobReply RoomJobListEntry
  | RoomJobFactsReply "RoomJobFactMetadata list" string
  | StartRoomJobReply RoomJobAttemptMetadata string

record MutationResult =
  mr_principal :: string
  mr_command :: command_name
  mr_key :: string
  mr_hash :: digest
  mr_result :: reply

datatype SessionCloseReason =
    CredentialRevoked | PrincipalSuspended | PrincipalRestored | PrincipalRevoked | SocketClosed

record SessionBindingRow =
  sb_session :: string
  sb_principal :: string
  sb_credential :: string
  sb_epoch :: int
  sb_closed :: "(string \<times> SessionCloseReason) option"

record AuditRow =
  ad_kind :: string
  ad_actor :: string
  ad_subject :: string

record PolicyAuditRow =
  pa_channel :: string
  pa_actor :: string
  pa_prior :: ExportPolicy
  pa_new :: ExportPolicy
  pa_key :: string

record collab_db =
  db_principals :: "PrincipalRow list"
  db_credentials :: "CredentialRow list"
  db_channels :: "ChannelRow list"
  db_members :: "MemberRow list"
  db_events :: "EventRow list"
  db_cursors :: "CursorRow list"
  db_results :: "MutationResult list"
  db_sessions :: "SessionBindingRow list"
  db_schedules :: "AgentSchedule list"
  db_audit :: "AuditRow list"
  db_policyAudit :: "PolicyAuditRow list"
  db_runs :: "ScheduleRun list"
  db_turns :: "TurnRow list"
  db_stops :: "StopRow list"
  db_profiles :: "RuntimeProfileRow list"
  db_personas :: "PersonaRow list"
  db_rooms :: room_tables

datatype CollabErrorCode =
    PRINCIPAL_NOT_FOUND | CREDENTIAL_NOT_FOUND | INVALID_PRINCIPAL_STATE
  | INVALID_PRINCIPAL_TRANSITION | INVALID_REQUEST | LAST_OPERATOR_CREDENTIAL
  | IDEMPOTENCY_CONFLICT | COLLAB_NOT_PERMITTED | COLLAB_NOT_FOUND | CHANNEL_ARCHIVED
  | CHANNEL_NAME_CONFLICT | CURSOR_OUT_OF_RANGE
  | PERSONA_REVISION_CONFLICT | SQL_CONSTRAINT

record platform =
  pf_sha :: "nat list \<Rightarrow> digest"
  pf_nfc :: "text_cp \<Rightarrow> text_cp"
  pf_fold :: "nat \<Rightarrow> text_cp option"

record env =
  en_clock :: "nat \<Rightarrow> string"
  en_uuid :: "nat \<Rightarrow> string"

subsection \<open>Lookups and predicates\<close>

definition principal_row :: "collab_db \<Rightarrow> string \<Rightarrow> PrincipalRow option" where
  "principal_row db p = tbl_get (\<lambda>r. pr_id r = p) (db_principals db)"

definition channel_row :: "collab_db \<Rightarrow> string \<Rightarrow> ChannelRow option" where
  "channel_row db c = tbl_get (\<lambda>r. ch_id r = c) (db_channels db)"

definition member_key :: "MemberRow \<Rightarrow> string \<times> string" where
  "member_key m = (mb_channel m, mb_principal m)"

definition member_row :: "collab_db \<Rightarrow> string \<Rightarrow> string \<Rightarrow> MemberRow option" where
  "member_row db c p = tbl_get (\<lambda>m. member_key m = (c, p)) (db_members db)"

definition getOperatorOrThrow :: "collab_db \<Rightarrow> PrincipalRow option" where
  "getOperatorOrThrow db = tbl_get (\<lambda>r. pr_kind r = OperatorKind) (db_principals db)"

definition assertOperatorCaller :: "string \<Rightarrow> collab_db \<Rightarrow> CollabErrorCode option" where
  "assertOperatorCaller caller db =
     (case principal_row db caller of
        None \<Rightarrow> Some COLLAB_NOT_PERMITTED
      | Some r \<Rightarrow> if pr_kind r \<noteq> OperatorKind \<or> pr_status r \<noteq> PActive
                  then Some COLLAB_NOT_PERMITTED else None)"

definition assertChannelOwner :: "string \<Rightarrow> string \<Rightarrow> collab_db \<Rightarrow> CollabErrorCode option" where
  "assertChannelOwner caller c db =
     (case (principal_row db caller, channel_row db c) of
        (Some r, Some ch) \<Rightarrow>
          if pr_kind r \<noteq> OperatorKind \<or> pr_status r \<noteq> PActive \<or> ch_owner ch \<noteq> pr_id r
          then Some COLLAB_NOT_FOUND else None
      | _ \<Rightarrow> Some COLLAB_NOT_FOUND)"

definition assertChannelVisible :: "string \<Rightarrow> string \<Rightarrow> collab_db \<Rightarrow> CollabErrorCode + MemberRow" where
  "assertChannelVisible caller c db =
     (case channel_row db c of
        None \<Rightarrow> Inl COLLAB_NOT_FOUND
      | Some _ \<Rightarrow> (case member_row db c caller of
          None \<Rightarrow> Inl COLLAB_NOT_FOUND
        | Some m \<Rightarrow> if mb_state m \<noteq> MActive then Inl COLLAB_NOT_FOUND else Inr m))"

definition left_error :: "'e + 'a \<Rightarrow> 'e option" where
  "left_error r = (case r of Inl e \<Rightarrow> Some e | Inr _ \<Rightarrow> None)"

subsection \<open>The event log of a channel\<close>

definition channel_events :: "collab_db \<Rightarrow> string \<Rightarrow> EventRow list" where
  "channel_events db c = filter (\<lambda>e. ev_channel e = c) (db_events db)"

definition getMaxChannelSeq :: "collab_db \<Rightarrow> string \<Rightarrow> nat" where
  "getMaxChannelSeq db c = fold max (map ev_seq (channel_events db c)) 0"

definition callerVisibleBound :: "collab_db \<Rightarrow> string \<Rightarrow> nat \<Rightarrow> nat" where
  "callerVisibleBound db c rejoinedSeq =
     (let m = getMaxChannelSeq db c in if m > rejoinedSeq then m else rejoinedSeq)"

text \<open>The insert of an event; the table's unique keys make a duplicate throw.\<close>

definition insert_event ::
  "string \<Rightarrow> string \<Rightarrow> nat \<Rightarrow> string \<Rightarrow> EventKind \<Rightarrow> jval \<Rightarrow> string \<Rightarrow> collab_db \<Rightarrow> collab_db option" where
  "insert_event eid c seq actor kind content now db =
     (if tbl_get (\<lambda>e. ev_id e = eid \<or> (ev_channel e = c \<and> ev_seq e = seq)) (db_events db) \<noteq> None
      then None
      else Some (db\<lparr>db_events := db_events db @
        [\<lparr>ev_id = eid, ev_channel = c, ev_seq = seq, ev_actor = actor, ev_kind = kind,
          ev_content = content, ev_createdAt = now\<rparr>]\<rparr>))"

text \<open>Append at the next sequence number of the channel.\<close>

definition append_event ::
  "string \<Rightarrow> string \<Rightarrow> string \<Rightarrow> EventKind \<Rightarrow> jval \<Rightarrow> string \<Rightarrow> collab_db \<Rightarrow> collab_db option" where
  "append_event eid c actor kind content now db =
     insert_event eid c (getMaxChannelSeq db c + 1) actor kind content now db"

subsection \<open>The transaction drivers\<close>

definition find_result :: "collab_db \<Rightarrow> string \<Rightarrow> command_name \<Rightarrow> string \<Rightarrow> MutationResult option" where
  "find_result db p cmd key =
     tbl_get (\<lambda>m. mr_principal m = p \<and> mr_command m = cmd \<and> mr_key m = key) (db_results db)"

definition requestHash :: "platform \<Rightarrow> jval \<Rightarrow> digest option" where
  "requestHash pf body = (case canonicalJson body of Inl _ \<Rightarrow> None | Inr t \<Rightarrow> Some (pf_sha pf (utf8 t)))"

definition runKeyedCommand ::
  "platform \<Rightarrow> string \<Rightarrow> command_name \<Rightarrow> string \<Rightarrow> jval \<Rightarrow> (collab_db \<Rightarrow> CollabErrorCode option)
   \<Rightarrow> (collab_db \<Rightarrow> CollabErrorCode + reply \<times> reply \<times> collab_db)
   \<Rightarrow> collab_db \<Rightarrow> collab_db \<times> (CollabErrorCode + reply)" where
  "runKeyedCommand pf p cmd key body predicate fn db =
     (case requestHash pf body of
        None \<Rightarrow> (db, Inl INVALID_REQUEST)
      | Some hash \<Rightarrow>
      case predicate db of
        Some e \<Rightarrow> (db, Inl e)
      | None \<Rightarrow>
      case find_result db p cmd key of
        Some existing \<Rightarrow>
          if mr_hash existing = hash then (db, Inr (mr_result existing))
          else (db, Inl IDEMPOTENCY_CONFLICT)
      | None \<Rightarrow>
      case fn db of
        Inl e \<Rightarrow> (db, Inl e)
      | Inr (result, redacted, db') \<Rightarrow>
          (db'\<lparr>db_results := db_results db' @
             [\<lparr>mr_principal = p, mr_command = cmd, mr_key = key, mr_hash = hash, mr_result = redacted\<rparr>]\<rparr>,
           Inr result))"

definition runNaturallyIdempotentCommand ::
  "(collab_db \<Rightarrow> CollabErrorCode + 'a \<times> collab_db) \<Rightarrow> collab_db \<Rightarrow> collab_db \<times> (CollabErrorCode + 'a)" where
  "runNaturallyIdempotentCommand fn db =
     (case fn db of Inl e \<Rightarrow> (db, Inl e) | Inr (a, db') \<Rightarrow> (db', Inr a))"

text \<open>Whether the keyed command ran its body in this call (a replay or a refusal did not).\<close>

definition committed :: "collab_db \<Rightarrow> collab_db \<times> 'r \<Rightarrow> bool" where
  "committed db out \<longleftrightarrow> length (db_results (fst out)) \<noteq> length (db_results db)"

lemma runKeyedCommand_cases:
  obtains (refused) e where "runKeyedCommand pf p cmd key body predicate fn db = (db, Inl e)"
  | (replayed) m where "find_result db p cmd key = Some m" "predicate db = None"
      "requestHash pf body = Some (mr_hash m)"
      "runKeyedCommand pf p cmd key body predicate fn db = (db, Inr (mr_result m))"
  | (ran) hash r red db' where "requestHash pf body = Some hash" "predicate db = None"
      "find_result db p cmd key = None" "fn db = Inr (r, red, db')"
      "runKeyedCommand pf p cmd key body predicate fn db = (db'\<lparr>db_results := db_results db' @
         [\<lparr>mr_principal = p, mr_command = cmd, mr_key = key, mr_hash = hash, mr_result = red\<rparr>]\<rparr>, Inr r)"
proof (cases "requestHash pf body")
  case None
  then show ?thesis by (intro refused) (simp add: runKeyedCommand_def)
next
  case (Some hash)
  show ?thesis
  proof (cases "predicate db")
    case (Some e)
    with \<open>requestHash pf body = Some hash\<close> show ?thesis
      by (intro refused) (simp add: runKeyedCommand_def)
  next
    case None
    note pre = \<open>requestHash pf body = Some hash\<close> this
    show ?thesis
    proof (cases "find_result db p cmd key")
      case (Some m)
      with pre replayed refused show ?thesis
        by (cases "mr_hash m = hash") (simp_all add: runKeyedCommand_def)
    next
      case None
      show ?thesis
      proof (cases "fn db")
        case (Inl e)
        with pre None show ?thesis by (intro refused) (simp add: runKeyedCommand_def)
      next
        case (Inr t)
        obtain r red db' where "t = (r, red, db')" by (cases t)
        with pre None Inr show ?thesis by (intro ran) (simp_all add: runKeyedCommand_def)
      qed
    qed
  qed
qed

end
