(* ===== verification/Collab_Channels.thy ===== *)
theory Collab_Channels
  imports Collab_Db Js_Text
begin

text \<open>
  The channel commands of \<open>packages/collab/src/store.ts\<close>: creation, export policy, membership,
  archiving, posting, cursors and the timeline. Identifiers are Latin-1 strings, on which NFC is the
  identity.
\<close>

subsection \<open>Creation and export policy\<close>

definition append_channel :: "ChannelRow \<Rightarrow> collab_db \<Rightarrow> CollabErrorCode + collab_db" where
  "append_channel ch db =
     (if channel_row db (ch_id ch) \<noteq> None then Inl SQL_CONSTRAINT
      else if tbl_get (\<lambda>r. ch_state r = ChActive \<and> ch_nameKey r = ch_nameKey ch) (db_channels db) \<noteq> None
      then Inl CHANNEL_NAME_CONFLICT
      else Inr (db\<lparr>db_channels := db_channels db @ [ch]\<rparr>))"

definition createChannel_tx ::
  "platform \<Rightarrow> env \<Rightarrow> text_cp \<Rightarrow> collab_db \<Rightarrow> CollabErrorCode + reply \<times> reply \<times> collab_db" where
  "createChannel_tx pf en name db =
     (case getOperatorOrThrow db of
        None \<Rightarrow> Inl PRINCIPAL_NOT_FOUND
      | Some operator \<Rightarrow>
      let cid = en_uuid en 0; now = en_clock en 0
      in case append_channel
            \<lparr>ch_id = cid, ch_name = name, ch_nameKey = nameKey (pf_fold pf) name, ch_state = ChActive,
             ch_owner = pr_id operator, ch_epoch = 1, ch_policy = LocalOnly\<rparr> db of
        Inl e \<Rightarrow> Inl e
      | Inr db1 \<Rightarrow>
      if member_row db1 cid (pr_id operator) \<noteq> None then Inl SQL_CONSTRAINT
      else case insert_event (en_uuid en 1) cid 1 (pr_id operator) channel_created
            (JObj [(cps ''channelId'', JStr (cps cid)), (cps ''name'', JStr name)]) (en_clock en 1)
            (db1\<lparr>db_members := db_members db1 @
               [\<lparr>mb_channel = cid, mb_principal = pr_id operator, mb_role = OwnerRole,
                 mb_state = MActive, mb_epoch = 1, mb_rejoinedSeq = 0, mb_joinedAt = now,
                 mb_removedAt = None\<rparr>]\<rparr>) of
        None \<Rightarrow> Inl SQL_CONSTRAINT
      | Some db2 \<Rightarrow> Inr (ChannelReply cid name, ChannelReply cid name, db2))"

definition createChannel ::
  "platform \<Rightarrow> env \<Rightarrow> string \<Rightarrow> text_cp \<Rightarrow> string \<Rightarrow> collab_db \<Rightarrow> collab_db \<times> (CollabErrorCode + reply)" where
  "createChannel pf en caller rawName key db =
     (case normalizeName (pf_nfc pf) rawName of
        None \<Rightarrow> (db, Inl INVALID_REQUEST)
      | Some name \<Rightarrow> runKeyedCommand pf caller CREATE_CHANNEL key (JObj [(cps ''name'', JStr name)])
          (assertOperatorCaller caller) (createChannel_tx pf en name) db)"

definition normalizeRuntimeIdentifier :: "string \<Rightarrow> string option" where
  "normalizeRuntimeIdentifier value =
     (let s = trim value
      in if s = [] \<or> length s > 200
            \<or> list_ex (\<lambda>c. of_char c < (32 :: nat) \<or> of_char c = (127 :: nat)) s
         then None else Some s)"

definition policy_text :: "ExportPolicy \<Rightarrow> text_cp" where
  "policy_text p = cps (case p of LocalOnly \<Rightarrow> ''local_only''
     | OperatorConfirmedNonSensitive \<Rightarrow> ''operator_confirmed_non_sensitive'')"

definition setPolicy_tx ::
  "env \<Rightarrow> string \<Rightarrow> string \<Rightarrow> ExportPolicy \<Rightarrow> string \<Rightarrow> collab_db \<Rightarrow> CollabErrorCode + reply \<times> reply \<times> collab_db" where
  "setPolicy_tx en caller c policy key db =
     (case assertChannelOwner caller c db of
        Some e \<Rightarrow> Inl e
      | None \<Rightarrow> (case channel_row db c of
          None \<Rightarrow> Inl COLLAB_NOT_FOUND
        | Some ch \<Rightarrow>
            Inr (PolicyReply c policy (en_clock en 0), PolicyReply c policy (en_clock en 0),
              db\<lparr>db_channels := tbl_update (\<lambda>r. ch_id r = c) (\<lambda>r. r\<lparr>ch_policy := policy\<rparr>) (db_channels db),
                 db_policyAudit := db_policyAudit db @
                   [\<lparr>pa_channel = c, pa_actor = caller, pa_prior = ch_policy ch, pa_new = policy,
                     pa_key = key\<rparr>]\<rparr>)))"

definition setChannelExternalExportPolicy ::
  "platform \<Rightarrow> env \<Rightarrow> string \<Rightarrow> string \<Rightarrow> ExportPolicy \<Rightarrow> string \<Rightarrow> collab_db \<Rightarrow> collab_db \<times> (CollabErrorCode + reply)" where
  "setChannelExternalExportPolicy pf en caller rawChannel policy key db =
     (case normalizeRuntimeIdentifier rawChannel of
        None \<Rightarrow> (db, Inl INVALID_REQUEST)
      | Some c \<Rightarrow> runKeyedCommand pf caller SET_CHANNEL_EXTERNAL_EXPORT_POLICY_CMD key
          (JObj [(cps ''channelId'', JStr (cps c)), (cps ''externalExportPolicy'', JStr (policy_text policy))])
          (assertChannelOwner caller c) (setPolicy_tx en caller c policy key) db)"

subsection \<open>Membership\<close>

definition member_content :: "string \<Rightarrow> string \<Rightarrow> int \<Rightarrow> jval" where
  "member_content c p epoch = JObj [(cps ''channelId'', JStr (cps c)),
     (cps ''membershipEpoch'', JNum (Fin epoch)), (cps ''principalId'', JStr (cps p))]"

definition member_body :: "string \<Rightarrow> string \<Rightarrow> jval" where
  "member_body c p = JObj [(cps ''channelId'', JStr (cps c)), (cps ''principalId'', JStr (cps p))]"

definition update_member :: "string \<Rightarrow> string \<Rightarrow> (MemberRow \<Rightarrow> MemberRow) \<Rightarrow> collab_db \<Rightarrow> collab_db" where
  "update_member c p f db =
     db\<lparr>db_members := tbl_update (\<lambda>m. member_key m = (c, p)) f (db_members db)\<rparr>"

definition addMember_tx ::
  "env \<Rightarrow> string \<Rightarrow> string \<Rightarrow> string \<Rightarrow> collab_db \<Rightarrow> CollabErrorCode + reply \<times> reply \<times> collab_db" where
  "addMember_tx en caller c p db =
     (case channel_row db c of
        None \<Rightarrow> Inl COLLAB_NOT_FOUND
      | Some ch \<Rightarrow>
      if ch_state ch = ChArchived then Inl CHANNEL_ARCHIVED
      else case principal_row db p of
        None \<Rightarrow> Inl COLLAB_NOT_FOUND
      | Some target \<Rightarrow>
      if pr_kind target \<noteq> AgentKind \<or> pr_owner target \<noteq> Some (ch_owner ch) then Inl COLLAB_NOT_FOUND
      else
        let rejoinedSeq = getMaxChannelSeq db c;
            now = en_clock en 0;
            existing = member_row db c p;
            newEpoch = (case existing of None \<Rightarrow> 1 | Some m \<Rightarrow> mb_epoch m + 1);
            db1 = (case existing of
                None \<Rightarrow> db\<lparr>db_members := db_members db @
                  [\<lparr>mb_channel = c, mb_principal = p, mb_role = AgentRole, mb_state = MActive,
                    mb_epoch = 1, mb_rejoinedSeq = rejoinedSeq, mb_joinedAt = now,
                    mb_removedAt = None\<rparr>]\<rparr>
              | Some _ \<Rightarrow> update_member c p (\<lambda>m. m\<lparr>mb_state := MActive, mb_epoch := newEpoch,
                    mb_rejoinedSeq := rejoinedSeq, mb_joinedAt := now, mb_removedAt := None\<rparr>) db)
        in case existing of
             Some m \<Rightarrow>
               (if mb_role m = OwnerRole then Inl COLLAB_NOT_FOUND
                else if mb_state m = MActive
                then Inr (MemberReply c p (mb_epoch m), MemberReply c p (mb_epoch m), db)
                else case insert_event (en_uuid en 0) c (rejoinedSeq + 1) caller member_added
                       (member_content c p newEpoch) (en_clock en 1) db1 of
                  None \<Rightarrow> Inl SQL_CONSTRAINT
                | Some db2 \<Rightarrow> Inr (MemberReply c p newEpoch, MemberReply c p newEpoch, db2))
           | None \<Rightarrow>
               (case insert_event (en_uuid en 0) c (rejoinedSeq + 1) caller member_added
                       (member_content c p newEpoch) (en_clock en 1) db1 of
                  None \<Rightarrow> Inl SQL_CONSTRAINT
                | Some db2 \<Rightarrow> Inr (MemberReply c p newEpoch, MemberReply c p newEpoch, db2)))"

definition removeMember_tx ::
  "env \<Rightarrow> string \<Rightarrow> string \<Rightarrow> string \<Rightarrow> collab_db \<Rightarrow> CollabErrorCode + reply \<times> reply \<times> collab_db" where
  "removeMember_tx en caller c p db =
     (case channel_row db c of
        None \<Rightarrow> Inl COLLAB_NOT_FOUND
      | Some ch \<Rightarrow>
      if ch_state ch = ChArchived then Inl CHANNEL_ARCHIVED
      else case member_row db c p of
        None \<Rightarrow> Inl COLLAB_NOT_FOUND
      | Some m \<Rightarrow>
      if mb_role m = OwnerRole then Inl COLLAB_NOT_FOUND
      else if mb_state m = MRemoved
      then Inr (MemberReply c p (mb_epoch m), MemberReply c p (mb_epoch m), db)
      else
        let newEpoch = mb_epoch m + 1
        in case insert_event (en_uuid en 0) c (getMaxChannelSeq db c + 1) caller member_removed
              (member_content c p newEpoch) (en_clock en 1)
              (update_member c p (\<lambda>m. m\<lparr>mb_state := MRemoved, mb_epoch := newEpoch,
                 mb_removedAt := Some (en_clock en 0)\<rparr>) db) of
             None \<Rightarrow> Inl SQL_CONSTRAINT
           | Some db2 \<Rightarrow> Inr (MemberReply c p newEpoch, MemberReply c p newEpoch, db2))"

definition addChannelMember ::
  "platform \<Rightarrow> env \<Rightarrow> string \<Rightarrow> string \<Rightarrow> string \<Rightarrow> string \<Rightarrow> collab_db \<Rightarrow> collab_db \<times> (CollabErrorCode + reply)" where
  "addChannelMember pf en caller c p key db =
     runKeyedCommand pf caller ADD_CHANNEL_MEMBER_CMD key (member_body c p)
       (assertChannelOwner caller c) (addMember_tx en caller c p) db"

definition removeChannelMember ::
  "platform \<Rightarrow> env \<Rightarrow> string \<Rightarrow> string \<Rightarrow> string \<Rightarrow> string \<Rightarrow> collab_db \<Rightarrow> collab_db \<times> (CollabErrorCode + reply)" where
  "removeChannelMember pf en caller c p key db =
     runKeyedCommand pf caller REMOVE_CHANNEL_MEMBER_CMD key (member_body c p)
       (assertChannelOwner caller c) (removeMember_tx en caller c p) db"

subsection \<open>Archiving\<close>

definition epoch_content :: "string \<Rightarrow> int \<Rightarrow> jval" where
  "epoch_content c epoch =
     JObj [(cps ''channelEpoch'', JNum (Fin epoch)), (cps ''channelId'', JStr (cps c))]"

definition update_channel :: "string \<Rightarrow> (ChannelRow \<Rightarrow> ChannelRow) \<Rightarrow> collab_db \<Rightarrow> collab_db" where
  "update_channel c f db = db\<lparr>db_channels := tbl_update (\<lambda>r. ch_id r = c) f (db_channels db)\<rparr>"

definition archive_tx ::
  "env \<Rightarrow> string \<Rightarrow> string \<Rightarrow> collab_db \<Rightarrow> CollabErrorCode + reply \<times> reply \<times> collab_db" where
  "archive_tx en caller c db =
     (case channel_row db c of
        None \<Rightarrow> Inl COLLAB_NOT_FOUND
      | Some ch \<Rightarrow>
      if ch_state ch = ChArchived
      then Inr (ArchiveReply c ChArchived (ch_epoch ch), ArchiveReply c ChArchived (ch_epoch ch), db)
      else
        let newEpoch = ch_epoch ch + 1
        in case append_event (en_uuid en 0) c caller channel_archived (epoch_content c newEpoch)
              (en_clock en 1)
              (update_channel c (\<lambda>r. r\<lparr>ch_state := ChArchived, ch_epoch := newEpoch\<rparr>) db) of
             None \<Rightarrow> Inl SQL_CONSTRAINT
           | Some db2 \<Rightarrow> Inr (ArchiveReply c ChArchived newEpoch, ArchiveReply c ChArchived newEpoch, db2))"

definition unarchive_tx ::
  "platform \<Rightarrow> env \<Rightarrow> string \<Rightarrow> string \<Rightarrow> collab_db \<Rightarrow> CollabErrorCode + reply \<times> reply \<times> collab_db" where
  "unarchive_tx pf en caller c db =
     (case channel_row db c of
        None \<Rightarrow> Inl COLLAB_NOT_FOUND
      | Some ch \<Rightarrow>
      if ch_state ch = ChActive
      then Inr (ArchiveReply c ChActive (ch_epoch ch), ArchiveReply c ChActive (ch_epoch ch), db)
      else
        let key = nameKey (pf_fold pf) (ch_name ch); newEpoch = ch_epoch ch + 1
        in if tbl_get (\<lambda>r. ch_id r \<noteq> c \<and> ch_state r = ChActive \<and> ch_nameKey r = key) (db_channels db) \<noteq> None
           then Inl CHANNEL_NAME_CONFLICT
           else case append_event (en_uuid en 0) c caller channel_unarchived (epoch_content c newEpoch)
                 (en_clock en 1)
                 (update_channel c (\<lambda>r. r\<lparr>ch_state := ChActive, ch_nameKey := key, ch_epoch := newEpoch\<rparr>) db) of
             None \<Rightarrow> Inl SQL_CONSTRAINT
           | Some db2 \<Rightarrow> Inr (ArchiveReply c ChActive newEpoch, ArchiveReply c ChActive newEpoch, db2))"

definition channel_body :: "string \<Rightarrow> jval" where
  "channel_body c = JObj [(cps ''channelId'', JStr (cps c))]"

definition archiveChannel ::
  "platform \<Rightarrow> env \<Rightarrow> string \<Rightarrow> string \<Rightarrow> string \<Rightarrow> collab_db \<Rightarrow> collab_db \<times> (CollabErrorCode + reply)" where
  "archiveChannel pf en caller c key db =
     runKeyedCommand pf caller ARCHIVE_CHANNEL key (channel_body c) (assertChannelOwner caller c)
       (archive_tx en caller c) db"

definition unarchiveChannel ::
  "platform \<Rightarrow> env \<Rightarrow> string \<Rightarrow> string \<Rightarrow> string \<Rightarrow> collab_db \<Rightarrow> collab_db \<times> (CollabErrorCode + reply)" where
  "unarchiveChannel pf en caller c key db =
     runKeyedCommand pf caller UNARCHIVE_CHANNEL key (channel_body c) (assertChannelOwner caller c)
       (unarchive_tx pf en caller c) db"

subsection \<open>Messages and cursors\<close>

definition post_tx ::
  "env \<Rightarrow> string \<Rightarrow> string \<Rightarrow> text_cp \<Rightarrow> collab_db \<Rightarrow> CollabErrorCode + reply \<times> reply \<times> collab_db" where
  "post_tx en caller c text db =
     (case channel_row db c of
        None \<Rightarrow> Inl COLLAB_NOT_FOUND
      | Some ch \<Rightarrow>
      if ch_state ch = ChArchived then Inl CHANNEL_ARCHIVED
      else case append_event (en_uuid en 0) c caller message_posted
             (JObj [(cps ''channelId'', JStr (cps c)), (cps ''text'', JStr text)]) (en_clock en 0) db of
        None \<Rightarrow> Inl SQL_CONSTRAINT
      | Some db2 \<Rightarrow>
          let r = PostReply (en_uuid en 0) (show_nat (getMaxChannelSeq db c + 1)) (en_clock en 0)
          in Inr (r, r, db2))"

definition postChannelMessage ::
  "platform \<Rightarrow> env \<Rightarrow> string \<Rightarrow> string \<Rightarrow> text_cp \<Rightarrow> string \<Rightarrow> collab_db \<Rightarrow> collab_db \<times> (CollabErrorCode + reply)" where
  "postChannelMessage pf en caller c raw key db =
     (case normalizeMessageText (pf_nfc pf) raw of
        None \<Rightarrow> (db, Inl INVALID_REQUEST)
      | Some text \<Rightarrow> runKeyedCommand pf caller POST_CHANNEL_MESSAGE_CMD key
          (JObj [(cps ''channelId'', JStr (cps c)), (cps ''text'', JStr text)])
          (\<lambda>db. left_error (assertChannelVisible caller c db)) (post_tx en caller c text) db)"

definition parseCursor :: "string \<Rightarrow> nat option" where
  "parseCursor s =
     (if s \<noteq> [] \<and> list_all is_digit s \<and> (hd s \<noteq> CHR ''0'' \<or> s = ''0'')
         \<and> parse_dec s \<le> 9007199254740991
      then Some (parse_dec s) else None)"

definition upsert_cursor :: "string \<Rightarrow> string \<Rightarrow> nat \<Rightarrow> CursorRow list \<Rightarrow> CursorRow list" where
  "upsert_cursor c p submitted t =
     (let mine = (\<lambda>r. cu_channel r = c \<and> cu_principal r = p)
      in case tbl_get mine t of
           None \<Rightarrow> t @ [\<lparr>cu_channel = c, cu_principal = p, cu_ack = submitted\<rparr>]
         | Some _ \<Rightarrow> tbl_update mine (\<lambda>r. r\<lparr>cu_ack := max (cu_ack r) submitted\<rparr>) t)"

definition acknowledged :: "collab_db \<Rightarrow> string \<Rightarrow> string \<Rightarrow> nat" where
  "acknowledged db c p =
     (case tbl_get (\<lambda>r. cu_channel r = c \<and> cu_principal r = p) (db_cursors db) of
        None \<Rightarrow> 0 | Some r \<Rightarrow> cu_ack r)"

definition ack_tx :: "string \<Rightarrow> string \<Rightarrow> string \<Rightarrow> collab_db \<Rightarrow> CollabErrorCode + string \<times> collab_db" where
  "ack_tx caller c cursor db =
     (case assertChannelVisible caller c db of
        Inl e \<Rightarrow> Inl e
      | Inr m \<Rightarrow>
      case parseCursor cursor of
        None \<Rightarrow> Inl INVALID_REQUEST
      | Some submitted \<Rightarrow>
      if submitted > callerVisibleBound db c (mb_rejoinedSeq m) then Inl CURSOR_OUT_OF_RANGE
      else let db1 = db\<lparr>db_cursors := upsert_cursor c caller submitted (db_cursors db)\<rparr>
           in Inr (show_nat (acknowledged db1 c caller), db1))"

definition ackChannelCursor ::
  "string \<Rightarrow> string \<Rightarrow> string \<Rightarrow> collab_db \<Rightarrow> collab_db \<times> (CollabErrorCode + string)" where
  "ackChannelCursor caller c cursor db = runNaturallyIdempotentCommand (ack_tx caller c cursor) db"

subsection \<open>The timeline\<close>

definition lifecycle_text :: "RoomJobLifecycleKind \<Rightarrow> string" where
  "lifecycle_text k = (case k of job_created \<Rightarrow> ''created'' | cancel_requested \<Rightarrow> ''cancel_requested''
     | job_cancelled \<Rightarrow> ''cancelled'' | artifact_committed \<Rightarrow> ''artifact_committed''
     | attempt_started \<Rightarrow> ''attempt_started'' | draft_committed \<Rightarrow> ''draft_committed''
     | review_committed \<Rightarrow> ''review_committed'' | execution_failed \<Rightarrow> ''execution_failed'')"

definition kind_text :: "EventKind \<Rightarrow> string" where
  "kind_text k = (case k of channel_created \<Rightarrow> ''channel_created'' | member_added \<Rightarrow> ''member_added''
     | member_removed \<Rightarrow> ''member_removed'' | message_posted \<Rightarrow> ''message_posted''
     | channel_archived \<Rightarrow> ''channel_archived'' | channel_unarchived \<Rightarrow> ''channel_unarchived''
     | room_job k' \<Rightarrow> ''room_job_'' @ lifecycle_text k')"

definition timeline_entry :: "EventRow \<Rightarrow> jval" where
  "timeline_entry e = JObj [(cps ''cursor'', JStr (cps (show_nat (ev_seq e)))), (cps ''id'', JStr (cps (ev_id e))),
     (cps ''kind'', JStr (cps (kind_text (ev_kind e)))), (cps ''actorPrincipalId'', JStr (cps (ev_actor e))),
     (cps ''occurredAt'', JStr (cps (ev_createdAt e))), (cps ''payload'', ev_content e)]"

definition entry_bytes :: "EventRow \<Rightarrow> nat" where
  "entry_bytes e = utf8_length (stringify (timeline_entry e))"

text \<open>The page: at most \<open>limit\<close> rows and, after the first, at most 65,536 bytes.\<close>

fun cut_page :: "nat \<Rightarrow> nat \<Rightarrow> nat \<Rightarrow> EventRow list \<Rightarrow> EventRow list \<times> bool" where
  "cut_page limit n encodedLen [] = ([], False)"
| "cut_page limit n encodedLen (row # rows) =
     (if n \<ge> limit then ([], True)
      else let bytes = entry_bytes row
           in if n > 0 \<and> encodedLen + bytes + 1 > 65536 then ([], True)
              else let rest = cut_page limit (n + 1) (encodedLen + bytes + 1) rows
                   in (row # fst rest, snd rest))"

definition events_after :: "collab_db \<Rightarrow> string \<Rightarrow> nat \<Rightarrow> EventRow list" where
  "events_after db c after = sort_key ev_seq (filter (\<lambda>e. ev_seq e > after) (channel_events db c))"

record Timeline =
  tl_events :: "EventRow list"
  tl_nextCursor :: string
  tl_hasMore :: bool
  tl_highWater :: string

definition getChannelTimeline ::
  "string \<Rightarrow> string \<Rightarrow> string \<Rightarrow> int \<Rightarrow> collab_db \<Rightarrow> CollabErrorCode + Timeline" where
  "getChannelTimeline caller c afterCursor limit db =
     (if limit < 1 \<or> limit > 100 then Inl INVALID_REQUEST
      else case assertChannelVisible caller c db of
        Inl e \<Rightarrow> Inl e
      | Inr m \<Rightarrow>
      case parseCursor afterCursor of
        None \<Rightarrow> Inl INVALID_REQUEST
      | Some requested \<Rightarrow>
          let effectiveAfter = max requested (mb_rejoinedSeq m);
              rows = take (nat limit + 1) (events_after db c effectiveAfter);
              page = cut_page (nat limit) 0 2 rows;
              events = fst page
          in Inr \<lparr>tl_events = events,
                  tl_nextCursor = show_nat (if events = [] then effectiveAfter else ev_seq (last events)),
                  tl_hasMore = (snd page \<or> length rows > length events),
                  tl_highWater = show_nat (getMaxChannelSeq db c)\<rparr>)"

subsection \<open>The log invariant\<close>

text \<open>
  The events of every channel carry the sequence numbers 1, 2, and so on in commit order; every
  rejoin point and every acknowledged cursor lies within its channel's log; the keys of channels and
  memberships are unique, and so are the name keys of active channels.
\<close>

definition contiguous :: "collab_db \<Rightarrow> bool" where
  "contiguous db \<longleftrightarrow> (\<forall>c. map ev_seq (channel_events db c) = [1..<Suc (length (channel_events db c))])"

definition names_ok :: "ChannelRow list \<Rightarrow> bool" where
  "names_ok t \<longleftrightarrow> (\<forall>r \<in> set t. \<forall>r' \<in> set t. ch_state r = ChActive \<and> ch_state r' = ChActive
     \<and> ch_nameKey r = ch_nameKey r' \<longrightarrow> ch_id r = ch_id r')"

definition log_ok :: "collab_db \<Rightarrow> bool" where
  "log_ok db \<longleftrightarrow> contiguous db \<and> key_unique ch_id (db_channels db) \<and> key_unique member_key (db_members db)
     \<and> names_ok (db_channels db)
     \<and> (\<forall>e \<in> set (db_events db). channel_row db (ev_channel e) \<noteq> None)
     \<and> (\<forall>m \<in> set (db_members db). mb_rejoinedSeq m \<le> length (channel_events db (mb_channel m)))
     \<and> (\<forall>r \<in> set (db_cursors db). cu_ack r \<le> length (channel_events db (cu_channel r)))"

lemma log_ok_parts:
  assumes "log_ok db"
  shows "contiguous db" and "key_unique ch_id (db_channels db)" and "key_unique member_key (db_members db)"
    and "names_ok (db_channels db)"
    and "e \<in> set (db_events db) \<Longrightarrow> channel_row db (ev_channel e) \<noteq> None"
    and "m \<in> set (db_members db) \<Longrightarrow> mb_rejoinedSeq m \<le> length (channel_events db (mb_channel m))"
    and "r \<in> set (db_cursors db) \<Longrightarrow> cu_ack r \<le> length (channel_events db (cu_channel r))"
  using assms by (simp_all add: log_ok_def)

lemma log_okI:
  assumes "contiguous db" and "key_unique ch_id (db_channels db)" and "key_unique member_key (db_members db)"
    and "names_ok (db_channels db)"
    and "\<And>e. e \<in> set (db_events db) \<Longrightarrow> channel_row db (ev_channel e) \<noteq> None"
    and "\<And>m. m \<in> set (db_members db) \<Longrightarrow> mb_rejoinedSeq m \<le> length (channel_events db (mb_channel m))"
    and "\<And>r. r \<in> set (db_cursors db) \<Longrightarrow> cu_ack r \<le> length (channel_events db (cu_channel r))"
  shows "log_ok db"
  using assms by (simp add: log_ok_def)

lemma fold_max_upt: "fold max [1..<Suc n] (0 :: nat) = n"
  by (induction n) simp_all

lemma max_seq: "contiguous db \<Longrightarrow> getMaxChannelSeq db c = length (channel_events db c)"
  unfolding getMaxChannelSeq_def contiguous_def by (metis fold_max_upt)

lemma insert_event_Some:
  "insert_event eid c seq actor kind content now db = Some db' \<Longrightarrow>
   \<exists>e. ev_id e = eid \<and> ev_channel e = c \<and> ev_seq e = seq \<and> ev_actor e = actor \<and> ev_kind e = kind
     \<and> db' = db\<lparr>db_events := db_events db @ [e]\<rparr>"
  by (rule exI [of _ "\<lparr>ev_id = eid, ev_channel = c, ev_seq = seq, ev_actor = actor, ev_kind = kind,
        ev_content = content, ev_createdAt = now\<rparr>"])
     (simp add: insert_event_def split: if_splits)

lemma channel_events_snoc:
  "channel_events (db\<lparr>db_events := db_events db @ [e]\<rparr>) c
   = channel_events db c @ (if ev_channel e = c then [e] else [])"
  by (simp add: channel_events_def)

lemma log_ok_event:
  assumes ok: "log_ok db" and c: "channel_row db c \<noteq> None"
    and ins: "insert_event eid c (Suc (length (channel_events db c))) actor kind content now db = Some db'"
  shows "log_ok db'"
proof -
  obtain e where e: "ev_channel e = c" "ev_seq e = Suc (length (channel_events db c))"
    and db': "db' = db\<lparr>db_events := db_events db @ [e]\<rparr>"
    using insert_event_Some [OF ins] by auto
  have len: "length (channel_events db d) \<le> length (channel_events db' d)" for d
    by (simp add: db' channel_events_snoc)
  have "contiguous db'"
    using ok e by (simp add: contiguous_def log_ok_def db' channel_events_snoc)
  moreover have "\<forall>m \<in> set (db_members db). mb_rejoinedSeq m \<le> length (channel_events db' (mb_channel m))"
    using ok len unfolding log_ok_def by (meson le_trans)
  moreover have "\<forall>r \<in> set (db_cursors db). cu_ack r \<le> length (channel_events db' (cu_channel r))"
    using ok len unfolding log_ok_def by (meson le_trans)
  ultimately show ?thesis
    using ok c e by (auto simp: log_ok_def db' channel_row_def)
qed

lemma log_ok_append_event:
  "log_ok db \<Longrightarrow> channel_row db c \<noteq> None \<Longrightarrow> append_event eid c actor kind content now db = Some db' \<Longrightarrow> log_ok db'"
  using log_ok_event [of db c eid actor kind content now db'] max_seq [of db c]
  by (simp add: append_event_def log_ok_def)

text \<open>Changes of the other tables.\<close>

lemma log_ok_new_member:
  assumes "log_ok db" and "member_row db c p = None" and "member_key m = (c, p)"
    and "mb_rejoinedSeq m \<le> length (channel_events db c)"
  shows "log_ok (db\<lparr>db_members := db_members db @ [m]\<rparr>)"
proof -
  have "\<forall>m' \<in> set (db_members db). member_key m' \<noteq> member_key m"
    using assms(2,3) by (simp add: member_row_def tbl_get_None)
  with assms show ?thesis
    by (auto simp: log_ok_def contiguous_def channel_events_def channel_row_def member_key_def
        intro!: key_unique_append)
qed

lemma log_ok_update_member:
  assumes "log_ok db" and "\<And>m. member_key (f m) = member_key m"
    and "\<And>m. member_key m = (c, p) \<Longrightarrow> mb_rejoinedSeq (f m) = mb_rejoinedSeq m
            \<or> mb_rejoinedSeq (f m) \<le> length (channel_events db c)"
  shows "log_ok (update_member c p f db)"
proof -
  have e: "channel_events (update_member c p f db) d = channel_events db d" for d
    by (simp add: channel_events_def update_member_def)
  have k: "key_unique member_key (tbl_update (\<lambda>m. member_key m = (c, p)) f (db_members db))"
    using assms(1,2) by (auto simp: log_ok_def intro: key_unique_update)
  have "mb_rejoinedSeq m \<le> length (channel_events db (mb_channel m))"
    if m: "m \<in> set (tbl_update (\<lambda>m. member_key m = (c, p)) f (db_members db))" for m
  proof -
    obtain m0 where m0: "m0 \<in> set (db_members db)" "m = (if member_key m0 = (c, p) then f m0 else m0)"
      using m by (rule in_tbl_update)
    have le: "mb_rejoinedSeq m0 \<le> length (channel_events db (mb_channel m0))"
      using assms(1) m0(1) by (simp add: log_ok_def)
    have "mb_channel (f m0) = mb_channel m0" using assms(2) [of m0] by (simp add: member_key_def)
    with m0(2) le assms(3) [of m0] show ?thesis by (auto simp: member_key_def split: if_splits)
  qed
  then show ?thesis using log_ok_parts [OF assms(1)] k
    by (intro log_okI) (simp_all add: contiguous_def e update_member_def channel_row_def channel_events_def)
qed

lemma names_ok_snoc:
  assumes "names_ok t" and "\<forall>r \<in> set t. ch_state r = ChActive \<longrightarrow> ch_nameKey r \<noteq> ch_nameKey ch"
  shows "names_ok (t @ [ch])"
  unfolding names_ok_def
proof (intro ballI impI)
  fix x y assume x: "x \<in> set (t @ [ch])" and y: "y \<in> set (t @ [ch])"
    and xy: "ch_state x = ChActive \<and> ch_state y = ChActive \<and> ch_nameKey x = ch_nameKey y"
  show "ch_id x = ch_id y"
  proof (cases "x \<in> set t \<and> y \<in> set t")
    case True
    then show ?thesis using assms(1) xy unfolding names_ok_def by blast
  next
    case False
    then have "x = ch \<or> y = ch" using x y by auto
    then show ?thesis using assms(2) x y xy by (metis (no_types) Un_iff empty_iff insert_iff list.set set_append)
  qed
qed

lemma log_ok_new_channel:
  assumes ok: "log_ok db" and ap: "append_channel ch db = Inr db'"
  shows "log_ok db'" and "channel_events db' (ch_id ch) = []" and "channel_row db' (ch_id ch) \<noteq> None"
proof -
  have db': "db' = db\<lparr>db_channels := db_channels db @ [ch]\<rparr>" and fresh: "channel_row db (ch_id ch) = None"
    and name: "\<forall>r \<in> set (db_channels db). ch_state r = ChActive \<longrightarrow> ch_nameKey r \<noteq> ch_nameKey ch"
    using ap by (auto simp: append_channel_def tbl_get_None split: if_splits)
  have e: "channel_events db' d = channel_events db d" for d by (simp add: db' channel_events_def)
  have k: "key_unique ch_id (db_channels db @ [ch])"
    using ok fresh by (intro key_unique_append) (auto simp: log_ok_def channel_row_def tbl_get_None)
  have n: "names_ok (db_channels db @ [ch])"
    using log_ok_parts(4) [OF ok] name by (rule names_ok_snoc)
  have r: "channel_row db' d \<noteq> None" if "channel_row db d \<noteq> None" for d
    using that by (auto simp: channel_row_def db' tbl_get_append)
  note parts = log_ok_parts [OF ok]
  show "log_ok db'"
  proof (rule log_okI)
    show "contiguous db'" using parts(1) by (simp add: contiguous_def e)
    show "channel_row db' (ev_channel x) \<noteq> None" if "x \<in> set (db_events db')" for x
      using that parts(5) r by (simp add: db' del: not_None_eq)
    show "key_unique ch_id (db_channels db')" "names_ok (db_channels db')" using k n by (simp_all add: db')
    show "key_unique member_key (db_members db')" using parts(3) by (simp add: db')
    show "mb_rejoinedSeq m \<le> length (channel_events db' (mb_channel m))" if "m \<in> set (db_members db')" for m
      using that parts(6) [of m] by (simp add: e) (simp add: db')
    show "cu_ack x \<le> length (channel_events db' (cu_channel x))" if "x \<in> set (db_cursors db')" for x
      using that parts(7) [of x] by (simp add: e) (simp add: db')
  qed
  have "ev_channel x \<noteq> ch_id ch" if "x \<in> set (db_events db)" for x
    using parts(5) [OF that] fresh by (metis (no_types))
  then show "channel_events db' (ch_id ch) = []" by (simp add: db' channel_events_def filter_empty_conv)
  show "channel_row db' (ch_id ch) \<noteq> None" by (simp add: channel_row_def db' tbl_get_snoc split: option.split)
qed

lemma log_ok_update_channel:
  assumes ok: "log_ok db" and "\<And>r. ch_id (f r) = ch_id r"
    and name: "\<And>r. ch_state (f r) = ChActive \<Longrightarrow> r \<in> set (db_channels db) \<Longrightarrow> ch_id r = c \<Longrightarrow>
       \<forall>r' \<in> set (db_channels db). ch_id r' \<noteq> c \<and> ch_state r' = ChActive \<longrightarrow> ch_nameKey r' \<noteq> ch_nameKey (f r)"
  shows "log_ok (update_channel c f db)"
proof -
  let ?t = "tbl_update (\<lambda>r. ch_id r = c) f (db_channels db)"
  have e: "channel_events (update_channel c f db) d = channel_events db d" for d
    by (simp add: channel_events_def update_channel_def)
  have k: "key_unique ch_id ?t" using ok assms(2) by (auto simp: log_ok_def intro: key_unique_update)
  have r: "channel_row db d \<noteq> None \<Longrightarrow> channel_row (update_channel c f db) d \<noteq> None" for d
    unfolding channel_row_def update_channel_def using assms(2) by (simp add: tbl_get_tbl_update)
  have n: "names_ok ?t"
    unfolding names_ok_def
  proof (intro ballI impI)
    fix x y assume x: "x \<in> set ?t" and y: "y \<in> set ?t"
      and xy: "ch_state x = ChActive \<and> ch_state y = ChActive \<and> ch_nameKey x = ch_nameKey y"
    obtain r where r: "r \<in> set (db_channels db)" "x = (if ch_id r = c then f r else r)"
      using x by (rule in_tbl_update)
    obtain s where s: "s \<in> set (db_channels db)" "y = (if ch_id s = c then f s else s)"
      using y by (rule in_tbl_update)
    have "ch_id r = ch_id s"
    proof (cases "ch_id r = c"; cases "ch_id s = c")
      assume "ch_id r = c" "ch_id s \<noteq> c"
      then show ?thesis using name [of r] r s xy by auto
    next
      assume "ch_id r \<noteq> c" "ch_id s = c"
      then show ?thesis using name [of s] r s xy by auto
    next
      assume "ch_id r \<noteq> c" "ch_id s \<noteq> c"
      then have "x = r" "y = s" using r s by simp_all
      then show ?thesis using log_ok_parts(4) [OF ok] r(1) s(1) xy unfolding names_ok_def by blast
    qed simp
    then show "ch_id x = ch_id y" using r s assms(2) by auto
  qed
  note parts = log_ok_parts [OF ok]
  show ?thesis
  proof (rule log_okI)
    show "contiguous (update_channel c f db)" using parts(1) by (simp add: contiguous_def e)
    show "channel_row (update_channel c f db) (ev_channel x) \<noteq> None"
      if "x \<in> set (db_events (update_channel c f db))" for x
      using that parts(5) r by (simp add: update_channel_def del: not_None_eq)
    show "key_unique ch_id (db_channels (update_channel c f db))" "names_ok (db_channels (update_channel c f db))"
      using k n by (simp_all add: update_channel_def)
    show "key_unique member_key (db_members (update_channel c f db))" using parts(3) by (simp add: update_channel_def)
    show "mb_rejoinedSeq m \<le> length (channel_events (update_channel c f db) (mb_channel m))"
      if "m \<in> set (db_members (update_channel c f db))" for m
      using that parts(6) [of m] by (simp add: e) (simp add: update_channel_def)
    show "cu_ack x \<le> length (channel_events (update_channel c f db) (cu_channel x))"
      if "x \<in> set (db_cursors (update_channel c f db))" for x
      using that parts(7) [of x] by (simp add: e) (simp add: update_channel_def)
  qed
qed

subsection \<open>Every command keeps the invariant\<close>

lemma log_ok_results: "log_ok (db\<lparr>db_results := t\<rparr>) = log_ok db"
  by (simp add: log_ok_def contiguous_def channel_events_def channel_row_def)

lemma log_ok_keyed:
  assumes "log_ok db" and "\<And>r red db'. fn db = Inr (r, red, db') \<Longrightarrow> log_ok db'"
  shows "log_ok (fst (runKeyedCommand pf p cmd key body predicate fn db))"
  by (rule runKeyedCommand_cases [of pf p cmd key body predicate fn db])
     (use assms in \<open>simp_all add: log_ok_results\<close>)

lemma create_member:
  assumes "log_ok db" and "member_row db cid p = None" and "channel_events db cid = []"
    and "channel_row db cid \<noteq> None" and "member_key m = (cid, p)" and "mb_rejoinedSeq m = 0"
    and "insert_event eid cid 1 actor kind content now (db\<lparr>db_members := db_members db @ [m]\<rparr>) = Some db'"
  shows "log_ok db'"
proof -
  have "log_ok (db\<lparr>db_members := db_members db @ [m]\<rparr>)"
    using assms(1,2,5,6) by (intro log_ok_new_member) simp_all
  then show ?thesis
    using assms(3,4,7) by (intro log_ok_event [of "db\<lparr>db_members := db_members db @ [m]\<rparr>" cid eid actor kind content now db'])
      (simp_all add: channel_row_def channel_events_def)
qed

lemma log_ok_createChannel_tx:
  assumes "log_ok db" and "createChannel_tx pf en name db = Inr (r, red, db')"
  shows "log_ok db'"
proof -
  obtain op ch db1 where op: "getOperatorOrThrow db = Some op"
    and ch: "append_channel ch db = Inr db1" "ch_id ch = en_uuid en 0"
    and fresh: "member_row db1 (en_uuid en 0) (pr_id op) = None"
    and ins: "insert_event (en_uuid en 1) (en_uuid en 0) 1 (pr_id op) channel_created
       (JObj [(cps ''channelId'', JStr (cps (en_uuid en 0))), (cps ''name'', JStr name)]) (en_clock en 1)
       (db1\<lparr>db_members := db_members db1 @
          [\<lparr>mb_channel = en_uuid en 0, mb_principal = pr_id op, mb_role = OwnerRole,
            mb_state = MActive, mb_epoch = 1, mb_rejoinedSeq = 0, mb_joinedAt = en_clock en 0,
            mb_removedAt = None\<rparr>]\<rparr>) = Some db'"
    using assms(2) unfolding createChannel_tx_def Let_def
    by (fastforce split: option.splits sum.splits if_splits)
  note nc = log_ok_new_channel [OF assms(1) ch(1), unfolded ch(2)]
  show ?thesis
    by (rule create_member [OF nc(1) fresh nc(2) nc(3) _ _ ins]) (simp_all add: member_key_def)
qed

lemma log_ok_policy: "log_ok (db\<lparr>db_policyAudit := a\<rparr>) = log_ok db"
  by (simp add: log_ok_def contiguous_def channel_events_def channel_row_def)

lemma log_ok_setPolicy_tx:
  assumes "log_ok db" and "setPolicy_tx en caller c policy key db = Inr (r, red, db')"
  shows "log_ok db'"
proof -
  have "log_ok (update_channel c (\<lambda>r. r\<lparr>ch_policy := policy\<rparr>) db)"
  proof (rule log_ok_update_channel [OF assms(1)])
    fix x assume x: "ch_state (x\<lparr>ch_policy := policy\<rparr>) = ChActive" "x \<in> set (db_channels db)" "ch_id x = c"
    show "\<forall>r' \<in> set (db_channels db). ch_id r' \<noteq> c \<and> ch_state r' = ChActive
        \<longrightarrow> ch_nameKey r' \<noteq> ch_nameKey (x\<lparr>ch_policy := policy\<rparr>)"
    proof (intro ballI impI notI)
      fix r' assume r: "r' \<in> set (db_channels db)" "ch_id r' \<noteq> c \<and> ch_state r' = ChActive"
        "ch_nameKey r' = ch_nameKey (x\<lparr>ch_policy := policy\<rparr>)"
      then have "ch_id r' = ch_id x"
        using log_ok_parts(4) [OF assms(1), unfolded names_ok_def, rule_format, OF r(1) x(2)] x(1) by simp
      with r x show False by simp
    qed
  qed simp
  moreover obtain a where "db' = update_channel c (\<lambda>r. r\<lparr>ch_policy := policy\<rparr>) db\<lparr>db_policyAudit := a\<rparr>"
    using assms(2) by (auto simp: setPolicy_tx_def update_channel_def split: option.splits)
  ultimately show ?thesis by (simp add: log_ok_policy)
qed

lemma log_ok_addMember_tx:
  assumes ok: "log_ok db" and tx: "addMember_tx en caller c p db = Inr (r, red, db')"
  shows "log_ok db'"
proof -
  let ?n = "length (channel_events db c)"
  let ?new = "\<lparr>mb_channel = c, mb_principal = p, mb_role = AgentRole, mb_state = MActive,
     mb_epoch = 1, mb_rejoinedSeq = ?n, mb_joinedAt = en_clock en 0, mb_removedAt = None\<rparr>"
  let ?f = "\<lambda>e. \<lambda>m. m\<lparr>mb_state := MActive, mb_epoch := e, mb_rejoinedSeq := ?n,
     mb_joinedAt := en_clock en 0, mb_removedAt := None\<rparr>"
  have n: "getMaxChannelSeq db c = ?n" using max_seq log_ok_parts(1) [OF ok] by simp
  have ch: "channel_row db c \<noteq> None" using tx by (auto simp: addMember_tx_def split: option.splits)
  have new: "log_ok (db\<lparr>db_members := db_members db @ [?new]\<rparr>)" if "member_row db c p = None"
    using that by (intro log_ok_new_member [OF ok, of c p]) (simp_all add: member_key_def)
  have upd: "log_ok (update_member c p (?f e) db)" for e
    by (rule log_ok_update_member [OF ok]) (simp_all add: member_key_def)
  have ev: "log_ok db2" if "log_ok db1" "channel_row db1 c = channel_row db c"
      "channel_events db1 c = channel_events db c"
      "insert_event eid c (Suc ?n) actor kind content now db1 = Some db2" for db1 db2 eid actor kind content now
    using that ch by (intro log_ok_event [of db1 c eid actor kind content now db2]) simp_all
  show ?thesis
  proof (cases "member_row db c p")
    case None
    then obtain eid actor kind content now where
      "insert_event eid c (Suc ?n) actor kind content now (db\<lparr>db_members := db_members db @ [?new]\<rparr>) = Some db'"
      using tx by (auto simp: addMember_tx_def n Let_def split: option.splits if_splits)
    then show ?thesis by (rule ev [OF new [OF None], rotated 2]) (simp_all add: channel_row_def channel_events_def)
  next
    case (Some m)
    show ?thesis
    proof (cases "mb_state m = MActive")
      case True
      then show ?thesis using tx Some ok by (auto simp: addMember_tx_def Let_def split: option.splits if_splits)
    next
      case False
      with Some obtain eid actor kind content now where
        "insert_event eid c (Suc ?n) actor kind content now (update_member c p (?f (mb_epoch m + 1)) db) = Some db'"
        using tx by (auto simp: addMember_tx_def n Let_def split: option.splits if_splits)
      then show ?thesis
        by (rule ev [OF upd, rotated 2]) (simp_all add: update_member_def channel_row_def channel_events_def)
    qed
  qed
qed

lemma log_ok_removeMember_tx:
  assumes ok: "log_ok db" and tx: "removeMember_tx en caller c p db = Inr (r, red, db')"
  shows "log_ok db'"
proof -
  let ?f = "\<lambda>e. \<lambda>m. m\<lparr>mb_state := MRemoved, mb_epoch := e, mb_removedAt := Some (en_clock en 0)\<rparr>"
  have n: "getMaxChannelSeq db c = length (channel_events db c)" using max_seq log_ok_parts(1) [OF ok] by simp
  obtain ch m where ch: "channel_row db c = Some ch" and m: "member_row db c p = Some m"
    using tx by (auto simp: removeMember_tx_def split: option.splits if_splits)
  have upd: "log_ok (update_member c p (?f e) db)" for e
    by (rule log_ok_update_member [OF ok]) (simp_all add: member_key_def)
  show ?thesis
  proof (cases "mb_state m = MRemoved")
    case True
    then show ?thesis using tx ch m ok by (auto simp: removeMember_tx_def split: if_splits)
  next
    case False
    then have "insert_event (en_uuid en 0) c (Suc (length (channel_events db c))) caller member_removed
        (member_content c p (mb_epoch m + 1)) (en_clock en 1) (update_member c p (?f (mb_epoch m + 1)) db) = Some db'"
      using tx ch m by (auto simp: removeMember_tx_def n Let_def split: option.splits if_splits)
    then show ?thesis
      using log_ok_event [OF upd, of "mb_epoch m + 1" c] ch
      by (simp add: update_member_def channel_row_def channel_events_def)
  qed
qed

lemma channel_row_update:
  "(\<And>r. ch_id (f r) = ch_id r) \<Longrightarrow> channel_row (update_channel c f db) d
   = map_option (\<lambda>r. if ch_id r = c then f r else r) (channel_row db d)"
  unfolding channel_row_def update_channel_def by (simp add: tbl_get_tbl_update)

lemma log_ok_archive_tx:
  assumes ok: "log_ok db" and tx: "archive_tx en caller c db = Inr (r, red, db')"
  shows "log_ok db'"
proof -
  obtain ch where ch: "channel_row db c = Some ch" using tx by (auto simp: archive_tx_def split: option.splits)
  let ?f = "\<lambda>r. r\<lparr>ch_state := ChArchived, ch_epoch := ch_epoch ch + 1\<rparr>"
  have upd: "log_ok (update_channel c ?f db)" by (rule log_ok_update_channel [OF ok]) simp_all
  show ?thesis
  proof (cases "ch_state ch = ChArchived")
    case True
    then show ?thesis using tx ch ok by (auto simp: archive_tx_def)
  next
    case False
    then have "append_event (en_uuid en 0) c caller channel_archived (epoch_content c (ch_epoch ch + 1))
        (en_clock en 1) (update_channel c ?f db) = Some db'"
      using tx ch by (auto simp: archive_tx_def Let_def split: option.splits)
    then show ?thesis using ch by (intro log_ok_append_event [OF upd]) (simp_all add: channel_row_update)
  qed
qed

lemma log_ok_unarchive_tx:
  assumes ok: "log_ok db" and tx: "unarchive_tx pf en caller c db = Inr (r, red, db')"
  shows "log_ok db'"
proof -
  obtain ch where ch: "channel_row db c = Some ch" using tx by (auto simp: unarchive_tx_def split: option.splits)
  let ?f = "\<lambda>r. r\<lparr>ch_state := ChActive, ch_nameKey := nameKey (pf_fold pf) (ch_name ch), ch_epoch := ch_epoch ch + 1\<rparr>"
  show ?thesis
  proof (cases "ch_state ch = ChActive")
    case True
    then show ?thesis using tx ch ok by (auto simp: unarchive_tx_def)
  next
    case False
    then have free: "tbl_get (\<lambda>r. ch_id r \<noteq> c \<and> ch_state r = ChActive
          \<and> ch_nameKey r = nameKey (pf_fold pf) (ch_name ch)) (db_channels db) = None"
      and ap: "append_event (en_uuid en 0) c caller channel_unarchived (epoch_content c (ch_epoch ch + 1))
        (en_clock en 1) (update_channel c ?f db) = Some db'"
      using tx ch by (auto simp: unarchive_tx_def Let_def split: option.splits if_splits)
    have upd: "log_ok (update_channel c ?f db)"
      by (rule log_ok_update_channel [OF ok]) (use free in \<open>auto simp: tbl_get_None\<close>)
    show ?thesis using ch ap by (intro log_ok_append_event [OF upd]) (simp_all add: channel_row_update)
  qed
qed

lemma log_ok_post_tx:
  "log_ok db \<Longrightarrow> post_tx en caller c text db = Inr (r, red, db') \<Longrightarrow> log_ok db'"
  by (auto simp: post_tx_def Let_def split: option.splits if_splits intro: log_ok_append_event [rotated 2])

lemma visible_member:
  assumes "assertChannelVisible caller c db = Inr m"
  shows "m \<in> set (db_members db)" and "mb_channel m = c" and "mb_principal m = caller"
    and "mb_state m = MActive" and "channel_row db c \<noteq> None" and "member_row db c caller = Some m"
  using assms by (auto simp: assertChannelVisible_def member_row_def member_key_def dest: tbl_get_Some
      split: option.splits if_splits)

lemma upsert_cursor_rows:
  "r \<in> set (upsert_cursor c p n t) \<Longrightarrow> r \<in> set t \<or> (cu_channel r = c \<and> cu_principal r = p
     \<and> (cu_ack r = n \<or> (\<exists>r0 \<in> set t. cu_channel r0 = c \<and> cu_ack r = max (cu_ack r0) n)))"
  by (fastforce simp: upsert_cursor_def Let_def set_tbl_update split: option.splits if_splits)

lemma log_ok_ack_tx:
  assumes ok: "log_ok db" and tx: "ack_tx caller c cursor db = Inr (r, db')"
  shows "log_ok db'"
proof -
  obtain m where m: "assertChannelVisible caller c db = Inr m"
    using tx by (auto simp: ack_tx_def split: sum.splits)
  obtain n where p: "parseCursor cursor = Some n"
    using tx m by (auto simp: ack_tx_def split: option.splits)
  have n: "n \<le> callerVisibleBound db c (mb_rejoinedSeq m)"
    and db': "db' = db\<lparr>db_cursors := upsert_cursor c caller n (db_cursors db)\<rparr>"
    using tx m p by (auto simp: ack_tx_def Let_def split: if_splits)
  note vm = visible_member [OF m]
  have "mb_rejoinedSeq m \<le> length (channel_events db c)"
    using log_ok_parts(6) [OF ok vm(1)] vm(2) by simp
  then have "n \<le> length (channel_events db c)"
    using n max_seq [OF log_ok_parts(1) [OF ok], of c] by (simp add: callerVisibleBound_def Let_def split: if_splits)
  then have "cu_ack x \<le> length (channel_events db (cu_channel x))" if "x \<in> set (db_cursors db')" for x
  proof -
    from that have "x \<in> set (db_cursors db) \<or> (cu_channel x = c \<and> (cu_ack x = n
        \<or> (\<exists>r0 \<in> set (db_cursors db). cu_channel r0 = c \<and> cu_ack x = max (cu_ack r0) n)))"
      using upsert_cursor_rows [of x c caller n "db_cursors db"] by (auto simp: db')
    with log_ok_parts(7) [OF ok] \<open>n \<le> length (channel_events db c)\<close> show ?thesis
      by (metis max.bounded_iff)
  qed
  then show ?thesis using log_ok_parts(1-6) [OF ok]
    by (intro log_okI) (simp_all add: db' contiguous_def channel_events_def channel_row_def)
qed

datatype channel_cmd =
    CreateChannel text_cp string
  | SetPolicy string ExportPolicy string
  | AddMember string string string
  | RemoveMember string string string
  | Archive string string
  | Unarchive string string
  | Post string text_cp string
  | Ack string string

fun run_channel :: "platform \<Rightarrow> env \<Rightarrow> string \<Rightarrow> channel_cmd \<Rightarrow> collab_db \<Rightarrow> collab_db" where
  "run_channel pf en caller (CreateChannel name key) db = fst (createChannel pf en caller name key db)"
| "run_channel pf en caller (SetPolicy c policy key) db = fst (setChannelExternalExportPolicy pf en caller c policy key db)"
| "run_channel pf en caller (AddMember c p key) db = fst (addChannelMember pf en caller c p key db)"
| "run_channel pf en caller (RemoveMember c p key) db = fst (removeChannelMember pf en caller c p key db)"
| "run_channel pf en caller (Archive c key) db = fst (archiveChannel pf en caller c key db)"
| "run_channel pf en caller (Unarchive c key) db = fst (unarchiveChannel pf en caller c key db)"
| "run_channel pf en caller (Post c text key) db = fst (postChannelMessage pf en caller c text key db)"
| "run_channel pf en caller (Ack c cursor) db = fst (ackChannelCursor caller c cursor db)"

lemma log_ok_run_channel:
  assumes ok: "log_ok db"
  shows "log_ok (run_channel pf en caller cmd db)"
proof (cases cmd)
  case (CreateChannel name key)
  then show ?thesis using ok log_ok_keyed [OF ok, OF log_ok_createChannel_tx [OF ok]]
      by (simp add: createChannel_def split: option.split)
next
  case (SetPolicy c policy key)
  then show ?thesis using ok log_ok_keyed [OF ok, OF log_ok_setPolicy_tx [OF ok]]
      by (simp add: setChannelExternalExportPolicy_def split: option.split)
next
  case (AddMember c p key)
  then show ?thesis using log_ok_keyed [OF ok, OF log_ok_addMember_tx [OF ok]] by (simp add: addChannelMember_def)
next
  case (RemoveMember c p key)
  then show ?thesis using log_ok_keyed [OF ok, OF log_ok_removeMember_tx [OF ok]] by (simp add: removeChannelMember_def)
next
  case (Archive c key)
  then show ?thesis using log_ok_keyed [OF ok, OF log_ok_archive_tx [OF ok]] by (simp add: archiveChannel_def)
next
  case (Unarchive c key)
  then show ?thesis using log_ok_keyed [OF ok, OF log_ok_unarchive_tx [OF ok]] by (simp add: unarchiveChannel_def)
next
  case (Post c msg key)
  then show ?thesis using ok log_ok_keyed [OF ok, OF log_ok_post_tx [OF ok]]
      by (simp add: postChannelMessage_def split: option.split)
next
  case (Ack c cursor)
  then show ?thesis using ok log_ok_ack_tx [OF ok]
      by (auto simp: ackChannelCursor_def runNaturallyIdempotentCommand_def split: sum.split)
qed

end
