(* ===== verification/Collab_Agents.thy ===== *)
theory Collab_Agents
  imports Collab_Db
begin

text \<open>
  Principals, credentials and sessions: the agent and credential commands of
  \<open>packages/collab/src/store.ts\<close>, the session bindings and the BASE predicate of
  \<open>sessions.ts\<close>. The issued token and its keyed digest are an argument, a function of the
  credential's identifier.
\<close>

type_synonym issuer = "string \<Rightarrow> string \<times> digest"

subsection \<open>Helpers\<close>

definition insertAudit :: "string \<Rightarrow> string \<Rightarrow> string \<Rightarrow> collab_db \<Rightarrow> collab_db" where
  "insertAudit kind actor subject db = db\<lparr>db_audit := db_audit db @
     [\<lparr>ad_kind = kind, ad_actor = actor, ad_subject = subject\<rparr>]\<rparr>"

definition credential_row :: "collab_db \<Rightarrow> string \<Rightarrow> CredentialRow option" where
  "credential_row db k = tbl_get (\<lambda>r. cr_id r = k) (db_credentials db)"

text \<open>The credential insert: a duplicate id or keyed digest throws.\<close>

definition issueCredentialRow ::
  "issuer \<Rightarrow> string \<Rightarrow> string \<Rightarrow> collab_db \<Rightarrow> (string \<times> collab_db) option" where
  "issueCredentialRow issue credentialId principalId db =
     (let (token, hmac) = issue credentialId
      in if tbl_get (\<lambda>r. cr_id r = credentialId \<or> cr_secretHmac r = hmac) (db_credentials db) \<noteq> None
         then None
         else Some (token, db\<lparr>db_credentials := db_credentials db @
           [\<lparr>cr_id = credentialId, cr_principal = principalId, cr_secretHmac = hmac,
             cr_state = CredActive, cr_revokedAt = None\<rparr>]\<rparr>))"

definition active_credential :: "string \<Rightarrow> CredentialRow \<Rightarrow> bool" where
  "active_credential p r \<longleftrightarrow> cr_principal r = p \<and> cr_state r = CredActive"

definition countActiveCredentials :: "collab_db \<Rightarrow> string \<Rightarrow> nat" where
  "countActiveCredentials db p = tbl_changes (active_credential p) (db_credentials db)"

definition getAgentTargetOrThrow :: "collab_db \<Rightarrow> string \<Rightarrow> CollabErrorCode + PrincipalRow" where
  "getAgentTargetOrThrow db p =
     (case principal_row db p of
        None \<Rightarrow> Inl PRINCIPAL_NOT_FOUND
      | Some r \<Rightarrow> if pr_kind r \<noteq> AgentKind then Inl INVALID_REQUEST else Inr r)"

definition close_sessions ::
  "(SessionBindingRow \<Rightarrow> bool) \<Rightarrow> SessionCloseReason \<Rightarrow> string \<Rightarrow> collab_db \<Rightarrow> string list \<times> collab_db" where
  "close_sessions P reason now db =
     (let hit = (\<lambda>s. P s \<and> sb_closed s = None)
      in (map sb_session (filter hit (db_sessions db)),
          db\<lparr>db_sessions := tbl_update hit (\<lambda>s. s\<lparr>sb_closed := Some (now, reason)\<rparr>) (db_sessions db)\<rparr>))"

definition closeSessionsForPrincipal ::
  "string \<Rightarrow> SessionCloseReason \<Rightarrow> string \<Rightarrow> collab_db \<Rightarrow> string list \<times> collab_db" where
  "closeSessionsForPrincipal p = close_sessions (\<lambda>s. sb_principal s = p)"

definition closeSessionsForCredential ::
  "string \<Rightarrow> SessionCloseReason \<Rightarrow> string \<Rightarrow> collab_db \<Rightarrow> string list \<times> collab_db" where
  "closeSessionsForCredential k = close_sessions (\<lambda>s. sb_credential s = k)"

definition set_principal :: "string \<Rightarrow> (PrincipalRow \<Rightarrow> PrincipalRow) \<Rightarrow> collab_db \<Rightarrow> collab_db" where
  "set_principal p f db = db\<lparr>db_principals := tbl_update (\<lambda>r. pr_id r = p) f (db_principals db)\<rparr>"

definition revoke_credentials :: "(CredentialRow \<Rightarrow> bool) \<Rightarrow> string \<Rightarrow> collab_db \<Rightarrow> collab_db" where
  "revoke_credentials P now db = db\<lparr>db_credentials :=
     tbl_update P (\<lambda>r. r\<lparr>cr_state := CredRevoked, cr_revokedAt := Some now\<rparr>) (db_credentials db)\<rparr>"

subsection \<open>Creating agents and credentials\<close>

definition createAgent_tx ::
  "issuer \<Rightarrow> env \<Rightarrow> string \<Rightarrow> text_cp \<Rightarrow> collab_db \<Rightarrow> CollabErrorCode + reply \<times> reply \<times> collab_db" where
  "createAgent_tx issue en caller name db =
     (case getOperatorOrThrow db of
        None \<Rightarrow> Inl PRINCIPAL_NOT_FOUND
      | Some operator \<Rightarrow>
      let agentId = en_uuid en 0
      in if principal_row db agentId \<noteq> None then Inl SQL_CONSTRAINT
         else case issueCredentialRow issue (en_uuid en 1) agentId
               (db\<lparr>db_principals := db_principals db @
                  [\<lparr>pr_id = agentId, pr_kind = AgentKind, pr_displayName = name,
                    pr_owner = Some (pr_id operator), pr_status = PActive, pr_authEpoch = 1,
                    pr_revokedAt = None\<rparr>]\<rparr>) of
           None \<Rightarrow> Inl SQL_CONSTRAINT
         | Some (token, db1) \<Rightarrow>
             Inr (CredentialReply agentId (en_uuid en 1) (Some token),
                  CredentialReply agentId (en_uuid en 1) None,
                  insertAudit ''credential_created'' caller agentId db1))"

definition createAgent ::
  "platform \<Rightarrow> issuer \<Rightarrow> env \<Rightarrow> string \<Rightarrow> text_cp \<Rightarrow> string \<Rightarrow> collab_db \<Rightarrow> collab_db \<times> (CollabErrorCode + reply)" where
  "createAgent pf issue en caller rawName key db =
     (case normalizeName (pf_nfc pf) rawName of
        None \<Rightarrow> (db, Inl INVALID_REQUEST)
      | Some name \<Rightarrow> runKeyedCommand pf caller CREATE_AGENT_CMD key (JObj [(cps ''displayName'', JStr name)])
          (assertOperatorCaller caller) (createAgent_tx issue en caller name) db)"

definition principal_body :: "string \<Rightarrow> jval" where
  "principal_body p = JObj [(cps ''principalId'', JStr (cps p))]"

definition createCredential_tx ::
  "issuer \<Rightarrow> env \<Rightarrow> string \<Rightarrow> string \<Rightarrow> collab_db \<Rightarrow> CollabErrorCode + reply \<times> reply \<times> collab_db" where
  "createCredential_tx issue en caller p db =
     (case principal_row db p of
        None \<Rightarrow> Inl PRINCIPAL_NOT_FOUND
      | Some target \<Rightarrow>
      if pr_status target \<noteq> PActive then Inl INVALID_PRINCIPAL_STATE
      else case issueCredentialRow issue (en_uuid en 0) p db of
        None \<Rightarrow> Inl SQL_CONSTRAINT
      | Some (token, db1) \<Rightarrow>
          Inr (CredentialReply p (en_uuid en 0) (Some token), CredentialReply p (en_uuid en 0) None,
               insertAudit ''credential_created'' caller p db1))"

definition createPrincipalCredential ::
  "platform \<Rightarrow> issuer \<Rightarrow> env \<Rightarrow> string \<Rightarrow> string \<Rightarrow> string \<Rightarrow> collab_db \<Rightarrow> collab_db \<times> (CollabErrorCode + reply)" where
  "createPrincipalCredential pf issue en caller p key db =
     runKeyedCommand pf caller CREATE_PRINCIPAL_CREDENTIAL key (principal_body p)
       (assertOperatorCaller caller) (createCredential_tx issue en caller p) db"

subsection \<open>Suspend, restore, revoke\<close>

definition suspend_tx ::
  "env \<Rightarrow> string \<Rightarrow> string \<Rightarrow> collab_db \<Rightarrow> CollabErrorCode + reply \<times> reply \<times> collab_db" where
  "suspend_tx en caller p db =
     (case getAgentTargetOrThrow db p of
        Inl e \<Rightarrow> Inl e
      | Inr target \<Rightarrow>
          let newEpoch = pr_authEpoch target + 1;
              db1 = set_principal p (\<lambda>r. r\<lparr>pr_status := PSuspended, pr_authEpoch := newEpoch\<rparr>) db;
              db2 = snd (closeSessionsForPrincipal p PrincipalSuspended (en_clock en 0) db1)
          in if pr_status target = PSuspended
             then Inr (LifecycleReply p PSuspended (pr_authEpoch target), LifecycleReply p PSuspended (pr_authEpoch target), db)
             else if pr_status target \<noteq> PActive then Inl INVALID_PRINCIPAL_TRANSITION
             else Inr (LifecycleReply p PSuspended newEpoch, LifecycleReply p PSuspended newEpoch,
                       insertAudit ''agent_suspended'' caller p db2))"

definition suspendAgent ::
  "platform \<Rightarrow> env \<Rightarrow> string \<Rightarrow> string \<Rightarrow> string \<Rightarrow> collab_db \<Rightarrow> collab_db \<times> (CollabErrorCode + reply)" where
  "suspendAgent pf en caller p key db = runKeyedCommand pf caller SUSPEND_AGENT key (principal_body p)
     (assertOperatorCaller caller) (suspend_tx en caller p) db"

definition restore_tx ::
  "env \<Rightarrow> string \<Rightarrow> string \<Rightarrow> collab_db \<Rightarrow> CollabErrorCode + reply \<times> reply \<times> collab_db" where
  "restore_tx en caller p db =
     (case getAgentTargetOrThrow db p of
        Inl e \<Rightarrow> Inl e
      | Inr target \<Rightarrow>
          let newEpoch = pr_authEpoch target + 1;
              db1 = set_principal p (\<lambda>r. r\<lparr>pr_status := PActive, pr_authEpoch := newEpoch\<rparr>) db;
              db2 = snd (closeSessionsForPrincipal p PrincipalRestored (en_clock en 0) db1)
          in if pr_status target = PActive
             then Inr (LifecycleReply p PActive (pr_authEpoch target), LifecycleReply p PActive (pr_authEpoch target), db)
             else if pr_status target \<noteq> PSuspended then Inl INVALID_PRINCIPAL_TRANSITION
             else Inr (LifecycleReply p PActive newEpoch, LifecycleReply p PActive newEpoch,
                       insertAudit ''agent_restored'' caller p db2))"

definition restoreAgent ::
  "platform \<Rightarrow> env \<Rightarrow> string \<Rightarrow> string \<Rightarrow> string \<Rightarrow> collab_db \<Rightarrow> collab_db \<times> (CollabErrorCode + reply)" where
  "restoreAgent pf en caller p key db = runKeyedCommand pf caller RESTORE_AGENT key (principal_body p)
     (assertOperatorCaller caller) (restore_tx en caller p) db"

text \<open>Revocation reaches the credentials, the sessions and the schedules of the agent.\<close>

definition stop_schedules :: "string \<Rightarrow> collab_db \<Rightarrow> collab_db" where
  "stop_schedules p db = db\<lparr>db_schedules :=
     tbl_update (\<lambda>s. sr_agent s = p \<and> sr_active s) (\<lambda>s. s\<lparr>sr_active := False\<rparr>) (db_schedules db)\<rparr>"

definition revoke_tx ::
  "env \<Rightarrow> string \<Rightarrow> string \<Rightarrow> collab_db \<Rightarrow> CollabErrorCode + reply \<times> reply \<times> collab_db" where
  "revoke_tx en caller p db =
     (case getAgentTargetOrThrow db p of
        Inl e \<Rightarrow> Inl e
      | Inr target \<Rightarrow>
          let now = en_clock en 0;
              newEpoch = pr_authEpoch target + 1;
              count = countActiveCredentials db p;
              db1 = set_principal p (\<lambda>r. r\<lparr>pr_status := PRevoked, pr_authEpoch := newEpoch,
                                          pr_revokedAt := Some now\<rparr>) db;
              db2 = revoke_credentials (active_credential p) now db1;
              db3 = stop_schedules p (snd (closeSessionsForPrincipal p PrincipalRevoked now db2))
          in if pr_status target = PRevoked
             then Inr (RevokeAgentReply p (pr_authEpoch target) 0, RevokeAgentReply p (pr_authEpoch target) 0, db)
             else Inr (RevokeAgentReply p newEpoch count, RevokeAgentReply p newEpoch count,
                       insertAudit ''agent_revoked'' caller p db3))"

definition revokeAgent ::
  "platform \<Rightarrow> env \<Rightarrow> string \<Rightarrow> string \<Rightarrow> string \<Rightarrow> collab_db \<Rightarrow> collab_db \<times> (CollabErrorCode + reply)" where
  "revokeAgent pf en caller p key db = runKeyedCommand pf caller REVOKE_AGENT key (principal_body p)
     (assertOperatorCaller caller) (revoke_tx en caller p) db"

subsection \<open>Rotating and revoking credentials\<close>

definition rotate_tx ::
  "issuer \<Rightarrow> env \<Rightarrow> string \<Rightarrow> string \<Rightarrow> string \<Rightarrow> collab_db \<Rightarrow> CollabErrorCode + reply \<times> reply \<times> collab_db" where
  "rotate_tx issue en caller p k db =
     (case principal_row db p of
        None \<Rightarrow> Inl PRINCIPAL_NOT_FOUND
      | Some target \<Rightarrow>
      case credential_row db k of
        None \<Rightarrow> Inl CREDENTIAL_NOT_FOUND
      | Some replaced \<Rightarrow>
      if \<not> active_credential p replaced then Inl CREDENTIAL_NOT_FOUND
      else if pr_kind target = OperatorKind \<and> countActiveCredentials db p \<le> 1
      then Inl LAST_OPERATOR_CREDENTIAL
      else case issueCredentialRow issue (en_uuid en 0) p db of
        None \<Rightarrow> Inl SQL_CONSTRAINT
      | Some (token, db1) \<Rightarrow>
          let db2 = revoke_credentials (\<lambda>r. cr_id r = k) (en_clock en 0) db1;
              db3 = snd (closeSessionsForCredential k CredentialRevoked (en_clock en 0) db2)
          in Inr (RotateReply p (en_uuid en 0) (Some token) k, RotateReply p (en_uuid en 0) None k,
                  insertAudit ''credential_revoked'' caller p
                    (insertAudit ''credential_created'' caller p db3)))"

definition rotatePrincipalCredential ::
  "platform \<Rightarrow> issuer \<Rightarrow> env \<Rightarrow> string \<Rightarrow> string \<Rightarrow> string \<Rightarrow> string \<Rightarrow> collab_db \<Rightarrow> collab_db \<times> (CollabErrorCode + reply)" where
  "rotatePrincipalCredential pf issue en caller p k key db =
     runKeyedCommand pf caller ROTATE_PRINCIPAL_CREDENTIAL key
       (JObj [(cps ''principalId'', JStr (cps p)), (cps ''replaceCredentialId'', JStr (cps k))])
       (assertOperatorCaller caller) (rotate_tx issue en caller p k) db"

definition revokeCredential_tx ::
  "env \<Rightarrow> string \<Rightarrow> string \<Rightarrow> collab_db \<Rightarrow> CollabErrorCode + reply \<times> reply \<times> collab_db" where
  "revokeCredential_tx en caller k db =
     (case credential_row db k of
        None \<Rightarrow> Inl CREDENTIAL_NOT_FOUND
      | Some cred \<Rightarrow>
      case principal_row db (cr_principal cred) of
        None \<Rightarrow> Inl PRINCIPAL_NOT_FOUND
      | Some owner \<Rightarrow>
      if cr_state cred = CredRevoked
      then let r = RevokeCredentialReply k (case cr_revokedAt cred of None \<Rightarrow> en_clock en 0 | Some t \<Rightarrow> t)
           in Inr (r, r, db)
      else if pr_kind owner = OperatorKind \<and> countActiveCredentials db (pr_id owner) \<le> 1
      then Inl LAST_OPERATOR_CREDENTIAL
      else
        let now = en_clock en 0;
            db1 = revoke_credentials (\<lambda>r. cr_id r = k) now db;
            db2 = snd (closeSessionsForCredential k CredentialRevoked now db1)
        in Inr (RevokeCredentialReply k now, RevokeCredentialReply k now,
                insertAudit ''credential_revoked'' caller (pr_id owner) db2))"

definition revokePrincipalCredential ::
  "platform \<Rightarrow> env \<Rightarrow> string \<Rightarrow> string \<Rightarrow> string \<Rightarrow> collab_db \<Rightarrow> collab_db \<times> (CollabErrorCode + reply)" where
  "revokePrincipalCredential pf en caller k key db =
     runKeyedCommand pf caller REVOKE_PRINCIPAL_CREDENTIAL key (JObj [(cps ''credentialId'', JStr (cps k))])
       (assertOperatorCaller caller) (revokeCredential_tx en caller k) db"

subsection \<open>Session bindings and the BASE predicate\<close>

definition getSessionBinding :: "collab_db \<Rightarrow> string \<Rightarrow> SessionBindingRow option" where
  "getSessionBinding db s = tbl_get (\<lambda>r. sb_session r = s) (db_sessions db)"

text \<open>A failed insert (the session id exists) throws and changes nothing.\<close>

definition createSessionBinding :: "SessionBindingRow \<Rightarrow> collab_db \<Rightarrow> collab_db option" where
  "createSessionBinding row db =
     (if getSessionBinding db (sb_session row) \<noteq> None then None
      else Some (db\<lparr>db_sessions := db_sessions db @ [row\<lparr>sb_closed := None\<rparr>]\<rparr>))"

definition closeSessionBinding ::
  "string \<Rightarrow> string \<Rightarrow> SessionCloseReason \<Rightarrow> collab_db \<Rightarrow> collab_db \<times> bool" where
  "closeSessionBinding now s reason db =
     (let hit = (\<lambda>r. sb_session r = s \<and> sb_closed r = None)
      in (db\<lparr>db_sessions := tbl_update hit (\<lambda>r. r\<lparr>sb_closed := Some (now, reason)\<rparr>) (db_sessions db)\<rparr>,
          tbl_changes hit (db_sessions db) > 0))"

definition owner_active :: "collab_db \<Rightarrow> PrincipalRow \<Rightarrow> bool" where
  "owner_active db r =
     (pr_kind r \<noteq> AgentKind \<or>
      (case pr_owner r of
         None \<Rightarrow> False
       | Some p \<Rightarrow> p \<noteq> [] \<and> (case principal_row db p of None \<Rightarrow> False | Some o' \<Rightarrow> pr_status o' = PActive)))"

definition evaluateBase :: "collab_db \<Rightarrow> string \<Rightarrow> bool" where
  "evaluateBase db s =
     (case getSessionBinding db s of
        None \<Rightarrow> False
      | Some b \<Rightarrow>
      if sb_closed b \<noteq> None then False
      else case credential_row db (sb_credential b) of
        None \<Rightarrow> False
      | Some k \<Rightarrow>
      if cr_state k \<noteq> CredActive \<or> cr_principal k \<noteq> sb_principal b then False
      else case principal_row db (sb_principal b) of
        None \<Rightarrow> False
      | Some r \<Rightarrow> pr_status r = PActive \<and> pr_authEpoch r = sb_epoch b \<and> owner_active db r)"

subsection \<open>Orphan closure at start-up\<close>

datatype GatewayMode = Uninitialized | Healthy | LockedRecovery | Migration

text \<open>
  The installation record and the comparison of both pepper checks are given by their outcome:
  \<open>None\<close> without a record, else whether both checks match.
\<close>

definition performStartup ::
  "bool option \<Rightarrow> string list \<Rightarrow> string \<Rightarrow> collab_db \<Rightarrow> collab_db \<times> GatewayMode \<times> nat" where
  "performStartup pepperChecks liveSessions now db =
     (case pepperChecks of
        None \<Rightarrow> (db, Uninitialized, 0)
      | Some False \<Rightarrow> (db, LockedRecovery, 0)
      | Some True \<Rightarrow>
      (case getOperatorOrThrow db of
         None \<Rightarrow> (db, LockedRecovery, 0)
       | Some operator \<Rightarrow>
         if pr_status operator \<noteq> PActive then (db, LockedRecovery, 0)
         else let orphan = (\<lambda>r. sb_closed r = None \<and> sb_session r \<notin> set liveSessions)
              in (db\<lparr>db_sessions := tbl_update orphan (\<lambda>r. r\<lparr>sb_closed := Some (now, SocketClosed)\<rparr>)
                       (db_sessions db)\<rparr>,
                  Healthy, tbl_changes orphan (db_sessions db))))"

end
