(* ===== verification/Collab_Log.thy ===== *)
theory Collab_Log
  imports Collab_Channels Collab_Agents
begin

text \<open>
  Histories of the collaboration store, channel and agent commands mixed with sessions opening and
  closing, and the properties that hold along them: gapless channel logs, replay of keyed commands,
  uniform refusals, cursors that only advance and pages that lose nothing.
\<close>

datatype collab_op =
    ChannelOp env string channel_cmd
  | CreateAgentOp issuer env string text_cp string
  | CreateCredentialOp issuer env string string string
  | SuspendOp env string string string
  | RestoreOp env string string string
  | RevokeOp env string string string
  | RotateOp issuer env string string string string
  | RevokeCredentialOp env string string string
  | OpenSession SessionBindingRow
  | CloseSession string string SessionCloseReason
  | Startup "bool option" "string list" string

fun collab_step :: "platform \<Rightarrow> collab_op \<Rightarrow> collab_db \<Rightarrow> collab_db" where
  "collab_step pf (ChannelOp en caller cmd) db = run_channel pf en caller cmd db"
| "collab_step pf (CreateAgentOp issue en caller name key) db = fst (createAgent pf issue en caller name key db)"
| "collab_step pf (CreateCredentialOp issue en caller p key) db = fst (createPrincipalCredential pf issue en caller p key db)"
| "collab_step pf (SuspendOp en caller p key) db = fst (suspendAgent pf en caller p key db)"
| "collab_step pf (RestoreOp en caller p key) db = fst (restoreAgent pf en caller p key db)"
| "collab_step pf (RevokeOp en caller p key) db = fst (revokeAgent pf en caller p key db)"
| "collab_step pf (RotateOp issue en caller p k key) db = fst (rotatePrincipalCredential pf issue en caller p k key db)"
| "collab_step pf (RevokeCredentialOp en caller k key) db = fst (revokePrincipalCredential pf en caller k key db)"
| "collab_step pf (OpenSession row) db = (case createSessionBinding row db of None \<Rightarrow> db | Some d \<Rightarrow> d)"
| "collab_step pf (CloseSession now s reason) db = fst (closeSessionBinding now s reason db)"
| "collab_step pf (Startup checks live now) db = fst (performStartup checks live now db)"

text \<open>A freshly bootstrapped database: principals and credentials, no collaboration data.\<close>

definition fresh_db :: "PrincipalRow list \<Rightarrow> CredentialRow list \<Rightarrow> collab_db" where
  "fresh_db ps cs = \<lparr>db_principals = ps, db_credentials = cs, db_channels = [], db_members = [],
     db_events = [], db_cursors = [], db_results = [], db_sessions = [], db_schedules = [],
     db_audit = [], db_policyAudit = [], db_runs = [], db_turns = [], db_stops = [],
     db_profiles = [], db_personas = [], db_rooms = empty_rooms True\<rparr>"

subsection \<open>Which tables a command leaves alone\<close>

definition same_log :: "collab_db \<Rightarrow> collab_db \<Rightarrow> bool" where
  "same_log db db' \<longleftrightarrow> db_channels db' = db_channels db \<and> db_members db' = db_members db
     \<and> db_events db' = db_events db \<and> db_cursors db' = db_cursors db"

lemma same_log_ok: "same_log db db' \<Longrightarrow> log_ok db \<Longrightarrow> log_ok db'"
  by (simp add: same_log_def log_ok_def contiguous_def channel_events_def channel_row_def)

lemmas agent_effects = insertAudit_def close_sessions_def closeSessionsForPrincipal_def
  closeSessionsForCredential_def set_principal_def revoke_credentials_def stop_schedules_def

lemma issue_effects:
  "issueCredentialRow issue k p db = Some (t, db') \<Longrightarrow>
   \<exists>r. cr_id r = k \<and> cr_principal r = p \<and> cr_state r = CredActive
     \<and> db' = db\<lparr>db_credentials := db_credentials db @ [r]\<rparr>"
  by (rule exI [of _ "\<lparr>cr_id = k, cr_principal = p, cr_secretHmac = snd (issue k), cr_state = CredActive,
        cr_revokedAt = None\<rparr>"])
     (simp add: issueCredentialRow_def case_prod_beta split: if_splits)

text \<open>The tables an agent command never writes.\<close>

definition agent_scope :: "collab_db \<Rightarrow> collab_db \<Rightarrow> bool" where
  "agent_scope db db' \<longleftrightarrow> same_log db db' \<and> db_results db' = db_results db"

lemma createAgent_scope: "createAgent_tx issue en caller name db = Inr (r, red, db') \<Longrightarrow> agent_scope db db'"
  by (auto simp: createAgent_tx_def Let_def agent_scope_def same_log_def agent_effects
      split: option.splits if_splits dest!: issue_effects)

lemma createCredential_scope: "createCredential_tx issue en caller p db = Inr (r, red, db') \<Longrightarrow> agent_scope db db'"
  by (auto simp: createCredential_tx_def agent_scope_def same_log_def agent_effects
      split: option.splits if_splits dest!: issue_effects)

lemma suspend_scope: "suspend_tx en caller p db = Inr (r, red, db') \<Longrightarrow> agent_scope db db'"
  by (auto simp: suspend_tx_def Let_def agent_scope_def same_log_def agent_effects split: sum.splits if_splits)

lemma restore_scope: "restore_tx en caller p db = Inr (r, red, db') \<Longrightarrow> agent_scope db db'"
  by (auto simp: restore_tx_def Let_def agent_scope_def same_log_def agent_effects split: sum.splits if_splits)

lemma revoke_scope: "revoke_tx en caller p db = Inr (r, red, db') \<Longrightarrow> agent_scope db db'"
  by (auto simp: revoke_tx_def Let_def agent_scope_def same_log_def agent_effects split: sum.splits if_splits)

lemma rotate_scope: "rotate_tx issue en caller p k db = Inr (r, red, db') \<Longrightarrow> agent_scope db db'"
  by (auto simp: rotate_tx_def Let_def agent_scope_def same_log_def agent_effects
      split: option.splits if_splits dest!: issue_effects)

lemma revokeCredential_scope: "revokeCredential_tx en caller k db = Inr (r, red, db') \<Longrightarrow> agent_scope db db'"
  by (auto simp: revokeCredential_tx_def Let_def agent_scope_def same_log_def agent_effects
      split: option.splits if_splits)

subsection \<open>Keyed commands as a whole\<close>

lemma keyed_same_log:
  assumes "\<And>r red db'. fn db = Inr (r, red, db') \<Longrightarrow> agent_scope db db'"
  shows "same_log db (fst (runKeyedCommand pf p cmd key body predicate fn db))"
  by (rule runKeyedCommand_cases [of pf p cmd key body predicate fn db])
     (use assms in \<open>auto simp: agent_scope_def same_log_def\<close>)

lemma log_ok_step: "log_ok db \<Longrightarrow> log_ok (collab_step pf op db)"
proof (induction pf op db rule: collab_step.induct)
  case (1 pf en caller cmd db)
  then show ?case by (simp add: log_ok_run_channel)
next
  case (2 pf issue en caller name key db)
  then show ?case using same_log_ok [OF keyed_same_log [OF createAgent_scope] 2]
    by (simp add: createAgent_def split: option.split)
next
  case (3 pf issue en caller p key db)
  then show ?case using same_log_ok [OF keyed_same_log [OF createCredential_scope] 3]
    by (simp add: createPrincipalCredential_def)
next
  case (4 pf en caller p key db)
  then show ?case using same_log_ok [OF keyed_same_log [OF suspend_scope] 4] by (simp add: suspendAgent_def)
next
  case (5 pf en caller p key db)
  then show ?case using same_log_ok [OF keyed_same_log [OF restore_scope] 5] by (simp add: restoreAgent_def)
next
  case (6 pf en caller p key db)
  then show ?case using same_log_ok [OF keyed_same_log [OF revoke_scope] 6] by (simp add: revokeAgent_def)
next
  case (7 pf issue en caller p k key db)
  then show ?case using same_log_ok [OF keyed_same_log [OF rotate_scope] 7]
    by (simp add: rotatePrincipalCredential_def)
next
  case (8 pf en caller k key db)
  then show ?case using same_log_ok [OF keyed_same_log [OF revokeCredential_scope] 8]
    by (simp add: revokePrincipalCredential_def)
next
  case (9 pf row db)
  then show ?case
    by (auto simp: createSessionBinding_def same_log_def split: if_splits intro: same_log_ok [of db])
next
  case (10 pf now s reason db)
  then show ?case by (auto simp: closeSessionBinding_def same_log_def Let_def intro: same_log_ok [of db])
next
  case (11 pf checks live now db)
  then show ?case
    by (auto simp: performStartup_def same_log_def Let_def split: option.split bool.split intro: same_log_ok [of db])
qed

lemma log_ok_fresh: "log_ok (fresh_db ps cs)"
  by (simp add: log_ok_def fresh_db_def contiguous_def channel_events_def key_unique_def names_ok_def)

lemma log_ok_history: "log_ok (fold (collab_step pf) ops (fresh_db ps cs))"
proof -
  have "log_ok (fold (collab_step pf) ops db)" if "log_ok db" for db
    using that by (induction ops arbitrary: db) (simp_all add: log_ok_step)
  then show ?thesis using log_ok_fresh by blast
qed

subsection \<open>Stored results are never lost\<close>

lemma insert_event_results:
  "insert_event eid c seq actor kind content now db = Some db' \<Longrightarrow> db_results db' = db_results db"
  by (auto simp: insert_event_def split: if_splits)

lemma append_event_results:
  "append_event eid c actor kind content now db = Some db' \<Longrightarrow> db_results db' = db_results db"
  by (simp add: append_event_def insert_event_results)

lemma channel_tx_results:
  "createChannel_tx pf en name db = Inr (r, red, db') \<Longrightarrow> db_results db' = db_results db"
  "setPolicy_tx en caller c policy key db = Inr (r, red, db') \<Longrightarrow> db_results db' = db_results db"
  "addMember_tx en caller c p db = Inr (r, red, db') \<Longrightarrow> db_results db' = db_results db"
  "removeMember_tx en caller c p db = Inr (r, red, db') \<Longrightarrow> db_results db' = db_results db"
  "archive_tx en caller c db = Inr (r, red, db') \<Longrightarrow> db_results db' = db_results db"
  "unarchive_tx pf en caller c db = Inr (r, red, db') \<Longrightarrow> db_results db' = db_results db"
  "post_tx en caller c msg db = Inr (r, red, db') \<Longrightarrow> db_results db' = db_results db"
  subgoal by (auto simp: createChannel_tx_def Let_def append_channel_def
      split: option.splits sum.splits if_splits dest!: insert_event_results)
  subgoal by (auto simp: setPolicy_tx_def split: option.splits)
  subgoal by (auto simp: addMember_tx_def Let_def update_member_def
      split: option.splits if_splits dest!: insert_event_results)
  subgoal by (auto simp: removeMember_tx_def Let_def update_member_def
      split: option.splits if_splits dest!: insert_event_results)
  subgoal by (auto simp: archive_tx_def Let_def update_channel_def
      split: option.splits if_splits dest!: append_event_results)
  subgoal by (auto simp: unarchive_tx_def Let_def update_channel_def
      split: option.splits if_splits dest!: append_event_results)
  subgoal by (auto simp: post_tx_def Let_def split: option.splits if_splits dest!: append_event_results)
  done

definition results_grow :: "collab_db \<Rightarrow> collab_db \<Rightarrow> bool" where
  "results_grow db db' \<longleftrightarrow> (\<exists>new. db_results db' = db_results db @ new)"

lemma results_grow_refl [simp]: "results_grow db db"
  by (simp add: results_grow_def)

lemma results_grow_trans: "results_grow a b \<Longrightarrow> results_grow b c \<Longrightarrow> results_grow a c"
  by (auto simp: results_grow_def)

lemma keyed_results_grow:
  assumes "\<And>r red db'. fn db = Inr (r, red, db') \<Longrightarrow> db_results db' = db_results db"
  shows "results_grow db (fst (runKeyedCommand pf p cmd key body predicate fn db))"
  by (rule runKeyedCommand_cases [of pf p cmd key body predicate fn db])
     (use assms in \<open>auto simp: results_grow_def\<close>)

lemma agent_results: "agent_scope db db' \<Longrightarrow> db_results db' = db_results db"
  by (simp add: agent_scope_def)

lemma results_grow_channel: "results_grow db (run_channel pf en caller cmd db)"
proof (cases cmd)
  case (CreateChannel name key)
  then show ?thesis using keyed_results_grow [OF channel_tx_results(1)]
    by (simp add: createChannel_def split: option.split)
next
  case (SetPolicy c policy key)
  then show ?thesis using keyed_results_grow [OF channel_tx_results(2)]
    by (simp add: setChannelExternalExportPolicy_def split: option.split)
next
  case (AddMember c p key)
  then show ?thesis using keyed_results_grow [OF channel_tx_results(3)] by (simp add: addChannelMember_def)
next
  case (RemoveMember c p key)
  then show ?thesis using keyed_results_grow [OF channel_tx_results(4)] by (simp add: removeChannelMember_def)
next
  case (Archive c key)
  then show ?thesis using keyed_results_grow [OF channel_tx_results(5)] by (simp add: archiveChannel_def)
next
  case (Unarchive c key)
  then show ?thesis using keyed_results_grow [OF channel_tx_results(6)] by (simp add: unarchiveChannel_def)
next
  case (Post c msg key)
  then show ?thesis using keyed_results_grow [OF channel_tx_results(7)]
    by (simp add: postChannelMessage_def split: option.split)
next
  case (Ack c cursor)
  then show ?thesis
    by (auto simp: ackChannelCursor_def runNaturallyIdempotentCommand_def ack_tx_def Let_def
        results_grow_def split: sum.splits option.splits if_splits)
qed

lemma results_grow_step: "results_grow db (collab_step pf op db)"
proof (induction pf op db rule: collab_step.induct)
  case (1 pf en caller cmd db)
  then show ?case by (simp add: results_grow_channel)
next
  case (2 pf issue en caller name key db)
  then show ?case using keyed_results_grow [OF agent_results [OF createAgent_scope]]
    by (simp add: createAgent_def split: option.split)
next
  case (3 pf issue en caller p key db)
  then show ?case using keyed_results_grow [OF agent_results [OF createCredential_scope]]
    by (simp add: createPrincipalCredential_def)
next
  case (4 pf en caller p key db)
  then show ?case using keyed_results_grow [OF agent_results [OF suspend_scope]] by (simp add: suspendAgent_def)
next
  case (5 pf en caller p key db)
  then show ?case using keyed_results_grow [OF agent_results [OF restore_scope]] by (simp add: restoreAgent_def)
next
  case (6 pf en caller p key db)
  then show ?case using keyed_results_grow [OF agent_results [OF revoke_scope]] by (simp add: revokeAgent_def)
next
  case (7 pf issue en caller p k key db)
  then show ?case using keyed_results_grow [OF agent_results [OF rotate_scope]]
    by (simp add: rotatePrincipalCredential_def)
next
  case (8 pf en caller k key db)
  then show ?case using keyed_results_grow [OF agent_results [OF revokeCredential_scope]]
    by (simp add: revokePrincipalCredential_def)
qed (auto simp: createSessionBinding_def closeSessionBinding_def performStartup_def results_grow_def Let_def
    split: option.split bool.split if_splits)

lemma results_grow_history: "results_grow db (fold (collab_step pf) ops db)"
proof (induction ops arbitrary: db)
  case (Cons op ops)
  show ?case using results_grow_trans [OF results_grow_step Cons.IH] by simp
qed simp

lemma find_result_grow:
  "results_grow db db' \<Longrightarrow> find_result db p cmd key = Some m \<Longrightarrow> find_result db' p cmd key = Some m"
  by (auto simp: results_grow_def find_result_def tbl_get_append)

text \<open>A keyed command that succeeded has stored its redacted result under its key.\<close>

lemma keyed_stored:
  assumes "snd (runKeyedCommand pf p cmd key body predicate fn db) = Inr r"
    and "\<And>r red db'. fn db = Inr (r, red, db') \<Longrightarrow> db_results db' = db_results db"
  obtains m where "find_result (fst (runKeyedCommand pf p cmd key body predicate fn db)) p cmd key = Some m"
    "requestHash pf body = Some (mr_hash m)"
    "mr_result m = r \<or> (\<exists>db'. fn db = Inr (r, mr_result m, db'))"
proof (rule runKeyedCommand_cases [of pf p cmd key body predicate fn db])
  fix e assume "runKeyedCommand pf p cmd key body predicate fn db = (db, Inl e)"
  then show thesis using assms(1) by simp
next
  fix m assume "find_result db p cmd key = Some m" "requestHash pf body = Some (mr_hash m)"
    "runKeyedCommand pf p cmd key body predicate fn db = (db, Inr (mr_result m))"
  then show thesis using assms(1) by (intro that [of m]) simp_all
next
  fix hash r' red db'
  assume h: "requestHash pf body = Some hash" "find_result db p cmd key = None" "fn db = Inr (r', red, db')"
    and run: "runKeyedCommand pf p cmd key body predicate fn db = (db'\<lparr>db_results := db_results db' @
       [\<lparr>mr_principal = p, mr_command = cmd, mr_key = key, mr_hash = hash, mr_result = red\<rparr>]\<rparr>, Inr r')"
  have "db_results db' = db_results db" using assms(2) h(3) by simp
  then show thesis using h run assms(1)
    by (intro that [of "\<lparr>mr_principal = p, mr_command = cmd, mr_key = key, mr_hash = hash, mr_result = red\<rparr>"])
       (auto simp: find_result_def tbl_get_snoc)
qed

lemma keyed_replay:
  assumes "find_result db p cmd key = Some m" and "predicate db = None" and "requestHash pf body = Some h"
  shows "runKeyedCommand pf p cmd key body predicate fn db
    = (if h = mr_hash m then (db, Inr (mr_result m)) else (db, Inl IDEMPOTENCY_CONFLICT))"
  using assms by (auto simp: runKeyedCommand_def)

end
