(* ===== verification/Json_Text.thy ===== *)
theory Json_Text
  imports Json Js_Text
begin

text \<open>
  Reading canonical JSON back (\<open>packages/collab/src/canonical.ts\<close>): the escapes of a string form
  a prefix code, every value ends where its text ends, and so the canonical text determines the value
  up to the order of object members.
\<close>

subsection \<open>Escapes\<close>

lemma length_digits_of: "2 \<le> b \<Longrightarrow> n < b ^ Suc k \<Longrightarrow> length (digits_of b n) \<le> Suc k"
proof (induction k arbitrary: n)
  case 0
  then show ?case by (simp add: digits_of.simps [of b n])
next
  case (Suc k)
  have "n div b < b ^ Suc k" using Suc.prems by (simp add: less_mult_imp_div_less mult.commute)
  then show ?case using Suc by (subst digits_of.simps) simp
qed

lemma num_of_zeros: "num_of b (replicate k 0 @ ds) = num_of b ds"
proof -
  have "foldl (\<lambda>a d. a * b + d) 0 (replicate k 0 @ ds) = foldl (\<lambda>a d. a * b + d) 0 ds" for ds
    by (induction k) simp_all
  then show ?thesis by (simp add: num_of_def)
qed

lemma cps_eq_iff [simp]: "cps s = cps t \<longleftrightarrow> s = t"
  by (simp add: cps_def inj_map_eq_map inj_def)

lemma hex4_length: "n < 65536 \<Longrightarrow> length (hex4 n) = 4"
  using length_digits_of [of 16 n 3] by (simp add: hex4_def Let_def cps_def show_hex_def)

text \<open>The first code point of an escaped text, and what follows its escape.\<close>

definition read_escape :: "text_cp \<Rightarrow> nat \<times> text_cp" where
  "read_escape t =
     (if hd t \<noteq> 92 then (hd t, tl t)
      else let e = t ! 1; rest = drop 2 t
           in if e = 117 then (parse_hex (map char_of (take 4 rest)), drop 4 rest)
              else (if e = 98 then 8 else if e = 102 then 12 else if e = 110 then 10
                    else if e = 114 then 13 else if e = 116 then 9 else e, rest))"

lemma parse_hex4: "n < 65536 \<Longrightarrow> parse_hex (map char_of (hex4 n)) = n"
proof -
  have "parse_hex (replicate k (CHR ''0'') @ h) = parse_hex h" for k h
    by (simp add: parse_hex_def num_of_zeros hex_val_def is_digit_def)
  then have "parse_hex (replicate k (CHR ''0'') @ show_hex n) = n" for k
    by (simp add: parse_show_hex)
  moreover have "map char_of (hex4 n) = replicate (4 - length (show_hex n)) (CHR ''0'') @ show_hex n"
    unfolding hex4_def Let_def cps_def map_map comp_def char_of_char by simp
  ultimately show "parse_hex (map char_of (hex4 n)) = n" by simp
qed

lemma escape_short:
  "escape_cp 34 = [92, 34]" "escape_cp 92 = [92, 92]" "escape_cp 8 = [92, 98]" "escape_cp 12 = [92, 102]"
  "escape_cp 10 = [92, 110]" "escape_cp 13 = [92, 114]" "escape_cp 9 = [92, 116]"
  by (simp_all add: escape_cp_def)

lemma read_escape_cp: "read_escape (escape_cp c @ x) = (c, x)"
proof (cases "c < 32 \<or> (55296 \<le> c \<and> c \<le> 57343)")
  case True
  then have "c < 65536" by auto
  then have h: "length (hex4 c) = 4" "parse_hex (map char_of (hex4 c)) = c"
    by (rule hex4_length, rule parse_hex4)
  show ?thesis
  proof (cases "c \<in> {8, 12, 10, 13, 9}")
    assume "c \<in> {8, 12, 10, 13, 9}"
    then show ?thesis
      by (elim insertE emptyE) (simp_all add: read_escape_def escape_short Let_def)
  next
    assume "c \<notin> {8, 12, 10, 13, 9}"
    moreover have "c \<noteq> 34" "c \<noteq> 92" using True by auto
    ultimately have "escape_cp c = [92, 117] @ hex4 c" using True by (simp add: escape_cp_def)
    with h show ?thesis by (simp add: read_escape_def Let_def)
  qed
next
  case False
  then have "c \<notin> {8, 12, 10, 13, 9}" by auto
  with False have "escape_cp c = [c]" if "c \<notin> {34, 92}" using that by (simp add: escape_cp_def)
  then show ?thesis
    by (cases "c = 34"; cases "c = 92") (simp_all add: read_escape_def escape_short Let_def)
qed

lemma escape_cp_code: "escape_cp c @ x = escape_cp d @ y \<Longrightarrow> c = d \<and> x = y"
  by (metis Pair_inject read_escape_cp)

lemma escape_cp_head: "\<exists>h r. escape_cp c = h # r \<and> h \<noteq> 34"
  by (simp add: escape_cp_def)

lemma escapes_code:
  "concat (map escape_cp s) @ 34 # x = concat (map escape_cp t) @ 34 # y \<Longrightarrow> s = t \<and> x = y"
proof (induction s arbitrary: t)
  case Nil
  then show ?case using escape_cp_head [of "hd t"] by (cases t) auto
next
  case (Cons c s)
  show ?case
  proof (cases t)
    case Nil
    then show ?thesis using Cons.prems escape_cp_head [of c] by auto
  next
    case t: (Cons d t')
    have "escape_cp c @ (concat (map escape_cp s) @ 34 # x) = escape_cp d @ (concat (map escape_cp t') @ 34 # y)"
      using Cons.prems t by simp
    then show ?thesis using escape_cp_code Cons.IH t by blast
  qed
qed

lemma serializeString_code: "serializeString s @ x = serializeString t @ y \<Longrightarrow> s = t \<and> x = y"
  using escapes_code [of s x t y] by (simp add: serializeString_def)

subsection \<open>Values\<close>

text \<open>What may follow a value: the end of the text or a delimiter, never a digit.\<close>

definition stop :: "text_cp \<Rightarrow> bool" where
  "stop x \<longleftrightarrow> x = [] \<or> hd x \<in> {44, 93, 125}"

lemma stop_simps [simp]: "stop []" "stop (44 # x)" "stop (93 # x)" "stop (125 # x)"
  by (simp_all add: stop_def)

text \<open>A value with the members of its objects in canonical order, at every depth.\<close>

function (sequential) key_sorted :: "jval \<Rightarrow> jval" where
  "key_sorted (JArr xs) = JArr (map (map_option key_sorted) xs)"
| "key_sorted (JObj ms) = JObj (map (\<lambda>(k, v). (k, key_sorted v)) (sortByCodePoint ms))"
| "key_sorted v = v"
  by pat_completeness auto
termination
proof (relation "measure size", goal_cases)
  case (2 xs x v)
  then show ?case by (induction xs) auto
next
  case (3 ms z k v)
  then have "(k, v) \<in> set ms" by simp
  then show ?case by (induction ms) auto
qed simp

lemma digits_code:
  "list_all (\<lambda>c. c \<in> {48..57}) s \<Longrightarrow> list_all (\<lambda>c. c \<in> {48..57}) t \<Longrightarrow> stop x \<Longrightarrow> stop y \<Longrightarrow>
   s @ x = t @ y \<Longrightarrow> s = t \<and> x = y"
proof (induction s arbitrary: t)
  case Nil
  then show ?case by (cases t) (auto simp: stop_def)
next
  case (Cons a s)
  then show ?case by (cases t) (auto simp: stop_def)
qed

lemma digit_char_dec: "d < 10 \<Longrightarrow> is_digit (digit_char d) \<and> of_char (digit_char d) - (48 :: nat) = d"
  by (simp add: digit_char_def is_digit_def of_char_of)

lemma parse_show_nat: "parse_dec (show_nat n) = n"
proof -
  have "map ((\<lambda>c. of_char c - 48) \<circ> digit_char) (digits_of 10 n) = digits_of 10 n"
    by (rule map_idI) (simp add: digit_char_dec digits_of_less)
  then show ?thesis by (simp add: parse_dec_def show_nat_def num_of_digits_of)
qed

lemma show_nat_digits: "c \<in> set (show_nat n) \<Longrightarrow> is_digit c"
  using digit_char_dec digits_of_less [of 10 _ n] by (auto simp: show_nat_def)

lemma show_nat_cps: "list_all (\<lambda>c. c \<in> {48..57}) (cps (show_nat n))"
  using show_nat_digits by (auto simp: list_all_iff cps_def is_digit_def)

lemma show_nat_nonempty: "show_nat n \<noteq> []"
  by (simp add: show_nat_def digits_of.simps [of 10 n])

text \<open>The texts of the parts of an array and of an object.\<close>

lemma seq_parts_Inr:
  "seq_parts rs = Inr ps \<Longrightarrow> rs = map Inr ps"
  by (induction rs arbitrary: ps rule: seq_parts.induct) (auto split: sum.splits)

definition element_text :: "jval option \<Rightarrow> text_cp \<Rightarrow> bool" where
  "element_text x p \<longleftrightarrow> (\<exists>v. x = Some v \<and> canonicalJson v = Inr p)"

definition member_text :: "text_cp \<times> jval \<Rightarrow> text_cp \<Rightarrow> bool" where
  "member_text m p \<longleftrightarrow> (\<exists>q. canonicalJson (snd m) = Inr q \<and> p = serializeString (fst m) @ 58 # q)"

lemma parts_text:
  assumes "seq_parts (map f xs) = Inr ps" and "\<And>x p. f x = Inr p \<Longrightarrow> R x p"
  shows "list_all2 R xs ps"
proof -
  have "map f xs = map Inr ps" using assms(1) by (rule seq_parts_Inr)
  with assms(2) show ?thesis
  proof (induction xs arbitrary: ps)
    case (Cons x xs)
    then show ?case by (cases ps) auto
  qed simp
qed

lemma array_text:
  assumes "canonicalJson (JArr xs) = Inr s"
  obtains ps where "list_all2 element_text xs ps" and "s = 91 # join [44] ps @ [93]"
proof -
  obtain ps where ps: "seq_parts (map (\<lambda>(i, x). case x of None \<Rightarrow> Inl (SparseHole i) | Some v \<Rightarrow> canonicalJson v)
       (enumerate 0 xs)) = Inr ps" and s: "s = 91 # join [44] ps @ [93]"
    using assms by (auto split: sum.splits)
  have "list_all2 (\<lambda>r p. element_text (snd r) p) (enumerate 0 xs) ps"
    by (rule parts_text [OF ps]) (auto simp: element_text_def split: option.splits)
  then have "list_all2 element_text xs ps"
    by (simp add: list_all2_conv_all_nth nth_enumerate_eq)
  with s show thesis by (rule that [rotated])
qed

lemma object_text:
  assumes "canonicalJson (JObj ms) = Inr s"
  obtains ps where "list_all2 member_text (sortByCodePoint ms) ps" and "s = 123 # join [44] ps @ [125]"
proof -
  obtain ps where ps: "seq_parts (map (\<lambda>(k, v).
          if v = JUndefined \<or> v = JFunction \<or> v = JSymbol then Inl (BadMember k)
          else case canonicalJson v of Inl e \<Rightarrow> Inl e
             | Inr p \<Rightarrow> Inr (serializeString k @ [58] @ p)) (sortByCodePoint ms)) = Inr ps"
    and s: "s = 123 # join [44] ps @ [125]"
    using assms by (auto split: sum.splits)
  have "list_all2 member_text (sortByCodePoint ms) ps"
    by (rule parts_text [OF ps]) (auto simp: member_text_def split: if_splits sum.splits)
  with s show thesis by (rule that [rotated])
qed

text \<open>Comma-separated parts are read back one by one.\<close>

lemma parts_code:
  assumes "list_all2 F xs ps" and "list_all2 F ys qs" and "e \<in> {93, 125}"
    and "\<And>a b p q u v. a \<in> set xs \<Longrightarrow> F a p \<Longrightarrow> F b q \<Longrightarrow> stop u \<Longrightarrow> stop v \<Longrightarrow> p @ u = q @ v
           \<Longrightarrow> N a = N b \<and> u = v"
    and "concat (map (\<lambda>q. [44] @ q) ps) @ e # x = concat (map (\<lambda>q. [44] @ q) qs) @ e # y"
  shows "map N xs = map N ys \<and> x = y"
  using assms
proof (induction xs ps arbitrary: ys qs rule: list_all2_induct)
  case Nil
  then show ?case by (cases qs) auto
next
  case (Cons a xs p ps)
  have t: "stop (concat (map (\<lambda>q. [44] @ q) rs) @ e # z)" for rs z
    using Cons.prems(2) by (cases rs) auto
  show ?case
  proof (cases qs)
    case Nil
    then show ?thesis using Cons.prems(2,4) by auto
  next
    case qs: (Cons q qs')
    with Cons.prems(1) obtain b ys' where ys: "ys = b # ys'" "F b q" "list_all2 F ys' qs'"
      by (auto simp: list_all2_Cons2)
    have "p @ (concat (map (\<lambda>q. [44] @ q) ps) @ e # x) = q @ (concat (map (\<lambda>q. [44] @ q) qs') @ e # y)"
      using Cons.prems(4) qs by simp
    with Cons.prems(3) [of a p b q, OF _ Cons.hyps(1) ys(2) t t]
    have "N a = N b" and
      tl: "concat (map (\<lambda>q. [44] @ q) ps) @ e # x = concat (map (\<lambda>q. [44] @ q) qs') @ e # y"
      by (meson list.set_intros(1))+
    moreover have "map N xs = map N ys' \<and> x = y"
      by (rule Cons.IH [OF ys(3) Cons.prems(2) _ tl]) (rule Cons.prems(3), simp_all)
    ultimately show ?thesis using ys(1) by simp
  qed
qed

lemma join_code:
  assumes "list_all2 F xs ps" and "list_all2 F ys qs" and "e \<in> {93, 125}"
    and U: "\<And>a b p q u v. a \<in> set xs \<Longrightarrow> F a p \<Longrightarrow> F b q \<Longrightarrow> stop u \<Longrightarrow> stop v \<Longrightarrow> p @ u = q @ v
           \<Longrightarrow> N a = N b \<and> u = v"
    and first: "\<And>a p. F a p \<Longrightarrow> p \<noteq> [] \<and> hd p \<noteq> e"
    and "join [44] ps @ e # x = join [44] qs @ e # y"
  shows "map N xs = map N ys \<and> x = y"
proof -
  have start: "hd (join [44] rs @ e # z) \<noteq> e" if "list_all2 F zs rs" "rs \<noteq> []" for zs rs z
    using that first by (cases rs) (auto simp: join_def list_all2_Cons2)
  have empty: "ps = [] \<longleftrightarrow> qs = []"
    using start [OF assms(1), of x] start [OF assms(2), of y] assms(6)
    by (metis append_Nil join_def list.case(1) list.sel(1))
  have "(@) [44] = (#) (44 :: nat)" by (rule ext) simp
  then have j: "concat (map (\<lambda>q. [44] @ q) rs) = [44] @ join [44] rs" if "rs \<noteq> []" for rs
    using that by (cases rs) (simp_all add: join_def)
  show ?thesis
  proof (cases "ps = []")
    case True
    then show ?thesis using empty assms(1,2,6) by (simp add: join_def)
  next
    case False
    moreover from this have "qs \<noteq> []" using empty by simp
    ultimately have eq: "concat (map (\<lambda>q. [44] @ q) ps) @ e # x = concat (map (\<lambda>q. [44] @ q) qs) @ e # y"
      using assms(6) by (simp only: j append_assoc simp_thms)
    show ?thesis by (rule parts_code [OF assms(1-3) _ eq]) (rule U)
  qed
qed

text \<open>The first character of a text tells the kind of its value.\<close>

fun kind_of :: "jval \<Rightarrow> nat" where
  "kind_of JNull = 0"
| "kind_of (JBool _) = 1"
| "kind_of (JNum _) = 2"
| "kind_of (JStr _) = 3"
| "kind_of (JArr _) = 4"
| "kind_of (JObj _) = 5"
| "kind_of _ = 6"

definition kind_of_char :: "nat \<Rightarrow> nat" where
  "kind_of_char c = (if c = 110 then 0 else if c = 116 \<or> c = 102 then 1 else if c = 34 then 3
     else if c = 91 then 4 else if c = 123 then 5 else 2)"

lemma show_int_first: "show_int k \<noteq> [] \<and> hd (show_int k) \<in> insert 45 {48..57}"
proof -
  have "cps (show_nat m) \<noteq> [] \<and> hd (cps (show_nat m)) \<in> {48..57}" for m
    using show_nat_nonempty [of m] show_nat_cps [of m] by (cases "show_nat m") (auto simp: cps_def)
  from this [of "nat k"] show ?thesis by (cases "k < 0") (auto simp: show_int_def cps_def)
qed

lemma text_first:
  assumes "canonicalJson v = Inr s"
  shows "s \<noteq> []" and "hd s \<notin> {44, 58, 93, 125}" and "kind_of_char (hd s) = kind_of v"
proof -
  have "s \<noteq> [] \<and> hd s \<notin> {44, 58, 93, 125} \<and> kind_of_char (hd s) = kind_of v"
  proof (cases v)
    case (JNum n)
    then obtain k where s: "s = show_int k" using assms by (cases n) auto
    show ?thesis using show_int_first [of k] by (auto simp: s JNum kind_of_char_def)
  qed (use assms in \<open>auto simp: cps_def serializeString_def kind_of_char_def split: sum.splits if_splits\<close>)
  then show "s \<noteq> []" and "hd s \<notin> {44, 58, 93, 125}" and "kind_of_char (hd s) = kind_of v" by auto
qed

lemma same_kind:
  assumes "canonicalJson v = Inr s" and "canonicalJson w = Inr t" and "s @ x = t @ y"
  shows "kind_of v = kind_of w"
proof -
  have "hd s = hd t" using assms(3) text_first(1) [OF assms(1)] text_first(1) [OF assms(2)]
    by (metis hd_append2)
  then show ?thesis using text_first(3) [OF assms(1)] text_first(3) [OF assms(2)] by simp
qed

lemma show_int_code: "show_int k @ x = show_int l @ y \<Longrightarrow> stop x \<Longrightarrow> stop y \<Longrightarrow> k = l \<and> x = y"
proof -
  assume eq: "show_int k @ x = show_int l @ y" and st: "stop x" "stop y"
  have n: "m = n \<and> x = y" if "cps (show_nat m) @ x = cps (show_nat n) @ y" for m n
    using digits_code [OF show_nat_cps show_nat_cps st that] parse_show_nat by (metis cps_eq_iff)
  have minus: "cps (CHR ''-'' # show_nat m) @ z = 45 # cps (show_nat m) @ z" for m z
    by (simp add: cps_def)
  have no: "cps (show_nat m) @ z \<noteq> 45 # u" for m z u
    using show_nat_cps [of m] show_nat_nonempty [of m] by (cases "show_nat m") (auto simp: cps_def)
  show ?thesis
  proof (cases "k < 0"; cases "l < 0")
    assume "k < 0" "l < 0"
    then show ?thesis using eq n [of "nat (- k)" "nat (- l)"] by (simp add: show_int_def minus eq_nat_nat_iff)
  next
    assume "\<not> k < 0" "\<not> l < 0"
    then show ?thesis using eq n [of "nat k" "nat l"] by (simp add: show_int_def eq_nat_nat_iff)
  next
    assume "k < 0" "\<not> l < 0"
    then show ?thesis using eq [symmetric] no [of "nat l" y] by (simp add: show_int_def minus)
  next
    assume "\<not> k < 0" "l < 0"
    then show ?thesis using eq no [of "nat k" x] by (simp add: show_int_def minus)
  qed
qed

lemma canonical_code:
  assumes "canonicalJson v = Inr s" and "canonicalJson w = Inr t" and "stop x" and "stop y" and "s @ x = t @ y"
  shows "key_sorted v = key_sorted w \<and> x = y"
  using assms
proof (induction v arbitrary: w s t x y)
  case JNull
  have "kind_of w = 0" using same_kind [OF JNull.prems(1,2,5)] by simp
  then have "w = JNull" by (cases w) simp_all
  then show ?case using JNull by simp
next
  case (JBool b)
  have "kind_of w = 1" using same_kind [OF JBool.prems(1,2,5)] by simp
  then obtain b' where "w = JBool b'" by (cases w) simp_all
  then have "(if b then cps ''true'' else cps ''false'') @ x = (if b' then cps ''true'' else cps ''false'') @ y"
    using JBool.prems(1,2,5) by auto
  then have "b = b' \<and> x = y" by (cases b; cases b') (simp_all add: cps_def)
  then show ?case using \<open>w = JBool b'\<close> by simp
next
  case (JNum n)
  have "kind_of w = 2" using same_kind [OF JNum.prems(1,2,5)] by simp
  then obtain l where w: "w = JNum l" by (cases w) simp_all
  obtain i where n: "n = Fin i" "s = show_int i" using JNum.prems(1) by (cases n) simp_all
  obtain j where l: "l = Fin j" "t = show_int j" using JNum.prems(2) w by (cases l) simp_all
  have "i = j \<and> x = y"
    using JNum.prems(5) unfolding n(2) l(2) by (rule show_int_code [OF _ JNum.prems(3,4)])
  then show ?case by (simp add: w n(1) l(1))
next
  case (JStr u)
  have "kind_of w = 3" using same_kind [OF JStr.prems(1,2,5)] by simp
  then obtain u' where "w = JStr u'" by (cases w) simp_all
  then show ?case using JStr serializeString_code [of u x u' y] by simp
next
  case (JArr xs)
  have "kind_of w = 4" using same_kind [OF JArr.prems(1,2,5)] by simp
  then obtain ys where w: "w = JArr ys" by (cases w) simp_all
  obtain ps where ps: "list_all2 element_text xs ps" "s = 91 # join [44] ps @ [93]"
    using JArr.prems(1) by (rule array_text)
  obtain qs where qs: "list_all2 element_text ys qs" "t = 91 # join [44] qs @ [93]"
    using JArr.prems(2) unfolding w by (rule array_text)
  have "map (map_option key_sorted) xs = map (map_option key_sorted) ys \<and> x = y"
  proof (rule join_code [OF ps(1) qs(1), of 93])
    fix a b p q u v
    assume m: "a \<in> set xs" "element_text a p" "element_text b q" "stop u" "stop v" "p @ u = q @ v"
    obtain a' b' where t: "a = Some a'" "b = Some b'" "canonicalJson a' = Inr p" "canonicalJson b' = Inr q"
      using m(2,3) by (auto simp: element_text_def)
    have "key_sorted a' = key_sorted b' \<and> u = v"
      by (rule JArr.IH [OF m(1) _ t(3,4) m(4-6)]) (simp add: t(1))
    then show "map_option key_sorted a = map_option key_sorted b \<and> u = v" by (simp add: t(1,2))
  next
    show "p \<noteq> [] \<and> hd p \<noteq> 93" if "element_text a p" for a p
      using that text_first by (auto simp: element_text_def)
  qed (use JArr.prems(5) ps(2) qs(2) in simp_all)
  then show ?case by (simp add: w)
next
  case (JObj ms)
  have "kind_of w = 5" using same_kind [OF JObj.prems(1,2,5)] by simp
  then obtain ns where w: "w = JObj ns" by (cases w) simp_all
  obtain ps where ps: "list_all2 member_text (sortByCodePoint ms) ps" "s = 123 # join [44] ps @ [125]"
    using JObj.prems(1) by (rule object_text)
  obtain qs where qs: "list_all2 member_text (sortByCodePoint ns) qs" "t = 123 # join [44] qs @ [125]"
    using JObj.prems(2) unfolding w by (rule object_text)
  let ?N = "\<lambda>(k, v). (k, key_sorted v)"
  have "map ?N (sortByCodePoint ms) = map ?N (sortByCodePoint ns) \<and> x = y"
  proof (rule join_code [OF ps(1) qs(1), of 125])
    fix a b p q u v
    assume m: "a \<in> set (sortByCodePoint ms)" "member_text a p" "member_text b q" "stop u" "stop v" "p @ u = q @ v"
    obtain p' q' where t: "canonicalJson (snd a) = Inr p'" "canonicalJson (snd b) = Inr q'"
      "p = serializeString (fst a) @ 58 # p'" "q = serializeString (fst b) @ 58 # q'"
      using m(2,3) by (auto simp: member_text_def)
    have "fst a = fst b \<and> 58 # p' @ u = 58 # q' @ v"
      using m(6) t(3,4) by (intro serializeString_code) simp
    then have k: "fst a = fst b" "p' @ u = q' @ v" by simp_all
    have "key_sorted (snd a) = key_sorted (snd b) \<and> u = v"
      using m(1) by (intro JObj.IH [of a, OF _ _ t(1,2) m(4,5) k(2)]) (auto intro: snds.intros)
    then show "?N a = ?N b \<and> u = v" using k(1) by (simp add: case_prod_beta)
  next
    show "p \<noteq> [] \<and> hd p \<noteq> 125" if "member_text a p" for a p
      using that by (auto simp: member_text_def serializeString_def)
  qed (use JObj.prems(5) ps(2) qs(2) in simp_all)
  then show ?case by (simp add: w)
qed simp_all

text \<open>
  C32. The canonical text determines the value: two values with the same canonical text are the same
  value once the members of every object, at every depth, are put in canonical order. No string
  escape, no number and no nesting of arrays and objects can be read in two ways.
\<close>

theorem canonical_text_determines_value:
  "canonicalJson v = Inr s \<Longrightarrow> canonicalJson w = Inr s \<Longrightarrow> key_sorted v = key_sorted w"
  using canonical_code [of v s w s "[]" "[]"] by simp

theorem canonical_text_determines_value_witness:
  "let v = JObj [(cps ''b'', JNum (Fin (- 12))), (cps ''a'', JArr [Some (JStr [34]), Some JNull])];
       w = JObj [(cps ''a'', JArr [Some (JStr [34]), Some JNull]), (cps ''b'', JNum (Fin (- 12)))]
   in v \<noteq> w \<and> key_sorted v = key_sorted w"
proof -
  let ?v = "JObj [(cps ''b'', JNum (Fin (- 12))), (cps ''a'', JArr [Some (JStr [34]), Some JNull])]"
  let ?w = "JObj [(cps ''a'', JArr [Some (JStr [34]), Some JNull]), (cps ''b'', JNum (Fin (- 12)))]"
  have sort: "sortByCodePoint [(cps ''b'', x), (cps ''a'', y)] = [(cps ''a'', y), (cps ''b'', x)]"
    "sortByCodePoint [(cps ''a'', y), (cps ''b'', x)] = [(cps ''a'', y), (cps ''b'', x)]" for x y :: jval
    by (simp_all add: sortByCodePoint_def cps_def)
  obtain s where s: "canonicalJson ?v = Inr s" by (simp add: sort enumerate_eq_zip)
  then have "canonicalJson ?w = Inr s" by (simp add: sort enumerate_eq_zip)
  from canonical_text_determines_value [OF s this] show ?thesis by (simp add: cps_def)
qed

end
