(* ===== verification/Collab_Guarantees.thy ===== *)
theory Collab_Guarantees
  imports Collab_Log Json_Text
begin

text \<open>
  What the channel store of \<open>packages/collab/src/store.ts\<close> guarantees along any history: gapless
  logs, posts that happen once, cursors that only advance, pages that lose nothing, and refusals that
  reveal nothing about a hidden channel.
\<close>

subsection \<open>Logs\<close>

lemma names_distinct:
  "key_unique ch_id t \<Longrightarrow> names_ok t \<Longrightarrow> distinct (map ch_nameKey (filter (\<lambda>r. ch_state r = ChActive) t))"
proof (induction t)
  case (Cons r t)
  have "key_unique ch_id t" using Cons.prems(1) by (simp add: key_unique_def)
  moreover have "names_ok t" using Cons.prems(2) unfolding names_ok_def by (meson list.set_intros(2))
  moreover have "ch_nameKey r' \<noteq> ch_nameKey r"
    if m: "r' \<in> set t" "ch_state r' = ChActive" "ch_state r = ChActive" for r'
  proof
    assume "ch_nameKey r' = ch_nameKey r"
    then have "ch_id r' = ch_id r"
      using Cons.prems(2) [unfolded names_ok_def, rule_format, of r' r] m by simp
    with m(1) Cons.prems(1) show False unfolding key_unique_def by (metis distinct.simps(2) image_eqI list.simps(9) set_map)
  qed
  ultimately show ?case using Cons.IH by auto metis
qed simp

lemma log_facts:
  assumes "log_ok db"
  shows "map ev_seq (channel_events db c) = [1..<Suc (length (channel_events db c))]
     \<and> distinct (map ch_nameKey (filter (\<lambda>r. ch_state r = ChActive) (db_channels db)))
     \<and> list_all (\<lambda>m. mb_rejoinedSeq m \<le> getMaxChannelSeq db (mb_channel m)) (db_members db)
     \<and> list_all (\<lambda>r. cu_ack r \<le> getMaxChannelSeq db (cu_channel r)) (db_cursors db)"
proof -
  note ok = log_ok_parts [OF assms]
  have names: "distinct (map ch_nameKey (filter (\<lambda>r. ch_state r = ChActive) (db_channels db)))"
    using ok(2,4) by (rule names_distinct)
  show ?thesis
  proof (intro conjI names)
    show "map ev_seq (channel_events db c) = [1..<Suc (length (channel_events db c))]"
      using ok(1) by (simp add: contiguous_def)
  qed (use ok(6,7) max_seq [OF ok(1)] in \<open>simp_all add: list_all_iff\<close>)
qed

text \<open>
  C2. Gapless channel logs. After any history of channel, agent and session operations from a
  bootstrapped database, the events of every channel are numbered 1, 2, and so on without gap or
  repetition in the order of their commits, no two active channels share a name key, and no rejoin
  point and no acknowledged cursor lies beyond the end of its channel's log.
\<close>

theorem channel_log_gapless:
  "let db = fold (collab_step pf) ops (fresh_db ps cs) in
     map ev_seq (channel_events db c) = [1..<Suc (length (channel_events db c))]
     \<and> distinct (map ch_nameKey (filter (\<lambda>r. ch_state r = ChActive) (db_channels db)))
     \<and> list_all (\<lambda>m. mb_rejoinedSeq m \<le> getMaxChannelSeq db (mb_channel m)) (db_members db)
     \<and> list_all (\<lambda>r. cu_ack r \<le> getMaxChannelSeq db (cu_channel r)) (db_cursors db)"
  unfolding Let_def by (rule log_facts [OF log_ok_history])

subsection \<open>Replay\<close>

definition code_points :: "text_cp \<Rightarrow> bool" where
  "code_points s \<longleftrightarrow> (\<forall>c \<in> set s. c < 1114112)"

lemma code_points_cps [simp]: "code_points (cps s)"
proof -
  have "of_char c < (1114112 :: nat)" for c :: char using nat_of_char_less_256 [of c] by linarith
  then show ?thesis by (auto simp: code_points_def cps_def)
qed

lemma scalars_hex4: "scalars (hex4 c)"
  by (simp add: hex4_def scalars_cps Let_def)

lemma scalars_append [simp]: "scalars (s @ t) \<longleftrightarrow> scalars s \<and> scalars t"
  by (auto simp: scalars_def)

lemma scalars_escape: "c < 1114112 \<Longrightarrow> scalars (escape_cp c)"
  using scalars_hex4 [of c] by (simp add: escape_cp_def) (simp add: scalars_def scalar_def)

lemma scalars_serializeString: "code_points s \<Longrightarrow> scalars (serializeString s)"
proof -
  assume "code_points s"
  then have "scalars (concat (map escape_cp s))"
  proof (induction s)
    case (Cons c s)
    then show ?case using scalars_escape [of c] by (simp add: code_points_def)
  qed (simp add: scalars_def)
  then show ?thesis by (simp add: serializeString_def) (simp add: scalars_def scalar_def)
qed

text \<open>A request body of two members, the shape of the keyed channel commands.\<close>

lemma two_members:
  assumes "canonicalJson (JObj [(k1, JStr a), (k2, JStr b)]) = Inr s"
    and "code_points k1" and "code_points k2" and "code_points a" and "code_points b"
  shows "scalars s"
proof -
  have "scalars (serializeString k @ [58] @ serializeString v)" if "code_points k" "code_points v" for k v
    using scalars_serializeString [OF that(1)] scalars_serializeString [OF that(2)]
    by simp (simp add: scalars_def scalar_def)
  note m = this [OF assms(2,4)] this [OF assms(3,5)]
  have "sortByCodePoint [(k1, JStr a), (k2, JStr b)] \<in> {[(k1, JStr a), (k2, JStr b)], [(k2, JStr b), (k1, JStr a)]}"
    by (simp add: sortByCodePoint_def)
  then show ?thesis
  proof (elim insertE emptyE)
    assume "sortByCodePoint [(k1, JStr a), (k2, JStr b)] = [(k1, JStr a), (k2, JStr b)]"
    with assms(1) m show ?thesis by (auto simp: join_def) (auto simp: scalars_def scalar_def)
  next
    assume "sortByCodePoint [(k1, JStr a), (k2, JStr b)] = [(k2, JStr b), (k1, JStr a)]"
    with assms(1) m show ?thesis by (auto simp: join_def) (auto simp: scalars_def scalar_def)
  qed
qed

definition post_body :: "string \<Rightarrow> text_cp \<Rightarrow> jval" where
  "post_body c t = JObj [(cps ''channelId'', JStr (cps c)), (cps ''text'', JStr t)]"

lemma sort_post_body:
  "sortByCodePoint [(cps ''channelId'', a), (cps ''text'', b)] = [(cps ''channelId'', a), (cps ''text'', b)]"
  by (simp add: sortByCodePoint_def cps_def)

lemma post_body_hash:
  assumes "inj (pf_sha pf)" and "requestHash pf (post_body c t) = Some h" and "requestHash pf (post_body c' t') = Some h"
    and "code_points t" and "code_points t'"
  shows "c = c' \<and> t = t'"
proof -
  obtain s where s: "canonicalJson (post_body c t) = Inr s" "h = pf_sha pf (utf8 s)"
    using assms(2) by (auto simp: requestHash_def split: sum.splits)
  obtain s' where s': "canonicalJson (post_body c' t') = Inr s'" "h = pf_sha pf (utf8 s')"
    using assms(3) by (auto simp: requestHash_def split: sum.splits)
  have "utf8 s = utf8 s'" using assms(1) s(2) s'(2) by (metis injD)
  moreover have "scalars s" using two_members [OF s(1) [unfolded post_body_def]] assms(4) by simp
  moreover have "scalars s'" using two_members [OF s'(1) [unfolded post_body_def]] assms(5) by simp
  ultimately have same: "s = s'" unfolding scalars_def by (rule utf8_inj [rotated 2])
  have "key_sorted (post_body c t) = key_sorted (post_body c' t')"
    using canonical_code [OF s(1) s'(1), of "[]" "[]"] same by simp
  then show ?thesis by (simp add: post_body_def sort_post_body)
qed

lemma post_body_hashed: "\<exists>h. requestHash pf (post_body c t) = Some h"
  by (simp add: requestHash_def post_body_def sort_post_body)

text \<open>
  C9. A posted message is posted once. When a post succeeded, then after any further history a post
  of the same principal under the same key and with the same channel and normalized text leaves the
  database as it is and returns the first result, and one with another channel or text is refused as
  a key conflict, as long as the caller still sees the channel. SHA-256 is taken as collision-free.
\<close>

theorem post_idempotent:
  assumes "inj (pf_sha pf)" and "snd (postChannelMessage pf en caller c msg key db) = Inr r"
    and "db' = fold (collab_step pf) ops (fst (postChannelMessage pf en caller c msg key db))"
    and "assertChannelVisible caller c' db' = Inr m"
    and "normalizeMessageText (pf_nfc pf) msg = Some t" and "normalizeMessageText (pf_nfc pf) msg' = Some t'"
    and "code_points t" and "code_points t'"
  shows "postChannelMessage pf en' caller c' msg' key db'
    = (db', if c' = c \<and> t' = t then Inr r else Inl IDEMPOTENCY_CONFLICT)"
proof -
  let ?run = "runKeyedCommand pf caller POST_CHANNEL_MESSAGE_CMD key (post_body c t)
    (\<lambda>db. left_error (assertChannelVisible caller c db)) (post_tx en caller c t) db"
  have run: "postChannelMessage pf en caller c msg key db = ?run"
    by (simp add: postChannelMessage_def assms(5) post_body_def)
  obtain row where row: "find_result (fst ?run) caller POST_CHANNEL_MESSAGE_CMD key = Some row"
    "requestHash pf (post_body c t) = Some (mr_hash row)"
    "mr_result row = r \<or> (\<exists>d. post_tx en caller c t db = Inr (r, mr_result row, d))"
    by (rule keyed_stored [OF assms(2) [unfolded run]]) (rule channel_tx_results(7), assumption, rule that)
  have r: "mr_result row = r"
    using row(3) by (auto simp: post_tx_def Let_def split: option.splits if_splits)
  have stored: "find_result db' caller POST_CHANNEL_MESSAGE_CMD key = Some row"
    using find_result_grow [OF results_grow_history row(1)] by (simp add: assms(3) run)
  obtain h where h: "requestHash pf (post_body c' t') = Some h" using post_body_hashed by blast
  have "h = mr_hash row \<longleftrightarrow> c' = c \<and> t' = t"
    using post_body_hash [OF assms(1) row(2), of c' t'] assms(7,8) row(2) h by auto
  then show ?thesis
    using keyed_replay [OF stored _ h, of "\<lambda>db. left_error (assertChannelVisible caller c' db)"
        "post_tx en' caller c' t'"]
    by (simp add: postChannelMessage_def assms(4,6) post_body_def left_error_def r)
qed

subsection \<open>Pages of the timeline\<close>

lemma seq_split:
  assumes "map f xs = [1..<Suc (length xs)]"
  shows "filter (\<lambda>e. f e > a) xs = drop a xs" and "i < length xs \<Longrightarrow> f (xs ! i) = Suc i"
    and "sorted (map f (drop a xs))"
proof -
  show n: "f (xs ! i) = Suc i" if "i < length xs" for i
    using arg_cong [OF assms, of "\<lambda>l. l ! i"] that by (simp del: upt_Suc)
  have "filter (\<lambda>e. f e > a) (take a xs @ drop a xs) = drop a xs"
  proof -
    have "filter (\<lambda>e. f e > a) (take a xs) = []"
      using n by (auto simp: filter_empty_conv in_set_conv_nth)
    moreover have "filter (\<lambda>e. f e > a) (drop a xs) = drop a xs"
      using n by (auto simp: filter_id_conv in_set_conv_nth)
    ultimately show ?thesis by (simp only: filter_append append_Nil)
  qed
  then show "filter (\<lambda>e. f e > a) xs = drop a xs" by simp
  show "sorted (map f (drop a xs))"
    by (simp add: assms del: upt_Suc flip: drop_map)
qed

lemma events_after_drop: "contiguous db \<Longrightarrow> events_after db c a = drop a (channel_events db c)"
  unfolding events_after_def contiguous_def
  by (rule properties_for_sort_key) (use seq_split [of ev_seq "channel_events db c" a] in simp_all)

text \<open>A page is a prefix of the rows, empty only when there is none, and it says whether it cut.\<close>

lemma cut_page_prefix:
  "\<exists>rest. rows = fst (cut_page limit n len rows) @ rest \<and> (snd (cut_page limit n len rows) \<longleftrightarrow> rest \<noteq> [])"
  by (induction limit n len rows rule: cut_page.induct) (auto simp: Let_def)

lemma cut_page_length: "n + length (fst (cut_page limit n len rows)) \<le> max n limit"
proof (induction limit n len rows rule: cut_page.induct)
  case (2 limit n len row rows)
  then show ?case by (cases "limit \<le> n") (fastforce simp: Let_def max_def split: if_splits)+
qed simp

lemma cut_page_first: "0 < limit \<Longrightarrow> rows \<noteq> [] \<Longrightarrow> fst (cut_page limit 0 len rows) \<noteq> []"
  by (cases rows) (simp_all add: Let_def)

lemma digits_of_first: "n \<noteq> 0 \<Longrightarrow> hd (digits_of 10 n) \<noteq> 0"
proof (induction n rule: less_induct)
  case (less n)
  show ?case
  proof (cases "n < 10")
    case False
    have "digits_of 10 (n div 10) \<noteq> []" by (simp add: digits_of.simps [of 10 "n div 10"])
    with False less.IH [of "n div 10"] show ?thesis by (simp add: digits_of.simps [of 10 n])
  qed (use less.prems in \<open>simp add: digits_of.simps [of 10 n]\<close>)
qed

lemma parseCursor_show: "n \<le> 9007199254740991 \<Longrightarrow> parseCursor (show_nat n) = Some n"
proof -
  assume n: "n \<le> 9007199254740991"
  have "digits_of 10 n \<noteq> []" by (simp add: digits_of.simps [of 10 n])
  then have hd: "hd (show_nat n) = digit_char (hd (digits_of 10 n))" "hd (digits_of 10 n) < 10"
    using digits_of_less [of 10 "hd (digits_of 10 n)" n] by (simp_all add: show_nat_def hd_map)
  have "hd (show_nat n) \<noteq> CHR ''0''" if "n \<noteq> 0"
  proof
    assume "hd (show_nat n) = CHR ''0''"
    then have "of_char (digit_char (hd (digits_of 10 n))) - (48 :: nat) = 0" by (simp add: hd(1))
    then show False using digit_char_dec [OF hd(2)] digits_of_first [OF that] by simp
  qed
  moreover have "show_nat 0 = ''0''" by (simp add: show_nat_def digits_of.simps [of 10 0] digit_char_def char_of_def bit_0)
  ultimately show ?thesis
    using n show_nat_nonempty [of n] show_nat_digits [of _ n] parse_show_nat [of n]
    by (cases "n = 0") (simp_all add: parseCursor_def list_all_iff)
qed

text \<open>One page: what it holds, where the next one starts, and whether there is one.\<close>

lemma timeline_page:
  assumes "contiguous db" and "assertChannelVisible caller c db = Inr m" and "parseCursor cursor = Some a"
    and "1 \<le> limit" and "limit \<le> 100"
  obtains tl where "getChannelTimeline caller c cursor limit db = Inr tl"
    and "let start = max a (mb_rejoinedSeq m); n = length (tl_events tl); rest = drop (start + n) (channel_events db c) in
           drop start (channel_events db c) = tl_events tl @ rest \<and> (tl_hasMore tl \<longleftrightarrow> rest \<noteq> [])
           \<and> (rest \<noteq> [] \<longrightarrow> 0 < n \<and> tl_nextCursor tl = show_nat (start + n))"
proof -
  define start where "start = max a (mb_rejoinedSeq m)"
  define evs where "evs = drop start (channel_events db c)"
  define rows where "rows = take (nat limit + 1) evs"
  define page where "page = cut_page (nat limit) 0 2 rows"
  obtain rest where rest: "rows = fst page @ rest" "snd page \<longleftrightarrow> rest \<noteq> []"
    using cut_page_prefix [of rows "nat limit" 0 2] by (auto simp: page_def)
  have len: "length (fst page) \<le> nat limit" using cut_page_length [of 0 "nat limit" 2 rows] by (simp add: page_def)
  have pre: "evs = fst page @ drop (length (fst page)) evs"
    using rest(1) by (metis append_take_drop_id append_eq_conv_conj rows_def append_assoc)
  have more: "snd page \<or> length rows > length (fst page) \<longleftrightarrow> drop (length (fst page)) evs \<noteq> []"
  proof (cases "rest = []")
    case True
    then have "length rows = length (fst page)" using rest(1) by simp
    then show ?thesis using rest(2) True len by (auto simp: rows_def)
  next
    case False
    then have "length (fst page) < length rows" using rest(1) by simp
    then show ?thesis using rest(2) False by (simp add: rows_def)
  qed
  have pos: "fst page \<noteq> []" if "evs \<noteq> []"
    using cut_page_first [of "nat limit" rows 2] that assms(4) by (auto simp: page_def rows_def)
  have last: "ev_seq (last (fst page)) = start + length (fst page)" if "fst page \<noteq> []"
  proof -
    let ?k = "length (fst page)"
    have k: "?k \<le> length evs" using arg_cong [OF pre, of length] by simp
    have "last (fst page) = evs ! (?k - 1)" using that pre by (metis last_conv_nth nth_append diff_less length_greater_0_conv zero_less_one)
    also have "\<dots> = channel_events db c ! (start + (?k - 1))"
      using k that by (cases "fst page") (simp_all add: evs_def)
    finally have "last (fst page) = channel_events db c ! (start + (?k - 1))" .
    moreover have "start + (?k - 1) < length (channel_events db c)" "Suc (start + (?k - 1)) = start + ?k"
      using k that by (cases "fst page", simp_all add: evs_def)+
    ultimately show ?thesis
      using seq_split(2) [OF assms(1) [unfolded contiguous_def, rule_format, of c]] by metis
  qed
  show thesis
  proof (rule that)
    show "getChannelTimeline caller c cursor limit db = Inr \<lparr>tl_events = fst page,
        tl_nextCursor = show_nat (if fst page = [] then start else ev_seq (last (fst page))),
        tl_hasMore = (snd page \<or> length rows > length (fst page)), tl_highWater = show_nat (getMaxChannelSeq db c)\<rparr>"
      using assms(2-5) by (simp add: getChannelTimeline_def Let_def page_def rows_def evs_def start_def
          events_after_drop [OF assms(1)])
  qed (use pre more pos last in \<open>auto simp: Let_def evs_def start_def [symmetric] add.commute\<close>)
qed

text \<open>A reader who follows \<open>nextCursor\<close> until \<open>hasMore\<close> is false.\<close>

fun read_pages :: "nat \<Rightarrow> string \<Rightarrow> string \<Rightarrow> string \<Rightarrow> int \<Rightarrow> collab_db \<Rightarrow> EventRow list option" where
  "read_pages 0 _ _ _ _ _ = None"
| "read_pages (Suc fuel) caller c cursor limit db =
     (case getChannelTimeline caller c cursor limit db of
        Inl _ \<Rightarrow> None
      | Inr page \<Rightarrow>
          if tl_hasMore page
          then map_option ((@) (tl_events page)) (read_pages fuel caller c (tl_nextCursor page) limit db)
          else Some (tl_events page))"

lemma read_pages_all:
  assumes "contiguous db" and "assertChannelVisible caller c db = Inr m" and "1 \<le> limit" and "limit \<le> 100"
    and "length (channel_events db c) \<le> 9007199254740991"
    and "parseCursor cursor = Some a" and "length (channel_events db c) - max a (mb_rejoinedSeq m) < fuel"
  shows "read_pages fuel caller c cursor limit db = Some (drop (max a (mb_rejoinedSeq m)) (channel_events db c))"
  using assms(6,7)
proof (induction fuel arbitrary: cursor a)
  case (Suc fuel)
  let ?s = "max a (mb_rejoinedSeq m)" and ?evs = "channel_events db c"
  obtain tl where tl: "getChannelTimeline caller c cursor limit db = Inr tl"
    and page: "drop ?s ?evs = tl_events tl @ drop (?s + length (tl_events tl)) ?evs"
      "tl_hasMore tl \<longleftrightarrow> drop (?s + length (tl_events tl)) ?evs \<noteq> []"
      "drop (?s + length (tl_events tl)) ?evs \<noteq> [] \<longrightarrow> 0 < length (tl_events tl)
         \<and> tl_nextCursor tl = show_nat (?s + length (tl_events tl))"
    using timeline_page [OF assms(1,2) Suc.prems(1) assms(3,4)] unfolding Let_def by metis
  show ?case
  proof (cases "tl_hasMore tl")
    case False
    then show ?thesis using tl page(1,2) by simp
  next
    case True
    let ?n = "?s + length (tl_events tl)"
    have n: "?n < length ?evs" "0 < length (tl_events tl)" "tl_nextCursor tl = show_nat ?n"
      using True page(2,3) by simp_all
    have "parseCursor (tl_nextCursor tl) = Some ?n"
      unfolding n(3) using n(1) assms(5) by (intro parseCursor_show) simp
    moreover have "max ?n (mb_rejoinedSeq m) = ?n" by simp
    moreover have "length ?evs - ?n < fuel" using Suc.prems(2) n(1,2) by linarith
    ultimately have "read_pages fuel caller c (tl_nextCursor tl) limit db = Some (drop ?n ?evs)"
      using Suc.IH [of "tl_nextCursor tl" ?n] by simp
    then show ?thesis using tl True page(1) by simp
  qed
qed simp

text \<open>
  C15. Reading a timeline ends and loses nothing. In every reachable database, a member of a channel
  who reads it page by page with any legal limit, each time from the cursor the last page returned,
  is done after at most one page more than the channel has events, and has read exactly the events
  after the later of the first cursor and the member's rejoin point, each once and in order.
\<close>

theorem timeline_read_complete:
  assumes "db = fold (collab_step pf) ops (fresh_db ps cs)" and "assertChannelVisible caller c db = Inr m"
    and "parseCursor cursor = Some a" and "1 \<le> limit" and "limit \<le> 100"
    and "getMaxChannelSeq db c \<le> 9007199254740991"
  shows "read_pages (Suc (getMaxChannelSeq db c)) caller c cursor limit db
    = Some (drop (max a (mb_rejoinedSeq m)) (channel_events db c))"
proof -
  have "contiguous db" unfolding assms(1) by (rule log_ok_parts(1) [OF log_ok_history])
  then show ?thesis
    using assms(6) by (intro read_pages_all [OF _ assms(2,4,5) _ assms(3)]) (simp_all add: max_seq)
qed

subsection \<open>Cursors\<close>

text \<open>The tables no channel transaction writes, besides the cursor's own.\<close>

definition channel_scope :: "collab_db \<Rightarrow> collab_db \<Rightarrow> bool" where
  "channel_scope db db' \<longleftrightarrow> db_principals db' = db_principals db \<and> db_credentials db' = db_credentials db
     \<and> db_sessions db' = db_sessions db \<and> db_schedules db' = db_schedules db \<and> db_cursors db' = db_cursors db"

lemma event_scope:
  "insert_event eid c seq actor kind content now db = Some db' \<Longrightarrow> channel_scope db db'"
  "append_event eid c actor kind content now db = Some db' \<Longrightarrow> channel_scope db db'"
  by (auto simp: append_event_def insert_event_def channel_scope_def split: if_splits)

lemma channel_tx_scope:
  "createChannel_tx pf en name db = Inr (r, red, db') \<Longrightarrow> channel_scope db db'"
  "setPolicy_tx en caller c policy key db = Inr (r, red, db') \<Longrightarrow> channel_scope db db'"
  "addMember_tx en caller c p db = Inr (r, red, db') \<Longrightarrow> channel_scope db db'"
  "removeMember_tx en caller c p db = Inr (r, red, db') \<Longrightarrow> channel_scope db db'"
  "archive_tx en caller c db = Inr (r, red, db') \<Longrightarrow> channel_scope db db'"
  "unarchive_tx pf en caller c db = Inr (r, red, db') \<Longrightarrow> channel_scope db db'"
  "post_tx en caller c msg db = Inr (r, red, db') \<Longrightarrow> channel_scope db db'"
  subgoal by (auto simp: createChannel_tx_def Let_def append_channel_def channel_scope_def
      split: option.splits sum.splits if_splits dest!: event_scope)
  subgoal by (auto simp: setPolicy_tx_def channel_scope_def split: option.splits)
  subgoal by (auto simp: addMember_tx_def Let_def update_member_def channel_scope_def
      split: option.splits if_splits dest!: event_scope)
  subgoal by (auto simp: removeMember_tx_def Let_def update_member_def channel_scope_def
      split: option.splits if_splits dest!: event_scope)
  subgoal by (auto simp: archive_tx_def Let_def update_channel_def channel_scope_def
      split: option.splits if_splits dest!: event_scope)
  subgoal by (auto simp: unarchive_tx_def Let_def update_channel_def channel_scope_def
      split: option.splits if_splits dest!: event_scope)
  subgoal by (auto simp: post_tx_def Let_def channel_scope_def split: option.splits if_splits dest!: event_scope)
  done

lemma keyed_scope:
  assumes "\<And>r red db'. fn db = Inr (r, red, db') \<Longrightarrow> channel_scope db db'"
  shows "channel_scope db (fst (runKeyedCommand pf p cmd key body predicate fn db))"
  by (rule runKeyedCommand_cases [of pf p cmd key body predicate fn db])
     (use assms in \<open>auto simp: channel_scope_def\<close>)

lemma channel_scope_refl [simp]: "channel_scope db db"
  by (simp add: channel_scope_def)

lemma run_channel_scope:
  "(\<And>c cursor. cmd \<noteq> Ack c cursor) \<Longrightarrow> channel_scope db (run_channel pf en caller cmd db)"
proof (cases cmd)
  case (CreateChannel name key)
  then show ?thesis using keyed_scope [OF channel_tx_scope(1)] by (simp add: createChannel_def split: option.split)
next
  case (SetPolicy c policy key)
  then show ?thesis using keyed_scope [OF channel_tx_scope(2)]
    by (simp add: setChannelExternalExportPolicy_def split: option.split)
next
  case (AddMember c p key)
  then show ?thesis using keyed_scope [OF channel_tx_scope(3)] by (simp add: addChannelMember_def)
next
  case (RemoveMember c p key)
  then show ?thesis using keyed_scope [OF channel_tx_scope(4)] by (simp add: removeChannelMember_def)
next
  case (Archive c key)
  then show ?thesis using keyed_scope [OF channel_tx_scope(5)] by (simp add: archiveChannel_def)
next
  case (Unarchive c key)
  then show ?thesis using keyed_scope [OF channel_tx_scope(6)] by (simp add: unarchiveChannel_def)
next
  case (Post c msg key)
  then show ?thesis using keyed_scope [OF channel_tx_scope(7)] by (simp add: postChannelMessage_def split: option.split)
qed blast

lemma acknowledged_upsert:
  "acknowledged (db\<lparr>db_cursors := upsert_cursor c p n (db_cursors db)\<rparr>) d q
   = (if (d, q) = (c, p) then max (acknowledged db c p) n else acknowledged db d q)"
proof -
  let ?mine = "\<lambda>c p r. cu_channel r = c \<and> cu_principal r = p" and ?t = "db_cursors db"
  let ?f = "\<lambda>r. r\<lparr>cu_ack := max (cu_ack r) n\<rparr>"
  show ?thesis
  proof (cases "tbl_get (?mine c p) ?t")
    case None
    then show ?thesis
      by (auto simp: acknowledged_def upsert_cursor_def Let_def tbl_get_snoc split: option.split)
  next
    case (Some r0)
    have upd: "tbl_get (?mine d q) (tbl_update (?mine c p) ?f ?t)
        = map_option (\<lambda>r. if ?mine c p r then ?f r else r) (tbl_get (?mine d q) ?t)"
      by (rule tbl_get_tbl_update) simp
    have ups: "upsert_cursor c p n ?t = tbl_update (?mine c p) ?f ?t"
      using Some by (simp add: upsert_cursor_def Let_def)
    show ?thesis
    proof (cases "tbl_get (?mine d q) ?t")
      case None
      then have "\<not> (d = c \<and> q = p)" using Some by auto
      with None show ?thesis by (auto simp: acknowledged_def ups upd)
    next
      case r: (Some r)
      then have "cu_channel r = d" "cu_principal r = q" by (auto dest: tbl_get_Some)
      with r upd show ?thesis
        by (cases "d = c"; cases "q = p") (simp_all add: acknowledged_def ups)
    qed
  qed
qed

lemma ack_tx_effect:
  assumes "ack_tx caller c cursor db = Inr (r, db')"
  obtains n where "parseCursor cursor = Some n" and "db' = db\<lparr>db_cursors := upsert_cursor c caller n (db_cursors db)\<rparr>"
    and "r = show_nat (acknowledged db' c caller)"
  using assms by (auto simp: ack_tx_def Let_def split: sum.splits option.splits if_splits)

lemma same_cursors: "db_cursors db' = db_cursors db \<Longrightarrow> acknowledged db c p \<le> acknowledged db' c p"
  by (simp add: acknowledged_def)

lemma acknowledged_channel: "acknowledged db c p \<le> acknowledged (run_channel pf en caller cmd db) c p"
proof (cases "\<exists>d cursor. cmd = Ack d cursor")
  case True
  then obtain d cursor where cmd: "cmd = Ack d cursor" by blast
  show ?thesis
  proof (cases "ack_tx caller d cursor db")
    case (Inr x)
    then obtain r db' where x: "ack_tx caller d cursor db = Inr (r, db')" by (cases x) simp
    then obtain n where db': "db' = db\<lparr>db_cursors := upsert_cursor d caller n (db_cursors db)\<rparr>"
      by (rule ack_tx_effect)
    have "run_channel pf en caller cmd db = db'"
      by (simp add: cmd ackChannelCursor_def runNaturallyIdempotentCommand_def x)
    then show ?thesis by (simp only: db' acknowledged_upsert) simp
  qed (simp add: cmd ackChannelCursor_def runNaturallyIdempotentCommand_def)
next
  case False
  have "channel_scope db (run_channel pf en caller cmd db)"
    by (rule run_channel_scope) (use False in blast)
  then show ?thesis by (simp add: channel_scope_def same_cursors)
qed

lemma acknowledged_step: "acknowledged db c p \<le> acknowledged (collab_step pf op db) c p"
proof (induction pf op db rule: collab_step.induct)
  case (1 pf en caller cmd db)
  then show ?case by (simp add: acknowledged_channel)
next
  case (2 pf issue en caller name key db)
  then show ?case using keyed_same_log [OF createAgent_scope]
    by (simp add: createAgent_def same_log_def same_cursors split: option.split)
next
  case (3 pf issue en caller p key db)
  then show ?case using keyed_same_log [OF createCredential_scope]
    by (simp add: createPrincipalCredential_def same_log_def same_cursors)
next
  case (4 pf en caller p key db)
  then show ?case using keyed_same_log [OF suspend_scope] by (simp add: suspendAgent_def same_log_def same_cursors)
next
  case (5 pf en caller p key db)
  then show ?case using keyed_same_log [OF restore_scope] by (simp add: restoreAgent_def same_log_def same_cursors)
next
  case (6 pf en caller p key db)
  then show ?case using keyed_same_log [OF revoke_scope] by (simp add: revokeAgent_def same_log_def same_cursors)
next
  case (7 pf issue en caller p k key db)
  then show ?case using keyed_same_log [OF rotate_scope]
    by (simp add: rotatePrincipalCredential_def same_log_def same_cursors)
next
  case (8 pf en caller k key db)
  then show ?case using keyed_same_log [OF revokeCredential_scope]
    by (simp add: revokePrincipalCredential_def same_log_def same_cursors)
qed (auto simp: createSessionBinding_def closeSessionBinding_def performStartup_def same_cursors Let_def
    split: option.split bool.split if_splits)

text \<open>
  A cursor only advances. An accepted acknowledgement stores the larger of the old and the
  submitted position, returns it, and changes no other member's cursor; no later history of operations
  moves the acknowledged cursor back.
\<close>

theorem cursor_only_advances:
  assumes "ackChannelCursor p c cursor db = (db', Inr r)"
  shows "(\<exists>n. parseCursor cursor = Some n \<and> acknowledged db' c p = max (acknowledged db c p) n)
    \<and> r = show_nat (acknowledged db' c p)
    \<and> ((d, q) \<noteq> (c, p) \<longrightarrow> acknowledged db' d q = acknowledged db d q)
    \<and> acknowledged db' c p \<le> acknowledged (fold (collab_step pf) ops db') c p"
proof -
  have later: "acknowledged db c p \<le> acknowledged (fold (collab_step pf) ops db) c p" for db
  proof (induction ops arbitrary: db)
    case (Cons op ops)
    show ?case using le_trans [OF acknowledged_step Cons.IH] by simp
  qed simp
  have "ack_tx p c cursor db = Inr (r, db')"
    using assms by (auto simp: ackChannelCursor_def runNaturallyIdempotentCommand_def split: sum.splits)
  then obtain n where n: "parseCursor cursor = Some n"
      "db' = db\<lparr>db_cursors := upsert_cursor c p n (db_cursors db)\<rparr>" "r = show_nat (acknowledged db' c p)"
    by (rule ack_tx_effect)
  have "acknowledged db' c p = max (acknowledged db c p) n" by (simp only: n(2) acknowledged_upsert) simp
  moreover have "(d, q) \<noteq> (c, p) \<longrightarrow> acknowledged db' d q = acknowledged db d q"
    by (simp only: n(2) acknowledged_upsert) simp
  ultimately show ?thesis using n(1,3) later by blast
qed

subsection \<open>Hidden channels\<close>

lemma strings_hashed:
  assumes "list_all (\<lambda>m. \<exists>s. snd m = JStr s) ms"
  shows "\<exists>h. requestHash pf (JObj ms) = Some h"
proof -
  let ?part = "\<lambda>(k, v). if v = JUndefined \<or> v = JFunction \<or> v = JSymbol then Inl (BadMember k)
     else case canonicalJson v of Inl e \<Rightarrow> Inl e | Inr p \<Rightarrow> Inr (serializeString k @ [58] @ p)"
  have "\<forall>p \<in> set (map ?part (sortByCodePoint ms)). \<exists>s. p = Inr s"
    using assms by (fastforce simp: list_all_iff)
  then obtain qs where "seq_parts (map ?part (sortByCodePoint ms)) = Inr qs" using seq_parts_ok by blast
  then show ?thesis by (simp add: requestHash_def)
qed

text \<open>The answer of a channel command when it is a refusal, and the channel it names.\<close>

fun channel_refusal :: "platform \<Rightarrow> env \<Rightarrow> string \<Rightarrow> channel_cmd \<Rightarrow> collab_db \<Rightarrow> CollabErrorCode option" where
  "channel_refusal pf en caller (CreateChannel name key) db = left_error (snd (createChannel pf en caller name key db))"
| "channel_refusal pf en caller (SetPolicy c policy key) db =
     left_error (snd (setChannelExternalExportPolicy pf en caller c policy key db))"
| "channel_refusal pf en caller (AddMember c p key) db = left_error (snd (addChannelMember pf en caller c p key db))"
| "channel_refusal pf en caller (RemoveMember c p key) db = left_error (snd (removeChannelMember pf en caller c p key db))"
| "channel_refusal pf en caller (Archive c key) db = left_error (snd (archiveChannel pf en caller c key db))"
| "channel_refusal pf en caller (Unarchive c key) db = left_error (snd (unarchiveChannel pf en caller c key db))"
| "channel_refusal pf en caller (Post c msg key) db = left_error (snd (postChannelMessage pf en caller c msg key db))"
| "channel_refusal pf en caller (Ack c cursor) db = left_error (snd (ackChannelCursor caller c cursor db))"

fun channel_target :: "channel_cmd \<Rightarrow> string option" where
  "channel_target (CreateChannel _ _) = None"
| "channel_target (SetPolicy c _ _) = Some (case normalizeRuntimeIdentifier c of None \<Rightarrow> c | Some d \<Rightarrow> d)"
| "channel_target (AddMember c _ _) = Some c"
| "channel_target (RemoveMember c _ _) = Some c"
| "channel_target (Archive c _) = Some c"
| "channel_target (Unarchive c _) = Some c"
| "channel_target (Post c _ _) = Some c"
| "channel_target (Ack c _) = Some c"

text \<open>What the caller can work out without the database: is the input well-formed?\<close>

fun input_refusal :: "platform \<Rightarrow> channel_cmd \<Rightarrow> CollabErrorCode" where
  "input_refusal pf (SetPolicy c _ _) =
     (if normalizeRuntimeIdentifier c = None then INVALID_REQUEST else COLLAB_NOT_FOUND)"
| "input_refusal pf (Post _ msg _) =
     (if normalizeMessageText (pf_nfc pf) msg = None then INVALID_REQUEST else COLLAB_NOT_FOUND)"
| "input_refusal pf _ = COLLAB_NOT_FOUND"

definition hidden_channel :: "string \<Rightarrow> string \<Rightarrow> collab_db \<Rightarrow> bool" where
  "hidden_channel caller c db \<longleftrightarrow> assertChannelOwner caller c db \<noteq> None
     \<and> left_error (assertChannelVisible caller c db) \<noteq> None"

lemma hidden_refusals:
  assumes "hidden_channel caller c db"
  shows "assertChannelOwner caller c db = Some COLLAB_NOT_FOUND"
    and "assertChannelVisible caller c db = Inl COLLAB_NOT_FOUND"
  using assms by (auto simp: hidden_channel_def assertChannelOwner_def assertChannelVisible_def left_error_def
      split: option.splits if_splits sum.splits)

lemma keyed_refused:
  assumes "list_all (\<lambda>m. \<exists>s. snd m = JStr s) ms" and "predicate db = Some e"
  shows "runKeyedCommand pf p cmd key (JObj ms) predicate fn db = (db, Inl e)"
  using strings_hashed [OF assms(1), of pf] assms(2) by (auto simp: runKeyedCommand_def)

text \<open>
  C23. A hidden channel looks like one that does not exist. Every command that names a channel the
  caller neither owns nor belongs to, whether it exists or not, is refused with an error that depends
  on the command alone and leaves the database as it is, and so is reading the timeline: replaying a
  key, an archived channel or a full one make no difference.
\<close>

theorem hidden_channel_uniform:
  assumes "hidden_channel caller c db" and "channel_target cmd = Some c"
  shows "channel_refusal pf en caller cmd db = Some (input_refusal pf cmd)
    \<and> run_channel pf en caller cmd db = db
    \<and> getChannelTimeline caller c cursor limit db
        = Inl (if limit < 1 \<or> limit > 100 then INVALID_REQUEST else COLLAB_NOT_FOUND)"
proof -
  note h = hidden_refusals [OF assms(1)]
  have "channel_refusal pf en caller cmd db = Some (input_refusal pf cmd) \<and> run_channel pf en caller cmd db = db"
    using assms(2) h
    by (cases cmd) (auto simp: setChannelExternalExportPolicy_def addChannelMember_def removeChannelMember_def
        archiveChannel_def unarchiveChannel_def postChannelMessage_def ackChannelCursor_def ack_tx_def
        runNaturallyIdempotentCommand_def member_body_def channel_body_def keyed_refused left_error_def
        split: option.splits)
  then show ?thesis by (simp add: getChannelTimeline_def h(2))
qed

subsection \<open>A concrete channel\<close>

definition demo_pf :: platform where
  "demo_pf = \<lparr>pf_sha = id, pf_nfc = id, pf_fold = (\<lambda>_. None)\<rparr>"

definition demo_env :: "string \<Rightarrow> env" where
  "demo_env tag = \<lparr>en_clock = (\<lambda>_. ''t''), en_uuid = (\<lambda>n. replicate n (CHR ''n'') @ tag)\<rparr>"

definition demo_operator :: PrincipalRow where
  "demo_operator = \<lparr>pr_id = ''o'', pr_kind = OperatorKind, pr_displayName = [111], pr_owner = None,
     pr_status = PActive, pr_authEpoch = 1, pr_revokedAt = None\<rparr>"

text \<open>The database after the operator created the channel \<open>x\<close> and posted one message to it.\<close>

definition demo_ops :: "collab_op list" where
  "demo_ops = [ChannelOp (demo_env ''c'') ''o'' (CreateChannel [120] ''k1''),
     ChannelOp (demo_env ''m'') ''o'' (Post ''c'' [104] ''k2'')]"

definition demo_hash :: "jval \<Rightarrow> digest" where
  "demo_hash body = the (requestHash demo_pf body)"

definition demo_db :: collab_db where
  "demo_db = (fresh_db [demo_operator] [])
    \<lparr>db_channels := [\<lparr>ch_id = ''c'', ch_name = [120], ch_nameKey = [120], ch_state = ChActive,
       ch_owner = ''o'', ch_epoch = 1, ch_policy = LocalOnly\<rparr>],
     db_members := [\<lparr>mb_channel = ''c'', mb_principal = ''o'', mb_role = OwnerRole, mb_state = MActive,
       mb_epoch = 1, mb_rejoinedSeq = 0, mb_joinedAt = ''t'', mb_removedAt = None\<rparr>],
     db_events := [\<lparr>ev_id = ''nc'', ev_channel = ''c'', ev_seq = 1, ev_actor = ''o'', ev_kind = channel_created,
         ev_content = JObj [(cps ''channelId'', JStr (cps ''c'')), (cps ''name'', JStr [120])], ev_createdAt = ''t''\<rparr>,
       \<lparr>ev_id = ''m'', ev_channel = ''c'', ev_seq = 2, ev_actor = ''o'', ev_kind = message_posted,
         ev_content = post_body ''c'' [104], ev_createdAt = ''t''\<rparr>],
     db_results := [\<lparr>mr_principal = ''o'', mr_command = CREATE_CHANNEL, mr_key = ''k1'',
         mr_hash = demo_hash (JObj [(cps ''name'', JStr [120])]), mr_result = ChannelReply ''c'' [120]\<rparr>,
       \<lparr>mr_principal = ''o'', mr_command = POST_CHANNEL_MESSAGE_CMD, mr_key = ''k2'',
         mr_hash = demo_hash (post_body ''c'' [104]), mr_result = PostReply ''m'' ''2'' ''t''\<rparr>]\<rparr>"

lemma demo_hashed:
  "requestHash demo_pf (JObj [(cps ''name'', JStr s)]) = Some (demo_hash (JObj [(cps ''name'', JStr s)]))"
  "requestHash demo_pf (post_body c t) = Some (demo_hash (post_body c t))"
  using strings_hashed [of "[(cps ''name'', JStr s)]" demo_pf] post_body_hashed [of demo_pf c t]
  by (auto simp: demo_hash_def)

lemma demo_texts: "normalizeName id [120] = Some [120]" "normalizeMessageText id [104] = Some [104]"
  "normalizeMessageText id [105] = Some [105]" "nameKey (\<lambda>_. None) [120] = [120]"
  by (simp_all add: normalizeName_def normalizeMessageText_def trim_cp_def js_space_def C0_CONTROLS_def
      C1_CONTROLS_def SEPARATOR_CHARS_def BIDI_CONTROLS_def utf8_length_def utf8_len_def
      countJsonEncodedBytes_def serializeString_def escape_cp_def nameKey_def)

lemma show_2: "show_nat 2 = ''2''" "show_nat (Suc (Suc 0)) = ''2''" "show_nat 0 = ''0''" "show_nat 1 = ''1''"
  by (simp_all add: show_nat_def digits_of.simps digit_char_def char_of_def bit_0)

definition demo_db1 :: collab_db where
  "demo_db1 = demo_db\<lparr>db_events := butlast (db_events demo_db), db_results := butlast (db_results demo_db)\<rparr>"

lemmas demo_eval = runKeyedCommand_def principal_row_def channel_row_def member_row_def member_key_def
  tbl_get_def fresh_db_def demo_pf_def demo_env_def demo_operator_def find_result_def insert_event_def
  append_event_def getMaxChannelSeq_def channel_events_def Let_def

lemma demo_create: "createChannel demo_pf (demo_env ''c'') ''o'' [120] ''k1'' (fresh_db [demo_operator] []) 
   = (demo_db1, Inr (ChannelReply ''c'' [120]))"
proof -
  have "createChannel_tx demo_pf (demo_env ''c'') [120] (fresh_db [demo_operator] [])
     = Inr (ChannelReply ''c'' [120], ChannelReply ''c'' [120], demo_db1\<lparr>db_results := []\<rparr>)"
    by (simp add: createChannel_tx_def getOperatorOrThrow_def append_channel_def demo_texts demo_db1_def
        demo_db_def demo_eval)
  moreover have "assertOperatorCaller ''o'' (fresh_db [demo_operator] []) = None"
    by (simp add: assertOperatorCaller_def demo_eval)
  moreover have "normalizeName (pf_nfc demo_pf) [120] = Some [120]" by (simp add: demo_pf_def demo_texts)
  ultimately show ?thesis
    by (simp add: createChannel_def runKeyedCommand_def demo_hashed find_result_def tbl_get_def)
      (simp add: fresh_db_def demo_db1_def demo_db_def)
qed

lemma demo_post: "postChannelMessage demo_pf (demo_env ''m'') ''o'' ''c'' [104] ''k2'' demo_db1
   = (demo_db, Inr (PostReply ''m'' ''2'' ''t''))"
proof -
  have "post_tx (demo_env ''m'') ''o'' ''c'' [104] demo_db1
     = Inr (PostReply ''m'' ''2'' ''t'', PostReply ''m'' ''2'' ''t'', demo_db\<lparr>db_results := db_results demo_db1\<rparr>)"
    by (simp add: post_tx_def demo_db1_def demo_db_def demo_eval post_body_def show_2)
  moreover have "left_error (assertChannelVisible ''o'' ''c'' demo_db1) = None"
    by (simp add: assertChannelVisible_def left_error_def demo_db1_def demo_db_def demo_eval)
  moreover have "normalizeMessageText (pf_nfc demo_pf) [104] = Some [104]" by (simp add: demo_pf_def demo_texts)
  ultimately show ?thesis
    by (simp add: postChannelMessage_def runKeyedCommand_def demo_hashed flip: post_body_def)
      (simp add: find_result_def tbl_get_def fresh_db_def demo_db1_def demo_db_def)
qed

lemma demo_history: "fold (collab_step demo_pf) demo_ops (fresh_db [demo_operator] []) = demo_db"
  by (simp add: demo_ops_def demo_create demo_post)

lemma demo_visible: "\<exists>m. assertChannelVisible ''o'' ''c'' demo_db = Inr m \<and> mb_rejoinedSeq m = 0"
  by (simp add: assertChannelVisible_def demo_db_def demo_eval)

theorem post_idempotent_witness:
  "postChannelMessage demo_pf (demo_env ''z'') ''o'' ''c'' [104] ''k2'' demo_db
     = (demo_db, Inr (PostReply ''m'' ''2'' ''t''))
   \<and> postChannelMessage demo_pf (demo_env ''z'') ''o'' ''c'' [105] ''k2'' demo_db
     = (demo_db, Inl IDEMPOTENCY_CONFLICT)"
proof -
  obtain m where m: "assertChannelVisible ''o'' ''c'' demo_db = Inr m" using demo_visible by blast
  have i: "inj (pf_sha demo_pf)" by (simp add: demo_pf_def)
  have n: "normalizeMessageText (pf_nfc demo_pf) [104] = Some [104]"
    "normalizeMessageText (pf_nfc demo_pf) [105] = Some [105]" by (simp_all add: demo_pf_def demo_texts)
  have cp: "code_points [104]" "code_points [105]" by (simp_all add: code_points_def)
  have first: "snd (postChannelMessage demo_pf (demo_env ''m'') ''o'' ''c'' [104] ''k2'' demo_db1)
      = Inr (PostReply ''m'' ''2'' ''t'')" by (simp add: demo_post)
  have now: "demo_db = fold (collab_step demo_pf) []
      (fst (postChannelMessage demo_pf (demo_env ''m'') ''o'' ''c'' [104] ''k2'' demo_db1))" by (simp add: demo_post)
  show ?thesis
    using post_idempotent [OF i first now m n(1,1) cp(1,1), of "demo_env ''z''"]
      post_idempotent [OF i first now m n(1,2) cp(1,2), of "demo_env ''z''"]
    by simp
qed

theorem timeline_read_complete_witness:
  "read_pages 3 ''o'' ''c'' ''0'' 1 demo_db = Some (channel_events demo_db ''c'')"
proof -
  obtain m where m: "assertChannelVisible ''o'' ''c'' demo_db = Inr m" "mb_rejoinedSeq m = 0"
    using demo_visible by blast
  have p: "parseCursor ''0'' = Some 0" using parseCursor_show [of 0] by (simp add: show_2)
  have s: "getMaxChannelSeq demo_db ''c'' = 2" by (simp add: getMaxChannelSeq_def channel_events_def demo_db_def)
  have "read_pages (Suc 2) ''o'' ''c'' ''0'' 1 demo_db = Some (channel_events demo_db ''c'')"
    using timeline_read_complete [OF demo_history [symmetric] m(1) p, of 1] by (simp only: s m(2)) simp
  moreover have "Suc 2 = (3 :: nat)" by simp
  ultimately show ?thesis by (simp only:)
qed

theorem cursor_only_advances_witness:
  "\<exists>db'. ackChannelCursor ''o'' ''c'' ''2'' demo_db = (db', Inr ''2'') \<and> acknowledged db' ''c'' ''o'' = 2"
proof -
  obtain m where m: "assertChannelVisible ''o'' ''c'' demo_db = Inr m" "mb_rejoinedSeq m = 0"
    using demo_visible by blast
  have p: "parseCursor ''2'' = Some 2" using parseCursor_show [of 2] by (simp add: show_2)
  have s: "getMaxChannelSeq demo_db ''c'' = 2" by (simp add: getMaxChannelSeq_def channel_events_def demo_db_def)
  obtain db' r where ack: "ackChannelCursor ''o'' ''c'' ''2'' demo_db = (db', Inr r)"
    by (simp add: ackChannelCursor_def runNaturallyIdempotentCommand_def ack_tx_def m p callerVisibleBound_def s Let_def)
  from cursor_only_advances [OF this, of _ _ demo_pf "[]"] p
  have "acknowledged db' ''c'' ''o'' = max (acknowledged demo_db ''c'' ''o'') 2" "r = show_nat (acknowledged db' ''c'' ''o'')"
    by auto
  moreover have "acknowledged demo_db ''c'' ''o'' = 0" by (simp add: acknowledged_def demo_db_def fresh_db_def tbl_get_def)
  ultimately show ?thesis using ack by (simp add: show_2)
qed

theorem hidden_channel_uniform_witness:
  "channel_refusal demo_pf (demo_env ''z'') ''x'' (Post ''c'' [104] ''k2'') demo_db = Some COLLAB_NOT_FOUND
   \<and> channel_refusal demo_pf (demo_env ''z'') ''x'' (Post ''nowhere'' [104] ''k2'') demo_db = Some COLLAB_NOT_FOUND"
proof -
  have "hidden_channel ''x'' c demo_db" for c
    by (simp add: hidden_channel_def assertChannelOwner_def assertChannelVisible_def left_error_def demo_db_def demo_eval)
  then have "channel_refusal demo_pf (demo_env ''z'') ''x'' (Post c [104] ''k2'') demo_db
      = Some (input_refusal demo_pf (Post c [104] ''k2''))" for c
    by (rule hidden_channel_uniform [THEN conjunct1]) simp
  then show ?thesis by (simp add: demo_pf_def demo_texts del: channel_refusal.simps)
qed

end
