(* ===== verification/Collab_Authority.thy ===== *)
theory Collab_Authority
  imports Collab_Guarantees
begin

text \<open>
  What the agent and credential commands of \<open>packages/collab/src/store.ts\<close> guarantee along any
  history: the operator keeps a working credential, revocation is final, and a closed session stays
  closed.
\<close>

subsection \<open>What every step keeps\<close>

definition ids_ok :: "collab_db \<Rightarrow> bool" where
  "ids_ok db \<longleftrightarrow> key_unique pr_id (db_principals db) \<and> key_unique cr_id (db_credentials db)"

text \<open>
  Principals keep their kind and never lose an epoch; operators and revoked principals do not change
  at all. Bindings keep their session, and closed ones do not change. An operator with an active
  credential keeps one, a revoked principal without one stays without, stopped schedules stay stopped.
\<close>

definition row_step :: "PrincipalRow \<Rightarrow> PrincipalRow \<Rightarrow> bool" where
  "row_step r r' \<longleftrightarrow> pr_kind r' = pr_kind r \<and> pr_authEpoch r \<le> pr_authEpoch r'
     \<and> (pr_kind r = OperatorKind \<or> pr_status r = PRevoked \<longrightarrow> r' = r)"

definition binding_step :: "SessionBindingRow \<Rightarrow> SessionBindingRow \<Rightarrow> bool" where
  "binding_step b b' \<longleftrightarrow> sb_principal b' = sb_principal b \<and> sb_credential b' = sb_credential b
     \<and> (sb_closed b \<noteq> None \<longrightarrow> b' = b)"

definition keeps_rows :: "collab_db \<Rightarrow> collab_db \<Rightarrow> bool" where
  "keeps_rows db db' \<longleftrightarrow> (\<forall>p r. principal_row db p = Some r \<longrightarrow> (\<exists>r'. principal_row db' p = Some r' \<and> row_step r r'))"

definition keeps_bindings :: "collab_db \<Rightarrow> collab_db \<Rightarrow> bool" where
  "keeps_bindings db db' \<longleftrightarrow> (\<forall>s b. getSessionBinding db s = Some b \<longrightarrow>
     (\<exists>b'. getSessionBinding db' s = Some b' \<and> binding_step b b'))"

definition operator_keyed :: "collab_db \<Rightarrow> string \<Rightarrow> bool" where
  "operator_keyed db p \<longleftrightarrow> (\<exists>r. principal_row db p = Some r \<and> pr_kind r = OperatorKind)
     \<and> 1 \<le> countActiveCredentials db p"

definition revoked_keyless :: "collab_db \<Rightarrow> string \<Rightarrow> bool" where
  "revoked_keyless db p \<longleftrightarrow> (\<exists>r. principal_row db p = Some r \<and> pr_status r = PRevoked)
     \<and> countActiveCredentials db p = 0"

definition unscheduled :: "collab_db \<Rightarrow> string \<Rightarrow> bool" where
  "unscheduled db p \<longleftrightarrow> (\<forall>s \<in> set (db_schedules db). sr_agent s = p \<longrightarrow> \<not> sr_active s)"

definition auth_step :: "collab_db \<Rightarrow> collab_db \<Rightarrow> bool" where
  "auth_step db db' \<longleftrightarrow> ids_ok db' \<and> keeps_rows db db' \<and> keeps_bindings db db'
     \<and> (\<forall>p. operator_keyed db p \<longrightarrow> operator_keyed db' p)
     \<and> (\<forall>p. revoked_keyless db p \<longrightarrow> revoked_keyless db' p)
     \<and> (\<forall>p. unscheduled db p \<longrightarrow> unscheduled db' p)"

lemma row_step_refl [simp]: "row_step r r"
  by (simp add: row_step_def)

lemma row_step_trans: "row_step a b \<Longrightarrow> row_step b c \<Longrightarrow> row_step a c"
  by (auto simp: row_step_def)

lemma binding_step_refl [simp]: "binding_step b b"
  by (simp add: binding_step_def)

lemma binding_step_trans: "binding_step a b \<Longrightarrow> binding_step b c \<Longrightarrow> binding_step a c"
  by (auto simp: binding_step_def)

lemma auth_step_refl: "ids_ok db \<Longrightarrow> auth_step db db"
  by (simp add: auth_step_def keeps_rows_def keeps_bindings_def)

lemma auth_step_trans: "auth_step a b \<Longrightarrow> auth_step b c \<Longrightarrow> auth_step a c"
  unfolding auth_step_def keeps_rows_def keeps_bindings_def
  by (meson row_step_trans binding_step_trans)

lemma auth_step_parts:
  assumes "auth_step db db'"
  shows "ids_ok db'" and "principal_row db p = Some r \<Longrightarrow> \<exists>r'. principal_row db' p = Some r' \<and> row_step r r'"
    and "getSessionBinding db s = Some b \<Longrightarrow> \<exists>b'. getSessionBinding db' s = Some b' \<and> binding_step b b'"
    and "operator_keyed db p \<Longrightarrow> operator_keyed db' p" and "revoked_keyless db p \<Longrightarrow> revoked_keyless db' p"
    and "unscheduled db p \<Longrightarrow> unscheduled db' p"
  using assms by (simp_all add: auth_step_def keeps_rows_def keeps_bindings_def)

text \<open>The building blocks of the agent transactions.\<close>

lemma same_auth:
  assumes "ids_ok db" and "db_principals db' = db_principals db" and "db_credentials db' = db_credentials db"
    and "db_sessions db' = db_sessions db" and "db_schedules db' = db_schedules db"
  shows "auth_step db db'"
  using assms by (simp add: auth_step_def keeps_rows_def keeps_bindings_def ids_ok_def principal_row_def
      getSessionBinding_def operator_keyed_def revoked_keyless_def countActiveCredentials_def unscheduled_def)

lemma audit_step: "ids_ok db \<Longrightarrow> auth_step db (insertAudit kind actor subject db)"
  by (rule same_auth) (simp_all add: insertAudit_def)

lemma schedules_step: "ids_ok db \<Longrightarrow> auth_step db (stop_schedules p db)"
  by (auto simp: auth_step_def keeps_rows_def keeps_bindings_def ids_ok_def principal_row_def stop_schedules_def
      getSessionBinding_def operator_keyed_def revoked_keyless_def countActiveCredentials_def unscheduled_def
      set_tbl_update)

lemma sessions_step:
  assumes "ids_ok db" and "\<And>b. hit b \<Longrightarrow> sb_closed b = None"
  shows "auth_step db (db\<lparr>db_sessions := tbl_update hit (\<lambda>s. s\<lparr>sb_closed := Some x\<rparr>) (db_sessions db)\<rparr>)"
proof -
  have "tbl_get (\<lambda>r. sb_session r = s) (tbl_update hit (\<lambda>s. s\<lparr>sb_closed := Some x\<rparr>) t)
      = map_option (\<lambda>r. if hit r then r\<lparr>sb_closed := Some x\<rparr> else r) (tbl_get (\<lambda>r. sb_session r = s) t)" for s t
    by (rule tbl_get_tbl_update) simp
  then show ?thesis
    using assms by (simp add: auth_step_def keeps_rows_def keeps_bindings_def ids_ok_def principal_row_def
        getSessionBinding_def operator_keyed_def revoked_keyless_def countActiveCredentials_def unscheduled_def)
      (auto simp: binding_step_def)
qed

lemma close_step: "ids_ok db \<Longrightarrow> auth_step db (snd (close_sessions P reason now db))"
  unfolding close_sessions_def Let_def snd_conv by (rule sessions_step) simp_all

lemma principal_step:
  assumes "ids_ok db" and "\<And>r. pr_id (f r) = pr_id r"
    and "\<And>r. principal_row db p = Some r \<Longrightarrow> pr_kind r = AgentKind \<and> pr_status r \<noteq> PRevoked
           \<and> pr_kind (f r) = AgentKind \<and> pr_authEpoch r \<le> pr_authEpoch (f r)"
  shows "auth_step db (set_principal p f db)"
proof -
  have row: "principal_row (set_principal p f db) q
      = map_option (\<lambda>r. if pr_id r = p then f r else r) (principal_row db q)" for q
    unfolding principal_row_def set_principal_def using assms(2) by (simp add: tbl_get_tbl_update)
  have id: "pr_id r = q" if "principal_row db q = Some r" for q r
    using that unfolding principal_row_def by (auto dest: tbl_get_Some)
  have step: "row_step r (if pr_id r = p then f r else r)" if "principal_row db q = Some r" for q r
    using assms(3) [of r] that id [OF that] by (auto simp: row_step_def)
  have op: "pr_id r \<noteq> p" if "principal_row db q = Some r" "pr_kind r = OperatorKind \<or> pr_status r = PRevoked" for q r
    using assms(3) [of r] that id [OF that(1)] by auto
  have same: "principal_row (set_principal p f db) q = Some r"
    if "principal_row db q = Some r" "pr_kind r = OperatorKind \<or> pr_status r = PRevoked" for q r
    using row [of q] op [OF that] that(1) by simp
  have count: "countActiveCredentials (set_principal p f db) q = countActiveCredentials db q" for q
    by (simp add: countActiveCredentials_def set_principal_def)
  have "ids_ok (set_principal p f db)"
    using assms(1,2) by (simp add: ids_ok_def set_principal_def key_unique_update)
  moreover have "keeps_rows db (set_principal p f db)" using row step by (auto simp: keeps_rows_def)
  moreover have "keeps_bindings db (set_principal p f db)"
    by (simp add: keeps_bindings_def getSessionBinding_def set_principal_def)
  moreover have "operator_keyed db q \<Longrightarrow> operator_keyed (set_principal p f db) q" for q
    unfolding operator_keyed_def count using same by blast
  moreover have "revoked_keyless db q \<Longrightarrow> revoked_keyless (set_principal p f db) q" for q
    unfolding revoked_keyless_def count using same by blast
  moreover have "unscheduled db q \<Longrightarrow> unscheduled (set_principal p f db) q" for q
    by (simp add: unscheduled_def set_principal_def)
  ultimately show ?thesis by (simp add: auth_step_def)
qed

lemma new_principal_step:
  assumes "ids_ok db" and "principal_row db (pr_id r) = None"
  shows "auth_step db (db\<lparr>db_principals := db_principals db @ [r]\<rparr>)"
proof -
  have row: "principal_row db q = Some x \<Longrightarrow> principal_row (db\<lparr>db_principals := db_principals db @ [r]\<rparr>) q = Some x" for q x
    by (simp add: principal_row_def tbl_get_snoc)
  have "key_unique pr_id (db_principals db @ [r])"
    using assms by (intro key_unique_append) (auto simp: ids_ok_def principal_row_def tbl_get_None)
  then show ?thesis using assms row
    by (auto simp: auth_step_def keeps_rows_def keeps_bindings_def ids_ok_def getSessionBinding_def
        operator_keyed_def revoked_keyless_def countActiveCredentials_def unscheduled_def)
qed

lemma issue_step:
  assumes "ids_ok db" and "issueCredentialRow issue k p db = Some (t, db')"
    and "\<And>r. principal_row db p = Some r \<Longrightarrow> pr_status r \<noteq> PRevoked \<or> 0 < countActiveCredentials db p"
  shows "auth_step db db'"
proof -
  obtain c where c: "cr_id c = k" "cr_principal c = p" "db' = db\<lparr>db_credentials := db_credentials db @ [c]\<rparr>"
    using issue_effects [OF assms(2)] by auto
  have "\<forall>x \<in> set (db_credentials db). cr_id x \<noteq> k"
    using assms(2) by (auto simp: issueCredentialRow_def tbl_get_None split: prod.splits if_splits)
  then have "key_unique cr_id (db_credentials db @ [c])"
    using assms(1) c(1) by (intro key_unique_append) (auto simp: ids_ok_def)
  moreover have "countActiveCredentials db q \<le> countActiveCredentials db' q" for q
    by (simp add: countActiveCredentials_def tbl_changes_def c(3))
  moreover have "countActiveCredentials db' q = countActiveCredentials db q" if "q \<noteq> p" for q
    using that by (simp add: countActiveCredentials_def tbl_changes_def c(2,3) active_credential_def)
  moreover have row: "principal_row db' q = principal_row db q" for q by (simp add: principal_row_def c(3))
  moreover have "revoked_keyless db q \<Longrightarrow> q \<noteq> p" for q
    using assms(3) by (auto simp: revoked_keyless_def)
  ultimately have "revoked_keyless db q \<Longrightarrow> revoked_keyless db' q" "operator_keyed db q \<Longrightarrow> operator_keyed db' q" for q
    unfolding revoked_keyless_def operator_keyed_def by (metis, metis order_trans)
  then show ?thesis
    using assms(1) \<open>key_unique cr_id (db_credentials db @ [c])\<close> row unfolding auth_step_def
    by (simp add: keeps_rows_def keeps_bindings_def ids_ok_def c(3) getSessionBinding_def unscheduled_def)
qed

text \<open>Revoking credentials: harmless while every operator keeps one.\<close>

lemma revoke_step:
  assumes "ids_ok db" and "\<And>q. operator_keyed db q \<Longrightarrow> operator_keyed (revoke_credentials P now db) q"
  shows "auth_step db (revoke_credentials P now db)"
proof -
  have count: "countActiveCredentials (revoke_credentials P now db) q \<le> countActiveCredentials db q" for q
    unfolding countActiveCredentials_def revoke_credentials_def tbl_changes_def
    by (simp, rule filter_update_shrinks) (simp add: active_credential_def)
  have "revoked_keyless db q \<Longrightarrow> revoked_keyless (revoke_credentials P now db) q" for q
    using count [of q] by (simp add: revoked_keyless_def) (simp add: revoke_credentials_def principal_row_def)
  moreover have "key_unique cr_id (db_credentials (revoke_credentials P now db))"
    using assms(1) by (simp add: revoke_credentials_def ids_ok_def key_unique_update)
  ultimately show ?thesis using assms
    by (simp add: auth_step_def) (simp add: revoke_credentials_def keeps_rows_def keeps_bindings_def ids_ok_def
        principal_row_def getSessionBinding_def unscheduled_def)
qed

lemma filter_update_one:
  "length (filter P t) \<le> length (filter P (tbl_update Q f t)) + length (filter (\<lambda>r. P r \<and> Q r) t)"
  by (induction t) (auto simp: tbl_update_def)

text \<open>Revoking one credential leaves its owner at most one fewer and every other principal as before.\<close>

lemma revoke_one_count:
  assumes "key_unique cr_id (db_credentials db)"
  shows "countActiveCredentials db q \<le> countActiveCredentials (revoke_credentials (\<lambda>r. cr_id r = k) now db) q + 1"
    and "(\<And>r. credential_row db k = Some r \<Longrightarrow> cr_principal r \<noteq> q) \<Longrightarrow>
      countActiveCredentials db q \<le> countActiveCredentials (revoke_credentials (\<lambda>r. cr_id r = k) now db) q"
proof -
  let ?f = "\<lambda>r. r\<lparr>cr_state := CredRevoked, cr_revokedAt := Some now\<rparr>"
  have le: "countActiveCredentials db q \<le> countActiveCredentials (revoke_credentials (\<lambda>r. cr_id r = k) now db) q
      + tbl_changes (\<lambda>r. cr_id r = k \<and> active_credential q r) (db_credentials db)"
    using filter_update_one [of "active_credential q" "db_credentials db" "\<lambda>r. cr_id r = k" ?f]
    by (simp add: countActiveCredentials_def tbl_changes_def revoke_credentials_def conj_commute)
  moreover have "tbl_changes (\<lambda>r. cr_id r = k \<and> active_credential q r) (db_credentials db) \<le> 1"
    using assms by (rule tbl_changes_unique)
  ultimately show "countActiveCredentials db q
      \<le> countActiveCredentials (revoke_credentials (\<lambda>r. cr_id r = k) now db) q + 1" by linarith
  assume other: "\<And>r. credential_row db k = Some r \<Longrightarrow> cr_principal r \<noteq> q"
  have "tbl_changes (\<lambda>r. cr_id r = k \<and> active_credential q r) (db_credentials db) = 0"
    unfolding tbl_changes_0
  proof
    fix r assume r: "r \<in> set (db_credentials db)"
    show "\<not> (cr_id r = k \<and> active_credential q r)"
      using other [of r] tbl_get_unique [OF assms r, of k] by (auto simp: credential_row_def active_credential_def)
  qed
  with le show "countActiveCredentials db q \<le> countActiveCredentials (revoke_credentials (\<lambda>r. cr_id r = k) now db) q"
    by simp
qed

subsection \<open>The agent transactions\<close>

lemma then_step: "auth_step db d \<Longrightarrow> (ids_ok d \<Longrightarrow> auth_step d d') \<Longrightarrow> auth_step db d'"
  using auth_step_trans auth_step_parts(1) by blast

lemma then_effects:
  "auth_step db d \<Longrightarrow> auth_step db (insertAudit kind actor subject d)"
  "auth_step db d \<Longrightarrow> auth_step db (stop_schedules p d)"
  "auth_step db d \<Longrightarrow> auth_step db (snd (closeSessionsForPrincipal p reason now d))"
  "auth_step db d \<Longrightarrow> auth_step db (snd (closeSessionsForCredential k reason now d))"
  unfolding closeSessionsForPrincipal_def closeSessionsForCredential_def
  by (erule then_step, erule audit_step schedules_step close_step)+

lemma agent_target:
  "getAgentTargetOrThrow db p = Inr r \<longleftrightarrow> principal_row db p = Some r \<and> pr_kind r = AgentKind"
  by (auto simp: getAgentTargetOrThrow_def split: option.splits)

lemma PrincipalKind_not: "k \<noteq> AgentKind \<longleftrightarrow> k = OperatorKind"
  by (cases k) simp_all

lemma suspend_auth:
  assumes "ids_ok db" and "suspend_tx en caller p db = Inr (r, red, db')"
  shows "auth_step db db'"
proof -
  obtain t where t: "principal_row db p = Some t" "pr_kind t = AgentKind"
    using assms(2) by (auto simp: suspend_tx_def agent_target split: sum.splits)
  show ?thesis
  proof (cases "pr_status t = PSuspended")
    case False
    with t assms(2) have "pr_status t = PActive" and db': "db' = insertAudit ''agent_suspended'' caller p
        (snd (closeSessionsForPrincipal p PrincipalSuspended (en_clock en 0)
          (set_principal p (\<lambda>r. r\<lparr>pr_status := PSuspended, pr_authEpoch := pr_authEpoch t + 1\<rparr>) db)))"
      by (auto simp: suspend_tx_def getAgentTargetOrThrow_def Let_def split: if_splits)
    with t show ?thesis unfolding db' by (intro then_effects principal_step [OF assms(1)]) auto
  qed (use t assms in \<open>auto simp: suspend_tx_def getAgentTargetOrThrow_def Let_def intro: auth_step_refl\<close>)
qed

lemma restore_auth:
  assumes "ids_ok db" and "restore_tx en caller p db = Inr (r, red, db')"
  shows "auth_step db db'"
proof -
  obtain t where t: "principal_row db p = Some t" "pr_kind t = AgentKind"
    using assms(2) by (auto simp: restore_tx_def agent_target split: sum.splits)
  show ?thesis
  proof (cases "pr_status t = PActive")
    case False
    with t assms(2) have "pr_status t = PSuspended" and db': "db' = insertAudit ''agent_restored'' caller p
        (snd (closeSessionsForPrincipal p PrincipalRestored (en_clock en 0)
          (set_principal p (\<lambda>r. r\<lparr>pr_status := PActive, pr_authEpoch := pr_authEpoch t + 1\<rparr>) db)))"
      by (auto simp: restore_tx_def getAgentTargetOrThrow_def Let_def split: if_splits)
    with t show ?thesis unfolding db' by (intro then_effects principal_step [OF assms(1)]) auto
  qed (use t assms in \<open>auto simp: restore_tx_def getAgentTargetOrThrow_def Let_def intro: auth_step_refl\<close>)
qed

text \<open>The credentials of an agent are none of an operator's.\<close>

lemma revoke_agent_credentials:
  assumes "ids_ok d" and "principal_row d p = Some r" and "pr_kind r = AgentKind"
  shows "auth_step d (revoke_credentials (active_credential p) now d)"
proof (rule revoke_step [OF assms(1)])
  fix q assume q: "operator_keyed d q"
  then have "q \<noteq> p" using assms(2,3) by (auto simp: operator_keyed_def)
  then have "filter (\<lambda>r. active_credential q r \<and> active_credential p r) (db_credentials d) = []"
    by (auto simp: filter_empty_conv active_credential_def)
  then have "countActiveCredentials d q \<le> countActiveCredentials (revoke_credentials (active_credential p) now d) q"
    using filter_update_one [of "active_credential q" "db_credentials d" "active_credential p"]
    by (simp add: countActiveCredentials_def tbl_changes_def revoke_credentials_def)
  with q show "operator_keyed (revoke_credentials (active_credential p) now d) q"
    by (auto simp: operator_keyed_def) (simp add: principal_row_def revoke_credentials_def)
qed

definition revoked_db :: "env \<Rightarrow> string \<Rightarrow> string \<Rightarrow> PrincipalRow \<Rightarrow> collab_db \<Rightarrow> collab_db" where
  "revoked_db en caller p t db = insertAudit ''agent_revoked'' caller p (stop_schedules p
     (snd (closeSessionsForPrincipal p PrincipalRevoked (en_clock en 0)
       (revoke_credentials (active_credential p) (en_clock en 0)
         (set_principal p (\<lambda>r. r\<lparr>pr_status := PRevoked, pr_authEpoch := pr_authEpoch t + 1,
            pr_revokedAt := Some (en_clock en 0)\<rparr>) db)))))"

lemma revoke_tx_cases:
  assumes "revoke_tx en caller p db = Inr (r, red, db')"
  obtains t where "principal_row db p = Some t" and "pr_kind t = AgentKind" and "pr_status t = PRevoked" and "db' = db"
  | t where "principal_row db p = Some t" and "pr_kind t = AgentKind" and "pr_status t \<noteq> PRevoked"
      and "db' = revoked_db en caller p t db"
  using assms by (auto simp: revoke_tx_def agent_target Let_def revoked_db_def split: sum.splits if_splits)

lemma revoke_auth:
  assumes "ids_ok db" and "revoke_tx en caller p db = Inr (r, red, db')"
  shows "auth_step db db'"
  using assms(2)
proof (cases rule: revoke_tx_cases)
  case (2 t)
  let ?d = "set_principal p (\<lambda>r. r\<lparr>pr_status := PRevoked, pr_authEpoch := pr_authEpoch t + 1,
      pr_revokedAt := Some (en_clock en 0)\<rparr>) db"
  have d: "auth_step db ?d" using 2 by (intro principal_step [OF assms(1)]) auto
  moreover obtain t' where "principal_row ?d p = Some t'" "pr_kind t' = AgentKind"
    using auth_step_parts(2) [OF d 2(1)] 2(2) by (auto simp: row_step_def)
  ultimately have "auth_step db (revoke_credentials (active_credential p) (en_clock en 0) ?d)"
    using revoke_agent_credentials then_step by blast
  then show ?thesis unfolding 2(4) revoked_db_def by (intro then_effects)
qed (use assms(1) in \<open>simp add: auth_step_refl\<close>)

lemma createAgent_auth:
  assumes "ids_ok db" and "createAgent_tx issue en caller name db = Inr (r, red, db')"
  shows "auth_step db db'"
proof -
  obtain op where op: "getOperatorOrThrow db = Some op"
    using assms(2) by (auto simp: createAgent_tx_def split: option.splits)
  let ?row = "\<lparr>pr_id = en_uuid en 0, pr_kind = AgentKind, pr_displayName = name, pr_owner = Some (pr_id op),
      pr_status = PActive, pr_authEpoch = 1, pr_revokedAt = None\<rparr>"
  let ?d = "db\<lparr>db_principals := db_principals db @ [?row]\<rparr>"
  have fresh: "principal_row db (en_uuid en 0) = None"
    using assms(2) op by (auto simp: createAgent_tx_def Let_def split: if_splits)
  obtain t d where issue: "issueCredentialRow issue (en_uuid en 1) (en_uuid en 0) ?d = Some (t, d)"
    and db': "db' = insertAudit ''credential_created'' caller (en_uuid en 0) d"
    using assms(2) op fresh by (auto simp: createAgent_tx_def Let_def split: option.splits)
  have step: "auth_step db ?d" using assms(1) fresh by (intro new_principal_step) simp_all
  have "principal_row ?d (en_uuid en 0) = Some ?row"
    using fresh by (simp add: principal_row_def tbl_get_snoc)
  then have "auth_step ?d d"
    by (intro issue_step [OF auth_step_parts(1) [OF step] issue]) simp
  with step show ?thesis unfolding db' by (intro then_effects auth_step_trans [OF step])
qed

lemma createCredential_auth:
  assumes "ids_ok db" and "createCredential_tx issue en caller p db = Inr (r, red, db')"
  shows "auth_step db db'"
proof -
  obtain t where t: "principal_row db p = Some t" "pr_status t = PActive"
    using assms(2) by (auto simp: createCredential_tx_def split: option.splits if_splits)
  then obtain k d where issue: "issueCredentialRow issue (en_uuid en 0) p db = Some (k, d)"
    and db': "db' = insertAudit ''credential_created'' caller p d"
    using assms(2) by (auto simp: createCredential_tx_def split: option.splits)
  show ?thesis unfolding db'
    by (intro then_effects issue_step [OF assms(1) issue]) (simp add: t)
qed

lemma operator_keyed_revoke_one:
  assumes "ids_ok d" and "operator_keyed d q"
    and "\<And>c. credential_row d k = Some c \<Longrightarrow> cr_principal c = q \<Longrightarrow> 2 \<le> countActiveCredentials d q"
  shows "operator_keyed (revoke_credentials (\<lambda>r. cr_id r = k) now d) q"
proof -
  let ?e = "revoke_credentials (\<lambda>r. cr_id r = k) now d"
  have u: "key_unique cr_id (db_credentials d)" using assms(1) by (simp add: ids_ok_def)
  have "1 \<le> countActiveCredentials ?e q"
  proof (cases "\<exists>c. credential_row d k = Some c \<and> cr_principal c = q")
    case True
    with assms(3) have "2 \<le> countActiveCredentials d q" by blast
    with revoke_one_count(1) [OF u, of q k now] show ?thesis by linarith
  next
    case False
    then have "countActiveCredentials d q \<le> countActiveCredentials ?e q"
      by (intro revoke_one_count(2) [OF u]) blast
    with assms(2) show ?thesis by (simp add: operator_keyed_def)
  qed
  with assms(2) show ?thesis by (simp add: operator_keyed_def) (simp add: principal_row_def revoke_credentials_def)
qed

lemma rotate_tx_cases:
  assumes "rotate_tx issue en caller p k db = Inr (r, red, db')"
  obtains t c token d where "principal_row db p = Some t" and "credential_row db k = Some c"
    and "active_credential p c" and "pr_kind t = OperatorKind \<Longrightarrow> 2 \<le> countActiveCredentials db p"
    and "issueCredentialRow issue (en_uuid en 0) p db = Some (token, d)"
    and "db' = insertAudit ''credential_revoked'' caller p (insertAudit ''credential_created'' caller p
       (snd (closeSessionsForCredential k CredentialRevoked (en_clock en 0)
         (revoke_credentials (\<lambda>r. cr_id r = k) (en_clock en 0) d))))"
  using assms by (auto simp: rotate_tx_def Let_def not_le split: option.splits if_splits)

lemma rotate_auth:
  assumes ok: "ids_ok db" and "rotate_tx issue en caller p k db = Inr (r, red, db')"
  shows "auth_step db db'"
  using assms(2)
proof (cases rule: rotate_tx_cases)
  case (1 t c token d)
  have "0 < countActiveCredentials db p"
    using 1(2,3) unfolding countActiveCredentials_def tbl_changes_def credential_row_def
    by (metis filter_empty_conv length_greater_0_conv tbl_get_Some)
  then have step: "auth_step db d" by (intro issue_step [OF ok 1(5)]) simp
  obtain c' where c': "d = db\<lparr>db_credentials := db_credentials db @ [c']\<rparr>" "cr_principal c' = p"
    "cr_state c' = CredActive"
    using issue_effects [OF 1(5)] by auto
  have more: "countActiveCredentials d p = Suc (countActiveCredentials db p)"
    by (simp add: countActiveCredentials_def tbl_changes_def c' active_credential_def)
  have cred: "credential_row d k = Some c"
    using 1(2) by (simp add: credential_row_def c'(1) tbl_get_snoc)
  have "auth_step d (revoke_credentials (\<lambda>r. cr_id r = k) (en_clock en 0) d)"
  proof (rule revoke_step [OF auth_step_parts(1) [OF step]], rule operator_keyed_revoke_one [OF auth_step_parts(1) [OF step]])
    fix q x assume "operator_keyed d q" "credential_row d k = Some x" "cr_principal x = q"
    then show "2 \<le> countActiveCredentials d q"
      using cred 1(3) more \<open>0 < countActiveCredentials db p\<close> by (simp add: active_credential_def)
  qed
  with step show ?thesis unfolding 1(6) by (intro then_effects auth_step_trans [OF step])
qed

lemma revokeCredential_tx_cases:
  assumes "revokeCredential_tx en caller k db = Inr (r, red, db')"
  obtains "db' = db"
  | c u where "credential_row db k = Some c" and "principal_row db (cr_principal c) = Some u"
    and "cr_state c = CredActive" and "pr_kind u = OperatorKind \<Longrightarrow> 2 \<le> countActiveCredentials db (cr_principal c)"
    and "db' = insertAudit ''credential_revoked'' caller (pr_id u)
       (snd (closeSessionsForCredential k CredentialRevoked (en_clock en 0)
         (revoke_credentials (\<lambda>r. cr_id r = k) (en_clock en 0) db)))"
proof -
  obtain c where c: "credential_row db k = Some c" using assms by (auto simp: revokeCredential_tx_def split: option.splits)
  obtain u where u: "principal_row db (cr_principal c) = Some u"
    using assms c by (auto simp: revokeCredential_tx_def split: option.splits)
  then have "pr_id u = cr_principal c" by (auto simp: principal_row_def dest: tbl_get_Some)
  show thesis
  proof (cases "cr_state c = CredRevoked")
    case True
    then show thesis using assms c u that(1) by (auto simp: revokeCredential_tx_def Let_def)
  next
    case False
    then have "cr_state c = CredActive" by (cases "cr_state c") simp_all
    then show thesis using assms c u \<open>pr_id u = cr_principal c\<close>
      by (intro that(2) [OF c u]) (auto simp: revokeCredential_tx_def Let_def not_le split: if_splits)
  qed
qed

lemma revokeCredential_auth:
  assumes ok: "ids_ok db" and "revokeCredential_tx en caller k db = Inr (r, red, db')"
  shows "auth_step db db'"
  using assms(2)
proof (cases rule: revokeCredential_tx_cases)
  case (2 c u)
  have "auth_step db (revoke_credentials (\<lambda>r. cr_id r = k) (en_clock en 0) db)"
  proof (rule revoke_step [OF ok], rule operator_keyed_revoke_one [OF ok])
    fix q x assume "operator_keyed db q" "credential_row db k = Some x" "cr_principal x = q"
    then show "2 \<le> countActiveCredentials db q" using 2(1,2,4) by (auto simp: operator_keyed_def)
  qed
  then show ?thesis unfolding 2(5) by (intro then_effects)
qed (use ok in \<open>simp add: auth_step_refl\<close>)

subsection \<open>Every step and every history\<close>

lemma keyed_auth:
  assumes "ids_ok db" and "\<And>r red db'. fn db = Inr (r, red, db') \<Longrightarrow> auth_step db db'"
  shows "auth_step db (fst (runKeyedCommand pf p cmd key body predicate fn db))"
proof (rule runKeyedCommand_cases [of pf p cmd key body predicate fn db])
  fix hash r red db'
  assume tx: "fn db = Inr (r, red, db')" and run: "runKeyedCommand pf p cmd key body predicate fn db
    = (db'\<lparr>db_results := db_results db' @ [\<lparr>mr_principal = p, mr_command = cmd, mr_key = key, mr_hash = hash,
         mr_result = red\<rparr>]\<rparr>, Inr r)"
  have "auth_step db' (db'\<lparr>db_results := x\<rparr>)" if "ids_ok db'" for x by (rule same_auth [OF that]) simp_all
  then show ?thesis using then_step [OF assms(2) [OF tx]] by (simp add: run)
qed (use assms(1) in \<open>simp_all add: auth_step_refl\<close>)

lemma channel_auth: "ids_ok db \<Longrightarrow> auth_step db (run_channel pf en caller cmd db)"
proof (cases "\<exists>c cursor. cmd = Ack c cursor")
  case True
  assume "ids_ok db"
  moreover obtain c cursor where "cmd = Ack c cursor" using True by blast
  moreover have "db_principals d = db_principals db \<and> db_credentials d = db_credentials db
      \<and> db_sessions d = db_sessions db \<and> db_schedules d = db_schedules db"
    if "ack_tx caller c cursor db = Inr (r, d)" for r d c cursor
    using that by (rule ack_tx_effect) simp
  ultimately show ?thesis
    by (intro same_auth)
       (auto simp: ackChannelCursor_def runNaturallyIdempotentCommand_def split: sum.split)
next
  case False
  assume "ids_ok db"
  moreover have "channel_scope db (run_channel pf en caller cmd db)"
    by (rule run_channel_scope) (use False in blast)
  ultimately show ?thesis by (intro same_auth) (simp_all add: channel_scope_def)
qed

lemma open_session_step:
  assumes "ids_ok db" and "createSessionBinding row db = Some d"
  shows "auth_step db d"
proof -
  have d: "d = db\<lparr>db_sessions := db_sessions db @ [row\<lparr>sb_closed := None\<rparr>]\<rparr>"
    using assms(2) by (simp add: createSessionBinding_def split: if_splits)
  then have "keeps_bindings db d" by (simp add: keeps_bindings_def getSessionBinding_def tbl_get_snoc)
  with assms(1) show ?thesis
    by (simp add: auth_step_def keeps_rows_def ids_ok_def principal_row_def d operator_keyed_def
        revoked_keyless_def countActiveCredentials_def unscheduled_def)
qed

lemma auth_collab_step: "ids_ok db \<Longrightarrow> auth_step db (collab_step pf op db)"
proof (induction pf op db rule: collab_step.induct)
  case (1 pf en caller cmd db)
  then show ?case by (simp add: channel_auth)
next
  case (2 pf issue en caller name key db)
  then show ?case using keyed_auth [OF 2 createAgent_auth [OF 2]]
    by (simp add: createAgent_def auth_step_refl split: option.split)
next
  case (3 pf issue en caller p key db)
  then show ?case using keyed_auth [OF 3 createCredential_auth [OF 3]] by (simp add: createPrincipalCredential_def)
next
  case (4 pf en caller p key db)
  then show ?case using keyed_auth [OF 4 suspend_auth [OF 4]] by (simp add: suspendAgent_def)
next
  case (5 pf en caller p key db)
  then show ?case using keyed_auth [OF 5 restore_auth [OF 5]] by (simp add: restoreAgent_def)
next
  case (6 pf en caller p key db)
  then show ?case using keyed_auth [OF 6 revoke_auth [OF 6]] by (simp add: revokeAgent_def)
next
  case (7 pf issue en caller p k key db)
  then show ?case using keyed_auth [OF 7 rotate_auth [OF 7]] by (simp add: rotatePrincipalCredential_def)
next
  case (8 pf en caller k key db)
  then show ?case using keyed_auth [OF 8 revokeCredential_auth [OF 8]] by (simp add: revokePrincipalCredential_def)
next
  case (9 pf row db)
  then show ?case by (auto intro: auth_step_refl open_session_step split: option.split)
next
  case (10 pf now s reason db)
  then show ?case unfolding collab_step.simps closeSessionBinding_def Let_def fst_conv
    by (rule sessions_step) simp
next
  case (11 pf checks live now db)
  then show ?case
    by (auto simp: performStartup_def Let_def intro: auth_step_refl sessions_step split: option.split bool.split)
qed

lemma auth_history: "ids_ok db \<Longrightarrow> auth_step db (fold (collab_step pf) ops db)"
proof (induction ops arbitrary: db)
  case (Cons op ops)
  have "ids_ok (collab_step pf op db)" using auth_collab_step [OF Cons.prems] by (rule auth_step_parts(1))
  from auth_step_trans [OF auth_collab_step [OF Cons.prems] Cons.IH [OF this]] show ?case by simp
qed (simp add: auth_step_refl)

text \<open>A command that stored a result has run its transaction in this call.\<close>

lemma committed_ran:
  assumes "committed db (runKeyedCommand pf p cmd key body predicate fn db)"
  obtains r red d m where "fn db = Inr (r, red, d)"
    and "fst (runKeyedCommand pf p cmd key body predicate fn db) = d\<lparr>db_results := db_results d @ [m]\<rparr>"
proof (rule runKeyedCommand_cases [of pf p cmd key body predicate fn db])
  fix e assume "runKeyedCommand pf p cmd key body predicate fn db = (db, Inl e)"
  then show thesis using assms by (simp add: committed_def)
next
  fix m assume "runKeyedCommand pf p cmd key body predicate fn db = (db, Inr (mr_result m))"
  then show thesis using assms by (simp add: committed_def)
next
  fix hash r red d
  assume "fn db = Inr (r, red, d)" and "runKeyedCommand pf p cmd key body predicate fn db
    = (d\<lparr>db_results := db_results d @ [\<lparr>mr_principal = p, mr_command = cmd, mr_key = key, mr_hash = hash,
         mr_result = red\<rparr>]\<rparr>, Inr r)"
  then show thesis by (intro that [of r red d]) simp_all
qed

lemma auth_step_principal:
  assumes "auth_step db db'" and "principal_row db p = Some r" and "pr_kind r = OperatorKind \<or> pr_status r = PRevoked"
  shows "principal_row db' p = Some r"
  using auth_step_parts(2) [OF assms(1,2)] assms(3) by (auto simp: row_step_def)

text \<open>
  C39. The operator is never locked out. If the ids are unique and an operator has an active credential,
  then after any history of commands, rotations and revocations of credentials included, the operator's
  row is what it was and an active credential of it is left.
\<close>

theorem operator_never_locked_out:
  assumes "ids_ok db" and "principal_row db p = Some r" and "pr_kind r = OperatorKind"
    and "1 \<le> countActiveCredentials db p"
  shows "principal_row (fold (collab_step pf) ops db) p = Some r
    \<and> 1 \<le> countActiveCredentials (fold (collab_step pf) ops db) p"
proof -
  note step = auth_history [OF assms(1), of pf ops]
  have "operator_keyed (fold (collab_step pf) ops db) p"
    using assms by (intro auth_step_parts(4) [OF step]) (simp add: operator_keyed_def)
  then show ?thesis using auth_step_principal [OF step assms(2)] assms(3) by (simp add: operator_keyed_def)
qed

lemma evaluateBase_revoked:
  "getSessionBinding db s = Some b \<Longrightarrow> principal_row db (sb_principal b) = Some r \<Longrightarrow> pr_status r \<noteq> PActive
   \<Longrightarrow> \<not> evaluateBase db s"
  by (simp add: evaluateBase_def split: option.split)

lemma revoked_db_tables:
  "db_principals (revoked_db en caller p t db) = tbl_update (\<lambda>r. pr_id r = p)
     (\<lambda>r. r\<lparr>pr_status := PRevoked, pr_authEpoch := pr_authEpoch t + 1, pr_revokedAt := Some (en_clock en 0)\<rparr>)
     (db_principals db)"
  "db_credentials (revoked_db en caller p t db) = tbl_update (active_credential p)
     (\<lambda>r. r\<lparr>cr_state := CredRevoked, cr_revokedAt := Some (en_clock en 0)\<rparr>) (db_credentials db)"
  "db_schedules (revoked_db en caller p t db) =
     tbl_update (\<lambda>s. sr_agent s = p \<and> sr_active s) (\<lambda>s. s\<lparr>sr_active := False\<rparr>) (db_schedules db)"
  by (simp_all add: revoked_db_def agent_effects Let_def)

lemma revoked_db_revokes:
  assumes "principal_row db p = Some t"
  shows "revoked_keyless (revoked_db en caller p t db) p" and "unscheduled (revoked_db en caller p t db) p"
proof -
  have "\<exists>r. principal_row (revoked_db en caller p t db) p = Some r \<and> pr_status r = PRevoked"
    unfolding principal_row_def revoked_db_tables
    using assms tbl_get_Some [of "\<lambda>r. pr_id r = p" "db_principals db" t]
    by (subst tbl_get_tbl_update) (simp_all add: principal_row_def)
  moreover have "\<not> active_credential p r" if "r \<in> set (db_credentials (revoked_db en caller p t db))" for r
    using that unfolding revoked_db_tables by (rule in_tbl_update) (simp add: active_credential_def split: if_split_asm)
  then have "countActiveCredentials (revoked_db en caller p t db) p = 0"
    by (simp add: countActiveCredentials_def tbl_changes_0)
  ultimately show "revoked_keyless (revoked_db en caller p t db) p" by (simp add: revoked_keyless_def)
  show "unscheduled (revoked_db en caller p t db) p"
    unfolding unscheduled_def revoked_db_tables
  proof
    fix s assume "s \<in> set (tbl_update (\<lambda>s. sr_agent s = p \<and> sr_active s) (\<lambda>s. s\<lparr>sr_active := False\<rparr>) (db_schedules db))"
    then show "sr_agent s = p \<longrightarrow> \<not> sr_active s"
      by (rule in_tbl_update) (simp split: if_split_asm)
  qed
qed

text \<open>What a committed revocation of a not yet revoked agent leaves, in the state right after it.\<close>

lemma revocation_commits:
  assumes "ids_ok db" and "principal_row db p = Some t" and "pr_status t \<noteq> PRevoked"
    and "committed db (revokeAgent pf en caller p key db)"
  shows "revoked_keyless (fst (revokeAgent pf en caller p key db)) p"
    and "unscheduled (fst (revokeAgent pf en caller p key db)) p"
    and "ids_ok (fst (revokeAgent pf en caller p key db))"
    and "map sr_id (filter (\<lambda>s. sr_agent s = p) (db_schedules (fst (revokeAgent pf en caller p key db))))
      = map sr_id (filter (\<lambda>s. sr_agent s = p) (db_schedules db))"
proof -
  obtain r red d m where tx: "revoke_tx en caller p db = Inr (r, red, d)"
    and run: "fst (revokeAgent pf en caller p key db) = d\<lparr>db_results := db_results d @ [m]\<rparr>"
    using assms(4) unfolding revokeAgent_def by (rule committed_ran)
  have d: "d = revoked_db en caller p t db"
    using tx by (cases rule: revoke_tx_cases) (use assms(2,3) in auto)
  have ok: "ids_ok d" using revoke_auth [OF assms(1) tx] by (rule auth_step_parts(1))
  have step: "auth_step d (d\<lparr>db_results := db_results d @ [m]\<rparr>)" by (rule same_auth [OF ok]) simp_all
  show "revoked_keyless (fst (revokeAgent pf en caller p key db)) p"
    "unscheduled (fst (revokeAgent pf en caller p key db)) p"
    using revoked_db_revokes [OF assms(2), of en caller] unfolding d [symmetric] run
    by (simp_all add: auth_step_parts(5,6) [OF step])
  show "ids_ok (fst (revokeAgent pf en caller p key db))" unfolding run using step by (rule auth_step_parts(1))
  have "map sr_id (filter (\<lambda>s. sr_agent s = p)
      (tbl_update (\<lambda>s. sr_agent s = p \<and> sr_active s) (\<lambda>s. s\<lparr>sr_active := False\<rparr>) ss))
    = map sr_id (filter (\<lambda>s. sr_agent s = p) ss)" for ss
    by (induction ss) (simp_all add: tbl_update_def)
  then show "map sr_id (filter (\<lambda>s. sr_agent s = p) (db_schedules (fst (revokeAgent pf en caller p key db))))
      = map sr_id (filter (\<lambda>s. sr_agent s = p) (db_schedules db))"
    unfolding run d by (simp add: revoked_db_tables)
qed

text \<open>The commands that cut sessions: whose sessions, and when the command is no mere replay.\<close>

definition status_is :: "collab_db \<Rightarrow> string \<Rightarrow> (PrincipalStatus \<Rightarrow> bool) \<Rightarrow> bool" where
  "status_is db p P = (case principal_row db p of None \<Rightarrow> False | Some r \<Rightarrow> P (pr_status r))"

fun session_cut :: "collab_op \<Rightarrow> collab_db \<Rightarrow> SessionBindingRow \<Rightarrow> bool" where
  "session_cut (SuspendOp en caller p key) db b = (sb_principal b = p \<and> status_is db p (\<lambda>s. s \<noteq> PSuspended))"
| "session_cut (RestoreOp en caller p key) db b = (sb_principal b = p \<and> status_is db p (\<lambda>s. s \<noteq> PActive))"
| "session_cut (RevokeOp en caller p key) db b = (sb_principal b = p \<and> status_is db p (\<lambda>s. s \<noteq> PRevoked))"
| "session_cut (RotateOp issue en caller p k key) db b = (sb_credential b = k)"
| "session_cut (RevokeCredentialOp en caller k key) db b =
     (sb_credential b = k \<and> (case credential_row db k of None \<Rightarrow> False | Some c \<Rightarrow> cr_state c = CredActive))"
| "session_cut _ db b = False"

definition session_closed :: "collab_db \<Rightarrow> string \<Rightarrow> bool" where
  "session_closed db s = (case getSessionBinding db s of None \<Rightarrow> False | Some b \<Rightarrow> sb_closed b \<noteq> None)"

lemma close_sessions_hit:
  assumes "getSessionBinding d s = Some b" and "P b"
  shows "session_closed (snd (close_sessions P reason now d)) s"
proof -
  have "tbl_get (\<lambda>r. sb_session r = s) (tbl_update (\<lambda>s. P s \<and> sb_closed s = None)
      (\<lambda>s. s\<lparr>sb_closed := Some (now, reason)\<rparr>) (db_sessions d))
    = Some (if P b \<and> sb_closed b = None then b\<lparr>sb_closed := Some (now, reason)\<rparr> else b)"
    using assms(1) by (subst tbl_get_tbl_update) (simp_all add: getSessionBinding_def)
  then show ?thesis using assms(2)
    by (simp add: session_closed_def close_sessions_def Let_def getSessionBinding_def)
qed

lemma session_closed_other:
  "session_closed (insertAudit kind actor subject d) s = session_closed d s"
  "session_closed (stop_schedules p d) s = session_closed d s"
  "session_closed (d\<lparr>db_results := x\<rparr>) s = session_closed d s"
  by (simp_all add: session_closed_def getSessionBinding_def insertAudit_def stop_schedules_def)

lemma same_binding:
  "getSessionBinding (set_principal p f d) s = getSessionBinding d s"
  "getSessionBinding (revoke_credentials P now d) s = getSessionBinding d s"
  "issueCredentialRow issue k p d = Some (t, d') \<Longrightarrow> getSessionBinding d' s = getSessionBinding d s"
  by (auto simp: getSessionBinding_def set_principal_def revoke_credentials_def dest!: issue_effects)

lemma cut_now:
  assumes "getSessionBinding db s = Some b" and "session_cut op db b" and "committed db (collab_step pf op db, ())"
  shows "session_closed (collab_step pf op db) s"
  using assms
proof (induction pf op db rule: collab_step.induct)
  case (4 pf en caller p key db)
  then have "committed db (suspendAgent pf en caller p key db)" by (simp add: committed_def)
  then obtain r red d m where tx: "suspend_tx en caller p db = Inr (r, red, d)"
    and run: "fst (suspendAgent pf en caller p key db) = d\<lparr>db_results := db_results d @ [m]\<rparr>"
    unfolding suspendAgent_def by (rule committed_ran)
  have "session_closed d s"
    using tx 4(1,2) by (auto simp: suspend_tx_def Let_def agent_target status_is_def session_closed_other
        closeSessionsForPrincipal_def split: sum.splits if_splits intro!: close_sessions_hit [of _ _ b]
        same_binding(1) [THEN trans])
  then show ?case by (simp add: run session_closed_other)
next
  case (5 pf en caller p key db)
  then have "committed db (restoreAgent pf en caller p key db)" by (simp add: committed_def)
  then obtain r red d m where tx: "restore_tx en caller p db = Inr (r, red, d)"
    and run: "fst (restoreAgent pf en caller p key db) = d\<lparr>db_results := db_results d @ [m]\<rparr>"
    unfolding restoreAgent_def by (rule committed_ran)
  have "session_closed d s"
    using tx 5(1,2) by (auto simp: restore_tx_def Let_def agent_target status_is_def session_closed_other
        closeSessionsForPrincipal_def split: sum.splits if_splits intro!: close_sessions_hit [of _ _ b]
        same_binding(1) [THEN trans])
  then show ?case by (simp add: run session_closed_other)
next
  case (6 pf en caller p key db)
  then have "committed db (revokeAgent pf en caller p key db)" by (simp add: committed_def)
  then obtain r red d m where tx: "revoke_tx en caller p db = Inr (r, red, d)"
    and run: "fst (revokeAgent pf en caller p key db) = d\<lparr>db_results := db_results d @ [m]\<rparr>"
    unfolding revokeAgent_def by (rule committed_ran)
  have "session_closed d s"
    using tx
  proof (cases rule: revoke_tx_cases)
    case (1 t)
    then show ?thesis using 6(2) by (simp add: status_is_def)
  next
    case (2 t)
    show ?thesis unfolding 2(4) revoked_db_def session_closed_other closeSessionsForPrincipal_def
      using 6(1,2) by (intro close_sessions_hit [of _ _ b]) (simp_all add: same_binding)
  qed
  then show ?case by (simp add: run session_closed_other)
next
  case (7 pf issue en caller p k key db)
  then have "committed db (rotatePrincipalCredential pf issue en caller p k key db)" by (simp add: committed_def)
  then obtain r red d m where tx: "rotate_tx issue en caller p k db = Inr (r, red, d)"
    and run: "fst (rotatePrincipalCredential pf issue en caller p k key db) = d\<lparr>db_results := db_results d @ [m]\<rparr>"
    unfolding rotatePrincipalCredential_def by (rule committed_ran)
  have "session_closed d s"
    using tx
  proof (cases rule: rotate_tx_cases)
    case (1 t c token e)
    show ?thesis unfolding 1(6) session_closed_other closeSessionsForCredential_def
      using 7(1,2) by (intro close_sessions_hit [of _ _ b]) (simp_all add: same_binding(2) same_binding(3) [OF 1(5)])
  qed
  then show ?case by (simp add: run session_closed_other)
next
  case (8 pf en caller k key db)
  then have "committed db (revokePrincipalCredential pf en caller k key db)" by (simp add: committed_def)
  then obtain r red d m where tx: "revokeCredential_tx en caller k db = Inr (r, red, d)"
    and run: "fst (revokePrincipalCredential pf en caller k key db) = d\<lparr>db_results := db_results d @ [m]\<rparr>"
    unfolding revokePrincipalCredential_def by (rule committed_ran)
  obtain c where c: "credential_row db k = Some c" "cr_state c = CredActive"
    using 8(2) by (auto split: option.splits)
  then have d: "d = insertAudit ''credential_revoked'' caller (pr_id (the (principal_row db (cr_principal c))))
      (snd (close_sessions (\<lambda>s. sb_credential s = k) CredentialRevoked (en_clock en 0)
        (revoke_credentials (\<lambda>r. cr_id r = k) (en_clock en 0) db)))"
    using tx by (auto simp: revokeCredential_tx_def Let_def closeSessionsForCredential_def split: option.splits if_splits)
  have "session_closed d s" unfolding d session_closed_other
    using 8(1,2) by (intro close_sessions_hit [of _ _ b]) (simp_all add: same_binding(2))
  then show ?case by (simp add: run session_closed_other)
qed simp_all

text \<open>
  A session that was cut stays cut. When a suspension, restoration or revocation of an agent or a
  rotation or revocation of a credential commits, every session bound to that agent or credential at
  that moment fails the base check from then on, whatever follows: restoring the agent or issuing new
  credentials does not revive it.
\<close>

theorem cut_session_never_revives:
  assumes "ids_ok db" and "getSessionBinding db s = Some b" and "session_cut op db b"
    and "committed db (collab_step pf op db, ())"
  shows "\<not> evaluateBase (fold (collab_step pf) ops (collab_step pf op db)) s"
proof -
  let ?d = "collab_step pf op db" and ?e = "fold (collab_step pf) ops (collab_step pf op db)"
  have step: "auth_step ?d ?e"
    by (intro auth_history auth_step_parts(1) [OF auth_collab_step [OF assms(1)]])
  obtain b' where b': "getSessionBinding ?d s = Some b'" "sb_closed b' \<noteq> None"
    using cut_now [OF assms(2-4)] by (auto simp: session_closed_def split: option.splits)
  then have "getSessionBinding ?e s = Some b'"
    using auth_step_parts(3) [OF step b'(1)] by (auto simp: binding_step_def)
  then show ?thesis using b'(2) by (simp add: evaluateBase_def)
qed

subsection \<open>A concrete agent\<close>

definition demo_agent :: PrincipalRow where
  "demo_agent = \<lparr>pr_id = ''a'', pr_kind = AgentKind, pr_displayName = [97], pr_owner = Some ''o'',
     pr_status = PActive, pr_authEpoch = 1, pr_revokedAt = None\<rparr>"

definition demo_credential :: "string \<Rightarrow> string \<Rightarrow> CredentialRow" where
  "demo_credential k p = \<lparr>cr_id = k, cr_principal = p, cr_secretHmac = [], cr_state = CredActive, cr_revokedAt = None\<rparr>"

definition demo_session :: SessionBindingRow where
  "demo_session = \<lparr>sb_session = ''s'', sb_principal = ''a'', sb_credential = ''ka'', sb_epoch = 1, sb_closed = None\<rparr>"

definition demo_schedule :: "string \<Rightarrow> AgentSchedule" where
  "demo_schedule p = \<lparr>sr_id = ''j'', sr_channel = ''c'', sr_agent = p, sr_creator = ''o'', sr_interval = 60,
     sr_hint = None, sr_active = True, sr_nextSeq = 0, sr_nextAt = 0, sr_lastAt = None, sr_key = ''s''\<rparr>"

definition agent_db :: collab_db where
  "agent_db = (fresh_db [demo_operator, demo_agent] [demo_credential ''ko'' ''o'', demo_credential ''ka'' ''a''])
     \<lparr>db_sessions := [demo_session], db_schedules := [demo_schedule ''a'']\<rparr>"

lemmas agent_eval = agent_db_def demo_schedule_def demo_agent_def demo_operator_def demo_credential_def demo_session_def
  fresh_db_def principal_row_def credential_row_def getSessionBinding_def tbl_get_def

lemma agent_db_ok: "ids_ok agent_db" "principal_row agent_db ''o'' = Some demo_operator"
  "principal_row agent_db ''a'' = Some demo_agent" "countActiveCredentials agent_db ''o'' = 1"
  "getSessionBinding agent_db ''s'' = Some demo_session" "evaluateBase agent_db ''s''"
  "assertOperatorCaller ''o'' agent_db = None" "db_results agent_db = []"
  by (simp_all add: ids_ok_def key_unique_def agent_eval countActiveCredentials_def tbl_changes_def
      active_credential_def evaluateBase_def owner_active_def assertOperatorCaller_def)

lemma runs_committed:
  assumes "requestHash pf body = Some h" and "predicate db = None" and "db_results db = []"
    and "fn db = Inr (r, red, d)"
  shows "committed db (runKeyedCommand pf p cmd key body predicate fn db)"
  using assms by (simp add: runKeyedCommand_def find_result_def tbl_get_def committed_def)

lemma principal_body_hashed: "\<exists>h. requestHash pf (principal_body p) = Some h"
  unfolding principal_body_def by (rule strings_hashed) simp

theorem operator_never_locked_out_witness:
  "1 \<le> countActiveCredentials (collab_step demo_pf (RevokeCredentialOp (demo_env ''x'') ''o'' ''ko'' ''k'') agent_db) ''o''"
  using operator_never_locked_out [OF agent_db_ok(1,2), of demo_pf
      "[RevokeCredentialOp (demo_env ''x'') ''o'' ''ko'' ''k'']"] agent_db_ok(4)
  by (simp add: demo_operator_def del: collab_step.simps)

lemma suspend_commits: "committed agent_db (suspendAgent demo_pf (demo_env ''x'') ''o'' ''a'' ''k'' agent_db)"
proof -
  obtain h where h: "requestHash demo_pf (principal_body ''a'') = Some h" using principal_body_hashed by blast
  have "\<exists>t. suspend_tx (demo_env ''x'') ''o'' ''a'' agent_db = Inr t"
    by (simp add: suspend_tx_def getAgentTargetOrThrow_def agent_db_ok(3) Let_def) (simp add: demo_agent_def)
  then obtain r red d where "suspend_tx (demo_env ''x'') ''o'' ''a'' agent_db = Inr (r, red, d)" by auto
  then show ?thesis unfolding suspendAgent_def
    by (rule runs_committed [where predicate = "assertOperatorCaller ''o''" and db = agent_db, OF h agent_db_ok(7,8)])
qed

lemma revoke_commits: "committed agent_db (revokeAgent demo_pf (demo_env ''x'') ''o'' ''a'' ''k'' agent_db)"
proof -
  obtain h where h: "requestHash demo_pf (principal_body ''a'') = Some h" using principal_body_hashed by blast
  have "\<exists>t. revoke_tx (demo_env ''x'') ''o'' ''a'' agent_db = Inr t"
    by (simp add: revoke_tx_def getAgentTargetOrThrow_def agent_db_ok(3) Let_def) (simp add: demo_agent_def)
  then obtain r red d where "revoke_tx (demo_env ''x'') ''o'' ''a'' agent_db = Inr (r, red, d)" by auto
  then show ?thesis unfolding revokeAgent_def
    by (rule runs_committed [where predicate = "assertOperatorCaller ''o''" and db = agent_db, OF h agent_db_ok(7,8)])
qed

theorem cut_session_never_revives_witness:
  "evaluateBase agent_db ''s'' \<and> \<not> evaluateBase (fold (collab_step demo_pf)
     [RestoreOp (demo_env ''y'') ''o'' ''a'' ''k''] (collab_step demo_pf (SuspendOp (demo_env ''x'') ''o'' ''a'' ''k'') agent_db)) ''s''"
proof -
  have "committed agent_db (collab_step demo_pf (SuspendOp (demo_env ''x'') ''o'' ''a'' ''k'') agent_db, ())"
    using suspend_commits by (simp add: committed_def)
  moreover have "session_cut (SuspendOp (demo_env ''x'') ''o'' ''a'' ''k'') agent_db demo_session"
    by (simp add: status_is_def agent_db_ok(3)) (simp add: demo_session_def demo_agent_def)
  ultimately show ?thesis
    using cut_session_never_revives [OF agent_db_ok(1,5)] agent_db_ok(6) by blast
qed

end
