(* ===== verification/Collab_Delivery.thy ===== *)
theory Collab_Delivery
  imports Collab_Authority Subscriptions
begin

text \<open>
  Delivery and its revalidation: \<open>packages/collab/src/fanout.ts\<close>, \<open>coordinator.ts\<close> and
  the subscription commands of \<open>store.ts\<close>. A world is the database with the registry of
  subscriptions; a method call on a registered object updates its entry. The locks of the source
  order these steps (see the theory of the authorization lock); here every order of steps is allowed.
  Two loops that suspend between their turns are one step each: the fan-out of an event revalidates
  all its candidates against one state of the database, where the code may read a newer state for a
  later candidate, and a mutation commits, closes the subscriptions and sends the close frames at once,
  where the code releases the event loop between these three.
\<close>

subsection \<open>Revalidation\<close>

record RevalidationRowsSnapshot =
  rv_authEpoch :: int
  rv_membershipEpoch :: int
  rv_membershipActive :: bool
  rv_channelEpoch :: int
  rv_channelState :: ChannelState
  rv_principalActive :: bool
  rv_credentialActive :: bool
  rv_ownerActive :: bool

definition readRevalidationSnapshot ::
  "collab_db \<Rightarrow> string \<Rightarrow> string \<Rightarrow> string \<Rightarrow> RevalidationRowsSnapshot option" where
  "readRevalidationSnapshot db channelId principalId credentialId =
     (case principal_row db principalId of
        None \<Rightarrow> None
      | Some who \<Rightarrow>
      case credential_row db credentialId of
        None \<Rightarrow> None
      | Some credential \<Rightarrow>
      case channel_row db channelId of
        None \<Rightarrow> None
      | Some channel \<Rightarrow>
          let member = member_row db channelId principalId
          in Some \<lparr>rv_authEpoch = pr_authEpoch who,
                   rv_membershipEpoch = (case member of None \<Rightarrow> - 1 | Some m \<Rightarrow> mb_epoch m),
                   rv_membershipActive = (case member of None \<Rightarrow> False | Some m \<Rightarrow> mb_state m = MActive),
                   rv_channelEpoch = ch_epoch channel, rv_channelState = ch_state channel,
                   rv_principalActive = (pr_status who = PActive),
                   rv_credentialActive = (cr_state credential = CredActive),
                   rv_ownerActive = owner_active db who\<rparr>)"

definition revalidationPasses :: "RevalidationRowsSnapshot option \<Rightarrow> Subscription \<Rightarrow> bool" where
  "revalidationPasses snapshot sub =
     (case snapshot of
        None \<Rightarrow> False
      | Some r \<Rightarrow>
          let e = sp_epochSnapshot (sb_params sub)
          in if \<not> rv_principalActive r \<or> \<not> rv_credentialActive r \<or> \<not> rv_ownerActive r then False
             else if rv_authEpoch r \<noteq> es_authEpoch e then False
             else if \<not> rv_membershipActive r then False
             else if rv_membershipEpoch r \<noteq> es_membershipEpoch e then False
             else if rv_channelEpoch r \<noteq> es_channelEpoch e then False
             else True)"

definition passes :: "collab_db \<Rightarrow> string \<Rightarrow> Subscription \<Rightarrow> bool" where
  "passes db channelId s = revalidationPasses
     (readRevalidationSnapshot db channelId (sp_principalId (sb_params s)) (sp_credentialId (sb_params s))) s"

subsection \<open>Fan-out\<close>

record CommittedAgentPresence =
  ap_channelId :: string
  ap_principalId :: string
  ap_working :: bool
  ap_since :: "string option"

definition toFrame :: "EventRow \<Rightarrow> string \<Rightarrow> ChannelEventFrame" where
  "toFrame ev i = \<lparr>ce_subscriptionId = i, ce_channelId = ev_channel ev, ce_cursor = show_nat (ev_seq ev),
     ce_event = \<lparr>event_body.ev_id = EventRow.ev_id ev, event_body.ev_kind = kind_text (EventRow.ev_kind ev),
       event_body.ev_actor = EventRow.ev_actor ev, ev_occurredAt = ev_createdAt ev, ev_payload = ev_content ev\<rparr>\<rparr>"

definition toPresenceFrame :: "CommittedAgentPresence \<Rightarrow> string \<Rightarrow> CollabPresenceFrame" where
  "toPresenceFrame ev i = \<lparr>cp_subscriptionId = i, cp_channelId = ap_channelId ev,
     cp_principalId = ap_principalId ev, cp_working = ap_working ev, cp_since = ap_since ev\<rparr>"

definition close_frame :: "int \<Rightarrow> Subscription \<Rightarrow> Subscription" where
  "close_frame now s = (case deliverCloseFrame now s of None \<Rightarrow> s | Some s' \<Rightarrow> s')"

definition fanoutOne :: "int \<Rightarrow> collab_db \<Rightarrow> EventRow \<Rightarrow> Subscription \<Rightarrow> Subscription" where
  "fanoutOne now db ev s =
     (if sub_closed s then s
      else if \<not> passes db (ev_channel ev) s then close_frame now (close_sub AuthorizationLost s)
      else fst (deliverChannelEvent now (toFrame ev (sp_subscriptionId (sb_params s))) (int (ev_seq ev)) s))"

definition fanoutPresenceOne :: "int \<Rightarrow> collab_db \<Rightarrow> CommittedAgentPresence \<Rightarrow> Subscription \<Rightarrow> Subscription" where
  "fanoutPresenceOne now db ev s =
     (if sub_closed s then s
      else if \<not> passes db (ap_channelId ev) s then close_frame now (close_sub AuthorizationLost s)
      else fst (deliverPresence now (toPresenceFrame ev (sp_subscriptionId (sb_params s))) s))"

definition sub_id :: "Subscription \<Rightarrow> string" where
  "sub_id s = sp_subscriptionId (sb_params s)"

definition on_subs :: "string list \<Rightarrow> (Subscription \<Rightarrow> Subscription) \<Rightarrow> SubscriptionRegistry \<Rightarrow> SubscriptionRegistry" where
  "on_subs ids f g = fold (\<lambda>i. on_sub i f) ids g"

definition fanoutToChannel :: "int \<Rightarrow> collab_db \<Rightarrow> EventRow \<Rightarrow> SubscriptionRegistry \<Rightarrow> SubscriptionRegistry" where
  "fanoutToChannel now db ev g =
     (let candidates = filter (\<lambda>s. \<not> sub_closed s \<and> int (ev_seq ev) > sp_rejoinedSeq (sb_params s))
        (forChannel g (ev_channel ev))
      in on_subs (map sub_id candidates) (fanoutOne now db ev) g)"

definition fanoutPresenceToChannel ::
  "int \<Rightarrow> collab_db \<Rightarrow> CommittedAgentPresence \<Rightarrow> SubscriptionRegistry \<Rightarrow> SubscriptionRegistry" where
  "fanoutPresenceToChannel now db ev g =
     (let candidates = filter (\<lambda>s. \<not> sub_closed s) (forChannel g (ap_channelId ev))
      in on_subs (map sub_id candidates) (fanoutPresenceOne now db ev) g)"

subsection \<open>The coordinator\<close>

type_synonym affected = "(string \<times> SubscriptionCloseReason) list"

definition affectedByChannel :: "SubscriptionRegistry \<Rightarrow> string \<Rightarrow> SubscriptionCloseReason \<Rightarrow> affected" where
  "affectedByChannel g c reason = map (\<lambda>s. (sub_id s, reason)) (filter (\<lambda>s. \<not> sub_closed s) (forChannel g c))"

definition affectedByPrincipal ::
  "SubscriptionRegistry \<Rightarrow> string \<Rightarrow> SubscriptionCloseReason \<Rightarrow> string option \<Rightarrow> affected" where
  "affectedByPrincipal g p reason channel = map (\<lambda>s. (sub_id s, reason))
     (filter (\<lambda>s. sp_principalId (sb_params s) = p
        \<and> (case channel of None \<Rightarrow> True | Some c \<Rightarrow> sp_channelId (sb_params s) = c)) (allActive g))"

definition affectedBySession :: "SubscriptionRegistry \<Rightarrow> string \<Rightarrow> SubscriptionCloseReason \<Rightarrow> affected" where
  "affectedBySession g sid reason = map (\<lambda>s. (sub_id s, reason)) (filter (\<lambda>s. \<not> sub_closed s) (forSession g sid))"

record world =
  wd_db :: collab_db
  wd_reg :: SubscriptionRegistry

definition close_affected :: "affected \<Rightarrow> SubscriptionRegistry \<Rightarrow> SubscriptionRegistry" where
  "close_affected a g = fold (\<lambda>(i, reason). on_sub i (close_sub reason)) a g"

text \<open>Commit, then close under the lock, then the close frames; a refused body closes nothing.\<close>

definition runAuthorizationMutation ::
  "int \<Rightarrow> (collab_db \<Rightarrow> collab_db \<times> ('e + 'a)) \<Rightarrow> (collab_db \<Rightarrow> collab_db \<Rightarrow> SubscriptionRegistry \<Rightarrow> affected)
   \<Rightarrow> world \<Rightarrow> world \<times> ('e + 'a)" where
  "runAuthorizationMutation now txBody deriveAffected w =
     (let (db', r) = txBody (wd_db w)
      in case r of
           Inl e \<Rightarrow> (w\<lparr>wd_db := db'\<rparr>, Inl e)
         | Inr result \<Rightarrow>
             let affected = deriveAffected (wd_db w) db' (wd_reg w)
             in (w\<lparr>wd_db := db',
                    wd_reg := on_subs (map fst affected) (close_frame now) (close_affected affected (wd_reg w))\<rparr>,
                 Inr result))"

subsection \<open>The commands of the store on a world\<close>

definition audited :: "collab_db \<Rightarrow> collab_db \<Rightarrow> bool" where
  "audited db db' \<longleftrightarrow> length (db_audit db') \<noteq> length (db_audit db)"

definition appended :: "collab_db \<Rightarrow> collab_db \<Rightarrow> bool" where
  "appended db db' \<longleftrightarrow> length (db_events db') \<noteq> length (db_events db)"

definition credential_sessions :: "collab_db \<Rightarrow> string \<Rightarrow> string list" where
  "credential_sessions db k = map sb_session (filter (\<lambda>b. sb_credential b = k \<and> sb_closed b = None) (db_sessions db))"

text \<open>
  Which subscriptions a committed mutation closes. The flag \<open>effective\<close> of the agent commands is
  set where they write their audit row, that of the channel commands where they append their event.
\<close>

fun affected_by :: "collab_op \<Rightarrow> collab_db \<Rightarrow> collab_db \<Rightarrow> SubscriptionRegistry \<Rightarrow> affected" where
  "affected_by (SuspendOp en caller p key) db db' g =
     (if audited db db' then affectedByPrincipal g p AuthorizationLost None else [])"
| "affected_by (RestoreOp en caller p key) db db' g =
     (if audited db db' then affectedByPrincipal g p AuthorizationLost None else [])"
| "affected_by (RevokeOp en caller p key) db db' g =
     (if audited db db' then affectedByPrincipal g p AuthorizationLost None else [])"
| "affected_by (RotateOp issue en caller p k key) db db' g =
     (if audited db db' then concat (map (\<lambda>s. affectedBySession g s AuthorizationLost) (credential_sessions db k)) else [])"
| "affected_by (RevokeCredentialOp en caller k key) db db' g =
     (if audited db db' then concat (map (\<lambda>s. affectedBySession g s AuthorizationLost) (credential_sessions db k)) else [])"
| "affected_by (ChannelOp en caller (RemoveMember c p key)) db db' g =
     (if appended db db' then affectedByPrincipal g p AuthorizationLost (Some c) else [])"
| "affected_by (ChannelOp en caller (Archive c key)) db db' g =
     (if appended db db' then affectedByChannel g c ChannelArchived else [])"
| "affected_by (ChannelOp en caller (Unarchive c key)) db db' g =
     (if appended db db' then affectedByChannel g c ChannelUnarchived else [])"
| "affected_by _ db db' g = []"

definition commit_op :: "int \<Rightarrow> platform \<Rightarrow> collab_op \<Rightarrow> world \<Rightarrow> world" where
  "commit_op now pf op w = fst (runAuthorizationMutation now
     (\<lambda>db. (collab_step pf op db, Inr () :: unit + unit)) (affected_by op) w)"

fun fans_out :: "collab_op \<Rightarrow> bool" where
  "fans_out (ChannelOp en caller (AddMember c p key)) = True"
| "fans_out (ChannelOp en caller (RemoveMember c p key)) = True"
| "fans_out (ChannelOp en caller (Post c msg key)) = True"
| "fans_out _ = False"

text \<open>The whole command: commit, close, and fan the appended event out after the lock is released.\<close>

definition run_command :: "int \<Rightarrow> platform \<Rightarrow> collab_op \<Rightarrow> world \<Rightarrow> world" where
  "run_command now pf op w =
     (let w' = commit_op now pf op w
      in if fans_out op \<and> appended (wd_db w) (wd_db w')
         then w'\<lparr>wd_reg := fanoutToChannel now (wd_db w') (last (db_events (wd_db w'))) (wd_reg w')\<rparr>
         else w')"

subsection \<open>Subscribing and unsubscribing\<close>

record subscribe_body =
  su_channelId :: string
  su_afterCursor :: string
  su_sessionId :: string
  su_credentialId :: string

text \<open>The critical section: visibility, epochs, high-water mark, registration.\<close>

definition subscribe_open ::
  "string \<Rightarrow> subscribe_body \<Rightarrow> string \<Rightarrow> world \<Rightarrow> CollabErrorCode + world \<times> nat \<times> nat" where
  "subscribe_open caller body i w =
     (case assertChannelVisible caller (su_channelId body) (wd_db w) of
        Inl e \<Rightarrow> Inl e
      | Inr member \<Rightarrow>
      case channel_row (wd_db w) (su_channelId body) of
        None \<Rightarrow> Inl COLLAB_NOT_FOUND
      | Some channel \<Rightarrow>
      case principal_row (wd_db w) caller of
        None \<Rightarrow> Inl PRINCIPAL_NOT_FOUND
      | Some who \<Rightarrow>
      case parseCursor (su_afterCursor body) of
        None \<Rightarrow> Inl INVALID_REQUEST
      | Some requested \<Rightarrow>
          let effectiveAfter = max requested (mb_rejoinedSeq member);
              highWater = getMaxChannelSeq (wd_db w) (su_channelId body);
              params = \<lparr>sp_subscriptionId = i, sp_sessionId = su_sessionId body,
                sp_channelId = su_channelId body, sp_principalId = caller,
                sp_credentialId = su_credentialId body, sp_rejoinedSeq = int (mb_rejoinedSeq member),
                sp_epochSnapshot = \<lparr>es_authEpoch = pr_authEpoch who, es_membershipEpoch = mb_epoch member,
                  es_channelEpoch = ch_epoch channel\<rparr>,
                sp_highWaterCursor = int highWater\<rparr>
          in Inr (w\<lparr>wd_reg := fst (register params (wd_reg w))\<rparr>, effectiveAfter, highWater))"

definition backlog_rows :: "collab_db \<Rightarrow> string \<Rightarrow> nat \<Rightarrow> nat \<Rightarrow> EventRow list" where
  "backlog_rows db c after highWater =
     sort_key ev_seq (filter (\<lambda>e. ev_seq e > after \<and> ev_seq e \<le> highWater) (channel_events db c))"

definition replay_row :: "int \<Rightarrow> string \<Rightarrow> EventRow \<Rightarrow> SubscriptionRegistry \<Rightarrow> SubscriptionRegistry" where
  "replay_row now i ev = on_sub i (\<lambda>s. fst (deliverBacklogEvent now (toFrame ev i) s))"

definition subscribeChannel ::
  "int \<Rightarrow> string \<Rightarrow> subscribe_body \<Rightarrow> string \<Rightarrow> world \<Rightarrow> world \<times> (CollabErrorCode + string \<times> string)" where
  "subscribeChannel now caller body i w =
     (case subscribe_open caller body i w of
        Inl e \<Rightarrow> (w, Inl e)
      | Inr (w1, after, highWater) \<Rightarrow>
          let rows = backlog_rows (wd_db w1) (su_channelId body) after highWater;
              g = on_sub i transitionToLive (fold (replay_row now i) rows (wd_reg w1))
          in (w1\<lparr>wd_reg := g\<rparr>, Inr (i, show_nat highWater)))"

definition unsubscribeChannel ::
  "int \<Rightarrow> string \<Rightarrow> string \<Rightarrow> world \<Rightarrow> world \<times> (CollabErrorCode + string)" where
  "unsubscribeChannel now i sessionId w =
     (case get_sub (wd_reg w) i of
        None \<Rightarrow> (w, Inl COLLAB_NOT_FOUND)
      | Some sub \<Rightarrow>
          if sp_sessionId (sb_params sub) \<noteq> sessionId then (w, Inl COLLAB_NOT_FOUND)
          else if sub_closed sub then (w, Inr i)
          else (w\<lparr>wd_reg := on_sub i (\<lambda>s. close_frame now (close_sub Unsubscribed s)) (wd_reg w)\<rparr>, Inr i))"

definition closeSubscriptionsForSession ::
  "int \<Rightarrow> string \<Rightarrow> SubscriptionCloseReason \<Rightarrow> world \<Rightarrow> world \<times> nat" where
  "closeSubscriptionsForSession now sessionId reason w =
     (let sessionSubs = forSession (wd_reg w) sessionId;
          closedNow = map sub_id (filter (\<lambda>s. \<not> sub_closed s) sessionSubs);
          g = on_subs closedNow (close_sub reason) (wd_reg w)
      in (w\<lparr>wd_reg := fold (\<lambda>i g. remove_sub i (if i \<in> set closedNow then on_sub i (close_frame now) g else g))
              (map sub_id sessionSubs) g\<rparr>,
          length closedNow))"

text \<open>Every interleaving: the parts of the commands as separate steps.\<close>

datatype world_op =
    WCommit int collab_op
  | WFanout int string EventRow
  | WPresence int string CommittedAgentPresence
  | WOpen string subscribe_body string
  | WReplay int string EventRow
  | WLive string
  | WUnsubscribe int string string
  | WSessionEnd int string SubscriptionCloseReason
  | WSlow int string

fun world_step :: "platform \<Rightarrow> world_op \<Rightarrow> world \<Rightarrow> world" where
  "world_step pf (WCommit now op) w = commit_op now pf op w"
| "world_step pf (WFanout now i ev) w = w\<lparr>wd_reg := on_sub i (fanoutOne now (wd_db w) ev) (wd_reg w)\<rparr>"
| "world_step pf (WPresence now i ev) w = w\<lparr>wd_reg := on_sub i (fanoutPresenceOne now (wd_db w) ev) (wd_reg w)\<rparr>"
| "world_step pf (WOpen caller body i) w = (case subscribe_open caller body i w of Inl _ \<Rightarrow> w | Inr r \<Rightarrow> fst r)"
| "world_step pf (WReplay now i ev) w = w\<lparr>wd_reg := replay_row now i ev (wd_reg w)\<rparr>"
| "world_step pf (WLive i) w = w\<lparr>wd_reg := on_sub i transitionToLive (wd_reg w)\<rparr>"
| "world_step pf (WUnsubscribe now i sid) w = fst (unsubscribeChannel now i sid w)"
| "world_step pf (WSessionEnd now sid reason) w = fst (closeSubscriptionsForSession now sid reason w)"
| "world_step pf (WSlow now i) w = w\<lparr>wd_reg := on_sub i (\<lambda>s. fst (checkAndCloseSlowConsumer s now)) (wd_reg w)\<rparr>"

fun opens :: "world_op list \<Rightarrow> string list" where
  "opens [] = []"
| "opens (WOpen _ _ i # ops) = i # opens ops"
| "opens (_ # ops) = opens ops"

subsection \<open>Registered objects change by method calls only\<close>

lemma get_on_sub: "get_sub (on_sub j f g) i = (if i = j then map_option f (get_sub g i) else get_sub g i)"
  by (simp add: get_sub_def on_sub_def om_get_set split: option.split)

definition evolves :: "SubscriptionRegistry \<Rightarrow> SubscriptionRegistry \<Rightarrow> bool" where
  "evolves g g' \<longleftrightarrow> (\<forall>i t. get_sub g' i = Some t \<longrightarrow> (\<exists>s ops. get_sub g i = Some s \<and> t = apply_ops ops s))"

definition method_call :: "(Subscription \<Rightarrow> Subscription) \<Rightarrow> bool" where
  "method_call f \<longleftrightarrow> (\<forall>s. \<exists>ops. f s = apply_ops ops s)"

lemma same_entry: "get_sub g i = Some t \<Longrightarrow> \<exists>s ops. get_sub g i = Some s \<and> t = apply_ops ops s"
  by (intro exI [of _ t] exI [of _ "[]"]) simp

lemma evolves_refl [simp]: "evolves g g"
  unfolding evolves_def by (intro allI impI) (rule same_entry)

lemma evolves_trans:
  assumes "evolves a b" and "evolves b c"
  shows "evolves a c"
  unfolding evolves_def
proof (intro allI impI)
  fix i t assume "get_sub c i = Some t"
  then obtain s ops where s: "get_sub b i = Some s" "t = apply_ops ops s" using assms(2) unfolding evolves_def by blast
  then obtain r ops' where "get_sub a i = Some r" "s = apply_ops ops' r" using assms(1) unfolding evolves_def by blast
  with s(2) have "get_sub a i = Some r \<and> t = apply_ops (ops' @ ops) r" by simp
  then show "\<exists>s ops. get_sub a i = Some s \<and> t = apply_ops ops s" by blast
qed

lemma evolves_on_sub: "method_call f \<Longrightarrow> evolves g (on_sub j f g)"
  unfolding evolves_def
proof (intro allI impI)
  fix i t assume f: "method_call f" and t: "get_sub (on_sub j f g) i = Some t"
  show "\<exists>s ops. get_sub g i = Some s \<and> t = apply_ops ops s"
  proof (cases "i = j")
    case True
    then obtain s where "get_sub g i = Some s" "t = f s" using t by (auto simp: get_on_sub)
    with f show ?thesis unfolding method_call_def by blast
  next
    case False
    then show ?thesis using t by (intro same_entry) (simp add: get_on_sub)
  qed
qed

lemma evolves_fold: "(\<And>x g. x \<in> set xs \<Longrightarrow> evolves g (f x g)) \<Longrightarrow> evolves g (fold f xs g)"
proof (induction xs arbitrary: g)
  case (Cons x xs)
  have "evolves (f x g) (fold f xs (f x g))" by (rule Cons.IH) (rule Cons.prems, simp)
  with Cons.prems [of x g] show ?case by (auto intro: evolves_trans)
qed simp

lemma evolves_on_subs: "method_call f \<Longrightarrow> evolves g (on_subs ids f g)"
  unfolding on_subs_def by (rule evolves_fold) (rule evolves_on_sub)

lemma evolves_remove: "evolves g (remove_sub j g)"
  unfolding evolves_def
proof (intro allI impI)
  fix i t assume "get_sub (remove_sub j g) i = Some t"
  then have "get_sub g i = Some t"
    by (auto simp: get_sub_def remove_sub_def om_get_delete split: option.splits if_splits)
  then show "\<exists>s ops. get_sub g i = Some s \<and> t = apply_ops ops s" by (rule same_entry)
qed

lemma method_callI: "(\<And>s. f s = apply_ops (ops s) s) \<Longrightarrow> method_call f"
  unfolding method_call_def by blast

lemma method_call_comp:
  assumes "method_call f" and "method_call h"
  shows "method_call (\<lambda>s. f (h s))"
  unfolding method_call_def
proof
  fix s
  obtain ops where "h s = apply_ops ops s" using assms(2) unfolding method_call_def by blast
  moreover obtain ops' where "f (h s) = apply_ops ops' (h s)" using assms(1) unfolding method_call_def by blast
  ultimately have "f (h s) = apply_ops (ops @ ops') s" by simp
  then show "\<exists>ops. f (h s) = apply_ops ops s" by blast
qed

lemma method_calls:
  "method_call (close_sub r)" "method_call (close_frame now)" "method_call transitionToLive"
  "method_call (\<lambda>s. fst (deliverBacklogEvent now f s))" "method_call (\<lambda>s. fst (checkAndCloseSlowConsumer s now))"
  "method_call (fanoutOne now db ev)" "method_call (fanoutPresenceOne now db pev)"
proof -
  show "method_call (close_sub r)" by (rule method_callI [of _ "\<lambda>_. [OpClose r]"]) simp
  show "method_call (close_frame now)" by (rule method_callI [of _ "\<lambda>_. [OpCloseFrame now]"]) (simp add: close_frame_def)
  show "method_call transitionToLive" by (rule method_callI [of _ "\<lambda>_. [OpLive]"]) simp
  show "method_call (\<lambda>s. fst (deliverBacklogEvent now f s))" by (rule method_callI [of _ "\<lambda>_. [OpBacklog now f]"]) simp
  show "method_call (\<lambda>s. fst (checkAndCloseSlowConsumer s now))" by (rule method_callI [of _ "\<lambda>_. [OpSlow now]"]) simp
  show "method_call (fanoutOne now db ev)"
    by (rule method_callI [of _ "\<lambda>s. if sub_closed s then []
          else if \<not> passes db (ev_channel ev) s then [OpClose AuthorizationLost, OpCloseFrame now]
          else [OpEvent now (toFrame ev (sp_subscriptionId (sb_params s))) (int (ev_seq ev))]"])
       (simp add: fanoutOne_def close_frame_def)
  show "method_call (fanoutPresenceOne now db pev)"
    by (rule method_callI [of _ "\<lambda>s. if sub_closed s then []
          else if \<not> passes db (ap_channelId pev) s then [OpClose AuthorizationLost, OpCloseFrame now]
          else [OpPresence now (toPresenceFrame pev (sp_subscriptionId (sb_params s)))]"])
       (simp add: fanoutPresenceOne_def close_frame_def)
qed

lemma evolves_close_affected: "evolves g (close_affected a g)"
  unfolding close_affected_def
  by (rule evolves_fold) (auto simp: case_prod_beta intro: evolves_on_sub method_calls)

lemma commit_op_eq:
  "commit_op now pf op w = (let db' = collab_step pf op (wd_db w); a = affected_by op (wd_db w) db' (wd_reg w)
     in w\<lparr>wd_db := db', wd_reg := on_subs (map fst a) (close_frame now) (close_affected a (wd_reg w))\<rparr>)"
  by (simp add: commit_op_def runAuthorizationMutation_def Let_def)

lemma evolves_commit: "evolves (wd_reg w) (wd_reg (commit_op now pf op w))"
  unfolding commit_op_eq Let_def
  by (auto intro: evolves_trans [OF evolves_close_affected] evolves_on_subs method_calls)

lemma evolves_step:
  assumes "\<And>caller body i. op \<noteq> WOpen caller body i"
  shows "evolves (wd_reg w) (wd_reg (world_step pf op w))"
proof (cases op)
  case (WCommit now op)
  then show ?thesis by (simp add: evolves_commit)
next
  case (WReplay now i ev)
  then show ?thesis by (simp add: replay_row_def evolves_on_sub method_calls)
next
  case (WUnsubscribe now i sid)
  have "method_call (\<lambda>s. close_frame now (close_sub Unsubscribed s))"
    by (rule method_call_comp [OF method_calls(2,1)])
  then have "evolves (wd_reg w) (on_sub i (\<lambda>s. close_frame now (close_sub Unsubscribed s)) (wd_reg w))"
    by (rule evolves_on_sub)
  then show ?thesis by (simp add: WUnsubscribe unsubscribeChannel_def split: option.split)
next
  case (WSessionEnd now sid reason)
  have part: "evolves g (remove_sub i (if P then on_sub i (close_frame now) g else g))" for i g P
    by (cases P) (simp_all add: evolves_remove evolves_trans [OF evolves_on_sub evolves_remove] method_calls)
  have "evolves g (fold (\<lambda>i g. remove_sub i (if P i then on_sub i (close_frame now) g else g)) is (on_subs js (close_sub reason) g))"
    for P "is" js g
    by (rule evolves_trans [OF evolves_on_subs evolves_fold]) (rule method_calls, rule part)
  then show ?thesis unfolding WSessionEnd world_step.simps closeSubscriptionsForSession_def Let_def fst_conv by simp
qed (use assms in \<open>auto intro: evolves_on_sub method_calls\<close>)

text \<open>Opening a subscription replaces the entry of its own id only.\<close>

lemma get_register: "i \<noteq> sp_subscriptionId p \<Longrightarrow> get_sub (fst (register p g)) i = get_sub g i"
  by (simp add: register_def Let_def get_sub_def om_get_set)

lemma entry_step:
  assumes "i \<notin> set (opens [op])" and "get_sub (wd_reg (world_step pf op w)) i = Some t"
  shows "\<exists>s ops. get_sub (wd_reg w) i = Some s \<and> t = apply_ops ops s"
proof (cases "\<exists>caller body j. op = WOpen caller body j")
  case True
  then obtain caller body j where op: "op = WOpen caller body j" by blast
  then have "i \<noteq> j" using assms(1) by simp
  then have "get_sub (wd_reg (world_step pf op w)) i = get_sub (wd_reg w) i"
    by (auto simp: op subscribe_open_def Let_def get_register split: sum.split option.split)
  with assms(2) show ?thesis by (intro same_entry) simp
next
  case False
  then have "evolves (wd_reg w) (wd_reg (world_step pf op w))" by (intro evolves_step) blast
  with assms(2) show ?thesis by (simp add: evolves_def)
qed

lemma opens_Cons: "opens (op # ops) = opens [op] @ opens ops"
  by (cases op) simp_all

lemma entry_history:
  assumes "i \<notin> set (opens ops)" and "get_sub (wd_reg (fold (world_step pf) ops w)) i = Some t"
  shows "\<exists>s calls. get_sub (wd_reg w) i = Some s \<and> t = apply_ops calls s"
  using assms
proof (induction ops arbitrary: w)
  case Nil
  then show ?case by (intro same_entry) simp
next
  case (Cons op ops)
  have "i \<notin> set (opens ops)" "i \<notin> set (opens [op])"
    using Cons.prems(1) by (simp_all add: opens_Cons [of op ops])
  with Cons.IH [of "world_step pf op w"] Cons.prems(2)
  obtain s calls where s: "get_sub (wd_reg (world_step pf op w)) i = Some s" "t = apply_ops calls s" by auto
  obtain s0 calls0 where "get_sub (wd_reg w) i = Some s0" "s = apply_ops calls0 s0"
    using entry_step [OF \<open>i \<notin> set (opens [op])\<close> s(1)] by blast
  then have "t = apply_ops (calls0 @ calls) s0" using s(2) by simp
  with \<open>get_sub (wd_reg w) i = Some s0\<close> show ?case by blast
qed

subsection \<open>Fan-out reaches exactly the authorized subscriptions\<close>

text \<open>A registry whose indexes are exact and whose objects carry their own key.\<close>

definition reg_keyed :: "SubscriptionRegistry \<Rightarrow> bool" where
  "reg_keyed g \<longleftrightarrow> reg_ok g \<and> (\<forall>(i, s) \<in> set (rg_byId g). sub_id s = i)"

lemma om_set_present:
  "om_wf m \<Longrightarrow> om_get m i = Some v \<Longrightarrow> om_set i x m = map (\<lambda>(j, s). (j, if j = i then x else s)) m"
proof (induction i x m rule: om_set.induct)
  case (2 k v k' v' m)
  show ?case
  proof (cases "k = k'")
    case True
    have "map (\<lambda>(j, s). (j, if j = k then v else s)) m = m"
      using 2(2) True by (intro map_idI) (force simp: om_wf_def)
    with True show ?thesis by simp
  next
    case False
    then show ?thesis using 2 by (simp add: om_wf_def)
  qed
qed simp

lemma byId_on_sub:
  assumes "om_wf (rg_byId g)"
  shows "rg_byId (on_sub i f g) = map (\<lambda>(j, s). (j, if j = i then f s else s)) (rg_byId g)"
proof (cases "om_get (rg_byId g) i")
  case None
  then have "i \<notin> fst ` set (rg_byId g)" by (simp add: map_of_eq_None_iff)
  then have "map (\<lambda>(j, s). (j, if j = i then f s else s)) (rg_byId g) = rg_byId g"
    by (intro map_idI) force
  with None show ?thesis by (simp add: on_sub_def)
next
  case (Some x)
  then have "s = x" if "(i, s) \<in> set (rg_byId g)" for s
    using that om_get_entry [OF assms] by force
  then show ?thesis using Some om_set_present [OF assms Some] by (force simp: on_sub_def)
qed

lemma byId_on_subs:
  assumes "om_wf (rg_byId g)" and "distinct ids"
  shows "rg_byId (on_subs ids f g) = map (\<lambda>(j, s). (j, if j \<in> set ids then f s else s)) (rg_byId g)"
  using assms
proof (induction ids arbitrary: g)
  case (Cons i ids)
  have wf: "om_wf (rg_byId (on_sub i f g))"
    using Cons.prems(1) by (simp add: byId_on_sub om_wf_def comp_def case_prod_beta)
  show ?case
    using Cons.IH [OF wf] Cons.prems
    by (simp add: on_subs_def byId_on_sub comp_def case_prod_beta)
qed (simp add: on_subs_def)

lemma candidates_ids:
  assumes "reg_keyed g"
  shows "map sub_id (filter P (forChannel g c))
    = map fst (filter (\<lambda>(i, s). sp_channelId (sb_params s) = c \<and> P s) (rg_byId g))"
proof -
  have f: "forChannel g c = filter (\<lambda>s. sp_channelId (sb_params s) = c) (all_subs g)"
    using assms by (simp add: reg_keyed_def reg_ok_def forChannel_def lookup_exact)
  have ids: "map sub_id (filter P (filter (\<lambda>s. sp_channelId (sb_params s) = c) (map snd es)))
      = map fst (filter (\<lambda>(i, s). sp_channelId (sb_params s) = c \<and> P s) es)"
    if "\<forall>(i, s) \<in> set es. sub_id s = i" for es
    using that
  proof (induction es)
    case (Cons e es)
    then show ?case by (cases e) simp
  qed simp
  show ?thesis unfolding f all_subs_def by (rule ids) (use assms in \<open>simp add: reg_keyed_def\<close>)
qed

text \<open>What it takes to be sent an event of a channel, told from the rows.\<close>

definition authorized_now :: "collab_db \<Rightarrow> string \<Rightarrow> Subscription \<Rightarrow> bool" where
  "authorized_now db c s =
     (case (principal_row db (sp_principalId (sb_params s)), credential_row db (sp_credentialId (sb_params s)),
            channel_row db c, member_row db c (sp_principalId (sb_params s))) of
        (Some who, Some cred, Some ch, Some m) \<Rightarrow>
          pr_status who = PActive \<and> cr_state cred = CredActive \<and> owner_active db who \<and> mb_state m = MActive
          \<and> es_authEpoch (sp_epochSnapshot (sb_params s)) = pr_authEpoch who
          \<and> es_membershipEpoch (sp_epochSnapshot (sb_params s)) = mb_epoch m
          \<and> es_channelEpoch (sp_epochSnapshot (sb_params s)) = ch_epoch ch
      | _ \<Rightarrow> False)"

lemma passes_authorized: "passes db c s \<longleftrightarrow> authorized_now db c s"
  by (auto simp: passes_def revalidationPasses_def readRevalidationSnapshot_def authorized_now_def Let_def
      split: option.split)

definition in_fanout :: "EventRow \<Rightarrow> Subscription \<Rightarrow> bool" where
  "in_fanout ev s \<longleftrightarrow> sp_channelId (sb_params s) = ev_channel ev \<and> \<not> sub_closed s
     \<and> sp_rejoinedSeq (sb_params s) < int (ev_seq ev)"

text \<open>
  C13. Fan-out is exact. Fanning a committed event out changes precisely the open subscriptions of its
  channel whose rejoin point lies before it: each is offered the event once when its principal, its
  credential and its owner are active, its membership is active and all three epochs are those it
  subscribed under, and is otherwise closed with the close frame as its last frame; every other entry
  of the registry stays as it is, and the order of the entries too.
\<close>

theorem fanout_exact:
  assumes "reg_keyed g"
  shows "rg_byId (fanoutToChannel now db ev g) = map (\<lambda>(i, s).
    (i, if \<not> in_fanout ev s then s
        else if authorized_now db (ev_channel ev) s
        then fst (deliverChannelEvent now (toFrame ev i) (int (ev_seq ev)) s)
        else s\<lparr>sb_state := Closed, sb_closeReason := Some AuthorizationLost, sb_queue := [],
               sb_sink := sb_sink s @ [queued now (SubscriptionClosed
                 \<lparr>sc_subscriptionId = i, sc_reason = AuthorizationLost\<rparr>)]\<rparr>)) (rg_byId g)"
proof -
  let ?P = "\<lambda>s. \<not> sub_closed s \<and> int (ev_seq ev) > sp_rejoinedSeq (sb_params s)"
  let ?ids = "map fst (filter (\<lambda>(i, s). sp_channelId (sb_params s) = ev_channel ev \<and> ?P s) (rg_byId g))"
  have wf: "om_wf (rg_byId g)" using assms by (simp add: reg_keyed_def reg_ok_def)
  then have d: "distinct ?ids" by (simp add: om_wf_def distinct_map_filter)
  have m: "i \<in> set ?ids \<longleftrightarrow> in_fanout ev s" if "(i, s) \<in> set (rg_byId g)" for i s
    using that om_get_entry [OF wf] by (force simp: in_fanout_def)
  have one: "fanoutOne now db ev s = (if authorized_now db (ev_channel ev) s
      then fst (deliverChannelEvent now (toFrame ev i) (int (ev_seq ev)) s)
      else s\<lparr>sb_state := Closed, sb_closeReason := Some AuthorizationLost, sb_queue := [],
             sb_sink := sb_sink s @ [queued now (SubscriptionClosed
               \<lparr>sc_subscriptionId = i, sc_reason = AuthorizationLost\<rparr>)]\<rparr>)"
    if "in_fanout ev s" "sub_id s = i" for i s
    using that by (auto simp: fanoutOne_def in_fanout_def passes_authorized close_frame_def close_sub_def
        deliverCloseFrame_def sink_write_def sub_closed_def sub_id_def)
  have "rg_byId (fanoutToChannel now db ev g)
      = map (\<lambda>(i, s). (i, if i \<in> set ?ids then fanoutOne now db ev s else s)) (rg_byId g)"
    unfolding fanoutToChannel_def Let_def candidates_ids [OF assms] by (rule byId_on_subs [OF wf d])
  also have "\<dots> = map (\<lambda>(i, s). (i, if \<not> in_fanout ev s then s else fanoutOne now db ev s)) (rg_byId g)"
    by (rule map_cong [OF refl]) (use m in \<open>auto simp del: set_map\<close>)
  finally show ?thesis
    using one assms by (auto simp: reg_keyed_def intro!: map_cong)
qed

subsection \<open>A committed mutation silences\<close>

text \<open>Whose subscriptions a mutation ends, when it took effect, and the reason they are given.\<close>

fun severs :: "collab_op \<Rightarrow> collab_db \<Rightarrow> Subscription \<Rightarrow> bool" where
  "severs (SuspendOp en caller p key) db s = (sp_principalId (sb_params s) = p)"
| "severs (RestoreOp en caller p key) db s = (sp_principalId (sb_params s) = p)"
| "severs (RevokeOp en caller p key) db s = (sp_principalId (sb_params s) = p)"
| "severs (RotateOp issue en caller p k key) db s = (sp_sessionId (sb_params s) \<in> set (credential_sessions db k))"
| "severs (RevokeCredentialOp en caller k key) db s = (sp_sessionId (sb_params s) \<in> set (credential_sessions db k))"
| "severs (ChannelOp en caller (RemoveMember c p key)) db s =
     (sp_principalId (sb_params s) = p \<and> sp_channelId (sb_params s) = c)"
| "severs (ChannelOp en caller (Archive c key)) db s = (sp_channelId (sb_params s) = c)"
| "severs (ChannelOp en caller (Unarchive c key)) db s = (sp_channelId (sb_params s) = c)"
| "severs _ db s = False"

fun took_effect :: "collab_op \<Rightarrow> collab_db \<Rightarrow> collab_db \<Rightarrow> bool" where
  "took_effect (ChannelOp en caller cmd) db db' = appended db db'"
| "took_effect _ db db' = audited db db'"

fun sever_reason :: "collab_op \<Rightarrow> SubscriptionCloseReason" where
  "sever_reason (ChannelOp en caller (Archive c key)) = ChannelArchived"
| "sever_reason (ChannelOp en caller (Unarchive c key)) = ChannelUnarchived"
| "sever_reason _ = AuthorizationLost"

lemma session_subs:
  "reg_keyed g \<Longrightarrow> forSession g sid = filter (\<lambda>s. sp_sessionId (sb_params s) = sid) (all_subs g)"
  by (simp add: reg_keyed_def reg_ok_def forSession_def lookup_exact)

lemma channel_subs:
  "reg_keyed g \<Longrightarrow> forChannel g c = filter (\<lambda>s. sp_channelId (sb_params s) = c) (all_subs g)"
  by (simp add: reg_keyed_def reg_ok_def forChannel_def lookup_exact)

lemma severed_listed:
  assumes "reg_keyed g" and "s \<in> set (all_subs g)" and "\<not> sub_closed s"
    and "severs op db s" and "took_effect op db db'"
  shows "(sub_id s, sever_reason op) \<in> set (affected_by op db db' g)"
  using assms
  by (cases "(op, db, db', g)" rule: affected_by.cases)
     (auto simp: affectedByPrincipal_def affectedByChannel_def affectedBySession_def allActive_def
       session_subs channel_subs)

lemma affected_reasons: "(i, r) \<in> set (affected_by op db db' g) \<Longrightarrow> r = sever_reason op"
  by (cases "(op, db, db', g)" rule: affected_by.cases)
     (auto simp: affectedByPrincipal_def affectedByChannel_def affectedBySession_def split: if_splits)

lemma close_affected_get:
  assumes "\<forall>(j, q) \<in> set a. q = r" and "get_sub g i = Some s"
  shows "get_sub (close_affected a g) i = Some (if i \<in> fst ` set a then close_sub r s else s)"
  using assms
proof (induction a arbitrary: g s)
  case (Cons x a)
  obtain j where x: "x = (j, r)" using Cons.prems(1) by (cases x) auto
  have again: "close_sub r (close_sub r s) = close_sub r s" by (simp add: close_sub_def)
  have "get_sub (on_sub j (close_sub r) g) i = Some (if i = j then close_sub r s else s)"
    using Cons.prems(2) by (cases "i = j") (simp_all add: get_on_sub)
  then have "get_sub (close_affected a (on_sub j (close_sub r) g)) i
      = Some (if i \<in> fst ` set a then close_sub r (if i = j then close_sub r s else s)
              else (if i = j then close_sub r s else s))"
    by (rule Cons.IH [rotated]) (use Cons.prems(1) in simp)
  then show ?case by (simp add: close_affected_def x again)
qed (simp add: close_affected_def)

text \<open>
  C7. A committed mutation silences at once and for good. When a removal of a member, an archiving or
  unarchiving of a channel, a suspension, restoration or revocation of an agent, or a rotation or
  revocation of a credential takes effect, every open subscription it ends is closed in the same step,
  and whatever steps follow in whatever order, fan-outs already under way and backlog replay included,
  the subscription's sink receives nothing more but its own close frame with the reason of the mutation.
\<close>

theorem mutation_silences:
  assumes "reg_keyed (wd_reg w)" and "get_sub (wd_reg w) i = Some s" and "\<not> sub_closed s"
    and "severs op (wd_db w) s" and "took_effect op (wd_db w) (collab_step pf op (wd_db w))"
    and "i \<notin> set (opens ops)"
    and "get_sub (wd_reg (fold (world_step pf) ops (commit_op now pf op w))) i = Some t"
  shows "sub_closed t \<and> sb_closeReason t = Some (sever_reason op)
    \<and> (\<exists>ws. sb_sink t = sb_sink s @ ws \<and> list_all (\<lambda>q. q_frame q = SubscriptionClosed
         \<lparr>sc_subscriptionId = i, sc_reason = sever_reason op\<rparr>) ws)"
proof -
  let ?g = "wd_reg w" and ?r = "sever_reason op"
  let ?a = "affected_by op (wd_db w) (collab_step pf op (wd_db w)) ?g"
  have entry: "(i, s) \<in> set (rg_byId ?g)"
    using assms(1,2) by (simp add: reg_keyed_def reg_ok_def get_sub_def om_get_entry)
  then have id: "sub_id s = i" using assms(1) unfolding reg_keyed_def by blast
  have "s \<in> set (all_subs ?g)" using entry by (force simp: all_subs_def)
  then have "(i, ?r) \<in> set ?a" using severed_listed [OF assms(1) _ assms(3-5)] id by simp
  moreover have "\<forall>(j, q) \<in> set ?a. q = ?r" using affected_reasons by fast
  moreover have "i \<in> fst ` set ?a" using \<open>(i, ?r) \<in> set ?a\<close> by force
  ultimately have closed: "get_sub (close_affected ?a ?g) i = Some (close_sub ?r s)"
    using close_affected_get [OF _ assms(2), of ?a ?r] by presburger
  have "wd_reg (commit_op now pf op w) = on_subs (map fst ?a) (close_frame now) (close_affected ?a ?g)"
    by (simp add: commit_op_eq Let_def)
  then have "evolves (close_affected ?a ?g) (wd_reg (commit_op now pf op w))"
    by (simp only: evolves_on_subs [OF method_calls(2)])
  moreover obtain u calls where u: "get_sub (wd_reg (commit_op now pf op w)) i = Some u" "t = apply_ops calls u"
    using entry_history [OF assms(6,7)] by blast
  ultimately obtain calls' where "u = apply_ops calls' (close_sub ?r s)"
    using closed unfolding evolves_def by (metis option.inject)
  then have t: "t = apply_ops (calls' @ calls) (close_sub ?r s)" using u(2) by simp
  have c: "sb_state (close_sub ?r s) = Closed" "sb_queue (close_sub ?r s) = []"
    "sb_closeReason (close_sub ?r s) = Some ?r" "sb_sink (close_sub ?r s) = sb_sink s"
    "sb_params (close_sub ?r s) = sb_params s"
    using assms(3) by (simp_all add: close_sub_def sub_closed_def)
  show ?thesis
    using closed_run [OF c(1-3), of "calls' @ calls"] id unfolding t c(4,5)
    by (auto simp: sub_closed_def sub_id_def list_all_iff)
qed

subsection \<open>A concrete world\<close>

definition demo_params :: SubscriptionParams where
  "demo_params = \<lparr>sp_subscriptionId = ''s1'', sp_sessionId = ''s'', sp_channelId = ''c'', sp_principalId = ''a'',
     sp_credentialId = ''ka'', sp_rejoinedSeq = 0,
     sp_epochSnapshot = \<lparr>es_authEpoch = 1, es_membershipEpoch = 1, es_channelEpoch = 1\<rparr>, sp_highWaterCursor = 0\<rparr>"

definition demo_world :: world where
  "demo_world = \<lparr>wd_db = agent_db, wd_reg = fst (register demo_params empty_registry)\<rparr>"

lemma demo_registry:
  "wd_reg demo_world = \<lparr>rg_byId = [(''s1'', new_subscription demo_params)], rg_byChannel = [(''c'', [''s1''])],
     rg_bySession = [(''s'', [''s1''])]\<rparr>"
  by (simp add: demo_world_def register_def Let_def empty_registry_def index_add_def set_add_def demo_params_def)

lemma demo_keyed: "reg_keyed (wd_reg demo_world)"
  by (simp add: demo_registry reg_keyed_def reg_ok_def om_wf_def index_exact_def ids_of_def sub_id_def
      new_subscription_def demo_params_def)

definition demo_suspend :: collab_op where
  "demo_suspend = SuspendOp (demo_env ''x'') ''o'' ''a'' ''k''"

lemma demo_suspend_audited: "audited agent_db (collab_step demo_pf demo_suspend agent_db)"
proof -
  obtain h where h: "requestHash demo_pf (principal_body ''a'') = Some h" using principal_body_hashed by blast
  have "\<exists>r red d. suspend_tx (demo_env ''x'') ''o'' ''a'' agent_db = Inr (r, red, d) \<and> length (db_audit d) = 1"
    by (simp add: suspend_tx_def getAgentTargetOrThrow_def agent_db_ok(3) Let_def)
       (simp add: demo_agent_def agent_effects Let_def agent_db_def fresh_db_def)
  then obtain r red d where "suspend_tx (demo_env ''x'') ''o'' ''a'' agent_db = Inr (r, red, d)" "length (db_audit d) = 1"
    by blast
  moreover have "db_audit agent_db = []" by (simp add: agent_db_def fresh_db_def)
  ultimately show ?thesis
    using h by (simp add: demo_suspend_def suspendAgent_def runKeyedCommand_def agent_db_ok(7,8) find_result_def
        tbl_get_def audited_def)
qed

theorem mutation_silences_witness:
  "\<exists>t. get_sub (wd_reg (fold (world_step demo_pf) [] (commit_op 7 demo_pf demo_suspend demo_world))) ''s1'' = Some t
     \<and> sub_closed t \<and> sb_closeReason t = Some AuthorizationLost"
proof -
  have a: "affected_by demo_suspend agent_db (collab_step demo_pf demo_suspend agent_db) (wd_reg demo_world)
      = [(''s1'', AuthorizationLost)]"
    using demo_suspend_audited
    by (simp add: demo_suspend_def affectedByPrincipal_def allActive_def all_subs_def demo_registry
        new_subscription_def sub_closed_def demo_params_def sub_id_def del: collab_step.simps)
  have db: "wd_db demo_world = agent_db" by (simp add: demo_world_def)
  obtain t where t: "get_sub (wd_reg (commit_op 7 demo_pf demo_suspend demo_world)) ''s1'' = Some t"
    unfolding commit_op_eq Let_def db a
    by (simp add: on_subs_def close_affected_def get_on_sub del: collab_step.simps)
      (simp add: demo_registry get_sub_def)
  have "get_sub (wd_reg demo_world) ''s1'' = Some (new_subscription demo_params)"
    by (simp add: demo_registry get_sub_def)
  moreover have "\<not> sub_closed (new_subscription demo_params)" by (simp add: sub_closed_def new_subscription_def)
  moreover have "severs demo_suspend (wd_db demo_world) (new_subscription demo_params)"
    by (simp add: demo_suspend_def new_subscription_def demo_params_def)
  moreover have "took_effect demo_suspend (wd_db demo_world) (collab_step demo_pf demo_suspend (wd_db demo_world))"
    using demo_suspend_audited by (simp add: db demo_suspend_def del: collab_step.simps)
  ultimately have "sub_closed t \<and> sb_closeReason t = Some (sever_reason demo_suspend)"
    using mutation_silences [OF demo_keyed, of "''s1''" _ demo_suspend demo_pf "[]" 7 t] t
    by (simp del: collab_step.simps)
  then show ?thesis using t by (simp add: demo_suspend_def)
qed

theorem fanout_exact_witness:
  "sb_closeReason (snd (hd (rg_byId (fanoutToChannel 7 agent_db \<lparr>EventRow.ev_id = ''e'', ev_channel = ''c'',
     ev_seq = 1, EventRow.ev_actor = ''o'', EventRow.ev_kind = message_posted, ev_content = JNull,
     ev_createdAt = ''t''\<rparr> (wd_reg demo_world))))) = Some AuthorizationLost"
  unfolding fanout_exact [OF demo_keyed]
  by (simp add: demo_registry in_fanout_def authorized_now_def new_subscription_def demo_params_def sub_closed_def
      agent_eval channel_row_def)

end
