(* ===== verification/Collab_Turns.thy ===== *)
theory Collab_Turns
  imports Collab_Channels Collab_Agents "HOL-Library.Char_ord" "HOL-Library.List_Lexorder"
begin

text \<open>
  Agent turns: the trigger resolver, the claim, lease and resolution of a turn and the STOP control
  of \<open>packages/collab/src/autoReply.ts\<close>, with \<open>claimAgentTurn\<close> and
  \<open>commitAgentTurnOutput\<close> of \<open>store.ts\<close> and the persona envelope both carry. Of the
  column \<open>resolved_at\<close> only whether it is set is ever read; \<open>dispatched_at\<close> is an
  instant in milliseconds.
\<close>

subsection \<open>The persona envelope\<close>

definition utf16_length :: "text_cp \<Rightarrow> nat" where
  "utf16_length t = sum_list (map (\<lambda>c. if 65536 \<le> c then 2 else 1) t)"

definition forbidden_directive :: "nat \<Rightarrow> bool" where
  "forbidden_directive c \<longleftrightarrow> c \<le> 8 \<or> c = 11 \<or> c = 12 \<or> (14 \<le> c \<and> c \<le> 31) \<or> (127 \<le> c \<and> c \<le> 159)
     \<or> c = 1564 \<or> c = 8206 \<or> c = 8207 \<or> (8234 \<le> c \<and> c \<le> 8238) \<or> (8294 \<le> c \<and> c \<le> 8297)"

definition normalizeSystemDirectives :: "platform \<Rightarrow> text_cp \<Rightarrow> text_cp option" where
  "normalizeSystemDirectives pf raw =
     (let t = trim_cp (pf_nfc pf raw)
      in if utf16_length t > 4000 then None
         else if list_ex forbidden_directive t then None else Some t)"

definition hex_byte :: "nat \<Rightarrow> string" where
  "hex_byte b = [digit_char (b div 16), digit_char (b mod 16)]"

text \<open>The hex digest of a text.\<close>

definition sha_hex :: "platform \<Rightarrow> text_cp \<Rightarrow> string" where
  "sha_hex pf t = concat (map hex_byte (pf_sha pf (utf8 t)))"

text \<open>An envelope; its version is the literal 1.\<close>

record AgentPersonaEnvelope =
  ae_content :: text_cp
  ae_revision :: int
  ae_sha :: string

definition envelope_fields :: "AgentPersonaEnvelope \<Rightarrow> PersonaFields" where
  "envelope_fields e = \<lparr>pe_version = Some 1, pe_content = Some (ae_content e),
     pe_revision = Some (ae_revision e), pe_sha = Some (ae_sha e)\<rparr>"

definition no_persona :: PersonaFields where
  "no_persona = \<lparr>pe_version = None, pe_content = None, pe_revision = None, pe_sha = None\<rparr>"

definition mintPersonaEnvelope :: "platform \<Rightarrow> text_cp \<Rightarrow> int \<Rightarrow> CollabErrorCode + AgentPersonaEnvelope" where
  "mintPersonaEnvelope pf source revision =
     (case normalizeSystemDirectives pf source of
        None \<Rightarrow> Inl INVALID_REQUEST
      | Some content \<Rightarrow>
          if content = [] then Inr \<lparr>ae_content = [], ae_revision = 0, ae_sha = sha_hex pf []\<rparr>
          else if revision \<le> 0 then Inl COLLAB_NOT_PERMITTED
          else Inr \<lparr>ae_content = content, ae_revision = revision, ae_sha = sha_hex pf content\<rparr>)"

definition validatePersonaEnvelope :: "platform \<Rightarrow> PersonaFields \<Rightarrow> CollabErrorCode + AgentPersonaEnvelope" where
  "validatePersonaEnvelope pf v =
     (case (pe_version v, pe_content v, pe_revision v, pe_sha v) of
        (Some version, Some given, Some revision, Some sha) \<Rightarrow>
          if version \<noteq> 1 \<or> revision < 0 then Inl COLLAB_NOT_PERMITTED
          else (case normalizeSystemDirectives pf given of
              None \<Rightarrow> Inl INVALID_REQUEST
            | Some content \<Rightarrow>
                if content \<noteq> given \<or> sha_hex pf content \<noteq> sha \<or> (content = [] \<and> revision \<noteq> 0)
                then Inl COLLAB_NOT_PERMITTED
                else Inr \<lparr>ae_content = content, ae_revision = revision, ae_sha = sha_hex pf content\<rparr>)
      | _ \<Rightarrow> Inl COLLAB_NOT_PERMITTED)"

definition personaEnvelopesEqual :: "AgentPersonaEnvelope \<Rightarrow> AgentPersonaEnvelope \<Rightarrow> bool" where
  "personaEnvelopesEqual l r \<longleftrightarrow> ae_content l = ae_content r \<and> ae_revision l = ae_revision r \<and> ae_sha l = ae_sha r"

text \<open>The insert trigger of the turn table.\<close>

definition persona_guard :: "PersonaFields \<Rightarrow> bool" where
  "persona_guard v =
     (case (pe_version v, pe_content v, pe_revision v, pe_sha v) of
        (None, None, None, None) \<Rightarrow> True
      | (Some version, Some content, Some revision, Some sha) \<Rightarrow>
          \<not> (version \<noteq> 1 \<or> revision < 0 \<or> length content > 4000 \<or> length sha \<noteq> 64
             \<or> list_ex (\<lambda>c. \<not> (is_digit c \<or> (CHR ''a'' \<le> c \<and> c \<le> CHR ''f''))) sha
             \<or> (content = [] \<and> revision \<noteq> 0) \<or> list_ex forbidden_directive content)
      | _ \<Rightarrow> False)"

subsection \<open>The runtime profile a turn is bound to\<close>

definition profile_row :: "collab_db \<Rightarrow> string \<Rightarrow> RuntimeProfileRow option" where
  "profile_row db p = tbl_get (\<lambda>r. rp_agent r = p) (db_profiles db)"

definition persona_row :: "collab_db \<Rightarrow> string \<Rightarrow> PersonaRow option" where
  "persona_row db p = tbl_get (\<lambda>r. ps_agent r = p) (db_personas db)"

definition runtimeProfileFromRow :: "RuntimeProfileRow \<Rightarrow> AgentRuntimeProfile" where
  "runtimeProfileFromRow r =
     \<lparr>ap_agent = rp_agent r, ap_account = rp_account r, ap_adapter = rp_adapter r, ap_model = rp_model r,
      ap_autostart = rp_autostart r,
      ap_confirmed = (rp_confirmed r \<and> rp_xAccount r = Some (rp_account r) \<and> rp_xModel r = Some (rp_model r)),
      ap_fingerprint = rp_xFingerprint r, ap_exactModel = rp_xExactModel r, ap_revision = rp_xRevision r,
      ap_sha = rp_xSha r, ap_createdAt = rp_createdAt r, ap_updatedAt = rp_updatedAt r\<rparr>"

definition runtimeProfileForClaim :: "collab_db \<Rightarrow> string \<Rightarrow> CollabErrorCode + AgentRuntimeProfile" where
  "runtimeProfileForClaim db p =
     (case profile_row db p of None \<Rightarrow> Inl COLLAB_NOT_PERMITTED | Some r \<Rightarrow> Inr (runtimeProfileFromRow r))"

subsection \<open>The turn table\<close>

type_synonym turn_id = "string \<times> string \<times> int"

definition turn_key :: "TurnRow \<Rightarrow> turn_id" where
  "turn_key t = (tu_channel t, tu_agent t, tu_seq t)"

definition turn_row :: "collab_db \<Rightarrow> turn_id \<Rightarrow> TurnRow option" where
  "turn_row db i = tbl_get (\<lambda>t. turn_key t = i) (db_turns db)"

definition update_turns :: "(TurnRow \<Rightarrow> bool) \<Rightarrow> (TurnRow \<Rightarrow> TurnRow) \<Rightarrow> collab_db \<Rightarrow> collab_db" where
  "update_turns P f db = db\<lparr>db_turns := tbl_update P f (db_turns db)\<rparr>"

text \<open>The insert: primary key, foreign keys, the check on the sequence number and the trigger.\<close>

datatype insert_outcome = Inserted collab_db | DuplicateKey | OtherConstraint

definition insert_turn :: "TurnRow \<Rightarrow> collab_db \<Rightarrow> insert_outcome" where
  "insert_turn t db =
     (if \<not> persona_guard (tu_persona t) \<or> tu_seq t \<le> 0 then OtherConstraint
      else if turn_row db (turn_key t) \<noteq> None then DuplicateKey
      else if channel_row db (tu_channel t) = None \<or> principal_row db (tu_agent t) = None then OtherConstraint
      else Inserted (db\<lparr>db_turns := db_turns db @ [t]\<rparr>))"

definition fresh_turn :: "turn_id \<Rightarrow> string \<Rightarrow> int \<Rightarrow> PersonaFields \<Rightarrow> TurnRow" where
  "fresh_turn i trigger now persona = (case i of (c, a, n) \<Rightarrow>
     \<lparr>tu_channel = c, tu_agent = a, tu_seq = n, tu_trigger = trigger, tu_state = TurnDispatched,
      tu_request = None, tu_dispatchedAt = now, tu_resolved = False, tu_output = None, tu_attempt = 0,
      tu_lease = None, tu_persona = persona, tu_note = None\<rparr>)"

subsection \<open>The resolver and the STOP control\<close>

definition eligible :: "collab_db \<Rightarrow> string \<Rightarrow> string \<Rightarrow> MemberRow \<Rightarrow> bool" where
  "eligible db channelId actor m \<longleftrightarrow> mb_channel m = channelId \<and> mb_state m = MActive \<and> mb_principal m \<noteq> actor
     \<and> (case principal_row db (mb_principal m) of
          None \<Rightarrow> False | Some p \<Rightarrow> pr_kind p = AgentKind \<and> pr_status p = PActive)"

definition resolveEligibleAgents :: "collab_db \<Rightarrow> string \<Rightarrow> string \<Rightarrow> nat \<Rightarrow> string list" where
  "resolveEligibleAgents db channelId actor seq =
     sort (map mb_principal (filter (eligible db channelId actor) (db_members db)))"

datatype StopScope = GlobalStop | ChannelStop

definition isAutoreplyStopped :: "collab_db \<Rightarrow> string \<Rightarrow> bool" where
  "isAutoreplyStopped db channelId =
     (if list_ex (\<lambda>s. so_channel s = None) (db_stops db) then True
      else list_ex (\<lambda>s. so_channel s = Some channelId) (db_stops db))"

text \<open>
  \<open>INSERT OR IGNORE\<close>: a unique or check violation is ignored, a foreign key violation throws.
\<close>

definition setAutoreplyStop ::
  "StopScope \<Rightarrow> string option \<Rightarrow> string \<Rightarrow> int \<Rightarrow> collab_db \<Rightarrow> collab_db option" where
  "setAutoreplyStop scope channelId actor now db =
     (if (scope = GlobalStop) \<noteq> (channelId = None) then Some db
      else if list_ex (\<lambda>s. so_channel s = channelId) (db_stops db) then Some db
      else if principal_row db actor = None
           \<or> (case channelId of None \<Rightarrow> False | Some c \<Rightarrow> channel_row db c = None) then None
      else Some (db\<lparr>db_stops := db_stops db @ [\<lparr>so_channel = channelId, so_by = actor, so_at = now\<rparr>]\<rparr>))"

definition clearAutoreplyStop :: "StopScope \<Rightarrow> string option \<Rightarrow> collab_db \<Rightarrow> collab_db" where
  "clearAutoreplyStop scope channelId db =
     (case scope of
        GlobalStop \<Rightarrow> db\<lparr>db_stops := filter (\<lambda>s. so_channel s \<noteq> None) (db_stops db)\<rparr>
      | ChannelStop \<Rightarrow> (case channelId of
          None \<Rightarrow> db
        | Some c \<Rightarrow> db\<lparr>db_stops := filter (\<lambda>s. so_channel s \<noteq> Some c) (db_stops db)\<rparr>))"

text \<open>The gateway handler: without a resolved principal it records the seat itself.\<close>

datatype StopError = COLLAB_INVALID_REQUEST | COLLAB_UNAVAILABLE

definition handleSetAutoreplyStop ::
  "string option \<Rightarrow> bool \<Rightarrow> StopScope \<Rightarrow> string option \<Rightarrow> int \<Rightarrow> collab_db \<Rightarrow> collab_db \<times> StopError option" where
  "handleSetAutoreplyStop operator stop scope channelId now db =
     (if (scope = ChannelStop) \<noteq> (channelId \<noteq> None) then (db, Some COLLAB_INVALID_REQUEST)
      else let actor = (case operator of None \<Rightarrow> ''operator-seat'' | Some p \<Rightarrow> p)
           in if stop
              then (case setAutoreplyStop scope channelId actor now db of
                      None \<Rightarrow> (db, Some COLLAB_UNAVAILABLE) | Some db' \<Rightarrow> (db', None))
              else (clearAutoreplyStop scope channelId db, None))"

subsection \<open>Claiming\<close>

record AgentTurnIdentity =
  ti_channel :: string
  ti_agent :: string
  ti_seq :: int
  ti_trigger :: string

datatype AgentTurnClaim =
    Claimed AgentPersonaEnvelope AgentRuntimeProfile
  | DuplicateClaim AgentPersonaEnvelope AgentRuntimeProfile
  | LegacyTerminated

definition turn_is :: "turn_id \<Rightarrow> TurnRow \<Rightarrow> bool" where
  "turn_is i t \<longleftrightarrow> turn_key t = i \<and> tu_state t = TurnDispatched"

definition claim_tx ::
  "platform \<Rightarrow> AgentTurnIdentity \<Rightarrow> int \<Rightarrow> collab_db \<Rightarrow> CollabErrorCode + AgentTurnClaim \<times> collab_db" where
  "claim_tx pf identity now db =
     (let i = (ti_channel identity, ti_agent identity, ti_seq identity)
      in case turn_row db i of
           Some existing \<Rightarrow>
             if tu_trigger existing \<noteq> ti_trigger identity then Inl COLLAB_NOT_PERMITTED
             else if tu_persona existing = no_persona
             then Inr (LegacyTerminated,
               if tu_state existing = TurnDispatched
               then update_turns (turn_is i) (\<lambda>t. t\<lparr>tu_state := TurnTerminated, tu_resolved := True\<rparr>) db
               else db)
             else (case validatePersonaEnvelope pf (tu_persona existing) of
                 Inl e \<Rightarrow> Inl e
               | Inr envelope \<Rightarrow> (case runtimeProfileForClaim db (ti_agent identity) of
                   Inl e \<Rightarrow> Inl e
                 | Inr profile \<Rightarrow> Inr (DuplicateClaim envelope profile, db)))
         | None \<Rightarrow>
             (case runtimeProfileForClaim db (ti_agent identity) of
                Inl e \<Rightarrow> Inl e
              | Inr profile \<Rightarrow>
                  let (directives, revision) = (case persona_row db (ti_agent identity) of
                        None \<Rightarrow> ([], 0) | Some r \<Rightarrow> (ps_directives r, ps_revision r))
                  in case mintPersonaEnvelope pf directives revision of
                       Inl e \<Rightarrow> Inl e
                     | Inr envelope \<Rightarrow>
                         (case insert_turn (fresh_turn i (ti_trigger identity) now (envelope_fields envelope)) db of
                            Inserted db' \<Rightarrow> Inr (Claimed envelope profile, db')
                          | _ \<Rightarrow> Inl SQL_CONSTRAINT)))"

definition safe_seq :: "int \<Rightarrow> bool" where
  "safe_seq n \<longleftrightarrow> 0 < n \<and> n \<le> 9007199254740991"

definition claimAgentTurn ::
  "platform \<Rightarrow> AgentTurnIdentity \<Rightarrow> int \<Rightarrow> collab_db \<Rightarrow> collab_db \<times> (CollabErrorCode + AgentTurnClaim)" where
  "claimAgentTurn pf input now db =
     (case (normalizeRuntimeIdentifier (ti_channel input), normalizeRuntimeIdentifier (ti_agent input),
            normalizeRuntimeIdentifier (ti_trigger input)) of
        (Some c, Some a, Some e) \<Rightarrow>
          if \<not> safe_seq (ti_seq input) then (db, Inl INVALID_REQUEST)
          else runNaturallyIdempotentCommand
            (claim_tx pf \<lparr>ti_channel = c, ti_agent = a, ti_seq = ti_seq input, ti_trigger = e\<rparr> now) db
      | _ \<Rightarrow> (db, Inl INVALID_REQUEST))"

text \<open>
  The bare claim of the resolver module. Whether the database is busy at the n-th attempt is an
  argument; a busy attempt is retried twice, a duplicate key is the answer "already claimed".
\<close>

definition CLAIM_BUSY_MAX_ATTEMPTS :: nat where
  "CLAIM_BUSY_MAX_ATTEMPTS = 3"

fun claim_attempts :: "nat \<Rightarrow> (nat \<Rightarrow> bool) \<Rightarrow> TurnRow \<Rightarrow> collab_db \<Rightarrow> (collab_db \<times> bool) option" where
  "claim_attempts 0 busy t db = None"
| "claim_attempts (Suc left) busy t db =
     (if busy (CLAIM_BUSY_MAX_ATTEMPTS - left)
      then (if left = 0 then None else claim_attempts left busy t db)
      else (case insert_turn t db of
              Inserted db' \<Rightarrow> Some (db', True)
            | DuplicateKey \<Rightarrow> Some (db, False)
            | OtherConstraint \<Rightarrow> None))"

definition claimTurnRow ::
  "(nat \<Rightarrow> bool) \<Rightarrow> AgentTurnIdentity \<Rightarrow> int \<Rightarrow> collab_db \<Rightarrow> (collab_db \<times> bool) option" where
  "claimTurnRow busy p now db = claim_attempts CLAIM_BUSY_MAX_ATTEMPTS busy
     (fresh_turn (ti_channel p, ti_agent p, ti_seq p) (ti_trigger p) now no_persona) db"

subsection \<open>Request, resolution, recovery\<close>

definition attachDispatchRequestId :: "turn_id \<Rightarrow> string \<Rightarrow> collab_db \<Rightarrow> collab_db" where
  "attachDispatchRequestId i request = update_turns (turn_is i) (\<lambda>t. t\<lparr>tu_request := Some request\<rparr>)"

definition resolvable :: "turn_id \<Rightarrow> string option \<Rightarrow> TurnRow \<Rightarrow> bool" where
  "resolvable i leaseToken t \<longleftrightarrow> turn_is i t \<and> (leaseToken = None \<or> tu_lease t = leaseToken)"

definition resolveAgentTurn ::
  "turn_id \<Rightarrow> AgentTurnState \<Rightarrow> string option \<Rightarrow> string option \<Rightarrow> collab_db \<Rightarrow> collab_db \<times> nat" where
  "resolveAgentTurn i outcome leaseToken note db =
     (update_turns (resolvable i leaseToken)
        (\<lambda>t. t\<lparr>tu_state := outcome, tu_resolved := True, tu_note := note\<rparr>) db,
      tbl_changes (resolvable i leaseToken) (db_turns db))"

definition getAgentTurnOutput :: "collab_db \<Rightarrow> turn_id \<Rightarrow> string \<Rightarrow> (string \<times> OutputKind) option" where
  "getAgentTurnOutput db i request =
     (case tbl_get (\<lambda>t. turn_key t = i \<and> tu_request t = Some request \<and> tu_output t \<noteq> None) (db_turns db) of
        None \<Rightarrow> None | Some t \<Rightarrow> tu_output t)"

definition findStrandedAgentTurns :: "collab_db \<Rightarrow> int \<Rightarrow> int \<Rightarrow> TurnRow list" where
  "findStrandedAgentTurns db now graceSeconds =
     filter (\<lambda>t. tu_state t = TurnDispatched \<and> tu_dispatchedAt t \<le> now - graceSeconds * 1000) (db_turns db)"

text \<open>The lease token is the caller's or a fresh random one, the last argument but one.\<close>

definition reclaimStrandedAgentTurn ::
  "turn_id \<Rightarrow> int \<Rightarrow> int option \<Rightarrow> string \<Rightarrow> collab_db \<Rightarrow> collab_db \<times> (string \<times> nat) option" where
  "reclaimStrandedAgentTurn i now expectedDispatchedAt leaseToken db =
     (case expectedDispatchedAt of
        None \<Rightarrow> (db, None)
      | Some expected \<Rightarrow>
          let hit = (\<lambda>t. turn_is i t \<and> tu_dispatchedAt t = expected);
              db' = update_turns hit (\<lambda>t. t\<lparr>tu_dispatchedAt := now, tu_attempt := tu_attempt t + 1,
                                           tu_lease := Some leaseToken\<rparr>) db
          in (db', if tbl_changes hit (db_turns db) \<noteq> 1 then None
                   else (case tbl_get (\<lambda>t. turn_key t = i \<and> tu_lease t = Some leaseToken) (db_turns db') of
                           None \<Rightarrow> None | Some t \<Rightarrow> Some (leaseToken, tu_attempt t))))"

subsection \<open>Committing the output of a turn\<close>

record AgentTurnRuntimeSnapshot =
  rs_account :: string
  rs_adapter :: string
  rs_model :: string
  rs_revision :: int
  rs_fingerprint :: "string option"
  rs_exactModel :: "string option"
  rs_sha :: "string option"

record CommitAgentTurnOutputInput =
  ci_channel :: string
  ci_agent :: string
  ci_seq :: int
  ci_request :: string
  ci_lease :: "string option"
  ci_profile :: AgentTurnRuntimeSnapshot
  ci_envelope :: PersonaFields
  ci_text :: text_cp
  ci_kind :: OutputKind

record CommitAgentTurnResult =
  cm_event :: string
  cm_cursor :: string
  cm_at :: string
  cm_kind :: OutputKind
  cm_replayed :: bool

definition turn_stopped :: "collab_db \<Rightarrow> string \<Rightarrow> bool" where
  "turn_stopped db c = list_ex (\<lambda>s. so_channel s = None \<or> so_channel s = Some c) (db_stops db)"

definition externalBindingValid :: "AgentTurnRuntimeSnapshot \<Rightarrow> RuntimeProfileRow \<Rightarrow> bool" where
  "externalBindingValid expected r \<longleftrightarrow>
     rs_account expected = ''ollama-local''
     \<or> (rp_confirmed r \<and> rp_xAccount r = Some (rs_account expected) \<and> rp_xModel r = Some (rs_model expected)
        \<and> rp_xFingerprint r = rs_fingerprint expected \<and> rp_xExactModel r = rs_exactModel expected
        \<and> rp_xRevision r = Some (rs_revision expected) \<and> rp_xSha r = rs_sha expected)"

text \<open>
  The live authorization: one join over principal, channel, membership and profile, the persona
  minted again from its row, the consent binding and STOP.
\<close>

definition turn_authorized ::
  "platform \<Rightarrow> collab_db \<Rightarrow> string \<Rightarrow> string \<Rightarrow> AgentTurnRuntimeSnapshot \<Rightarrow> AgentPersonaEnvelope
   \<Rightarrow> CollabErrorCode + bool" where
  "turn_authorized pf db c a expected claimed =
     (case (principal_row db a, channel_row db c, member_row db c a, profile_row db a) of
        (Some p, Some ch, Some m, Some r) \<Rightarrow>
          let (directives, revision) = (case persona_row db a of
                None \<Rightarrow> ([], 0) | Some s \<Rightarrow> (ps_directives s, ps_revision s))
          in (case mintPersonaEnvelope pf directives revision of
                Inl e \<Rightarrow> Inl e
              | Inr live \<Rightarrow> Inr (pr_kind p = AgentKind \<and> pr_status p = PActive \<and> ch_state ch = ChActive
                  \<and> mb_state m = MActive \<and> rp_autostart r \<and> rp_account r = rs_account expected
                  \<and> rp_adapter r = rs_adapter expected \<and> rp_model r = rs_model expected
                  \<and> personaEnvelopesEqual live claimed \<and> externalBindingValid expected r
                  \<and> \<not> turn_stopped db c))
      | _ \<Rightarrow> Inr False)"

definition commit_turn_tx ::
  "platform \<Rightarrow> env \<Rightarrow> CommitAgentTurnOutputInput \<Rightarrow> AgentPersonaEnvelope \<Rightarrow> collab_db
   \<Rightarrow> CollabErrorCode + CommitAgentTurnResult \<times> collab_db" where
  "commit_turn_tx pf en b execution db =
     (let i = (ci_channel b, ci_agent b, ci_seq b)
      in case turn_row db i of
        None \<Rightarrow> Inl COLLAB_NOT_PERMITTED
      | Some turn \<Rightarrow>
      if tu_request turn \<noteq> Some (ci_request b) then Inl COLLAB_NOT_PERMITTED
      else if tu_lease turn \<noteq> ci_lease b then Inl COLLAB_NOT_PERMITTED
      else (case validatePersonaEnvelope pf (tu_persona turn) of
        Inl e \<Rightarrow> Inl e
      | Inr claimed \<Rightarrow>
      if \<not> personaEnvelopesEqual claimed execution then Inl COLLAB_NOT_PERMITTED
      else (case tu_output turn of
        Some (eventId, kind) \<Rightarrow>
          (case tbl_get (\<lambda>e. EventRow.ev_id e = eventId \<and> ev_channel e = ci_channel b) (db_events db) of
             None \<Rightarrow> Inl COLLAB_NOT_PERMITTED
           | Some e \<Rightarrow> Inr (\<lparr>cm_event = eventId, cm_cursor = show_nat (ev_seq e), cm_at = ev_createdAt e,
                             cm_kind = kind, cm_replayed = True\<rparr>, db))
      | None \<Rightarrow>
      if tu_state turn \<noteq> TurnDispatched then Inl COLLAB_NOT_PERMITTED
      else (case turn_authorized pf db (ci_channel b) (ci_agent b) (ci_profile b) claimed of
        Inl e \<Rightarrow> Inl e
      | Inr authorized \<Rightarrow>
      if \<not> authorized then Inl COLLAB_NOT_PERMITTED
      else
        let nextSeq = getMaxChannelSeq db (ci_channel b) + 1;
            eventId = en_uuid en 0;
            occurredAt = en_clock en 0;
            hit = (\<lambda>t. turn_is i t \<and> tu_output t = None \<and> tu_request t = Some (ci_request b)
                       \<and> tu_lease t = ci_lease b)
        in case append_event eventId (ci_channel b) (ci_agent b) message_posted
                  (JObj [(cps ''channelId'', JStr (cps (ci_channel b))), (cps ''text'', JStr (ci_text b))])
                  occurredAt db of
             None \<Rightarrow> Inl SQL_CONSTRAINT
           | Some db1 \<Rightarrow>
               if list_ex (\<lambda>t. map_option fst (tu_output t) = Some eventId) (db_turns db1)
               then Inl SQL_CONSTRAINT
               else if tbl_changes hit (db_turns db1) \<noteq> 1 then Inl COLLAB_NOT_PERMITTED
               else Inr (\<lparr>cm_event = eventId, cm_cursor = show_nat nextSeq, cm_at = occurredAt,
                          cm_kind = ci_kind b, cm_replayed = False\<rparr>,
                         update_turns hit (\<lambda>t. t\<lparr>tu_output := Some (eventId, ci_kind b),
                           tu_state := TurnCompleted, tu_resolved := True\<rparr>) db1)))))"

definition normalizeLease :: "string option \<Rightarrow> string option" where
  "normalizeLease l = (case l of None \<Rightarrow> None | Some s \<Rightarrow> if trim s = [] then None else Some (trim s))"

definition commitAgentTurnOutput ::
  "platform \<Rightarrow> env \<Rightarrow> CommitAgentTurnOutputInput \<Rightarrow> collab_db
   \<Rightarrow> collab_db \<times> (CollabErrorCode + CommitAgentTurnResult)" where
  "commitAgentTurnOutput pf en b db =
     (let s = ci_profile b
      in case (normalizeRuntimeIdentifier (ci_agent b), normalizeRuntimeIdentifier (ci_request b)) of
        (Some agent, Some request) \<Rightarrow>
          if \<not> safe_seq (ci_seq b) \<or> rs_revision s < 0 then (db, Inl INVALID_REQUEST)
          else (case (normalizeRuntimeIdentifier (rs_account s), normalizeRuntimeIdentifier (rs_adapter s),
                      normalizeRuntimeIdentifier (rs_model s)) of
              (Some account, Some adapter, Some model) \<Rightarrow>
                (case validatePersonaEnvelope pf (ci_envelope b) of
                   Inl e \<Rightarrow> (db, Inl e)
                 | Inr execution \<Rightarrow>
                     if rs_revision s \<noteq> ae_revision execution then (db, Inl INVALID_REQUEST)
                     else (case normalizeMessageText (pf_nfc pf) (ci_text b) of
                         None \<Rightarrow> (db, Inl INVALID_REQUEST)
                       | Some normalized \<Rightarrow> runNaturallyIdempotentCommand
                           (commit_turn_tx pf en (b\<lparr>ci_agent := agent, ci_request := request, ci_text := normalized,
                              ci_lease := normalizeLease (ci_lease b),
                              ci_profile := s\<lparr>rs_account := account, rs_adapter := adapter, rs_model := model\<rparr>\<rparr>)
                              execution) db))
            | _ \<Rightarrow> (db, Inl INVALID_REQUEST))
      | _ \<Rightarrow> (db, Inl INVALID_REQUEST))"

subsection \<open>The steps of the turn machine\<close>

datatype turn_op =
    ClaimTurn AgentTurnIdentity int
  | ClaimBare "nat \<Rightarrow> bool" AgentTurnIdentity int
  | AttachRequest turn_id string
  | ResolveTurn turn_id AgentTurnState "string option" "string option"
  | ReclaimTurn turn_id int "int option" string
  | CommitTurn env CommitAgentTurnOutputInput
  | SetStop "string option" bool StopScope "string option" int

fun turn_step :: "platform \<Rightarrow> turn_op \<Rightarrow> collab_db \<Rightarrow> collab_db" where
  "turn_step pf (ClaimTurn identity now) db = fst (claimAgentTurn pf identity now db)"
| "turn_step pf (ClaimBare busy identity now) db =
     (case claimTurnRow busy identity now db of None \<Rightarrow> db | Some r \<Rightarrow> fst r)"
| "turn_step pf (AttachRequest i request) db = attachDispatchRequestId i request db"
| "turn_step pf (ResolveTurn i outcome lease note) db =
     (if outcome = TurnDispatched then db else fst (resolveAgentTurn i outcome lease note db))"
| "turn_step pf (ReclaimTurn i now expected lease) db = fst (reclaimStrandedAgentTurn i now expected lease db)"
| "turn_step pf (CommitTurn en b) db = fst (commitAgentTurnOutput pf en b db)"
| "turn_step pf (SetStop operator stop scope channelId now) db =
     fst (handleSetAutoreplyStop operator stop scope channelId now db)"

end
