(* ===== verification/Collab_Profiles.thy ===== *)
theory Collab_Profiles
  imports Collab_Turns
begin

text \<open>
  Runtime profiles, personas and provisioning of agents: \<open>provisionAgent\<close>,
  \<open>getAgentRuntimeProfile\<close>, \<open>upsertAgentRuntimeProfile\<close>, \<open>upsertAgentPersona\<close>
  and \<open>setLocalAgentAutostart\<close> of \<open>packages/collab/src/store.ts\<close>. The live check
  of the delegate's authority is an argument, its answer at the moment of the transaction.
\<close>

subsection \<open>Bodies and their checks\<close>

record profile_body =
  pb_account :: string
  pb_adapter :: string
  pb_model :: string
  pb_autostart :: bool
  pb_confirmed :: bool
  pb_fingerprint :: "string option"
  pb_exactModel :: "string option"
  pb_revision :: "int option"
  pb_sha :: "string option"

definition sha_shape :: "string option \<Rightarrow> bool" where
  "sha_shape s = (case s of None \<Rightarrow> False | Some h \<Rightarrow>
     length h = 64 \<and> list_all (\<lambda>c. is_digit c \<or> (CHR ''a'' \<le> c \<and> c \<le> CHR ''f'')) h)"

definition validateExternalContextBinding :: "profile_body \<Rightarrow> bool" where
  "validateExternalContextBinding b =
     (if \<not> pb_confirmed b
      then pb_fingerprint b = None \<and> pb_exactModel b = None \<and> pb_revision b = None \<and> pb_sha b = None
      else sha_shape (pb_fingerprint b) \<and> pb_exactModel b = Some (pb_model b)
           \<and> (case pb_revision b of None \<Rightarrow> False | Some n \<Rightarrow> 0 \<le> n) \<and> sha_shape (pb_sha b))"

definition normalize_profile :: "profile_body \<Rightarrow> profile_body option" where
  "normalize_profile b =
     (case (normalizeRuntimeIdentifier (pb_account b), normalizeRuntimeIdentifier (pb_adapter b),
            normalizeRuntimeIdentifier (pb_model b)) of
        (Some account, Some adapter, Some model) \<Rightarrow>
          Some (b\<lparr>pb_account := account, pb_adapter := adapter, pb_model := model\<rparr>)
      | _ \<Rightarrow> None)"

definition jstr_or_null :: "string option \<Rightarrow> jval" where
  "jstr_or_null s = (case s of None \<Rightarrow> JNull | Some x \<Rightarrow> JStr (cps x))"

definition jint_or_null :: "int option \<Rightarrow> jval" where
  "jint_or_null n = (case n of None \<Rightarrow> JNull | Some x \<Rightarrow> JNum (Fin x))"

definition profile_members :: "profile_body \<Rightarrow> (text_cp \<times> jval) list" where
  "profile_members b =
     [(cps ''providerAccountId'', JStr (cps (pb_account b))), (cps ''adapterId'', JStr (cps (pb_adapter b))),
      (cps ''modelId'', JStr (cps (pb_model b))), (cps ''autostart'', JBool (pb_autostart b)),
      (cps ''externalContextConfirmed'', JBool (pb_confirmed b)),
      (cps ''externalContextRuntimeFingerprint'', jstr_or_null (pb_fingerprint b)),
      (cps ''externalContextExactModelId'', jstr_or_null (pb_exactModel b)),
      (cps ''externalContextPersonaRevision'', jint_or_null (pb_revision b)),
      (cps ''externalContextPersonaContentSha256'', jstr_or_null (pb_sha b))]"

text \<open>The stored columns: a binding is stored only with the confirmation.\<close>

definition stored_profile :: "string \<Rightarrow> profile_body \<Rightarrow> string \<Rightarrow> string \<Rightarrow> RuntimeProfileRow" where
  "stored_profile agent b createdAt now =
     (let kept = (\<lambda>v. if pb_confirmed b then v else None)
      in \<lparr>rp_agent = agent, rp_account = pb_account b, rp_adapter = pb_adapter b, rp_model = pb_model b,
          rp_autostart = pb_autostart b, rp_confirmed = pb_confirmed b,
          rp_xAccount = kept (Some (pb_account b)), rp_xModel = kept (Some (pb_model b)),
          rp_xFingerprint = kept (pb_fingerprint b), rp_xExactModel = kept (pb_exactModel b),
          rp_xRevision = (if pb_confirmed b then pb_revision b else None), rp_xSha = kept (pb_sha b),
          rp_createdAt = createdAt, rp_updatedAt = now\<rparr>)"

definition body_profile :: "string \<Rightarrow> profile_body \<Rightarrow> string \<Rightarrow> string \<Rightarrow> AgentRuntimeProfile" where
  "body_profile agent b createdAt now =
     \<lparr>ap_agent = agent, ap_account = pb_account b, ap_adapter = pb_adapter b, ap_model = pb_model b,
      ap_autostart = pb_autostart b, ap_confirmed = pb_confirmed b, ap_fingerprint = pb_fingerprint b,
      ap_exactModel = pb_exactModel b, ap_revision = pb_revision b, ap_sha = pb_sha b,
      ap_createdAt = createdAt, ap_updatedAt = now\<rparr>"

definition assertOwnedAgent :: "collab_db \<Rightarrow> string \<Rightarrow> string \<Rightarrow> CollabErrorCode + PrincipalRow" where
  "assertOwnedAgent db caller p =
     (case getAgentTargetOrThrow db p of
        Inl e \<Rightarrow> Inl e
      | Inr agent \<Rightarrow> if pr_owner agent \<noteq> Some caller then Inl COLLAB_NOT_PERMITTED else Inr agent)"

text \<open>The predicate of the three agent commands: operator, live delegate authority, ownership.\<close>

definition owned_predicate :: "string \<Rightarrow> bool \<Rightarrow> string \<Rightarrow> collab_db \<Rightarrow> CollabErrorCode option" where
  "owned_predicate caller delegate p db =
     (case assertOperatorCaller caller db of
        Some e \<Rightarrow> Some e
      | None \<Rightarrow> if \<not> delegate then Some COLLAB_NOT_PERMITTED
                else left_error (assertOwnedAgent db caller p))"

subsection \<open>Provisioning\<close>

definition js_unique :: "'a list \<Rightarrow> 'a list" where
  "js_unique xs = rev (remdups (rev xs))"

definition set_profiles :: "(RuntimeProfileRow list \<Rightarrow> RuntimeProfileRow list) \<Rightarrow> collab_db \<Rightarrow> collab_db" where
  "set_profiles f db = db\<lparr>db_profiles := f (db_profiles db)\<rparr>"

fun channels_open :: "string \<Rightarrow> string list \<Rightarrow> collab_db \<Rightarrow> CollabErrorCode option" where
  "channels_open caller [] db = None"
| "channels_open caller (c # cs) db =
     (case assertChannelOwner caller c db of
        Some e \<Rightarrow> Some e
      | None \<Rightarrow> (case channel_row db c of
          None \<Rightarrow> Some COLLAB_NOT_FOUND
        | Some ch \<Rightarrow> if ch_state ch = ChArchived then Some CHANNEL_ARCHIVED else channels_open caller cs db))"

definition provision_predicate :: "string \<Rightarrow> bool \<Rightarrow> string list \<Rightarrow> collab_db \<Rightarrow> CollabErrorCode option" where
  "provision_predicate caller delegate channels db =
     (case assertOperatorCaller caller db of
        Some e \<Rightarrow> Some e
      | None \<Rightarrow> if \<not> delegate then Some COLLAB_NOT_PERMITTED else channels_open caller channels db)"

text \<open>One membership with its event; the k-th channel reads the clock and the ids at its own numbers.\<close>

fun provision_members ::
  "env \<Rightarrow> string \<Rightarrow> string \<Rightarrow> nat \<Rightarrow> string list \<Rightarrow> collab_db \<Rightarrow> CollabErrorCode + collab_db" where
  "provision_members en caller agent k [] db = Inr db"
| "provision_members en caller agent k (c # cs) db =
     (case channel_row db c of
        None \<Rightarrow> Inl COLLAB_NOT_FOUND
      | Some ch \<Rightarrow>
          if member_row db c agent \<noteq> None then Inl SQL_CONSTRAINT
          else (case append_event (en_uuid en (1 + k)) c caller member_added (member_content c agent 1)
                       (en_clock en (2 + 2 * k))
                       (db\<lparr>db_members := db_members db @
                          [\<lparr>mb_channel = c, mb_principal = agent, mb_role = AgentRole, mb_state = MActive,
                            mb_epoch = 1, mb_rejoinedSeq = getMaxChannelSeq db c,
                            mb_joinedAt = en_clock en (1 + 2 * k), mb_removedAt = None\<rparr>]\<rparr>) of
                  None \<Rightarrow> Inl SQL_CONSTRAINT
                | Some db' \<Rightarrow> provision_members en caller agent (Suc k) cs db'))"

definition provision_tx ::
  "env \<Rightarrow> string \<Rightarrow> text_cp \<Rightarrow> profile_body \<Rightarrow> string list \<Rightarrow> collab_db
   \<Rightarrow> CollabErrorCode + reply \<times> reply \<times> collab_db" where
  "provision_tx en caller name b channels db =
     (case getOperatorOrThrow db of
        None \<Rightarrow> Inl PRINCIPAL_NOT_FOUND
      | Some operator \<Rightarrow>
      let agent = en_uuid en 0; createdAt = en_clock en 0;
          activatedAt = en_clock en (1 + 2 * length channels)
      in if principal_row db agent \<noteq> None \<or> profile_row db agent \<noteq> None then Inl SQL_CONSTRAINT
         else (case provision_members en caller agent 0 channels
                  (set_profiles (\<lambda>t. t @ [stored_profile agent (b\<lparr>pb_autostart := False\<rparr>) createdAt createdAt])
                    (db\<lparr>db_principals := db_principals db @
                       [\<lparr>pr_id = agent, pr_kind = AgentKind, pr_displayName = name,
                         pr_owner = Some (pr_id operator), pr_status = PSuspended, pr_authEpoch = 1,
                         pr_revokedAt = None\<rparr>]\<rparr>)) of
                 Inl e \<Rightarrow> Inl e
               | Inr db1 \<Rightarrow>
                   let db2 = set_profiles (tbl_update (\<lambda>r. rp_agent r = agent)
                         (\<lambda>r. r\<lparr>rp_autostart := pb_autostart b, rp_updatedAt := activatedAt\<rparr>)) db1;
                       db3 = db2\<lparr>db_principals := tbl_update (\<lambda>r. pr_id r = agent \<and> pr_status r = PSuspended)
                         (\<lambda>r. r\<lparr>pr_status := PActive\<rparr>) (db_principals db2)\<rparr>;
                       r = ProvisionReply name (body_profile agent b createdAt activatedAt) channels
                   in Inr (r, r, db3)))"

definition local_account :: string where
  "local_account = ''ollama-local''"

definition provisionAgent ::
  "platform \<Rightarrow> env \<Rightarrow> string \<Rightarrow> text_cp \<Rightarrow> profile_body \<Rightarrow> string list \<Rightarrow> string \<Rightarrow> bool \<Rightarrow> collab_db
   \<Rightarrow> collab_db \<times> (CollabErrorCode + reply)" where
  "provisionAgent pf en caller rawName rawBody rawChannels key delegate db =
     (case (normalizeName (pf_nfc pf) rawName, normalize_profile rawBody,
            those (map normalizeRuntimeIdentifier rawChannels)) of
        (Some name, Some b, Some channelIds) \<Rightarrow>
          let channels = js_unique channelIds
          in if pb_account b \<noteq> local_account \<and> (pb_autostart b \<or> pb_confirmed b) then (db, Inl INVALID_REQUEST)
             else if \<not> validateExternalContextBinding b then (db, Inl INVALID_REQUEST)
             else if pb_autostart b \<and> pb_account b \<noteq> local_account \<and> \<not> pb_confirmed b then (db, Inl INVALID_REQUEST)
             else runKeyedCommand pf caller PROVISION_AGENT_CMD key
               (JObj ((cps ''displayName'', JStr name) # profile_members b
                  @ [(cps ''channelIds'', JArr (map (\<lambda>c. Some (JStr (cps c))) channels))]))
               (provision_predicate caller delegate channels) (provision_tx en caller name b channels) db
      | _ \<Rightarrow> (db, Inl INVALID_REQUEST))"

subsection \<open>Reading and replacing a runtime profile\<close>

definition getAgentRuntimeProfile ::
  "string \<Rightarrow> string \<Rightarrow> collab_db \<Rightarrow> CollabErrorCode + AgentRuntimeProfile option" where
  "getAgentRuntimeProfile caller p db =
     (case assertOperatorCaller caller db of
        Some e \<Rightarrow> Inl e
      | None \<Rightarrow> (case assertOwnedAgent db caller p of
          Inl e \<Rightarrow> Inl e
        | Inr agent \<Rightarrow> Inr (map_option runtimeProfileFromRow (profile_row db p))))"

text \<open>The consent must name the persona as it stands; a blank persona has revision 0.\<close>

definition derived_persona :: "platform \<Rightarrow> collab_db \<Rightarrow> string \<Rightarrow> int \<times> string" where
  "derived_persona pf db p =
     (case persona_row db p of
        None \<Rightarrow> (0, sha_hex pf [])
      | Some r \<Rightarrow> (if ps_directives r = [] then 0 else ps_revision r, sha_hex pf (ps_directives r)))"

definition upsertProfile_tx ::
  "platform \<Rightarrow> env \<Rightarrow> string \<Rightarrow> profile_body \<Rightarrow> collab_db \<Rightarrow> CollabErrorCode + reply \<times> reply \<times> collab_db" where
  "upsertProfile_tx pf en p b db =
     (let existing = profile_row db p; now = en_clock en 0;
          createdAt = (case existing of None \<Rightarrow> now | Some r \<Rightarrow> rp_createdAt r);
          derived = derived_persona pf db p
      in if pb_confirmed b \<and> pb_account b \<noteq> local_account
            \<and> (pb_revision b \<noteq> Some (fst derived) \<or> pb_sha b \<noteq> Some (snd derived))
         then Inl INVALID_REQUEST
         else let row = stored_profile p b createdAt now;
                  r = ProfileReply (body_profile p b createdAt now)
              in Inr (r, r, set_profiles (\<lambda>t. if existing = None then t @ [row]
                                          else tbl_update (\<lambda>r. rp_agent r = p) (\<lambda>_. row) t) db))"

definition upsertAgentRuntimeProfile ::
  "platform \<Rightarrow> env \<Rightarrow> string \<Rightarrow> string \<Rightarrow> profile_body \<Rightarrow> string \<Rightarrow> collab_db
   \<Rightarrow> collab_db \<times> (CollabErrorCode + reply)" where
  "upsertAgentRuntimeProfile pf en caller rawAgent rawBody key db =
     (case (normalizeRuntimeIdentifier rawAgent, normalize_profile rawBody) of
        (Some p, Some b) \<Rightarrow>
          if \<not> validateExternalContextBinding b then (db, Inl INVALID_REQUEST)
          else if pb_autostart b \<and> pb_account b \<noteq> local_account \<and> \<not> pb_confirmed b then (db, Inl INVALID_REQUEST)
          else runKeyedCommand pf caller UPSERT_AGENT_RUNTIME_PROFILE_CMD key
            (JObj ((cps ''agentPrincipalId'', JStr (cps p)) # profile_members b))
            (owned_predicate caller True p) (upsertProfile_tx pf en p b) db
      | _ \<Rightarrow> (db, Inl INVALID_REQUEST))"

subsection \<open>Personas\<close>

definition AGENT_ICON_IDS :: "string list" where
  "AGENT_ICON_IDS = [''robot'', ''brain'', ''shield'', ''search'', ''code'', ''spark'', ''bolt'', ''target'']"

record persona_body =
  qb_icon :: string
  qb_directives :: text_cp
  qb_expected :: int
  qb_reconfirm :: bool
  qb_fingerprint :: "string option"
  qb_exactModel :: "string option"

definition external :: "string \<Rightarrow> RuntimeProfileRow \<Rightarrow> bool" where
  "external p r \<longleftrightarrow> rp_agent r = p \<and> rp_account r \<noteq> local_account"

definition drop_consent :: "string \<Rightarrow> RuntimeProfileRow \<Rightarrow> RuntimeProfileRow" where
  "drop_consent now r = r\<lparr>rp_autostart := False, rp_confirmed := False, rp_xAccount := None, rp_xModel := None,
     rp_xFingerprint := None, rp_xExactModel := None, rp_xRevision := None, rp_xSha := None, rp_updatedAt := now\<rparr>"

definition give_consent ::
  "string option \<Rightarrow> string option \<Rightarrow> int \<Rightarrow> string \<Rightarrow> string \<Rightarrow> RuntimeProfileRow \<Rightarrow> RuntimeProfileRow" where
  "give_consent fingerprint exactModel revision sha now r = r\<lparr>rp_autostart := True, rp_confirmed := True,
     rp_xAccount := Some (rp_account r), rp_xModel := Some (rp_model r), rp_xFingerprint := fingerprint,
     rp_xExactModel := exactModel, rp_xRevision := Some revision, rp_xSha := Some sha, rp_updatedAt := now\<rparr>"

definition persona_revision ::
  "string \<Rightarrow> persona_body \<Rightarrow> string \<Rightarrow> collab_db \<Rightarrow> CollabErrorCode + int \<times> string \<times> collab_db" where
  "persona_revision p b now db =
     (case persona_row db p of
        None \<Rightarrow>
          if qb_expected b \<noteq> 0 then Inl PERSONA_REVISION_CONFLICT
          else Inr (1, now, db\<lparr>db_personas := db_personas db @
            [\<lparr>ps_agent = p, ps_icon = qb_icon b, ps_directives = qb_directives b, ps_revision = 1,
              ps_createdAt = now, ps_updatedAt = now\<rparr>]\<rparr>)
      | Some existing \<Rightarrow>
          let hit = (\<lambda>r. ps_agent r = p \<and> ps_revision r = qb_expected b)
          in if qb_expected b \<noteq> ps_revision existing then Inl PERSONA_REVISION_CONFLICT
             else if tbl_changes hit (db_personas db) \<noteq> 1 then Inl PERSONA_REVISION_CONFLICT
             else Inr (qb_expected b + 1, ps_createdAt existing, db\<lparr>db_personas :=
               tbl_update hit (\<lambda>r. r\<lparr>ps_icon := qb_icon b, ps_directives := qb_directives b,
                 ps_revision := ps_revision r + 1, ps_updatedAt := now\<rparr>) (db_personas db)\<rparr>))"

definition upsertPersona_tx ::
  "platform \<Rightarrow> env \<Rightarrow> string \<Rightarrow> persona_body \<Rightarrow> collab_db \<Rightarrow> CollabErrorCode + reply \<times> reply \<times> collab_db" where
  "upsertPersona_tx pf en p b db =
     (let now = en_clock en 0
      in case persona_revision p b now db of
        Inl e \<Rightarrow> Inl e
      | Inr (revision, createdAt, db1) \<Rightarrow>
          let db2 = set_profiles (tbl_update (external p) (drop_consent now)) db1;
              r = PersonaReply \<lparr>ps_agent = p, ps_icon = qb_icon b, ps_directives = qb_directives b,
                    ps_revision = revision, ps_createdAt = createdAt, ps_updatedAt = now\<rparr>;
              personaRevision = (if qb_directives b = [] then 0 else revision)
          in if \<not> qb_reconfirm b then Inr (r, r, db2)
             else (case profile_row db2 p of
                 None \<Rightarrow> Inl INVALID_REQUEST
               | Some profile \<Rightarrow>
                   if rp_account profile = local_account \<or> qb_exactModel b \<noteq> Some (rp_model profile)
                   then Inl INVALID_REQUEST
                   else Inr (r, r, set_profiles (tbl_update (external p)
                     (give_consent (qb_fingerprint b) (qb_exactModel b) personaRevision
                        (sha_hex pf (qb_directives b)) now)) db2)))"

definition upsertAgentPersona ::
  "platform \<Rightarrow> env \<Rightarrow> string \<Rightarrow> string \<Rightarrow> persona_body \<Rightarrow> string \<Rightarrow> bool \<Rightarrow> collab_db
   \<Rightarrow> collab_db \<times> (CollabErrorCode + reply)" where
  "upsertAgentPersona pf en caller rawAgent raw key delegate db =
     (case (normalizeRuntimeIdentifier rawAgent, normalizeSystemDirectives pf (qb_directives raw)) of
        (Some p, Some directives) \<Rightarrow>
          let b = raw\<lparr>qb_directives := directives\<rparr>
          in if qb_icon b \<notin> set AGENT_ICON_IDS \<or> qb_expected b < 0 then (db, Inl INVALID_REQUEST)
             else if qb_reconfirm b \<and> (\<not> sha_shape (qb_fingerprint b) \<or> qb_exactModel b = None \<or> qb_exactModel b = Some [])
             then (db, Inl INVALID_REQUEST)
             else if \<not> qb_reconfirm b \<and> (qb_fingerprint b \<noteq> None \<or> qb_exactModel b \<noteq> None)
             then (db, Inl INVALID_REQUEST)
             else runKeyedCommand pf caller UPSERT_AGENT_PERSONA_CMD key
               (JObj [(cps ''agentPrincipalId'', JStr (cps p)), (cps ''iconId'', JStr (cps (qb_icon b))),
                  (cps ''systemDirectives'', JStr directives), (cps ''expectedRevision'', JNum (Fin (qb_expected b))),
                  (cps ''reconfirmExternalContext'', JBool (qb_reconfirm b)),
                  (cps ''externalContextRuntimeFingerprint'', jstr_or_null (qb_fingerprint b)),
                  (cps ''externalContextExactModelId'', jstr_or_null (qb_exactModel b))])
               (owned_predicate caller delegate p) (upsertPersona_tx pf en p b) db
      | _ \<Rightarrow> (db, Inl INVALID_REQUEST))"

subsection \<open>Local autostart\<close>

definition autostart_tx ::
  "env \<Rightarrow> string \<Rightarrow> bool \<Rightarrow> collab_db \<Rightarrow> CollabErrorCode + reply \<times> reply \<times> collab_db" where
  "autostart_tx en p autostart db =
     (case profile_row db p of
        None \<Rightarrow> Inl INVALID_REQUEST
      | Some existing \<Rightarrow>
          if rp_account existing \<noteq> local_account then Inl INVALID_REQUEST
          else let db1 = set_profiles (tbl_update (\<lambda>r. rp_agent r = p \<and> rp_account r = local_account)
                     (\<lambda>r. r\<lparr>rp_autostart := autostart, rp_updatedAt := en_clock en 0\<rparr>)) db
               in (case profile_row db1 p of
                     None \<Rightarrow> Inl INVALID_REQUEST
                   | Some updated \<Rightarrow> let r = ProfileReply (runtimeProfileFromRow updated) in Inr (r, r, db1)))"

definition setLocalAgentAutostart ::
  "platform \<Rightarrow> env \<Rightarrow> string \<Rightarrow> string \<Rightarrow> bool \<Rightarrow> string \<Rightarrow> bool \<Rightarrow> collab_db
   \<Rightarrow> collab_db \<times> (CollabErrorCode + reply)" where
  "setLocalAgentAutostart pf en caller rawAgent autostart key delegate db =
     (case normalizeRuntimeIdentifier rawAgent of
        None \<Rightarrow> (db, Inl INVALID_REQUEST)
      | Some p \<Rightarrow> runKeyedCommand pf caller SET_LOCAL_AGENT_AUTOSTART_CMD key
          (JObj [(cps ''agentPrincipalId'', JStr (cps p)), (cps ''autostart'', JBool autostart)])
          (owned_predicate caller delegate p) (autostart_tx en p autostart) db)"

subsection \<open>The profile commands as steps\<close>

datatype profile_op =
    Provision env string text_cp profile_body "string list" string bool
  | UpsertProfile env string string profile_body string
  | UpsertPersona env string string persona_body string bool
  | SetAutostart env string string bool string bool

fun profile_step :: "platform \<Rightarrow> profile_op \<Rightarrow> collab_db \<Rightarrow> collab_db" where
  "profile_step pf (Provision en caller name b channels key delegate) db =
     fst (provisionAgent pf en caller name b channels key delegate db)"
| "profile_step pf (UpsertProfile en caller p b key) db = fst (upsertAgentRuntimeProfile pf en caller p b key db)"
| "profile_step pf (UpsertPersona en caller p b key delegate) db =
     fst (upsertAgentPersona pf en caller p b key delegate db)"
| "profile_step pf (SetAutostart en caller p autostart key delegate) db =
     fst (setLocalAgentAutostart pf en caller p autostart key delegate db)"

end
