(* ===== verification/Collab_Cron.thy ===== *)
theory Collab_Cron
  imports Collab_Turns
begin

text \<open>
  Scheduled agent turns: \<open>packages/collab/src/cron.ts\<close> and, of
  \<open>packages/gateway/src/cronDispatcher.ts\<close> and \<open>cronScheduleHandler.ts\<close>, the tick, the
  recovery sweep and the handlers. The run of the model itself is outside: a turn enters by its
  outcome. Instants are milliseconds.
\<close>

subsection \<open>Schedules\<close>

definition createSchedule ::
  "string \<Rightarrow> string \<Rightarrow> string \<Rightarrow> string \<Rightarrow> int \<Rightarrow> text_cp option \<Rightarrow> string \<Rightarrow> int \<Rightarrow> collab_db
   \<Rightarrow> (collab_db \<times> string \<times> bool) option" where
  "createSchedule i channelId agent creator interval hint key now db =
     (case tbl_get (\<lambda>s. sr_creator s = creator \<and> sr_key s = key) (db_schedules db) of
        Some existing \<Rightarrow> Some (db, sr_id existing, True)
      | None \<Rightarrow>
          if tbl_get (\<lambda>s. sr_id s = i) (db_schedules db) \<noteq> None \<or> interval < 60
             \<or> channel_row db channelId = None \<or> principal_row db agent = None \<or> principal_row db creator = None
          then None
          else Some (db\<lparr>db_schedules := db_schedules db @
            [\<lparr>sr_id = i, sr_channel = channelId, sr_agent = agent, sr_creator = creator, sr_interval = interval,
              sr_hint = hint, sr_active = True, sr_nextSeq = 0, sr_nextAt = now + interval * 1000,
              sr_lastAt = None, sr_key = key\<rparr>]\<rparr>, i, False))"

definition setScheduleState :: "string \<Rightarrow> bool \<Rightarrow> collab_db \<Rightarrow> collab_db \<times> bool" where
  "setScheduleState i active db =
     (db\<lparr>db_schedules := tbl_update (\<lambda>s. sr_id s = i) (\<lambda>s. s\<lparr>sr_active := active\<rparr>) (db_schedules db)\<rparr>,
      tbl_changes (\<lambda>s. sr_id s = i) (db_schedules db) = 1)"

definition getSchedule :: "collab_db \<Rightarrow> string \<Rightarrow> AgentSchedule option" where
  "getSchedule db i = tbl_get (\<lambda>s. sr_id s = i) (db_schedules db)"

definition findDueSchedules :: "collab_db \<Rightarrow> int \<Rightarrow> AgentSchedule list" where
  "findDueSchedules db now =
     sort_key sr_nextAt (filter (\<lambda>s. sr_active s \<and> sr_nextAt s \<le> now) (db_schedules db))"

definition claimScheduleFire :: "string \<Rightarrow> nat \<Rightarrow> int \<Rightarrow> int \<Rightarrow> collab_db \<Rightarrow> collab_db \<times> nat option" where
  "claimScheduleFire i expectedSeq interval now db =
     (let hit = (\<lambda>s. sr_id s = i \<and> sr_active s \<and> sr_nextSeq s = expectedSeq)
      in (db\<lparr>db_schedules := tbl_update hit (\<lambda>s. s\<lparr>sr_nextSeq := expectedSeq + 1,
             sr_nextAt := now + interval * 1000, sr_lastAt := Some now\<rparr>) (db_schedules db)\<rparr>,
          if tbl_changes hit (db_schedules db) = 1 then Some (expectedSeq + 1) else None))"

subsection \<open>Runs\<close>

definition run_is :: "string \<Rightarrow> nat \<Rightarrow> ScheduleRun \<Rightarrow> bool" where
  "run_is i n r \<longleftrightarrow> sn_schedule r = i \<and> sn_seq r = n"

definition recordScheduleRunDispatched ::
  "string \<Rightarrow> nat \<Rightarrow> string \<Rightarrow> string \<Rightarrow> int \<Rightarrow> collab_db \<Rightarrow> collab_db \<times> bool" where
  "recordScheduleRunDispatched i n channelId agent now db =
     (if n = 0 \<or> tbl_get (run_is i n) (db_runs db) \<noteq> None \<or> getSchedule db i = None then (db, False)
      else (db\<lparr>db_runs := db_runs db @ [\<lparr>sn_schedule = i, sn_seq = n, sn_channel = channelId, sn_agent = agent,
              sn_state = RunDispatched, sn_request = None, sn_refusal = None, sn_firedAt = now,
              sn_resolved = False\<rparr>]\<rparr>, True))"

definition open_run :: "string \<Rightarrow> nat \<Rightarrow> ScheduleRun \<Rightarrow> bool" where
  "open_run i n r \<longleftrightarrow> run_is i n r \<and> sn_state r = RunDispatched"

definition attachScheduleRunDispatchRequestId :: "string \<Rightarrow> nat \<Rightarrow> string \<Rightarrow> collab_db \<Rightarrow> collab_db" where
  "attachScheduleRunDispatchRequestId i n request db = db\<lparr>db_runs :=
     tbl_update (open_run i n) (\<lambda>r. r\<lparr>sn_request := Some request\<rparr>) (db_runs db)\<rparr>"

definition resolveScheduleRun ::
  "string \<Rightarrow> nat \<Rightarrow> ScheduleRunState \<Rightarrow> string option \<Rightarrow> collab_db \<Rightarrow> collab_db" where
  "resolveScheduleRun i n outcome refusal db = db\<lparr>db_runs :=
     tbl_update (open_run i n) (\<lambda>r. r\<lparr>sn_state := outcome, sn_refusal := refusal, sn_resolved := True\<rparr>) (db_runs db)\<rparr>"

definition findStrandedScheduleRuns :: "collab_db \<Rightarrow> int \<Rightarrow> int \<Rightarrow> (ScheduleRun \<times> text_cp option) list" where
  "findStrandedScheduleRuns db now graceSeconds =
     List.map_filter (\<lambda>r. if sn_state r = RunDispatched \<and> sn_firedAt r \<le> now - graceSeconds * 1000
        then map_option (\<lambda>s. (r, sr_hint s)) (getSchedule db (sn_schedule r)) else None) (db_runs db)"

subsection \<open>Authority at wake time\<close>

definition assertScheduleStillAuthorized :: "collab_db \<Rightarrow> string \<Rightarrow> string \<Rightarrow> string option" where
  "assertScheduleStillAuthorized db channelId agent =
     (if list_ex (\<lambda>s. so_channel s = None) (db_stops db) then Some ''stop-global''
      else if list_ex (\<lambda>s. so_channel s = Some channelId) (db_stops db) then Some ''stop-channel''
      else case (member_row db channelId agent, principal_row db agent, channel_row db channelId) of
        (Some m, Some p, Some c) \<Rightarrow>
          if ch_state c \<noteq> ChActive then Some ''channel-archived''
          else if mb_state m \<noteq> MActive then Some ''membership-inactive''
          else if pr_kind p \<noteq> AgentKind then Some ''principal-not-agent''
          else if pr_status p \<noteq> PActive then Some ''principal-inactive''
          else None
      | _ \<Rightarrow> Some ''membership-not-found'')"

datatype CronScheduleError = CRON_UNAVAILABLE | CRON_NOT_FOUND "string option"

definition handleCreateSchedule ::
  "string \<Rightarrow> string option \<Rightarrow> string \<Rightarrow> string \<Rightarrow> int \<Rightarrow> text_cp option \<Rightarrow> string \<Rightarrow> int \<Rightarrow> collab_db
   \<Rightarrow> collab_db \<times> CronScheduleError option" where
  "handleCreateSchedule i operator channelId agent interval hint key now db =
     (let creator = (case operator of None \<Rightarrow> ''operator-seat'' | Some p \<Rightarrow> p)
      in case assertScheduleStillAuthorized db channelId agent of
           Some reason \<Rightarrow> (db, Some (CRON_NOT_FOUND (Some reason)))
         | None \<Rightarrow> (case createSchedule i channelId agent creator interval hint key now db of
             None \<Rightarrow> (db, Some CRON_UNAVAILABLE)
           | Some (db', _) \<Rightarrow> (db', None)))"

definition handleSetScheduleState :: "string \<Rightarrow> bool \<Rightarrow> collab_db \<Rightarrow> collab_db \<times> CronScheduleError option" where
  "handleSetScheduleState i active db =
     (case setScheduleState i active db of
        (db', changed) \<Rightarrow> (db', if changed then None else Some (CRON_NOT_FOUND None)))"

subsection \<open>The tick and the run of one turn\<close>

text \<open>
  What a wake met outside the store: whether the context could be assembled, whether the profile
  offers the posting tool, what the dispatched task did to the database (a function, the store
  commands it committed) and the tool it was blocked on.
\<close>

datatype context_outcome = ContextOk | MembershipRace | ContextFailed

record wake =
  wk_context :: context_outcome
  wk_canPost :: bool
  wk_request :: string
  wk_effect :: "collab_db \<Rightarrow> collab_db"
  wk_blockedOn :: "string option"
  wk_posted :: bool

definition runScheduledTurn :: "wake \<Rightarrow> string \<Rightarrow> nat \<Rightarrow> string \<Rightarrow> string \<Rightarrow> collab_db \<Rightarrow> collab_db" where
  "runScheduledTurn k i n channelId agent db =
     (case wk_context k of
        MembershipRace \<Rightarrow> resolveScheduleRun i n RunTerminated (Some ''membership-race'') db
      | ContextFailed \<Rightarrow> resolveScheduleRun i n RunTerminated (Some ''context-assembly-failed'') db
      | ContextOk \<Rightarrow>
          if \<not> wk_canPost k then resolveScheduleRun i n RunTerminated (Some ''profile-cannot-post'') db
          else let db1 = wk_effect k (attachScheduleRunDispatchRequestId i n (wk_request k) db)
               in (case wk_blockedOn k of
                     Some tool \<Rightarrow> resolveScheduleRun i n RunBlockedAwaitingApproval (Some tool) db1
                   | None \<Rightarrow>
                       if wk_posted k then resolveScheduleRun i n RunCompleted None db1
                       else (case assertScheduleStillAuthorized db1 channelId agent of
                               Some reason \<Rightarrow> resolveScheduleRun i n RunTerminated (Some reason) db1
                             | None \<Rightarrow> resolveScheduleRun i n RunNoPost None db1)))"

definition fire_schedule :: "wake \<Rightarrow> int \<Rightarrow> AgentSchedule \<Rightarrow> collab_db \<Rightarrow> collab_db \<times> bool" where
  "fire_schedule k now s db =
     (case claimScheduleFire (sr_id s) (sr_nextSeq s) (sr_interval s) now db of
        (db1, None) \<Rightarrow> (db1, False)
      | (db1, Some n) \<Rightarrow>
          (case assertScheduleStillAuthorized db1 (sr_channel s) (sr_agent s) of
             Some reason \<Rightarrow>
               (resolveScheduleRun (sr_id s) n RunTerminated (Some reason)
                  (fst (recordScheduleRunDispatched (sr_id s) n (sr_channel s) (sr_agent s) now db1)), True)
           | None \<Rightarrow>
               (case recordScheduleRunDispatched (sr_id s) n (sr_channel s) (sr_agent s) now db1 of
                  (db2, False) \<Rightarrow> (db2, True)
                | (db2, True) \<Rightarrow> (runScheduledTurn k (sr_id s) n (sr_channel s) (sr_agent s) db2, True))))"

fun fire_all :: "(string \<Rightarrow> wake) \<Rightarrow> int \<Rightarrow> AgentSchedule list \<Rightarrow> collab_db \<Rightarrow> collab_db \<times> nat" where
  "fire_all wakes now [] db = (db, 0)"
| "fire_all wakes now (s # ss) db =
     (case fire_schedule (wakes (sr_id s)) now s db of
        (db1, claimed) \<Rightarrow> (case fire_all wakes now ss db1 of
          (db2, n) \<Rightarrow> (db2, if claimed then n + 1 else n)))"

definition tickSchedules :: "(string \<Rightarrow> wake) \<Rightarrow> int \<Rightarrow> collab_db \<Rightarrow> collab_db \<times> nat" where
  "tickSchedules wakes now db = fire_all wakes now (findDueSchedules db now) db"

definition recover_run :: "wake \<Rightarrow> ScheduleRun \<Rightarrow> collab_db \<Rightarrow> collab_db \<times> bool" where
  "recover_run k r db =
     (case assertScheduleStillAuthorized db (sn_channel r) (sn_agent r) of
        Some reason \<Rightarrow> (resolveScheduleRun (sn_schedule r) (sn_seq r) RunTerminated (Some reason) db, False)
      | None \<Rightarrow> (runScheduledTurn k (sn_schedule r) (sn_seq r) (sn_channel r) (sn_agent r) db, True))"

fun recover_all :: "(string \<Rightarrow> wake) \<Rightarrow> ScheduleRun list \<Rightarrow> collab_db \<Rightarrow> collab_db \<times> nat" where
  "recover_all wakes [] db = (db, 0)"
| "recover_all wakes (r # rs) db =
     (case recover_run (wakes (sn_schedule r)) r db of
        (db1, did) \<Rightarrow> (case recover_all wakes rs db1 of
          (db2, n) \<Rightarrow> (db2, if did then n + 1 else n)))"

definition recoverStrandedScheduleRuns :: "(string \<Rightarrow> wake) \<Rightarrow> int \<Rightarrow> int \<Rightarrow> collab_db \<Rightarrow> collab_db \<times> nat" where
  "recoverStrandedScheduleRuns wakes now graceSeconds db =
     recover_all wakes (map fst (findStrandedScheduleRuns db now graceSeconds)) db"

end
