(* ===== verification/Collab_Jobs.thy ===== *)
theory Collab_Jobs
  imports Collab_Turns
begin

text \<open>
  Room jobs of \<open>packages/collab/src/store.ts\<close>: the owner's commands (create, cancel, add facts,
  start), the reads of members, and the internal commands through which the gateway runs an attempt
  (claim, confirm, commit of an artifact, failure, recovery). Clock and identifier calls are numbered
  in call order within a command. A throw that is not an error of the command surface (a violated key,
  a missing table, a value canonical JSON refuses) is \<open>SQL_CONSTRAINT\<close>.
\<close>

subsection \<open>Tables\<close>

definition set_rooms :: "(room_tables \<Rightarrow> room_tables) \<Rightarrow> collab_db \<Rightarrow> collab_db" where
  "set_rooms f db = db\<lparr>db_rooms := f (db_rooms db)\<rparr>"

definition job_row :: "collab_db \<Rightarrow> string \<Rightarrow> RoomJobRow option" where
  "job_row db j = tbl_get (\<lambda>r. rj_id r = j) (rm_jobs (db_rooms db))"

definition job_in :: "collab_db \<Rightarrow> string \<Rightarrow> string \<Rightarrow> RoomJobRow option" where
  "job_in db c j = tbl_get (\<lambda>r. rj_id r = j \<and> rj_channel r = c) (rm_jobs (db_rooms db))"

definition attempt_row :: "collab_db \<Rightarrow> string \<Rightarrow> RoomAttemptRow option" where
  "attempt_row db t = tbl_get (\<lambda>r. rt_id r = t) (rm_attempts (db_rooms db))"

definition outbox_is :: "string \<Rightarrow> RoomJobStage \<Rightarrow> RoomOutboxRow \<Rightarrow> bool" where
  "outbox_is t stage r \<longleftrightarrow> ob_attempt r = t \<and> ob_stage r = stage"

definition outbox_row :: "collab_db \<Rightarrow> string \<Rightarrow> RoomJobStage \<Rightarrow> RoomOutboxRow option" where
  "outbox_row db t stage = tbl_get (outbox_is t stage) (rm_outbox (db_rooms db))"

definition update_jobs :: "(RoomJobRow \<Rightarrow> bool) \<Rightarrow> (RoomJobRow \<Rightarrow> RoomJobRow) \<Rightarrow> collab_db \<Rightarrow> collab_db" where
  "update_jobs P f = set_rooms (\<lambda>m. m\<lparr>rm_jobs := tbl_update P f (rm_jobs m)\<rparr>)"

definition update_attempts ::
  "(RoomAttemptRow \<Rightarrow> bool) \<Rightarrow> (RoomAttemptRow \<Rightarrow> RoomAttemptRow) \<Rightarrow> collab_db \<Rightarrow> collab_db" where
  "update_attempts P f = set_rooms (\<lambda>m. m\<lparr>rm_attempts := tbl_update P f (rm_attempts m)\<rparr>)"

definition update_outbox ::
  "(RoomOutboxRow \<Rightarrow> bool) \<Rightarrow> (RoomOutboxRow \<Rightarrow> RoomOutboxRow) \<Rightarrow> collab_db \<Rightarrow> collab_db" where
  "update_outbox P f = set_rooms (\<lambda>m. m\<lparr>rm_outbox := tbl_update P f (rm_outbox m)\<rparr>)"

text \<open>The inserts, under the keys of the tables.\<close>

definition insert_job :: "RoomJobRow \<Rightarrow> collab_db \<Rightarrow> collab_db option" where
  "insert_job r db =
     (if job_row db (rj_id r) \<noteq> None then None
      else Some (set_rooms (\<lambda>m. m\<lparr>rm_jobs := rm_jobs m @ [r]\<rparr>) db))"

definition insert_job_event :: "RoomJobEventRow \<Rightarrow> collab_db \<Rightarrow> collab_db option" where
  "insert_job_event r db =
     (if list_ex (\<lambda>e. re_event e = re_event r \<or> (re_job e = re_job r \<and> re_seq e = re_seq r)) (rm_events (db_rooms db))
      then None else Some (set_rooms (\<lambda>m. m\<lparr>rm_events := rm_events m @ [r]\<rparr>) db))"

definition insert_artifact :: "RoomArtifactRow \<Rightarrow> collab_db \<Rightarrow> collab_db option" where
  "insert_artifact r db =
     (if length (ra_content r) > 65536
         \<or> list_ex (\<lambda>a. ra_id a = ra_id r \<or> (ra_job a = ra_job r \<and> (ra_revision a = ra_revision r \<or> ra_sha a = ra_sha r)))
             (rm_artifacts (db_rooms db))
      then None else Some (set_rooms (\<lambda>m. m\<lparr>rm_artifacts := rm_artifacts m @ [r]\<rparr>) db))"

definition insert_attempt :: "RoomAttemptRow \<Rightarrow> collab_db \<Rightarrow> collab_db option" where
  "insert_attempt r db =
     (if list_ex (\<lambda>a. rt_id a = rt_id r \<or> (rt_job a = rt_job r \<and> rt_generation a = rt_generation r))
           (rm_attempts (db_rooms db))
      then None else Some (set_rooms (\<lambda>m. m\<lparr>rm_attempts := rm_attempts m @ [r]\<rparr>) db))"

definition insert_attempt_facts :: "RoomAttemptFactRow list \<Rightarrow> collab_db \<Rightarrow> collab_db option" where
  "insert_attempt_facts rows db =
     (let old = rm_attemptFacts (db_rooms db)
      in if distinct (map (\<lambda>r. (tf_attempt r, tf_fact r)) (old @ rows))
            \<and> distinct (map (\<lambda>r. (tf_attempt r, tf_ordinal r)) (old @ rows))
         then Some (set_rooms (\<lambda>m. m\<lparr>rm_attemptFacts := old @ rows\<rparr>) db) else None)"

definition insert_outbox :: "RoomOutboxRow \<Rightarrow> collab_db \<Rightarrow> collab_db option" where
  "insert_outbox r db =
     (if list_ex (\<lambda>o'. ob_id o' = ob_id r \<or> outbox_is (ob_attempt r) (ob_stage r) o') (rm_outbox (db_rooms db))
      then None else Some (set_rooms (\<lambda>m. m\<lparr>rm_outbox := rm_outbox m @ [r]\<rparr>) db))"

definition upsert_ack :: "RoomAckRow \<Rightarrow> collab_db \<Rightarrow> collab_db option" where
  "upsert_ack r db =
     (let mine = (\<lambda>a. ak_attempt a = ak_attempt r \<and> ak_stage a = ak_stage r); acks = rm_acks (db_rooms db)
      in if list_ex mine acks
         then Some (set_rooms (\<lambda>m. m\<lparr>rm_acks := tbl_update mine (\<lambda>a. a\<lparr>ak_hash := ak_hash r\<rparr>) acks\<rparr>) db)
         else if list_ex (\<lambda>a. ak_request a = ak_request r) acks then None
         else Some (set_rooms (\<lambda>m. m\<lparr>rm_acks := acks @ [r]\<rparr>) db))"

text \<open>The digests: of bytes, and of the canonical form of a value.\<close>

definition content_hash :: "platform \<Rightarrow> nat list \<Rightarrow> string" where
  "content_hash pf bs = concat (map hex_byte (pf_sha pf bs))"

definition json_hash :: "platform \<Rightarrow> jval \<Rightarrow> string option" where
  "json_hash pf v = (case canonicalJson v of Inl _ \<Rightarrow> None | Inr t \<Rightarrow> Some (content_hash pf (utf8 t)))"

definition jtext :: "string \<Rightarrow> jval" where
  "jtext s = JStr (cps s)"

subsection \<open>The lifecycle log\<close>

definition job_events :: "collab_db \<Rightarrow> string \<Rightarrow> RoomJobEventRow list" where
  "job_events db j = filter (\<lambda>e. re_job e = j) (rm_events (db_rooms db))"

definition max_job_seq :: "collab_db \<Rightarrow> string \<Rightarrow> nat" where
  "max_job_seq db j = fold max (map re_seq (job_events db j)) 0"

definition job_state_text :: "RoomJobState \<Rightarrow> string" where
  "job_state_text s = (case s of JobCreated \<Rightarrow> ''created'' | JobCancelled \<Rightarrow> ''cancelled'')"

definition job_payload :: "string \<Rightarrow> RoomJobState \<Rightarrow> int \<Rightarrow> (text_cp \<times> jval) list \<Rightarrow> jval" where
  "job_payload j s revision extra = JObj ([(cps ''jobId'', jtext j), (cps ''state'', jtext (job_state_text s)),
     (cps ''revision'', JNum (Fin revision))] @ extra)"

definition appendRoomJobLifecycle ::
  "string \<Rightarrow> string \<Rightarrow> string \<Rightarrow> string \<Rightarrow> RoomJobLifecycleKind \<Rightarrow> RoomJobState \<Rightarrow> int \<Rightarrow> string
   \<Rightarrow> (text_cp \<times> jval) list \<Rightarrow> collab_db \<Rightarrow> collab_db option" where
  "appendRoomJobLifecycle eventId occurredAt c j kind s revision actor extra db =
     (case insert_job_event \<lparr>re_job = j, re_seq = max_job_seq db j + 1, re_event = eventId, re_kind = kind,
             re_state = s, re_revision = revision, re_createdAt = occurredAt\<rparr> db of
        None \<Rightarrow> None
      | Some db1 \<Rightarrow> append_event eventId c actor (room_job kind) (job_payload j s revision extra) occurredAt db1)"

definition attempt_member :: "string \<Rightarrow> (text_cp \<times> jval) list" where
  "attempt_member t = [(cps ''attemptId'', jtext t)]"

definition toRoomJobListEntry :: "RoomJobRow \<Rightarrow> bool \<Rightarrow> RoomJobListEntry" where
  "toRoomJobListEntry r canCreate = \<lparr>le_job = rj_id r, le_channel = rj_channel r, le_state = rj_state r,
     le_revision = rj_revision r, le_createdAt = rj_createdAt r, le_cancelledAt = rj_cancelledAt r,
     le_briefBytes = utf8_length (rj_brief r), le_canCreate = canCreate,
     le_canCancel = (canCreate \<and> rj_state r = JobCreated)\<rparr>"

definition callerOwnsChannel :: "string \<Rightarrow> string \<Rightarrow> collab_db \<Rightarrow> bool" where
  "callerOwnsChannel caller c db =
     (case (principal_row db caller, channel_row db c) of
        (Some p, Some ch) \<Rightarrow> pr_kind p = OperatorKind \<and> pr_status p = PActive \<and> ch_owner ch = pr_id p
      | _ \<Rightarrow> False)"

subsection \<open>Create and cancel\<close>

definition new_job :: "platform \<Rightarrow> string \<Rightarrow> string \<Rightarrow> string \<Rightarrow> text_cp \<Rightarrow> string \<Rightarrow> RoomJobRow" where
  "new_job pf j c creator brief createdAt = \<lparr>rj_id = j, rj_channel = c, rj_creator = creator, rj_brief = brief,
     rj_briefSha = sha_hex pf brief, rj_state = JobCreated, rj_revision = 1, rj_createdAt = createdAt,
     rj_cancelRequestedAt = None, rj_cancelledAt = None, rj_generation = 1\<rparr>"

definition create_job_tx ::
  "platform \<Rightarrow> env \<Rightarrow> string \<Rightarrow> string \<Rightarrow> text_cp \<Rightarrow> string \<Rightarrow> collab_db \<Rightarrow> CollabErrorCode + reply \<times> reply \<times> collab_db" where
  "create_job_tx pf en caller c brief key db =
     (case channel_row db c of
        None \<Rightarrow> Inl COLLAB_NOT_FOUND
      | Some ch \<Rightarrow>
      if ch_state ch = ChArchived then Inl CHANNEL_ARCHIVED
      else
        let row = new_job pf (en_uuid en 0) (ch_id ch) caller brief (en_clock en 0)
        in case insert_job row db of
             None \<Rightarrow> Inl SQL_CONSTRAINT
           | Some db1 \<Rightarrow>
           case appendRoomJobLifecycle (en_uuid en 1) (en_clock en 1) (ch_id ch) (rj_id row) job_created JobCreated 1
                  caller [] db1 of
             None \<Rightarrow> Inl SQL_CONSTRAINT
           | Some db2 \<Rightarrow> let r = CreateRoomJobReply (toRoomJobListEntry row True) key in Inr (r, r, db2))"

definition createRoomJob ::
  "platform \<Rightarrow> env \<Rightarrow> string \<Rightarrow> string \<Rightarrow> text_cp \<Rightarrow> string \<Rightarrow> collab_db \<Rightarrow> collab_db \<times> (CollabErrorCode + reply)" where
  "createRoomJob pf en caller c brief key db =
     (case normalizeMessageText (pf_nfc pf) brief of
        None \<Rightarrow> (db, Inl INVALID_REQUEST)
      | Some normalized \<Rightarrow>
          runKeyedCommand pf caller CREATE_ROOM_JOB key
            (JObj [(cps ''channelId'', jtext c), (cps ''brief'', JStr normalized)])
            (assertChannelOwner caller c) (create_job_tx pf en caller c normalized key) db)"

text \<open>The fence of a cancellation, on a database with the execution tables.\<close>

definition attempts_of :: "collab_db \<Rightarrow> string \<Rightarrow> string list" where
  "attempts_of db j = map rt_id (filter (\<lambda>r. rt_job r = j) (rm_attempts (db_rooms db)))"

definition fence_job :: "string \<Rightarrow> string \<Rightarrow> collab_db \<Rightarrow> collab_db" where
  "fence_job j cancelledAt db =
     (let mine = attempts_of db j
      in update_attempts (\<lambda>r. rt_job r = j \<and> rt_state r \<in> {Queued, AtDraftCommitted, AtReviewCommitted})
           (\<lambda>r. r\<lparr>rt_state := AtCancelled, rt_reason := Some ''room_job_cancelled'', rt_updatedAt := cancelledAt\<rparr>)
         (update_outbox (\<lambda>r. ob_attempt r \<in> set mine \<and> ob_state r \<in> {ObPending, ObClaimed})
           (\<lambda>r. r\<lparr>ob_state := ObCancelled\<rparr>)
         (update_jobs (\<lambda>r. rj_id r = j) (\<lambda>r. r\<lparr>rj_generation := rj_generation r + 1\<rparr>) db)))"

definition cancel_job_tx ::
  "env \<Rightarrow> string \<Rightarrow> string \<Rightarrow> string \<Rightarrow> int \<Rightarrow> collab_db \<Rightarrow> CollabErrorCode + reply \<times> reply \<times> collab_db" where
  "cancel_job_tx en caller c j expected db =
     (case job_in db c j of
        None \<Rightarrow> Inl COLLAB_NOT_FOUND
      | Some row \<Rightarrow>
      if rj_revision row \<noteq> expected then Inl INVALID_REQUEST
      else if rj_state row = JobCancelled
      then (let r = CancelRoomJobReply (toRoomJobListEntry row True) in Inr (r, r, db))
      else
        let requestedAt = en_clock en 0;
            db1 = update_jobs (\<lambda>r. rj_id r = j) (\<lambda>r. r\<lparr>rj_cancelRequestedAt := Some requestedAt\<rparr>) db
        in case appendRoomJobLifecycle (en_uuid en 0) (en_clock en 1) (rj_channel row) j cancel_requested JobCreated
                  (rj_revision row) caller [] db1 of
             None \<Rightarrow> Inl SQL_CONSTRAINT
           | Some db2 \<Rightarrow>
               let cancelledAt = en_clock en 2;
                   revision = rj_revision row + 1;
                   db3 = update_jobs (\<lambda>r. rj_id r = j \<and> rj_state r = JobCreated)
                     (\<lambda>r. r\<lparr>rj_state := JobCancelled, rj_revision := revision, rj_cancelledAt := Some cancelledAt\<rparr>) db2;
                   db4 = if rm_execution (db_rooms db3) then fence_job j cancelledAt db3 else db3
               in case appendRoomJobLifecycle (en_uuid en 1) (en_clock en 3) (rj_channel row) j job_cancelled JobCancelled
                         revision caller [] db4 of
                    None \<Rightarrow> Inl SQL_CONSTRAINT
                  | Some db5 \<Rightarrow>
                      let r = CancelRoomJobReply ((toRoomJobListEntry row True)\<lparr>le_state := JobCancelled,
                            le_revision := revision, le_cancelledAt := Some cancelledAt, le_canCreate := True,
                            le_canCancel := False\<rparr>)
                      in Inr (r, r, db5))"

definition cancelRoomJob ::
  "platform \<Rightarrow> env \<Rightarrow> string \<Rightarrow> string \<Rightarrow> string \<Rightarrow> int \<Rightarrow> string \<Rightarrow> collab_db \<Rightarrow> collab_db \<times> (CollabErrorCode + reply)" where
  "cancelRoomJob pf en caller c j expected key db =
     runKeyedCommand pf caller CANCEL_ROOM_JOB key
       (JObj [(cps ''channelId'', jtext c), (cps ''jobId'', jtext j), (cps ''expectedRevision'', JNum (Fin expected))])
       (assertChannelOwner caller c) (cancel_job_tx en caller c j expected) db"

subsection \<open>Facts and start\<close>

fun insert_facts ::
  "platform \<Rightarrow> env \<Rightarrow> string \<Rightarrow> string \<Rightarrow> nat \<Rightarrow> nat \<Rightarrow> text_cp list \<Rightarrow> collab_db
   \<Rightarrow> CollabErrorCode + RoomJobFactMetadata list \<times> collab_db" where
  "insert_facts pf en j now k ordinal [] db = Inr ([], db)"
| "insert_facts pf en j now k ordinal (t # ts) db =
     (let factId = en_uuid en k; bytes = utf8 t; sha = content_hash pf bytes; old = rm_facts (db_rooms db)
      in if length bytes > 65536 \<or> list_ex (\<lambda>f. rf_id f = factId) old then Inl SQL_CONSTRAINT
         else if list_ex (\<lambda>f. rf_job f = j \<and> rf_sha f = sha) old then Inl INVALID_REQUEST
         else if list_ex (\<lambda>f. rf_job f = j \<and> rf_ordinal f = ordinal) old then Inl SQL_CONSTRAINT
         else
           let row = \<lparr>rf_id = factId, rf_job = j, rf_ordinal = ordinal, rf_content = bytes, rf_sha = sha,
                      rf_createdAt = now\<rparr>
           in case insert_facts pf en j now (k + 1) (ordinal + 1) ts
                     (set_rooms (\<lambda>m. m\<lparr>rm_facts := old @ [row]\<rparr>) db) of
                Inl e \<Rightarrow> Inl e
              | Inr (ms, db') \<Rightarrow>
                  Inr (\<lparr>fm_id = factId, fm_ordinal = ordinal, fm_sha = sha, fm_createdAt = now\<rparr> # ms, db'))"

definition job_facts :: "collab_db \<Rightarrow> string \<Rightarrow> RoomFactRow list" where
  "job_facts db j = filter (\<lambda>f. rf_job f = j) (rm_facts (db_rooms db))"

definition add_facts_tx ::
  "platform \<Rightarrow> env \<Rightarrow> string \<Rightarrow> string \<Rightarrow> text_cp list \<Rightarrow> string \<Rightarrow> collab_db
   \<Rightarrow> CollabErrorCode + reply \<times> reply \<times> collab_db" where
  "add_facts_tx pf en c j texts key db =
     (if \<not> rm_execution (db_rooms db) then Inl INVALID_REQUEST
      else case job_in db c j of
        None \<Rightarrow> Inl COLLAB_NOT_FOUND
      | Some job \<Rightarrow>
      if rj_state job \<noteq> JobCreated then Inl INVALID_REQUEST
      else
        let nextOrdinal = fold max (map rf_ordinal (job_facts db j)) 0 + 1
        in case insert_facts pf en j (en_clock en 0) 0 nextOrdinal texts db of
             Inl e \<Rightarrow> Inl e
           | Inr (ms, db') \<Rightarrow> let r = RoomJobFactsReply ms key in Inr (r, r, db'))"

definition appendRoomJobFacts ::
  "platform \<Rightarrow> env \<Rightarrow> string \<Rightarrow> string \<Rightarrow> string \<Rightarrow> text_cp list \<Rightarrow> string \<Rightarrow> collab_db
   \<Rightarrow> collab_db \<times> (CollabErrorCode + reply)" where
  "appendRoomJobFacts pf en caller c j facts key db =
     (if length facts < 1 \<or> length facts > 20 then (db, Inl INVALID_REQUEST)
      else case those (map (normalizeMessageText (pf_nfc pf)) facts) of
        None \<Rightarrow> (db, Inl INVALID_REQUEST)
      | Some texts \<Rightarrow>
          runKeyedCommand pf caller ADD_ROOM_JOB_FACTS key
            (JObj [(cps ''channelId'', jtext c), (cps ''jobId'', jtext j),
                   (cps ''facts'', JArr (map (\<lambda>t. Some (JStr t)) texts))])
            (assertChannelOwner caller c) (add_facts_tx pf en c j texts key) db)"

definition assertRoomJobStartAdmissionInTx :: "string \<Rightarrow> string \<Rightarrow> string \<Rightarrow> collab_db \<Rightarrow> CollabErrorCode option" where
  "assertRoomJobStartAdmissionInTx caller c j db =
     (case assertChannelOwner caller c db of
        Some e \<Rightarrow> Some e
      | None \<Rightarrow>
      case channel_row db c of
        None \<Rightarrow> Some COLLAB_NOT_FOUND
      | Some ch \<Rightarrow>
      if ch_state ch \<noteq> ChActive then Some CHANNEL_ARCHIVED
      else case member_row db c caller of
        None \<Rightarrow> Some COLLAB_NOT_FOUND
      | Some m \<Rightarrow>
      if mb_state m \<noteq> MActive then Some COLLAB_NOT_FOUND
      else case job_in db c j of
        None \<Rightarrow> Some COLLAB_NOT_FOUND
      | Some job \<Rightarrow> if rj_state job \<noteq> JobCreated then Some INVALID_REQUEST else None)"

definition fact_ref :: "bool \<Rightarrow> RoomFactRow \<Rightarrow> jval option" where
  "fact_ref ordinal f = Some (JObj ([(cps ''factId'', jtext (rf_id f))]
     @ (if ordinal then [(cps ''ordinal'', JNum (Fin (int (rf_ordinal f))))] else [])
     @ [(cps ''sha256'', jtext (rf_sha f))]))"

definition stage_text :: "RoomJobStage \<Rightarrow> string" where
  "stage_text s = (case s of Draft \<Rightarrow> ''draft'' | Review \<Rightarrow> ''review'')"

definition start_job_tx ::
  "platform \<Rightarrow> env \<Rightarrow> string \<Rightarrow> string \<Rightarrow> string \<Rightarrow> string list \<Rightarrow> string \<Rightarrow> string \<Rightarrow> collab_db
   \<Rightarrow> CollabErrorCode + reply \<times> reply \<times> collab_db" where
  "start_job_tx pf en caller c j factIds key configuration db =
     (if \<not> rm_execution (db_rooms db) then Inl INVALID_REQUEST
      else case job_in db c j of
        None \<Rightarrow> Inl COLLAB_NOT_FOUND
      | Some job \<Rightarrow>
      if rj_state job \<noteq> JobCreated then Inl INVALID_REQUEST
      else if list_ex (\<lambda>t. rt_job t = j \<and> rt_generation t = rj_generation job) (rm_attempts (db_rooms db))
      then Inl INVALID_REQUEST
      else
        let facts = sort_key rf_ordinal (filter (\<lambda>f. rf_id f \<in> set factIds) (job_facts db j))
        in if length facts \<noteq> length factIds then Inl INVALID_REQUEST
        else
        let attemptId = en_uuid en 0; now = en_clock en 0; generation = rj_generation job
        in case json_hash pf (JObj [(cps ''briefSha256'', jtext (rj_briefSha job)),
                                    (cps ''facts'', JArr (map (fact_ref True) facts))]) of
          None \<Rightarrow> Inl SQL_CONSTRAINT
        | Some inputHash \<Rightarrow>
        case insert_attempt \<lparr>rt_id = attemptId, rt_job = j, rt_owner = caller, rt_generation = generation,
               rt_inputHash = inputHash, rt_configuration = configuration, rt_state = Queued, rt_reason = None,
               rt_createdAt = now, rt_updatedAt = now\<rparr> db of
          None \<Rightarrow> Inl SQL_CONSTRAINT
        | Some db1 \<Rightarrow>
        case insert_attempt_facts (map (\<lambda>f. \<lparr>tf_attempt = attemptId, tf_fact = rf_id f, tf_ordinal = rf_ordinal f,
               tf_sha = rf_sha f\<rparr>) facts) db1 of
          None \<Rightarrow> Inl SQL_CONSTRAINT
        | Some db2 \<Rightarrow>
        case json_hash pf (JObj [(cps ''attemptId'', jtext attemptId), (cps ''stage'', jtext ''draft''),
               (cps ''generation'', JNum (Fin generation)), (cps ''inputHash'', jtext inputHash),
               (cps ''facts'', JArr (map (fact_ref False) facts))]) of
          None \<Rightarrow> Inl SQL_CONSTRAINT
        | Some payload \<Rightarrow>
        case insert_outbox \<lparr>ob_id = en_uuid en 1, ob_attempt = attemptId, ob_stage = Draft, ob_payload = payload,
               ob_state = ObPending, ob_createdAt = now, ob_ackAt = None\<rparr> db2 of
          None \<Rightarrow> Inl SQL_CONSTRAINT
        | Some db3 \<Rightarrow>
        case appendRoomJobLifecycle (en_uuid en 2) (en_clock en 1) (rj_channel job) j attempt_started JobCreated
               (rj_revision job) caller (attempt_member attemptId) db3 of
          None \<Rightarrow> Inl SQL_CONSTRAINT
        | Some db4 \<Rightarrow>
            let r = StartRoomJobReply \<lparr>am_id = attemptId, am_generation = generation, am_inputHash = inputHash,
                  am_configuration = configuration, am_state = Queued, am_reason = None, am_createdAt = now,
                  am_updatedAt = now\<rparr> key
            in Inr (r, r, db4))"

definition startRoomJob ::
  "platform \<Rightarrow> env \<Rightarrow> string \<Rightarrow> string \<Rightarrow> string \<Rightarrow> string list \<Rightarrow> string \<Rightarrow> string \<Rightarrow> collab_db
   \<Rightarrow> collab_db \<times> (CollabErrorCode + reply)" where
  "startRoomJob pf en caller c j factIds key configuration db =
     (if length factIds < 1 \<or> length factIds > 20 \<or> \<not> distinct factIds then (db, Inl INVALID_REQUEST)
      else if length configuration \<noteq> 64 \<or> \<not> list_all is_lower_hex configuration then (db, Inl INVALID_REQUEST)
      else runKeyedCommand pf caller START_ROOM_JOB key
        (JObj [(cps ''channelId'', jtext c), (cps ''jobId'', jtext j),
               (cps ''factIds'', JArr (map (\<lambda>f. Some (jtext f)) factIds))])
        (assertRoomJobStartAdmissionInTx caller c j) (start_job_tx pf en caller c j factIds key configuration) db)"

definition assertRoomJobStartAdmission :: "string \<Rightarrow> string \<Rightarrow> string \<Rightarrow> collab_db \<Rightarrow> CollabErrorCode option" where
  "assertRoomJobStartAdmission caller c j db = assertRoomJobStartAdmissionInTx caller c j db"

subsection \<open>Reads of members\<close>

record ListRoomJobsResult =
  lr_channel :: string
  lr_jobs :: "RoomJobListEntry list"
  lr_next :: string
  lr_more :: bool
  lr_canCreate :: bool

text \<open>The row id of a job is its position: rows are only ever appended.\<close>

definition numbered_jobs :: "collab_db \<Rightarrow> (nat \<times> RoomJobRow) list" where
  "numbered_jobs db = zip [1..<Suc (length (rm_jobs (db_rooms db)))] (rm_jobs (db_rooms db))"

definition listRoomJobs ::
  "string \<Rightarrow> string \<Rightarrow> string \<Rightarrow> int \<Rightarrow> collab_db \<Rightarrow> CollabErrorCode + ListRoomJobsResult" where
  "listRoomJobs caller c cursorText limit db =
     (if limit < 1 \<or> limit > 100 then Inl INVALID_REQUEST
      else case parseCursor cursorText of
        None \<Rightarrow> Inl INVALID_REQUEST
      | Some cursor \<Rightarrow>
      case assertChannelVisible caller c db of
        Inl e \<Rightarrow> Inl e
      | Inr _ \<Rightarrow>
          let canCreate = callerOwnsChannel caller c db;
              rows = take (nat limit + 1) (filter (\<lambda>(n, r). rj_channel r = c \<and> n > cursor) (numbered_jobs db));
              page = take (nat limit) rows
          in Inr \<lparr>lr_channel = c, lr_jobs = map (\<lambda>(n, r). toRoomJobListEntry r canCreate) page,
                  lr_next = (if page = [] then cursorText else show_nat (fst (last page))),
                  lr_more = (length page < length rows), lr_canCreate = canCreate\<rparr>)"

record RoomArtifactMetadata =
  rx_id :: string
  rx_type :: RoomArtifactType
  rx_revision :: int
  rx_kind :: RoomArtifactProvenanceKind
  rx_sha :: string
  rx_createdAt :: string

definition artifact_metadata :: "RoomArtifactRow \<Rightarrow> RoomArtifactMetadata" where
  "artifact_metadata a = \<lparr>rx_id = ra_id a, rx_type = ra_type a, rx_revision = ra_revision a, rx_kind = ra_kind a,
     rx_sha = ra_sha a, rx_createdAt = ra_createdAt a\<rparr>"

definition job_artifacts :: "collab_db \<Rightarrow> string \<Rightarrow> RoomArtifactRow list" where
  "job_artifacts db j = sort_key ra_revision (filter (\<lambda>a. ra_job a = j) (rm_artifacts (db_rooms db)))"

record RoomJobDetail =
  jd_entry :: RoomJobListEntry
  jd_lifecycle :: "RoomJobEventRow list"
  jd_artifacts :: "RoomArtifactMetadata list"

definition getRoomJob :: "string \<Rightarrow> string \<Rightarrow> string \<Rightarrow> collab_db \<Rightarrow> CollabErrorCode + RoomJobDetail" where
  "getRoomJob caller c j db =
     (case assertChannelVisible caller c db of
        Inl e \<Rightarrow> Inl e
      | Inr _ \<Rightarrow> (case job_in db c j of
          None \<Rightarrow> Inl COLLAB_NOT_FOUND
        | Some r \<Rightarrow> Inr \<lparr>jd_entry = toRoomJobListEntry r (callerOwnsChannel caller c db),
            jd_lifecycle = sort_key re_seq (job_events db j),
            jd_artifacts = map artifact_metadata (job_artifacts db j)\<rparr>))"

datatype RoomJobPublicTerminalCode =
    TcCancelled | TcValidationFailed | TcRecoveryNeeded | TcRuntimeUnavailable | TcStageFailed

definition terminal_code :: "RoomAttemptRow \<Rightarrow> RoomJobPublicTerminalCode option" where
  "terminal_code a =
     (if rt_reason a = Some ''room_job_cancelled'' then Some TcCancelled
      else if rt_state a = ValidationFailed then Some TcValidationFailed
      else if rt_state a = AtRecoveryNeeded then Some TcRecoveryNeeded
      else if rt_state a = AtRuntimeUnavailable then Some TcRuntimeUnavailable
      else if rt_reason a = Some ''stage_failed'' then Some TcStageFailed else None)"

record RoomJobExecutionDetail =
  xd_job :: RoomJobDetail
  xd_canAddFacts :: bool
  xd_canStart :: bool
  xd_facts :: "RoomJobFactMetadata list option"
  xd_latest :: "(AttemptState \<times> RoomJobPublicTerminalCode option \<times> string) option"

text \<open>On a database without the execution tables the query names a missing column and throws.\<close>

definition getRoomJobExecutionDetail ::
  "string \<Rightarrow> string \<Rightarrow> string \<Rightarrow> collab_db \<Rightarrow> CollabErrorCode + RoomJobExecutionDetail" where
  "getRoomJobExecutionDetail caller c j db =
     (case getRoomJob caller c j db of
        Inl e \<Rightarrow> Inl e
      | Inr job \<Rightarrow>
      if \<not> rm_execution (db_rooms db) then Inl SQL_CONSTRAINT
      else case job_in db c j of
        None \<Rightarrow> Inl COLLAB_NOT_FOUND
      | Some r \<Rightarrow>
          let owner = callerOwnsChannel caller c db;
              facts = sort_key rf_ordinal (job_facts db j);
              current = filter (\<lambda>t. rt_job t = j \<and> rt_generation t = rj_generation r) (rm_attempts (db_rooms db));
              mutable = (owner \<and> rj_state r = JobCreated)
          in Inr \<lparr>xd_job = job, xd_canAddFacts = mutable,
                  xd_canStart = (mutable \<and> facts \<noteq> [] \<and> current = []),
                  xd_facts = (if owner then Some (map (\<lambda>f. \<lparr>fm_id = rf_id f, fm_ordinal = rf_ordinal f,
                     fm_sha = rf_sha f, fm_createdAt = rf_createdAt f\<rparr>) facts) else None),
                  xd_latest = (case current of [] \<Rightarrow> None
                     | t # _ \<Rightarrow> Some (rt_state t, terminal_code t, rt_updatedAt t))\<rparr>)"

subsection \<open>Reading an artifact\<close>

text \<open>
  The UTF-8 decoder of the platform. A lead byte fixes the number of continuation bytes and the
  range of the first; a maximal prefix of an ill-formed sequence becomes one replacement character.
\<close>

fun utf8_cont :: "nat \<Rightarrow> nat \<Rightarrow> nat \<Rightarrow> nat \<Rightarrow> nat list \<Rightarrow> nat option \<times> nat list" where
  "utf8_cont 0 lo hi acc bs = (Some acc, bs)"
| "utf8_cont (Suc n) lo hi acc [] = (None, [])"
| "utf8_cont (Suc n) lo hi acc (b # bs) =
     (if lo \<le> b \<and> b \<le> hi then utf8_cont n 128 191 (acc * 64 + (b - 128)) bs else (None, b # bs))"

definition utf8_lead :: "nat \<Rightarrow> (nat \<times> nat \<times> nat \<times> nat) option" where
  "utf8_lead b =
     (if 194 \<le> b \<and> b \<le> 223 then Some (1, 128, 191, b - 192)
      else if 224 \<le> b \<and> b \<le> 239 then Some (2, if b = 224 then 160 else 128, if b = 237 then 159 else 191, b - 224)
      else if 240 \<le> b \<and> b \<le> 244 then Some (3, if b = 240 then 144 else 128, if b = 244 then 143 else 191, b - 240)
      else None)"

lemma utf8_cont_length: "length (snd (utf8_cont n lo hi acc bs)) \<le> length bs"
  by (induction n lo hi acc bs rule: utf8_cont.induct) auto

function utf8_decode :: "nat list \<Rightarrow> text_cp" where
  "utf8_decode [] = []"
| "utf8_decode (b # bs) =
     (if b < 128 then b # utf8_decode bs
      else case utf8_lead b of
        None \<Rightarrow> 65533 # utf8_decode bs
      | Some (n, lo, hi, acc) \<Rightarrow>
          let r = utf8_cont n lo hi acc bs
          in (case fst r of None \<Rightarrow> 65533 | Some c \<Rightarrow> c) # utf8_decode (snd r))"
  by pat_completeness auto
termination by (relation "measure length") (auto simp: le_imp_less_Suc utf8_cont_length)

record RoomArtifactContent =
  rc_meta :: RoomArtifactMetadata
  rc_content :: text_cp

definition getRoomJobArtifact ::
  "platform \<Rightarrow> string \<Rightarrow> string \<Rightarrow> string \<Rightarrow> string \<Rightarrow> collab_db \<Rightarrow> CollabErrorCode + RoomArtifactContent" where
  "getRoomJobArtifact pf caller c j artifactId db =
     (case assertChannelVisible caller c db of
        Inl e \<Rightarrow> Inl e
      | Inr _ \<Rightarrow>
      case tbl_get (\<lambda>a. ra_id a = artifactId \<and> ra_job a = j \<and> job_in db c j \<noteq> None
             \<and> ra_type a \<in> {Proposal, DecisionSummary} \<and> ra_kind a = ModelAssertion) (rm_artifacts (db_rooms db)) of
        None \<Rightarrow> Inl COLLAB_NOT_FOUND
      | Some a \<Rightarrow>
      if content_hash pf (ra_content a) \<noteq> ra_sha a then Inl INVALID_REQUEST
      else
        let content = utf8_decode (ra_content a)
        in if utf8_length content \<noteq> length (ra_content a) \<or> content \<noteq> pf_nfc pf content then Inl INVALID_REQUEST
           else Inr \<lparr>rc_meta = artifact_metadata a, rc_content = content\<rparr>)"

subsection \<open>The internal commands\<close>

text \<open>The join of an attempt with its job, outbox row, channel and owner.\<close>

definition run_row ::
  "collab_db \<Rightarrow> string \<Rightarrow> RoomJobStage
   \<Rightarrow> (RoomAttemptRow \<times> RoomJobRow \<times> RoomOutboxRow \<times> ChannelRow \<times> PrincipalRow) option" where
  "run_row db t stage =
     (case attempt_row db t of None \<Rightarrow> None | Some a \<Rightarrow>
     (case job_row db (rt_job a) of None \<Rightarrow> None | Some j \<Rightarrow>
     (case outbox_row db t stage of None \<Rightarrow> None | Some b \<Rightarrow>
     (case channel_row db (rj_channel j) of None \<Rightarrow> None | Some ch \<Rightarrow>
     (case principal_row db (rt_owner a) of None \<Rightarrow> None | Some p \<Rightarrow> Some (a, j, b, ch, p))))))"

text \<open>What a commit or a failure report asks of the rows, and what a dispatch asks besides.\<close>

definition run_current :: "RoomAttemptRow \<Rightarrow> RoomJobRow \<Rightarrow> ChannelRow \<Rightarrow> PrincipalRow \<Rightarrow> bool" where
  "run_current a j ch p \<longleftrightarrow> rj_state j = JobCreated \<and> ch_state ch = ChActive \<and> pr_status p = PActive
     \<and> ch_owner ch = rt_owner a \<and> rt_generation a = rj_generation j"

definition run_dispatchable :: "RoomAttemptRow \<Rightarrow> RoomJobRow \<Rightarrow> ChannelRow \<Rightarrow> PrincipalRow \<Rightarrow> bool" where
  "run_dispatchable a j ch p \<longleftrightarrow> run_current a j ch p \<and> pr_kind p = OperatorKind"

record RoomJobInternalRun =
  ir_attempt :: string
  ir_stage :: RoomJobStage
  ir_channel :: string
  ir_owner :: string
  ir_generation :: int
  ir_inputHash :: string
  ir_configuration :: string
  ir_brief :: text_cp
  ir_facts :: "(string \<times> string \<times> nat list) list"
  ir_proposal :: "(string \<times> int \<times> string \<times> nat list) option"

text \<open>The SQL pattern match: \<open>%\<close> any text, \<open>_\<close> any one character, ASCII letters without case.\<close>

definition ascii_fold :: "nat \<Rightarrow> nat" where
  "ascii_fold c = (if 65 \<le> c \<and> c \<le> 90 then c + 32 else c)"

function (sequential) sql_like :: "text_cp \<Rightarrow> text_cp \<Rightarrow> bool" where
  "sql_like [] t = (t = [])"
| "sql_like (p # ps) [] = (p = 37 \<and> sql_like ps [])"
| "sql_like (p # ps) (c # t) =
     (if p = 37 then sql_like ps (c # t) \<or> sql_like (p # ps) t
      else (p = 95 \<or> ascii_fold p = ascii_fold c) \<and> sql_like ps t)"
  by pat_completeness auto
termination by (relation "measure (\<lambda>(p, t). length p + length t)") auto

definition run_facts :: "collab_db \<Rightarrow> string \<Rightarrow> (string \<times> string \<times> nat list) list" where
  "run_facts db t = concat (map (\<lambda>x. map (\<lambda>f. (rf_id f, rf_sha f, rf_content f))
     (filter (\<lambda>f. rf_id f = tf_fact x \<and> rf_sha f = tf_sha x) (rm_facts (db_rooms db))))
     (sort_key tf_ordinal (filter (\<lambda>x. tf_attempt x = t) (rm_attemptFacts (db_rooms db)))))"

definition run_proposal :: "collab_db \<Rightarrow> string \<Rightarrow> string \<Rightarrow> (string \<times> int \<times> string \<times> nat list) option" where
  "run_proposal db j t =
     (case rev (filter (\<lambda>a. ra_type a = Proposal \<and> sql_like ([37] @ cps t @ [37]) (ra_provenance a)) (job_artifacts db j)) of
        [] \<Rightarrow> None
      | a # _ \<Rightarrow> Some (ra_id a, ra_revision a, ra_sha a, ra_content a))"

definition getRoomJobInternalRun :: "string \<Rightarrow> RoomJobStage \<Rightarrow> bool \<Rightarrow> collab_db \<Rightarrow> RoomJobInternalRun option" where
  "getRoomJobInternalRun t stage allowClaimed db =
     (if \<not> rm_execution (db_rooms db) then None
      else case run_row db t stage of
        None \<Rightarrow> None
      | Some (a, j, b, ch, p) \<Rightarrow>
      if \<not> run_dispatchable a j ch p \<or> \<not> (ob_state b = ObPending \<or> (allowClaimed \<and> ob_state b = ObClaimed)) then None
      else if run_facts db t = [] then None
      else
        let run = \<lparr>ir_attempt = rt_id a, ir_stage = stage, ir_channel = rj_channel j, ir_owner = rt_owner a,
              ir_generation = rt_generation a, ir_inputHash = rt_inputHash a, ir_configuration = rt_configuration a,
              ir_brief = rj_brief j, ir_facts = run_facts db t, ir_proposal = None\<rparr>
        in (case stage of
              Draft \<Rightarrow> Some run
            | Review \<Rightarrow> (case run_proposal db (rt_job a) t of
                None \<Rightarrow> None
              | Some proposal \<Rightarrow> Some (run\<lparr>ir_proposal := Some proposal\<rparr>))))"

definition claim_run_tx ::
  "string \<Rightarrow> RoomJobStage \<Rightarrow> string \<Rightarrow> collab_db \<Rightarrow> CollabErrorCode + bool \<times> collab_db" where
  "claim_run_tx t stage configuration db =
     (if \<not> rm_execution (db_rooms db) then Inr (False, db)
      else case run_row db t stage of
        None \<Rightarrow> Inr (False, db)
      | Some (a, j, b, ch, p) \<Rightarrow>
      if rt_configuration a \<noteq> configuration \<or> \<not> run_dispatchable a j ch p \<or> ob_state b \<noteq> ObPending
      then Inr (False, db)
      else
        let hit = (\<lambda>r. outbox_is t stage r \<and> ob_state r = ObPending)
        in Inr (tbl_changes hit (rm_outbox (db_rooms db)) = 1, update_outbox hit (\<lambda>r. r\<lparr>ob_state := ObClaimed\<rparr>) db))"

text \<open>
  The claim and the read that follows it are one step here; the code suspends between them, and
  the coordinator's theory takes them apart.
\<close>

definition claimRoomJobInternalDispatch ::
  "string \<Rightarrow> RoomJobStage \<Rightarrow> string \<Rightarrow> collab_db \<Rightarrow> collab_db \<times> RoomJobInternalRun option" where
  "claimRoomJobInternalDispatch t stage configuration db =
     (case runNaturallyIdempotentCommand (claim_run_tx t stage configuration) db of
        (db', Inr True) \<Rightarrow> (db', getRoomJobInternalRun t stage True db')
      | (db', _) \<Rightarrow> (db', None))"

definition confirmRoomJobInternalDispatchClaim ::
  "string \<Rightarrow> RoomJobStage \<Rightarrow> int \<Rightarrow> string \<Rightarrow> collab_db \<Rightarrow> bool" where
  "confirmRoomJobInternalDispatchClaim t stage generation configuration db =
     (rm_execution (db_rooms db) \<and>
      (case run_row db t stage of
         None \<Rightarrow> False
       | Some (a, j, b, ch, p) \<Rightarrow> rt_generation a = generation \<and> rt_configuration a = configuration
           \<and> run_dispatchable a j ch p \<and> ob_state b = ObClaimed))"

text \<open>Pending runs, oldest first; a limit that is no safe integer in range gives none.\<close>

definition listPendingRoomJobInternalRuns :: "int \<Rightarrow> collab_db \<Rightarrow> (string \<times> RoomJobStage) list" where
  "listPendingRoomJobInternalRuns limit db =
     (if limit < 1 \<or> limit > 100 \<or> \<not> rm_execution (db_rooms db) then []
      else map (\<lambda>b. (ob_attempt b, ob_stage b)) (take (nat limit) (sort_key ob_createdAt
        (filter (\<lambda>b. ob_state b = ObPending \<and>
           (case attempt_row db (ob_attempt b) of None \<Rightarrow> False
            | Some a \<Rightarrow> (case job_row db (rt_job a) of None \<Rightarrow> False
               | Some j \<Rightarrow> rt_generation a = rj_generation j \<and> rj_state j = JobCreated)))
          (rm_outbox (db_rooms db))))))"

record CommitRoomJobInternalArtifactInput =
  ic_attempt :: string
  ic_stage :: RoomJobStage
  ic_request :: string
  ic_generation :: int
  ic_inputHash :: string
  ic_configuration :: string
  ic_content :: "nat list"
  ic_provenance :: jval

definition settle_outbox :: "string \<Rightarrow> RoomJobStage \<Rightarrow> OutboxState \<Rightarrow> string \<Rightarrow> collab_db \<Rightarrow> collab_db" where
  "settle_outbox t stage s now = update_outbox (\<lambda>r. outbox_is t stage r \<and> ob_state r = ObClaimed)
     (\<lambda>r. r\<lparr>ob_state := s, ob_ackAt := Some now\<rparr>)"

definition artifact_members :: "string \<Rightarrow> string \<Rightarrow> string \<Rightarrow> (text_cp \<times> jval) list" where
  "artifact_members artifactId type sha = [(cps ''artifactId'', jtext artifactId), (cps ''artifactType'', jtext type),
     (cps ''sha256'', jtext sha)]"

definition stage_artifact :: "RoomJobStage \<Rightarrow> RoomArtifactType \<times> string" where
  "stage_artifact s = (case s of Draft \<Rightarrow> (Proposal, ''proposal'') | Review \<Rightarrow> (DecisionSummary, ''decision_summary''))"

definition commit_artifact_tx ::
  "platform \<Rightarrow> env \<Rightarrow> CommitRoomJobInternalArtifactInput \<Rightarrow> collab_db
   \<Rightarrow> CollabErrorCode + RoomArtifactMetadata option \<times> collab_db" where
  "commit_artifact_tx pf en i db =
     (if \<not> rm_execution (db_rooms db) then Inr (None, db)
      else case run_row db (ic_attempt i) (ic_stage i) of
        None \<Rightarrow> Inr (None, db)
      | Some (a, j, b, ch, p) \<Rightarrow>
      if \<not> run_current a j ch p \<or> rt_generation a \<noteq> ic_generation i \<or> rt_inputHash a \<noteq> ic_inputHash i
         \<or> rt_configuration a \<noteq> ic_configuration i \<or> ob_state b \<noteq> ObClaimed
      then Inr (None, db)
      else
        let sha = content_hash pf (ic_content i); artifactId = en_uuid en 0; createdAt = en_clock en 0;
            revision = rj_revision j + 1; type = stage_artifact (ic_stage i)
        in case canonicalJson (ic_provenance i) of
          Inl _ \<Rightarrow> Inl SQL_CONSTRAINT
        | Inr provenance \<Rightarrow>
        let row = \<lparr>ra_id = artifactId, ra_job = rt_job a, ra_revision = revision, ra_type = fst type,
              ra_kind = ModelAssertion, ra_provenance = provenance, ra_content = ic_content i, ra_sha = sha,
              ra_createdAt = createdAt\<rparr>
        in case insert_artifact row db of
          None \<Rightarrow> Inl SQL_CONSTRAINT
        | Some db1 \<Rightarrow>
        let db2 = update_jobs (\<lambda>r. rj_id r = rt_job a) (\<lambda>r. r\<lparr>rj_revision := revision\<rparr>) db1;
            db3 = settle_outbox (ic_attempt i) (ic_stage i) ObAcknowledged createdAt db2;
            next = (if ic_stage i = Draft then AtDraftCommitted else CompletedInternal);
            db4 = update_attempts (\<lambda>r. rt_id r = ic_attempt i) (\<lambda>r. r\<lparr>rt_state := next, rt_updatedAt := createdAt\<rparr>) db3
        in case upsert_ack \<lparr>ak_attempt = ic_attempt i, ak_stage = ic_stage i, ak_request = ic_request i,
              ak_generation = ic_generation i, ak_hash = sha\<rparr> db4 of
          None \<Rightarrow> Inl SQL_CONSTRAINT
        | Some db5 \<Rightarrow>
        case (if ic_stage i = Draft
              then (case json_hash pf (JObj [(cps ''attemptId'', jtext (ic_attempt i)), (cps ''stage'', jtext ''review''),
                      (cps ''generation'', JNum (Fin (ic_generation i))), (cps ''inputHash'', jtext (ic_inputHash i)),
                      (cps ''proposal'', JObj [(cps ''artifactId'', jtext artifactId),
                         (cps ''revision'', JNum (Fin revision)), (cps ''sha256'', jtext sha)])]) of
                      None \<Rightarrow> None
                    | Some payload \<Rightarrow> insert_outbox \<lparr>ob_id = en_uuid en 1, ob_attempt = ic_attempt i, ob_stage = Review,
                        ob_payload = payload, ob_state = ObPending, ob_createdAt = createdAt, ob_ackAt = None\<rparr> db5)
              else Some db5) of
          None \<Rightarrow> Inl SQL_CONSTRAINT
        | Some db6 \<Rightarrow>
        case appendRoomJobLifecycle (en_uuid en (if ic_stage i = Draft then 2 else 1)) (en_clock en 1) (rj_channel j)
               (rt_job a) (if ic_stage i = Draft then draft_committed else review_committed) JobCreated revision
               (rt_owner a) (artifact_members artifactId (snd type) sha @ attempt_member (ic_attempt i)) db6 of
          None \<Rightarrow> Inl SQL_CONSTRAINT
        | Some db7 \<Rightarrow> Inr (Some (artifact_metadata row), db7))"

definition commitRoomJobInternalArtifact ::
  "platform \<Rightarrow> env \<Rightarrow> CommitRoomJobInternalArtifactInput \<Rightarrow> collab_db
   \<Rightarrow> collab_db \<times> (CollabErrorCode + RoomArtifactMetadata option)" where
  "commitRoomJobInternalArtifact pf en i db =
     (if length (ic_content i) > 65536 then (db, Inl INVALID_REQUEST)
      else runNaturallyIdempotentCommand (commit_artifact_tx pf en i) db)"

text \<open>The two terminal reports differ in the states they write.\<close>

definition terminal_tx ::
  "OutboxState \<Rightarrow> AttemptState \<Rightarrow> string \<Rightarrow> env \<Rightarrow> string \<Rightarrow> RoomJobStage \<Rightarrow> int \<Rightarrow> string \<Rightarrow> collab_db
   \<Rightarrow> CollabErrorCode + bool \<times> collab_db" where
  "terminal_tx outbox attempt reason en t stage generation inputHash db =
     (if \<not> rm_execution (db_rooms db) then Inr (False, db)
      else case run_row db t stage of
        None \<Rightarrow> Inr (False, db)
      | Some (a, j, b, ch, p) \<Rightarrow>
      if \<not> run_current a j ch p \<or> rt_generation a \<noteq> generation \<or> rt_inputHash a \<noteq> inputHash
         \<or> ob_state b \<noteq> ObClaimed
      then Inr (False, db)
      else
        let now = en_clock en 0;
            db1 = update_attempts (\<lambda>r. rt_id r = t)
              (\<lambda>r. r\<lparr>rt_state := attempt, rt_reason := Some reason, rt_updatedAt := now\<rparr>)
              (settle_outbox t stage outbox now db)
        in case appendRoomJobLifecycle (en_uuid en 0) (en_clock en 1) (rj_channel j) (rt_job a) execution_failed
                  JobCreated (rj_revision j) (rt_owner a) (attempt_member t) db1 of
             None \<Rightarrow> Inl SQL_CONSTRAINT
           | Some db2 \<Rightarrow> Inr (True, db2))"

definition recordRoomJobInternalFailure ::
  "env \<Rightarrow> string \<Rightarrow> RoomJobStage \<Rightarrow> int \<Rightarrow> string \<Rightarrow> string \<Rightarrow> collab_db \<Rightarrow> collab_db \<times> (CollabErrorCode + bool)" where
  "recordRoomJobInternalFailure en t stage generation inputHash reason db =
     runNaturallyIdempotentCommand
       (terminal_tx ObRefused ValidationFailed (take 80 reason) en t stage generation inputHash) db"

definition recordRoomJobInternalRecoveryNeeded ::
  "env \<Rightarrow> string \<Rightarrow> RoomJobStage \<Rightarrow> int \<Rightarrow> string \<Rightarrow> collab_db \<Rightarrow> collab_db \<times> (CollabErrorCode + bool)" where
  "recordRoomJobInternalRecoveryNeeded en t stage generation inputHash db =
     runNaturallyIdempotentCommand
       (terminal_tx ObRecoveryNeeded AtRecoveryNeeded ''dispatch_interrupted_uncertain'' en t stage generation inputHash) db"

definition hasRoomJobInternalTerminalAck :: "string \<Rightarrow> RoomJobStage \<Rightarrow> collab_db \<Rightarrow> CollabErrorCode + bool" where
  "hasRoomJobInternalTerminalAck t stage db =
     (if \<not> rm_execution (db_rooms db) then Inl SQL_CONSTRAINT
      else Inr (list_ex (\<lambda>k. ak_attempt k = t \<and> ak_stage k = stage) (rm_acks (db_rooms db))))"

subsection \<open>The roster\<close>

record ChannelMemberEntry =
  me_principal :: string
  me_displayName :: text_cp
  me_role :: MemberRole
  me_human :: bool
  me_working :: bool
  me_since :: "int option"

definition last_dispatch :: "collab_db \<Rightarrow> string \<Rightarrow> string \<Rightarrow> int option" where
  "last_dispatch db c p =
     (case map tu_dispatchedAt (filter (\<lambda>t. tu_channel t = c \<and> tu_agent t = p \<and> tu_state t = TurnDispatched
              \<and> \<not> tu_resolved t) (db_turns db)) of
        [] \<Rightarrow> None | t # ts \<Rightarrow> Some (fold max ts t))"

definition listChannelMembers :: "string \<Rightarrow> string \<Rightarrow> collab_db \<Rightarrow> CollabErrorCode + ChannelMemberEntry list" where
  "listChannelMembers caller c db =
     (case assertChannelVisible caller c db of
        Inl e \<Rightarrow> Inl e
      | Inr _ \<Rightarrow> Inr (concat (map (\<lambda>m. case principal_row db (mb_principal m) of
            None \<Rightarrow> []
          | Some p \<Rightarrow> [\<lparr>me_principal = mb_principal m, me_displayName = pr_displayName p, me_role = mb_role m,
              me_human = (pr_kind p = OperatorKind), me_working = (last_dispatch db c (mb_principal m) \<noteq> None),
              me_since = last_dispatch db c (mb_principal m)\<rparr>])
          (sort_key mb_principal (filter (\<lambda>m. mb_channel m = c \<and> mb_state m = MActive) (db_members db))))))"

subsection \<open>The steps\<close>

datatype job_op =
    CreateJob env string string text_cp string
  | CancelJob env string string string int string
  | AddFacts env string string string "text_cp list" string
  | StartJob env string string string "string list" string string
  | ClaimRun string RoomJobStage string
  | CommitArtifact env CommitRoomJobInternalArtifactInput
  | RecordFailure env string RoomJobStage int string string
  | RecordRecovery env string RoomJobStage int string

fun job_step :: "platform \<Rightarrow> job_op \<Rightarrow> collab_db \<Rightarrow> collab_db" where
  "job_step pf (CreateJob en caller c brief key) db = fst (createRoomJob pf en caller c brief key db)"
| "job_step pf (CancelJob en caller c j expected key) db = fst (cancelRoomJob pf en caller c j expected key db)"
| "job_step pf (AddFacts en caller c j facts key) db = fst (appendRoomJobFacts pf en caller c j facts key db)"
| "job_step pf (StartJob en caller c j factIds key configuration) db =
     fst (startRoomJob pf en caller c j factIds key configuration db)"
| "job_step pf (ClaimRun t stage configuration) db = fst (claimRoomJobInternalDispatch t stage configuration db)"
| "job_step pf (CommitArtifact en i) db = fst (commitRoomJobInternalArtifact pf en i db)"
| "job_step pf (RecordFailure en t stage generation inputHash reason) db =
     fst (recordRoomJobInternalFailure en t stage generation inputHash reason db)"
| "job_step pf (RecordRecovery en t stage generation inputHash) db =
     fst (recordRoomJobInternalRecoveryNeeded en t stage generation inputHash db)"

end
