(* ===== verification/Collab_Rooms.thy ===== *)
theory Collab_Rooms
  imports Collab_Jobs
begin

text \<open>
  What the room job commands do to the database, as one case rule per command: each writes its own
  tables, appends to the lifecycle log and to the channel log, and leaves the rest alone.
\<close>

subsection \<open>Single writes\<close>

definition with_event :: "RoomJobEventRow \<Rightarrow> EventRow \<Rightarrow> collab_db \<Rightarrow> collab_db" where
  "with_event e v db = db\<lparr>db_events := db_events db @ [v],
     db_rooms := (db_rooms db)\<lparr>rm_events := rm_events (db_rooms db) @ [e]\<rparr>\<rparr>"

definition room_event_of :: "RoomJobEventRow \<Rightarrow> string \<Rightarrow> string \<Rightarrow> EventRow \<Rightarrow> bool" where
  "room_event_of e c actor v \<longleftrightarrow> ev_id v = re_event e \<and> ev_channel v = c \<and> ev_kind v = room_job (re_kind e)
     \<and> ev_createdAt v = re_createdAt e \<and> ev_actor v = actor"

lemma lifecycle_cases:
  assumes "appendRoomJobLifecycle eid now c j kind s revision actor extra db = Some db'"
  obtains e v where "db' = with_event e v db" "re_job e = j" "re_seq e = max_job_seq db j + 1" "re_event e = eid"
    "re_kind e = kind" "re_state e = s" "re_revision e = revision" "re_createdAt e = now" "room_event_of e c actor v"
    "ev_seq v = getMaxChannelSeq db c + 1" "ev_content v = job_payload j s revision extra"
    "list_all (\<lambda>x. re_event x \<noteq> eid) (rm_events (db_rooms db))"
    "append_event eid c actor (room_job kind) (job_payload j s revision extra) now db = Some (db\<lparr>db_events := db_events db @ [v]\<rparr>)"
proof -
  let ?e = "\<lparr>re_job = j, re_seq = max_job_seq db j + 1, re_event = eid, re_kind = kind, re_state = s,
    re_revision = revision, re_createdAt = now\<rparr>"
  let ?v = "\<lparr>ev_id = eid, ev_channel = c, ev_seq = getMaxChannelSeq db c + 1, ev_actor = actor, ev_kind = room_job kind,
    ev_content = job_payload j s revision extra, ev_createdAt = now\<rparr>"
  show thesis
    by (rule that [of ?e ?v])
       (use assms in \<open>auto simp: appendRoomJobLifecycle_def insert_job_event_def append_event_def insert_event_def
          set_rooms_def with_event_def room_event_of_def getMaxChannelSeq_def channel_events_def list_ex_iff list_all_iff
          split: option.splits if_splits\<close>)
qed

text \<open>The tables of a database after a write, field by field.\<close>

lemma with_event_simps [simp]:
  "db_principals (with_event e v db) = db_principals db" "db_credentials (with_event e v db) = db_credentials db"
  "db_channels (with_event e v db) = db_channels db" "db_members (with_event e v db) = db_members db"
  "db_cursors (with_event e v db) = db_cursors db" "db_results (with_event e v db) = db_results db"
  "db_events (with_event e v db) = db_events db @ [v]"
  "rm_jobs (db_rooms (with_event e v db)) = rm_jobs (db_rooms db)"
  "rm_events (db_rooms (with_event e v db)) = rm_events (db_rooms db) @ [e]"
  "rm_artifacts (db_rooms (with_event e v db)) = rm_artifacts (db_rooms db)"
  "rm_execution (db_rooms (with_event e v db)) = rm_execution (db_rooms db)"
  "rm_facts (db_rooms (with_event e v db)) = rm_facts (db_rooms db)"
  "rm_attempts (db_rooms (with_event e v db)) = rm_attempts (db_rooms db)"
  "rm_attemptFacts (db_rooms (with_event e v db)) = rm_attemptFacts (db_rooms db)"
  "rm_outbox (db_rooms (with_event e v db)) = rm_outbox (db_rooms db)"
  "rm_acks (db_rooms (with_event e v db)) = rm_acks (db_rooms db)"
  by (simp_all add: with_event_def)

lemmas room_writes = set_rooms_def update_jobs_def update_attempts_def update_outbox_def settle_outbox_def fence_job_def
  Let_def

text \<open>The frame: events appended, room tables rewritten, stored results added, the rest the same.\<close>

definition rooms_only :: "collab_db \<Rightarrow> collab_db \<Rightarrow> bool" where
  "rooms_only db db' \<longleftrightarrow> (\<exists>new rooms. db' = db\<lparr>db_events := db_events db @ new, db_rooms := rooms\<rparr>)"

lemma rooms_only_refl [simp]: "rooms_only db db"
  unfolding rooms_only_def by (rule exI [of _ "[]"], rule exI [of _ "db_rooms db"]) simp

lemma rooms_only_trans: "rooms_only a b \<Longrightarrow> rooms_only b c \<Longrightarrow> rooms_only a c"
  unfolding rooms_only_def by (elim exE) (simp, metis)

lemma rooms_only_set: "rooms_only db (set_rooms f db)"
  unfolding rooms_only_def set_rooms_def by (rule exI [of _ "[]"], rule exI [of _ "f (db_rooms db)"]) simp

lemma rooms_only_with_event: "rooms_only db (with_event e v db)"
  unfolding rooms_only_def with_event_def by blast

lemma rooms_only_same:
  assumes "rooms_only db db'"
  shows "db_principals db' = db_principals db" "db_credentials db' = db_credentials db" "db_channels db' = db_channels db"
    "db_members db' = db_members db" "db_cursors db' = db_cursors db" "db_sessions db' = db_sessions db"
    "db_turns db' = db_turns db" "db_stops db' = db_stops db" "db_runs db' = db_runs db"
    "db_schedules db' = db_schedules db" "db_profiles db' = db_profiles db" "db_personas db' = db_personas db"
    "db_results db' = db_results db" "\<exists>new. db_events db' = db_events db @ new"
  using assms by (auto simp: rooms_only_def)

subsection \<open>The changes a committed command can make\<close>

text \<open>One entry of the lifecycle log, mirrored in the log of the channel.\<close>

definition logged ::
  "string \<Rightarrow> RoomJobLifecycleKind \<Rightarrow> string \<Rightarrow> string \<Rightarrow> collab_db \<Rightarrow> collab_db \<Rightarrow> bool" where
  "logged j kind c actor db db' \<longleftrightarrow> (\<exists>e v. db' = with_event e v db \<and> re_job e = j \<and> re_kind e = kind
     \<and> re_seq e = max_job_seq db j + 1 \<and> room_event_of e c actor v
     \<and> list_all (\<lambda>x. re_event x \<noteq> re_event e) (rm_events (db_rooms db))
     \<and> append_event (re_event e) c actor (room_job kind) (ev_content v) (ev_createdAt v) db
         = Some (db\<lparr>db_events := db_events db @ [v]\<rparr>))"

lemma lifecycle_logged:
  "appendRoomJobLifecycle eid now c j kind s revision actor extra db = Some db' \<Longrightarrow> logged j kind c actor db db'"
proof (rule lifecycle_cases)
  fix e v
  assume "appendRoomJobLifecycle eid now c j kind s revision actor extra db = Some db'"
    and e: "db' = with_event e v db" "re_job e = j" "re_seq e = max_job_seq db j + 1" "re_event e = eid" "re_kind e = kind"
      "re_createdAt e = now" "room_event_of e c actor v" "ev_content v = job_payload j s revision extra"
      "list_all (\<lambda>x. re_event x \<noteq> eid) (rm_events (db_rooms db))"
      "append_event eid c actor (room_job kind) (job_payload j s revision extra) now db
        = Some (db\<lparr>db_events := db_events db @ [v]\<rparr>)"
  show "logged j kind c actor db db'"
    unfolding logged_def by (rule exI [of _ e], rule exI [of _ v]) (use e in \<open>auto simp: room_event_of_def\<close>)
qed blast

text \<open>The writes of each command beside the log.\<close>

definition mark_requested :: "string \<Rightarrow> string \<Rightarrow> collab_db \<Rightarrow> collab_db" where
  "mark_requested j now = update_jobs (\<lambda>r. rj_id r = j) (\<lambda>r. r\<lparr>rj_cancelRequestedAt := Some now\<rparr>)"

definition mark_cancelled :: "string \<Rightarrow> int \<Rightarrow> string \<Rightarrow> collab_db \<Rightarrow> collab_db" where
  "mark_cancelled j revision now db =
     (let db3 = update_jobs (\<lambda>r. rj_id r = j \<and> rj_state r = JobCreated)
        (\<lambda>r. r\<lparr>rj_state := JobCancelled, rj_revision := revision, rj_cancelledAt := Some now\<rparr>) db
      in if rm_execution (db_rooms db3) then fence_job j now db3 else db3)"

definition add_attempt :: "RoomAttemptRow \<Rightarrow> RoomFactRow list \<Rightarrow> RoomOutboxRow \<Rightarrow> collab_db \<Rightarrow> collab_db" where
  "add_attempt a facts b = set_rooms (\<lambda>m. m\<lparr>rm_attempts := rm_attempts m @ [a],
     rm_attemptFacts := rm_attemptFacts m @ map (\<lambda>f. \<lparr>tf_attempt = rt_id a, tf_fact = rf_id f,
       tf_ordinal = rf_ordinal f, tf_sha = rf_sha f\<rparr>) facts,
     rm_outbox := rm_outbox m @ [b]\<rparr>)"

definition claimed_outbox :: "string \<Rightarrow> RoomJobStage \<Rightarrow> collab_db \<Rightarrow> collab_db" where
  "claimed_outbox t stage = update_outbox (\<lambda>r. outbox_is t stage r \<and> ob_state r = ObPending) (\<lambda>r. r\<lparr>ob_state := ObClaimed\<rparr>)"

definition add_artifact :: "RoomArtifactRow \<Rightarrow> string \<Rightarrow> RoomJobStage \<Rightarrow> AttemptState \<Rightarrow> collab_db \<Rightarrow> collab_db" where
  "add_artifact r t stage s db =
     update_attempts (\<lambda>x. rt_id x = t) (\<lambda>x. x\<lparr>rt_state := s, rt_updatedAt := ra_createdAt r\<rparr>)
       (settle_outbox t stage ObAcknowledged (ra_createdAt r)
         (update_jobs (\<lambda>x. rj_id x = ra_job r) (\<lambda>x. x\<lparr>rj_revision := ra_revision r\<rparr>)
           (set_rooms (\<lambda>m. m\<lparr>rm_artifacts := rm_artifacts m @ [r]\<rparr>) db)))"

definition report_terminal :: "string \<Rightarrow> RoomJobStage \<Rightarrow> OutboxState \<Rightarrow> AttemptState \<Rightarrow> string \<Rightarrow> string \<Rightarrow> collab_db \<Rightarrow> collab_db" where
  "report_terminal t stage outbox attempt reason now db = update_attempts (\<lambda>r. rt_id r = t)
     (\<lambda>r. r\<lparr>rt_state := attempt, rt_reason := Some reason, rt_updatedAt := now\<rparr>) (settle_outbox t stage outbox now db)"

definition next_outbox :: "string \<Rightarrow> RoomJobStage \<Rightarrow> RoomOutboxRow list \<Rightarrow> bool" where
  "next_outbox t stage rows \<longleftrightarrow> (case rows of
       [] \<Rightarrow> stage = Review
     | [b] \<Rightarrow> stage = Draft \<and> outbox_is t Review b \<and> ob_state b = ObPending
     | _ \<Rightarrow> False)"

inductive room_change :: "collab_db \<Rightarrow> collab_db \<Rightarrow> bool" where
  created: "channel_row db c \<noteq> None \<Longrightarrow> job_row db (rj_id r) = None \<Longrightarrow> rj_channel r = c \<Longrightarrow> rj_state r = JobCreated
    \<Longrightarrow> rj_generation r = 1 \<Longrightarrow> rj_revision r = 1
    \<Longrightarrow> logged (rj_id r) job_created c actor (set_rooms (\<lambda>m. m\<lparr>rm_jobs := rm_jobs m @ [r]\<rparr>) db) db'
    \<Longrightarrow> room_change db db'"
| cancelled: "channel_row db c \<noteq> None \<Longrightarrow> job_in db c j = Some r \<Longrightarrow> rj_state r = JobCreated
    \<Longrightarrow> logged j cancel_requested c actor (mark_requested j now db) db1
    \<Longrightarrow> logged j job_cancelled c actor (mark_cancelled j (rj_revision r + 1) now' db1) db'
    \<Longrightarrow> room_change db db'"
| facts_added: "job_in db c j = Some r \<Longrightarrow> rj_state r = JobCreated \<Longrightarrow> rm_execution (db_rooms db)
    \<Longrightarrow> list_all (\<lambda>f. rf_job f = j) rows \<Longrightarrow> db' = set_rooms (\<lambda>m. m\<lparr>rm_facts := rm_facts m @ rows\<rparr>) db
    \<Longrightarrow> room_change db db'"
| started: "channel_row db c \<noteq> None \<Longrightarrow> job_in db c j = Some r \<Longrightarrow> rj_state r = JobCreated \<Longrightarrow> rm_execution (db_rooms db)
    \<Longrightarrow> rt_job a = j \<Longrightarrow> rt_generation a = rj_generation r \<Longrightarrow> rt_state a = Queued
    \<Longrightarrow> list_all (\<lambda>x. rt_id x \<noteq> rt_id a \<and> (rt_job x = j \<longrightarrow> rt_generation x \<noteq> rj_generation r)) (rm_attempts (db_rooms db))
    \<Longrightarrow> outbox_is (rt_id a) Draft b \<Longrightarrow> ob_state b = ObPending \<Longrightarrow> outbox_row db (rt_id a) Draft = None
    \<Longrightarrow> list_all (\<lambda>f. rf_job f = j \<and> f \<in> set (rm_facts (db_rooms db))) facts
    \<Longrightarrow> logged j attempt_started c actor (add_attempt a facts b db) db'
    \<Longrightarrow> room_change db db'"
| claimed: "run_row db t stage = Some (a, r, b, ch, p) \<Longrightarrow> run_dispatchable a r ch p \<Longrightarrow> ob_state b = ObPending
    \<Longrightarrow> room_change db (claimed_outbox t stage db)"
| artifact: "run_row db t stage = Some (a, r, b, ch, p) \<Longrightarrow> run_current a r ch p \<Longrightarrow> ob_state b = ObClaimed
    \<Longrightarrow> ra_job x = rt_job a \<Longrightarrow> ra_revision x = rj_revision r + 1 \<Longrightarrow> ra_kind x = ModelAssertion
    \<Longrightarrow> ra_type x = fst (stage_artifact stage)
    \<Longrightarrow> list_all (\<lambda>y. ra_id y \<noteq> ra_id x \<and> (ra_job y = ra_job x \<longrightarrow> ra_revision y \<noteq> ra_revision x \<and> ra_sha y \<noteq> ra_sha x))
          (rm_artifacts (db_rooms db))
    \<Longrightarrow> next_outbox t stage rows \<Longrightarrow> (stage = Draft \<Longrightarrow> outbox_row db t Review = None)
    \<Longrightarrow> filter (\<lambda>k. ak_attempt k \<noteq> t) acks = filter (\<lambda>k. ak_attempt k \<noteq> t) (rm_acks (db_rooms db))
    \<Longrightarrow> logged (rt_job a) (if stage = Draft then draft_committed else review_committed) (rj_channel r) (rt_owner a)
          (set_rooms (\<lambda>m. m\<lparr>rm_acks := acks, rm_outbox := rm_outbox m @ rows\<rparr>) (add_artifact x t stage s db)) db'
    \<Longrightarrow> room_change db db'"
| terminal: "run_row db t stage = Some (a, r, b, ch, p) \<Longrightarrow> run_current a r ch p \<Longrightarrow> ob_state b = ObClaimed
    \<Longrightarrow> outbox \<in> {ObRefused, ObRecoveryNeeded}
    \<Longrightarrow> logged (rt_job a) execution_failed (rj_channel r) (rt_owner a)
          (report_terminal t stage outbox attempt reason now db) db'
    \<Longrightarrow> room_change db db'"

subsection \<open>Every command makes such a change or none\<close>

lemma job_in_row: "job_in db c j = Some r \<Longrightarrow> r \<in> set (rm_jobs (db_rooms db)) \<and> rj_id r = j \<and> rj_channel r = c"
  by (auto simp: job_in_def tbl_get_def find_Some_iff)

lemma set_rooms_events [simp]: "db_events (set_rooms f db) = db_events db"
  and set_rooms_channels [simp]: "channel_row (set_rooms f db) c = channel_row db c"
  and set_rooms_rooms [simp]: "db_rooms (set_rooms f db) = f (db_rooms db)"
  by (simp_all add: set_rooms_def channel_row_def)

lemma channel_row_id: "channel_row db c = Some ch \<Longrightarrow> ch_id ch = c"
  by (auto simp: channel_row_def tbl_get_def find_Some_iff)

lemma create_change:
  assumes "create_job_tx pf en caller c brief key db = Inr (r, red, db')"
  shows "room_change db db'"
proof -
  let ?row = "new_job pf (en_uuid en 0) c caller brief (en_clock en 0)"
  obtain ch where ch: "channel_row db c = Some ch" using assms by (cases "channel_row db c") (simp_all add: create_job_tx_def)
  note body = assms [unfolded create_job_tx_def ch option.case channel_row_id [OF ch] Let_def]
  obtain db1 where db1: "insert_job ?row db = Some db1" using body by (auto split: if_splits option.splits)
  note body1 = body [unfolded db1 option.case]
  have log: "logged (rj_id ?row) job_created c caller db1 db'"
    by (rule lifecycle_logged) (use body1 in \<open>auto split: if_splits option.splits\<close>)
  have "job_row db (rj_id ?row) = None" and e: "db1 = set_rooms (\<lambda>m. m\<lparr>rm_jobs := rm_jobs m @ [?row]\<rparr>) db"
    using db1 by (auto simp: insert_job_def split: if_splits)
  then show ?thesis using log ch unfolding e by (intro room_change.created [of _ c ?row]) (simp_all add: new_job_def)
qed

lemma cancel_change:
  assumes "cancel_job_tx en caller c j expected db = Inr (r, red, db')" and "channel_row db c \<noteq> None"
  shows "db' = db \<or> room_change db db'"
proof -
  obtain row where row: "job_in db c j = Some row" using assms(1) by (cases "job_in db c j") (simp_all add: cancel_job_tx_def)
  have chan: "rj_channel row = c" using job_in_row [OF row] by simp
  note body = assms(1) [unfolded cancel_job_tx_def row option.case Let_def chan]
  show ?thesis
  proof (cases "rj_state row = JobCancelled")
    case True
    then show ?thesis using body by (auto split: if_splits)
  next
    case False
    let ?db1 = "mark_requested j (en_clock en 0) db"
    have st: "rj_state row = JobCreated" using False by (cases "rj_state row") simp_all
    obtain db2 where db2: "appendRoomJobLifecycle (en_uuid en 0) (en_clock en 1) c j cancel_requested JobCreated
        (rj_revision row) caller [] ?db1 = Some db2"
      using body False by (auto simp: mark_requested_def split: if_splits option.splits)
    have "appendRoomJobLifecycle (en_uuid en 1) (en_clock en 3) c j job_cancelled JobCancelled
        (rj_revision row + 1) caller [] (mark_cancelled j (rj_revision row + 1) (en_clock en 2) db2) = Some db'"
      using body False db2 by (auto simp: mark_requested_def mark_cancelled_def Let_def split: if_splits option.splits)
    then show ?thesis
      using room_change.cancelled [OF assms(2) row st lifecycle_logged [OF db2] lifecycle_logged] by blast
  qed
qed

lemma insert_facts_rows:
  "insert_facts pf en j now k ordinal ts db = Inr (ms, db') \<Longrightarrow>
   \<exists>rows. list_all (\<lambda>f. rf_job f = j) rows \<and> db' = set_rooms (\<lambda>m. m\<lparr>rm_facts := rm_facts m @ rows\<rparr>) db"
proof (induction pf en j now k ordinal ts db arbitrary: ms rule: insert_facts.induct)
  case (1 pf en j now k ordinal db)
  then show ?case by (intro exI [of _ "[]"]) (simp add: set_rooms_def)
next
  case (2 pf en j now k ordinal t ts db)
  let ?row = "\<lparr>rf_id = en_uuid en k, rf_job = j, rf_ordinal = ordinal, rf_content = utf8 t,
     rf_sha = content_hash pf (utf8 t), rf_createdAt = now\<rparr>"
  obtain ms' where rest: "insert_facts pf en j now (k + 1) (ordinal + 1) ts
      (set_rooms (\<lambda>m. m\<lparr>rm_facts := rm_facts (db_rooms db) @ [?row]\<rparr>) db) = Inr (ms', db')"
    using "2.prems" by (auto simp: Let_def split: if_splits sum.splits)
  have "\<exists>rows. list_all (\<lambda>f. rf_job f = j) rows \<and> db' = set_rooms (\<lambda>m. m\<lparr>rm_facts := rm_facts m @ rows\<rparr>)
      (set_rooms (\<lambda>m. m\<lparr>rm_facts := rm_facts (db_rooms db) @ [?row]\<rparr>) db)"
    by (rule "2.IH" [OF refl refl refl refl _ _ _ refl rest]) (use "2.prems" in \<open>auto simp: Let_def split: if_splits\<close>)
  then obtain rows where "list_all (\<lambda>f. rf_job f = j) rows"
    and "db' = set_rooms (\<lambda>m. m\<lparr>rm_facts := rm_facts m @ rows\<rparr>)
      (set_rooms (\<lambda>m. m\<lparr>rm_facts := rm_facts (db_rooms db) @ [?row]\<rparr>) db)" by blast
  then show ?case by (intro exI [of _ "?row # rows"]) (simp add: set_rooms_def)
qed

lemma facts_change:
  assumes "add_facts_tx pf en c j texts key db = Inr (r, red, db')"
  shows "room_change db db'"
proof -
  obtain row ms where row: "job_in db c j = Some row" "rj_state row = JobCreated" "rm_execution (db_rooms db)"
    and ins: "insert_facts pf en j (en_clock en 0) 0 (fold max (map rf_ordinal (job_facts db j)) 0 + 1) texts db = Inr (ms, db')"
    using assms by (auto simp: add_facts_tx_def Let_def split: if_splits option.splits sum.splits)
  from insert_facts_rows [OF ins] show ?thesis using room_change.facts_added [OF row] by blast
qed

lemma tbl_update_ex: "(\<And>r. P (f r) = P r) \<Longrightarrow> list_ex P (tbl_update Q f t) = list_ex P t"
  by (induction t) (simp_all add: tbl_update_def)

lemma start_change:
  assumes "start_job_tx pf en caller c j factIds key configuration db = Inr (r, red, db')"
    and "channel_row db c \<noteq> None"
  shows "room_change db db'"
proof -
  have exec: "rm_execution (db_rooms db)" using assms(1) by (simp add: start_job_tx_def split: if_splits)
  obtain row where row: "job_in db c j = Some row"
    using assms(1) exec by (cases "job_in db c j") (simp_all add: start_job_tx_def)
  have chan: "rj_channel row = c" using job_in_row [OF row] by simp
  note body = assms(1) [unfolded start_job_tx_def row option.case Let_def chan]
  have st: "rj_state row = JobCreated" using body exec by (simp split: if_splits)
  have none: "\<not> list_ex (\<lambda>t. rt_job t = j \<and> rt_generation t = rj_generation row) (rm_attempts (db_rooms db))"
    using body exec st by (simp split: if_splits)
  let ?facts = "sort_key rf_ordinal (filter (\<lambda>f. rf_id f \<in> set factIds) (job_facts db j))"
  note body1 = body [simplified exec st none simp_thms if_False]
  obtain inputHash db1 payload db2 db3 where
    at: "insert_attempt \<lparr>rt_id = en_uuid en 0, rt_job = j, rt_owner = caller, rt_generation = rj_generation row,
        rt_inputHash = inputHash, rt_configuration = configuration, rt_state = Queued, rt_reason = None,
        rt_createdAt = en_clock en 0, rt_updatedAt = en_clock en 0\<rparr> db = Some db1"
    and af: "insert_attempt_facts (map (\<lambda>f. \<lparr>tf_attempt = en_uuid en 0, tf_fact = rf_id f, tf_ordinal = rf_ordinal f,
        tf_sha = rf_sha f\<rparr>) ?facts) db1 = Some db2"
    and ob: "insert_outbox \<lparr>ob_id = en_uuid en 1, ob_attempt = en_uuid en 0, ob_stage = Draft, ob_payload = payload,
        ob_state = ObPending, ob_createdAt = en_clock en 0, ob_ackAt = None\<rparr> db2 = Some db3"
    and log: "appendRoomJobLifecycle (en_uuid en 2) (en_clock en 1) c j attempt_started JobCreated
        (rj_revision row) caller (attempt_member (en_uuid en 0)) db3 = Some db'"
    using body1 by (auto split: if_splits option.splits)
  let ?a = "\<lparr>rt_id = en_uuid en 0, rt_job = j, rt_owner = caller, rt_generation = rj_generation row,
        rt_inputHash = inputHash, rt_configuration = configuration, rt_state = Queued, rt_reason = None,
        rt_createdAt = en_clock en 0, rt_updatedAt = en_clock en 0\<rparr>"
  let ?b = "\<lparr>ob_id = en_uuid en 1, ob_attempt = en_uuid en 0, ob_stage = Draft, ob_payload = payload,
        ob_state = ObPending, ob_createdAt = en_clock en 0, ob_ackAt = None\<rparr>"
  have db3: "db3 = add_attempt ?a ?facts ?b db"
    using at af ob by (auto simp: insert_attempt_def insert_attempt_facts_def insert_outbox_def add_attempt_def
        set_rooms_def Let_def split: if_splits)
  have fresh: "list_all (\<lambda>x. rt_id x \<noteq> en_uuid en 0 \<and> (rt_job x = j \<longrightarrow> rt_generation x \<noteq> rj_generation row))
      (rm_attempts (db_rooms db))"
    using at by (auto simp: insert_attempt_def list_ex_iff list_all_iff split: if_splits)
  have free: "outbox_row db (en_uuid en 0) Draft = None"
    using at af ob by (auto simp: insert_attempt_def insert_attempt_facts_def insert_outbox_def Let_def list_ex_iff
        outbox_row_def tbl_get_def find_None_iff split: if_splits)
  show ?thesis
    by (rule room_change.started [of _ c j row ?a ?b ?facts caller, OF assms(2) row st exec])
       (use fresh free lifecycle_logged [OF log] in
         \<open>simp_all add: db3 outbox_is_def list_all_iff job_facts_def\<close>)
qed

lemma claim_change:
  assumes "claim_run_tx t stage configuration db = Inr (won, db')"
  shows "won \<longrightarrow> room_change db db'" and "\<not> won \<longrightarrow> db' = db \<or> room_change db db'"
  using assms by (auto simp: claim_run_tx_def Let_def claimed_outbox_def [symmetric]
      intro: room_change.claimed split: if_splits option.splits prod.splits)

lemma artifact_cases:
  assumes "commit_artifact_tx pf en i db = Inr (r, db')"
  obtains (idle) "r = None" "db' = db"
  | (ran) a j b ch p x rows acks s where "run_row db (ic_attempt i) (ic_stage i) = Some (a, j, b, ch, p)"
      "run_current a j ch p" "ob_state b = ObClaimed" "rt_generation a = ic_generation i"
      "rt_inputHash a = ic_inputHash i" "rt_configuration a = ic_configuration i"
      "ra_job x = rt_job a" "ra_revision x = rj_revision j + 1" "ra_kind x = ModelAssertion"
      "ra_type x = fst (stage_artifact (ic_stage i))" "ra_content x = ic_content i"
      "ra_sha x = content_hash pf (ic_content i)" "ra_id x = en_uuid en 0"
      "list_all (\<lambda>y. ra_id y \<noteq> ra_id x \<and> (ra_job y = ra_job x \<longrightarrow> ra_revision y \<noteq> ra_revision x \<and> ra_sha y \<noteq> ra_sha x))
         (rm_artifacts (db_rooms db))"
      "next_outbox (ic_attempt i) (ic_stage i) rows" "ic_stage i = Draft \<Longrightarrow> outbox_row db (ic_attempt i) Review = None"
      "filter (\<lambda>k. ak_attempt k \<noteq> ic_attempt i) acks = filter (\<lambda>k. ak_attempt k \<noteq> ic_attempt i) (rm_acks (db_rooms db))"
      "logged (rt_job a) (if ic_stage i = Draft then draft_committed else review_committed) (rj_channel j) (rt_owner a)
         (set_rooms (\<lambda>m. m\<lparr>rm_acks := acks, rm_outbox := rm_outbox m @ rows\<rparr>)
           (add_artifact x (ic_attempt i) (ic_stage i) s db)) db'"
      "r = Some (artifact_metadata x)"
proof (cases "\<exists>a j b ch p. rm_execution (db_rooms db) \<and> run_row db (ic_attempt i) (ic_stage i) = Some (a, j, b, ch, p)
    \<and> run_current a j ch p \<and> rt_generation a = ic_generation i \<and> rt_inputHash a = ic_inputHash i
    \<and> rt_configuration a = ic_configuration i \<and> ob_state b = ObClaimed")
  case False
  then show thesis using assms idle
    by (auto simp: commit_artifact_tx_def Let_def split: if_splits option.split_asm prod.splits)
next
  case True
  then obtain a j b ch p where exec: "rm_execution (db_rooms db)"
    and row: "run_row db (ic_attempt i) (ic_stage i) = Some (a, j, b, ch, p)" and cur: "run_current a j ch p"
    and eq: "rt_generation a = ic_generation i" "rt_inputHash a = ic_inputHash i" "rt_configuration a = ic_configuration i"
    and cl: "ob_state b = ObClaimed" by blast
  note body = assms [unfolded commit_artifact_tx_def row option.case prod.case Let_def, simplified exec cur eq cl simp_thms if_False]
  let ?sha = "content_hash pf (ic_content i)" and ?rev = "rj_revision j + 1" and ?draft = "ic_stage i = Draft"
  let ?s = "if ?draft then AtDraftCommitted else CompletedInternal"
  obtain prov where prov: "canonicalJson (ic_provenance i) = Inr prov"
    using body by (cases "canonicalJson (ic_provenance i)") simp_all
  let ?x = "\<lparr>ra_id = en_uuid en 0, ra_job = rt_job a, ra_revision = ?rev, ra_type = fst (stage_artifact (ic_stage i)),
     ra_kind = ModelAssertion, ra_provenance = prov, ra_content = ic_content i, ra_sha = ?sha, ra_createdAt = en_clock en 0\<rparr>"
  note body1 = body [unfolded prov sum.case]
  obtain db1 where db1: "insert_artifact ?x db = Some db1"
    using body1 by (cases "insert_artifact ?x db") simp_all
  note body2 = body1 [unfolded db1 option.case]
  have db1': "db1 = set_rooms (\<lambda>m. m\<lparr>rm_artifacts := rm_artifacts m @ [?x]\<rparr>) db"
    using db1 by (simp add: insert_artifact_def split: if_splits)
  let ?db4 = "add_artifact ?x (ic_attempt i) (ic_stage i) ?s db"
  have db4: "update_attempts (\<lambda>r. rt_id r = ic_attempt i) (\<lambda>r. r\<lparr>rt_state := ?s, rt_updatedAt := en_clock en 0\<rparr>)
      (settle_outbox (ic_attempt i) (ic_stage i) ObAcknowledged (en_clock en 0)
        (update_jobs (\<lambda>r. rj_id r = rt_job a) (\<lambda>r. r\<lparr>rj_revision := ?rev\<rparr>) db1)) = ?db4"
    by (simp add: add_artifact_def db1')
  let ?ack = "\<lparr>ak_attempt = ic_attempt i, ak_stage = ic_stage i, ak_request = ic_request i,
      ak_generation = ic_generation i, ak_hash = ?sha\<rparr>"
  note body3 = body2 [unfolded db4]
  obtain db5 where db5: "upsert_ack ?ack ?db4 = Some db5" using body3 by (cases "upsert_ack ?ack ?db4") simp_all
  obtain acks where acks: "db5 = set_rooms (\<lambda>m. m\<lparr>rm_acks := acks\<rparr>) ?db4"
    and keep: "filter (\<lambda>k. ak_attempt k \<noteq> ic_attempt i) acks
        = filter (\<lambda>k. ak_attempt k \<noteq> ic_attempt i) (rm_acks (db_rooms db))"
  proof (rule that)
    show "db5 = set_rooms (\<lambda>m. m\<lparr>rm_acks := rm_acks (db_rooms db5)\<rparr>) ?db4"
      using db5 by (auto simp: upsert_ack_def set_rooms_def Let_def split: if_splits)
    have "filter (\<lambda>k. ak_attempt k \<noteq> t) (tbl_update (\<lambda>a. ak_attempt a = t \<and> Q a) (\<lambda>a. a\<lparr>ak_hash := h\<rparr>) ks)
        = filter (\<lambda>k. ak_attempt k \<noteq> t) ks" for t Q h ks
      by (induction ks) (simp_all add: tbl_update_def)
    moreover have "rm_acks (db_rooms ?db4) = rm_acks (db_rooms db)" by (simp add: add_artifact_def room_writes)
    ultimately show "filter (\<lambda>k. ak_attempt k \<noteq> ic_attempt i) (rm_acks (db_rooms db5))
        = filter (\<lambda>k. ak_attempt k \<noteq> ic_attempt i) (rm_acks (db_rooms db))"
      using db5 by (auto simp: upsert_ack_def Let_def split: if_splits)
  qed
  note body4 = body3 [unfolded db5 option.case]
  have same_keys: "list_ex (outbox_is t st) (rm_outbox (db_rooms ?db4)) \<longleftrightarrow> list_ex (outbox_is t st) (rm_outbox (db_rooms db))" for t st
    by (simp add: add_artifact_def room_writes tbl_update_ex outbox_is_def)
  obtain rows db6 where nxt: "next_outbox (ic_attempt i) (ic_stage i) rows"
    and free: "?draft \<Longrightarrow> outbox_row db (ic_attempt i) Review = None"
    and db6: "db6 = set_rooms (\<lambda>m. m\<lparr>rm_outbox := rm_outbox m @ rows\<rparr>) db5"
    and log: "appendRoomJobLifecycle (en_uuid en (if ?draft then 2 else 1)) (en_clock en 1) (rj_channel j)
       (rt_job a) (if ?draft then draft_committed else review_committed) JobCreated ?rev
       (rt_owner a) (artifact_members (en_uuid en 0) (snd (stage_artifact (ic_stage i))) ?sha
          @ attempt_member (ic_attempt i)) db6 = Some db'" and r: "r = Some (artifact_metadata ?x)"
  proof (cases "ic_stage i")
    case Draft
    note body5 = body4 [simplified Draft RoomJobStage.simps simp_thms if_True]
    obtain payload d where ins: "insert_outbox \<lparr>ob_id = en_uuid en 1, ob_attempt = ic_attempt i, ob_stage = Review,
        ob_payload = payload, ob_state = ObPending, ob_createdAt = en_clock en 0, ob_ackAt = None\<rparr> db5 = Some d"
      and log: "appendRoomJobLifecycle (en_uuid en 2) (en_clock en 1) (rj_channel j)
       (rt_job a) draft_committed JobCreated ?rev
       (rt_owner a) (artifact_members (en_uuid en 0) (snd (stage_artifact Draft)) ?sha
          @ attempt_member (ic_attempt i)) d = Some db'" and r: "r = Some (artifact_metadata ?x)"
      using body5 Draft by (auto split: option.splits)
    show thesis
    proof (rule that)
      have "\<not> list_ex (outbox_is (ic_attempt i) Review) (rm_outbox (db_rooms ?db4))"
        using ins by (auto simp: insert_outbox_def acks list_ex_iff outbox_is_def split: if_splits)
      then show "outbox_row db (ic_attempt i) Review = None"
        unfolding same_keys by (auto simp: outbox_row_def tbl_get_def find_None_iff list_ex_iff)
      show "d = set_rooms (\<lambda>m. m\<lparr>rm_outbox := rm_outbox m @ [\<lparr>ob_id = en_uuid en 1, ob_attempt = ic_attempt i,
          ob_stage = Review, ob_payload = payload, ob_state = ObPending, ob_createdAt = en_clock en 0, ob_ackAt = None\<rparr>]\<rparr>) db5"
        using ins by (simp add: insert_outbox_def split: if_splits)
    qed (use log r Draft in \<open>simp_all add: next_outbox_def outbox_is_def\<close>)
  next
    case Review
    show thesis
      by (rule that [of "[]" db5]) (use body4 Review in \<open>auto simp: next_outbox_def set_rooms_def split: option.splits\<close>)
  qed
  have e: "db6 = set_rooms (\<lambda>m. m\<lparr>rm_acks := acks, rm_outbox := rm_outbox m @ rows\<rparr>) ?db4"
    by (simp add: db6 acks set_rooms_def)
  have fresh: "list_all (\<lambda>y. ra_id y \<noteq> ra_id ?x \<and> (ra_job y = ra_job ?x \<longrightarrow> ra_revision y \<noteq> ra_revision ?x
      \<and> ra_sha y \<noteq> ra_sha ?x)) (rm_artifacts (db_rooms db))"
    using db1 by (auto simp: insert_artifact_def list_ex_iff list_all_iff split: if_splits)
  show thesis
    by (rule ran [OF row cur cl eq _ _ _ _ _ _ _ fresh nxt free keep lifecycle_logged [OF log, unfolded e] r]) simp_all
qed

lemma artifact_change:
  assumes "commit_artifact_tx pf en i db = Inr (r, db')"
  shows "(r = None \<and> db' = db) \<or> (r \<noteq> None \<and> room_change db db')"
  by (rule artifact_cases [OF assms]) (auto intro: room_change.artifact)

lemma terminal_change:
  assumes "terminal_tx outbox attempt reason en t stage generation inputHash db = Inr (done, db')"
    and "outbox \<in> {ObRefused, ObRecoveryNeeded}"
  shows "(\<not> done \<and> db' = db) \<or> (done \<and> room_change db db')"
proof (cases "\<exists>a j b ch p. rm_execution (db_rooms db) \<and> run_row db t stage = Some (a, j, b, ch, p)
    \<and> run_current a j ch p \<and> rt_generation a = generation \<and> rt_inputHash a = inputHash \<and> ob_state b = ObClaimed")
  case False
  then show ?thesis using assms(1)
    by (auto simp: terminal_tx_def Let_def split: if_splits option.split_asm prod.splits)
next
  case True
  then obtain a j b ch p where exec: "rm_execution (db_rooms db)" and row: "run_row db t stage = Some (a, j, b, ch, p)"
    and cur: "run_current a j ch p" and eq: "rt_generation a = generation" "rt_inputHash a = inputHash"
    and cl: "ob_state b = ObClaimed" by blast
  note body = assms(1) [unfolded terminal_tx_def row option.case prod.case Let_def report_terminal_def [symmetric],
      simplified exec cur eq cl simp_thms if_False]
  have log: "appendRoomJobLifecycle (en_uuid en 0) (en_clock en 1) (rj_channel j) (rt_job a) execution_failed
      JobCreated (rj_revision j) (rt_owner a) (attempt_member t) (report_terminal t stage outbox attempt reason (en_clock en 0) db)
      = Some db'" and "done"
    using body by (auto split: option.splits)
  then show ?thesis using room_change.terminal [OF row cur cl assms(2) lifecycle_logged [OF log]] by blast
qed

lemma owner_channel: "assertChannelOwner caller c db = None \<Longrightarrow> channel_row db c \<noteq> None"
  by (auto simp: assertChannelOwner_def split: option.splits)

lemma keyed_change:
  assumes "\<And>r red db'. fn db = Inr (r, red, db') \<Longrightarrow> predicate db = None \<Longrightarrow> db' = db \<or> room_change db db'"
  shows "\<exists>d res. (d = db \<or> room_change db d) \<and> fst (runKeyedCommand pf p cmd key body predicate fn db) = d\<lparr>db_results := res\<rparr>"
proof (rule runKeyedCommand_cases [of pf p cmd key body predicate fn db])
  fix hash r red db'
  assume "predicate db = None" "fn db = Inr (r, red, db')"
    and run: "runKeyedCommand pf p cmd key body predicate fn db = (db'\<lparr>db_results := db_results db' @
       [\<lparr>mr_principal = p, mr_command = cmd, mr_key = key, mr_hash = hash, mr_result = red\<rparr>]\<rparr>, Inr r)"
  then show ?thesis using assms by (metis fst_conv)
qed (intro exI [of _ db] exI [of _ "db_results db"], simp)+

lemma natural_change:
  assumes "\<And>r db'. fn db = Inr (r, db') \<Longrightarrow> db' = db \<or> room_change db db'"
  shows "fst (runNaturallyIdempotentCommand fn db) = db \<or> room_change db (fst (runNaturallyIdempotentCommand fn db))"
  using assms by (auto simp: runNaturallyIdempotentCommand_def split: sum.splits prod.splits)

lemma claim_step: "fst (claimRoomJobInternalDispatch t stage configuration db)
   = fst (runNaturallyIdempotentCommand (claim_run_tx t stage configuration) db)"
  by (auto simp: claimRoomJobInternalDispatch_def split: prod.split sum.split bool.split)

text \<open>A step of a room job makes one change or none, and may store a result.\<close>

lemma job_step_change: "\<exists>d res. (d = db \<or> room_change db d) \<and> job_step pf op db = d\<lparr>db_results := res\<rparr>"
proof -
  have idle: ?thesis if "job_step pf op db = db"
    using that by (intro exI [of _ db] exI [of _ "db_results db"]) simp
  have natural: ?thesis if "job_step pf op db = db \<or> room_change db (job_step pf op db)"
  proof (rule exI [of _ "job_step pf op db"], rule exI [of _ "db_results (job_step pf op db)"])
  qed (use that in simp)
  show ?thesis
  proof (cases op)
    case (CreateJob en caller c brief key)
    have "\<exists>d res. (d = db \<or> room_change db d) \<and> fst (runKeyedCommand pf caller CREATE_ROOM_JOB key body
        predicate (create_job_tx pf en caller c n key) db) = d\<lparr>db_results := res\<rparr>" for body predicate n
      by (rule keyed_change) (use create_change in blast)
    then show ?thesis using CreateJob idle by (auto simp: createRoomJob_def split: option.split)
  next
    case (CancelJob en caller c j expected key)
    show ?thesis unfolding CancelJob job_step.simps cancelRoomJob_def
      by (rule keyed_change) (rule cancel_change, assumption, erule owner_channel)
  next
    case (AddFacts en caller c j facts key)
    have "\<exists>d res. (d = db \<or> room_change db d) \<and> fst (runKeyedCommand pf caller ADD_ROOM_JOB_FACTS key body
        predicate (add_facts_tx pf en c j n key) db) = d\<lparr>db_results := res\<rparr>" for body predicate n
      by (rule keyed_change) (use facts_change in blast)
    then show ?thesis using AddFacts idle by (auto simp: appendRoomJobFacts_def split: option.split)
  next
    case (StartJob en caller c j factIds key configuration)
    have chan: "assertRoomJobStartAdmissionInTx caller c j db = None \<Longrightarrow> channel_row db c \<noteq> None"
      using owner_channel by (auto simp: assertRoomJobStartAdmissionInTx_def split: option.splits)
    have "\<exists>d res. (d = db \<or> room_change db d) \<and> fst (runKeyedCommand pf caller START_ROOM_JOB key body
        (assertRoomJobStartAdmissionInTx caller c j) (start_job_tx pf en caller c j factIds key configuration) db)
        = d\<lparr>db_results := res\<rparr>" for body
      by (rule keyed_change) (use start_change chan in blast)
    then show ?thesis using StartJob idle by (auto simp: startRoomJob_def)
  next
    case (ClaimRun t stage configuration)
    have "fst (runNaturallyIdempotentCommand (claim_run_tx t stage configuration) db) = db
        \<or> room_change db (fst (runNaturallyIdempotentCommand (claim_run_tx t stage configuration) db))"
      by (rule natural_change) (use claim_change in blast)
    then show ?thesis using ClaimRun by (intro natural) (simp add: claim_step)
  next
    case (CommitArtifact en i)
    have "fst (runNaturallyIdempotentCommand (commit_artifact_tx pf en i) db) = db
        \<or> room_change db (fst (runNaturallyIdempotentCommand (commit_artifact_tx pf en i) db))"
      by (rule natural_change) (use artifact_change in blast)
    then show ?thesis using CommitArtifact by (intro natural) (simp add: commitRoomJobInternalArtifact_def)
  next
    case (RecordFailure en t stage generation inputHash reason)
    show ?thesis unfolding RecordFailure job_step.simps recordRoomJobInternalFailure_def
      by (rule natural [unfolded RecordFailure job_step.simps recordRoomJobInternalFailure_def], rule natural_change)
         (use terminal_change in blast)
  next
    case (RecordRecovery en t stage generation inputHash)
    show ?thesis unfolding RecordRecovery job_step.simps recordRoomJobInternalRecoveryNeeded_def
      by (rule natural [unfolded RecordRecovery job_step.simps recordRoomJobInternalRecoveryNeeded_def], rule natural_change)
         (use terminal_change in blast)
  qed
qed

subsection \<open>Frames\<close>

lemma logged_frame: "logged j kind c actor db db' \<Longrightarrow> rooms_only db db'"
  by (auto simp: logged_def rooms_only_with_event)

lemma logged_log_ok:
  assumes "logged j kind c actor db db'" and "log_ok db" and "channel_row db c \<noteq> None"
  shows "log_ok db'"
proof -
  obtain e v eid content now where "db' = with_event e v db"
    and ev: "append_event eid c actor (room_job kind) content now db = Some (db\<lparr>db_events := db_events db @ [v]\<rparr>)"
    using assms(1) by (auto simp: logged_def)
  then have "db' = set_rooms (\<lambda>m. m\<lparr>rm_events := rm_events m @ [e]\<rparr>) (db\<lparr>db_events := db_events db @ [v]\<rparr>)"
    by (simp add: with_event_def set_rooms_def)
  moreover have "log_ok (set_rooms f d) = log_ok d" for f d
    by (simp add: log_ok_def set_rooms_def contiguous_def channel_events_def channel_row_def)
  ultimately show ?thesis using log_ok_append_event [OF assms(2,3) ev] by simp
qed

lemma log_ok_set_rooms [simp]: "log_ok (set_rooms f db) = log_ok db"
  by (simp add: log_ok_def set_rooms_def contiguous_def channel_events_def channel_row_def)

lemma run_row_channel: "run_row db t stage = Some (a, r, b, ch, p) \<Longrightarrow> channel_row db (rj_channel r) \<noteq> None"
  by (auto simp: run_row_def split: option.splits)

text \<open>All writes but the log are room_rewrites of the room tables.\<close>

definition rooms_rewrite :: "collab_db \<Rightarrow> collab_db \<Rightarrow> bool" where
  "rooms_rewrite db db' \<longleftrightarrow> (\<exists>f. db' = set_rooms f db)"

lemma room_rewrites:
  "rooms_rewrite db (mark_requested j now db)" "rooms_rewrite db (mark_cancelled j n now db)"
  "rooms_rewrite db (add_attempt a facts b db)" "rooms_rewrite db (claimed_outbox t stage db)"
  "rooms_rewrite db (add_artifact x t stage s db)" "rooms_rewrite db (report_terminal t stage outbox attempt reason now db)"
  "rooms_rewrite db (set_rooms f db)" "rooms_rewrite db (set_rooms f (add_artifact x t stage s db))"
proof -
  have "rooms_rewrite db d" if "d = db\<lparr>db_rooms := R\<rparr>" for d R
    unfolding rooms_rewrite_def by (rule exI [of _ "\<lambda>_. R"]) (simp add: that set_rooms_def)
  note r = this
  show "rooms_rewrite db (mark_requested j now db)" "rooms_rewrite db (add_attempt a facts b db)"
    "rooms_rewrite db (claimed_outbox t stage db)" "rooms_rewrite db (set_rooms f db)"
    by (rule r, simp add: mark_requested_def add_attempt_def claimed_outbox_def room_writes)+
  show "rooms_rewrite db (add_artifact x t stage s db)"
    "rooms_rewrite db (report_terminal t stage outbox attempt reason now db)"
    "rooms_rewrite db (set_rooms f (add_artifact x t stage s db))"
    by (rule r, simp add: add_artifact_def report_terminal_def room_writes)+
  show "rooms_rewrite db (mark_cancelled j n now db)"
    by (cases "rm_execution (db_rooms db)") (rule r, simp add: mark_cancelled_def room_writes)+
qed

lemma rewrite_frame: "rooms_rewrite db db' \<Longrightarrow> rooms_only db db'"
  by (auto simp: rooms_rewrite_def rooms_only_set)

lemma rewrite_same:
  assumes "rooms_rewrite db db'"
  shows "log_ok db' = log_ok db" "channel_row db' c = channel_row db c" "db_events db' = db_events db"
  using assms by (auto simp: rooms_rewrite_def)

lemma logged_channel: "logged j kind c actor db db' \<Longrightarrow> channel_row db' x = channel_row db x"
  by (auto simp: logged_def channel_row_def)

lemma room_change_frame: "room_change db db' \<Longrightarrow> rooms_only db db'"
proof (induction rule: room_change.induct)
  case (cancelled db c j r actor now db1 now' db')
  then show ?case by (meson rooms_only_trans logged_frame rewrite_frame room_rewrites)
qed (meson rooms_only_trans logged_frame rewrite_frame room_rewrites | simp add: rooms_only_set rewrite_frame room_rewrites)+

lemma room_change_log_ok: "room_change db db' \<Longrightarrow> log_ok db \<Longrightarrow> log_ok db'"
proof (induction rule: room_change.induct)
  case (cancelled db c j r actor now db1 now' db')
  have 1: "log_ok db1" using logged_log_ok [OF cancelled(4)] cancelled(1,6) by (simp add: rewrite_same [OF room_rewrites(1)])
  have "channel_row db1 c \<noteq> None" using cancelled(1) logged_channel [OF cancelled(4)] by (simp add: rewrite_same [OF room_rewrites(1)])
  then show ?case using logged_log_ok [OF cancelled(5)] 1 by (simp add: rewrite_same [OF room_rewrites(2)])
next
  case (created db c r actor db')
  show ?case by (rule logged_log_ok [OF created(7)]) (use created in simp_all)
next
  case (started db c j r a b facts actor db')
  show ?case by (rule logged_log_ok [OF started(13)]) (use started in \<open>simp_all add: rewrite_same [OF room_rewrites(3)]\<close>)
next
  case (artifact db t stage a r b ch p x rows acks s db')
  show ?case by (rule logged_log_ok [OF artifact(12)])
      (use artifact run_row_channel [OF artifact(1)] in \<open>simp_all add: rewrite_same [OF room_rewrites(5)]\<close>)
next
  case (terminal db t stage a r b ch p outbox attempt reason now db')
  show ?case by (rule logged_log_ok [OF terminal(5)])
      (use terminal run_row_channel [OF terminal(1)] in \<open>simp_all add: rewrite_same [OF room_rewrites(6)]\<close>)
qed (simp_all add: rewrite_same [OF room_rewrites(4)])

lemma job_step_frame:
  obtains d res where "job_step pf op db = d\<lparr>db_results := res\<rparr>" "rooms_only db d" "log_ok db \<Longrightarrow> log_ok d"
  using job_step_change [of db pf op] room_change_frame room_change_log_ok rooms_only_refl by metis

end
