(* ===== verification/Collab_World.thy ===== *)
theory Collab_World
  imports Collab_Authority Collab_Profiles Collab_Cron Collab_Rooms
begin

text \<open>
  The whole store: the core commands interleaved with agent turns, profile commands and schedules in
  any order, what each of them leaves alone, and the invariants of the core carried over to these
  longer histories.
\<close>

subsection \<open>Steps of the store\<close>

datatype cron_op =
    CreateSchedule string "string option" string string int "text_cp option" string int
  | SetSchedule string bool
  | ClaimFire string nat int int
  | RecordRun string nat string string int
  | AttachRun string nat string
  | ResolveRun string nat ScheduleRunState "string option"

fun cron_step :: "cron_op \<Rightarrow> collab_db \<Rightarrow> collab_db" where
  "cron_step (CreateSchedule i operator c agent interval hint key now) db =
     fst (handleCreateSchedule i operator c agent interval hint key now db)"
| "cron_step (SetSchedule i active) db = fst (handleSetScheduleState i active db)"
| "cron_step (ClaimFire i expectedSeq interval now) db = fst (claimScheduleFire i expectedSeq interval now db)"
| "cron_step (RecordRun i n c agent now) db = fst (recordScheduleRunDispatched i n c agent now db)"
| "cron_step (AttachRun i n request) db = attachScheduleRunDispatchRequestId i n request db"
| "cron_step (ResolveRun i n outcome refusal) db = resolveScheduleRun i n outcome refusal db"

datatype store_op = Core collab_op | Turn turn_op | Profile profile_op | Cron cron_op | Job job_op

fun store_step :: "platform \<Rightarrow> store_op \<Rightarrow> collab_db \<Rightarrow> collab_db" where
  "store_step pf (Core op) db = collab_step pf op db"
| "store_step pf (Turn op) db = turn_step pf op db"
| "store_step pf (Profile op) db = profile_step pf op db"
| "store_step pf (Cron op) db = cron_step op db"
| "store_step pf (Job op) db = job_step pf op db"

subsection \<open>What the core commands leave alone\<close>

definition events_grow :: "collab_db \<Rightarrow> collab_db \<Rightarrow> bool" where
  "events_grow db db' \<longleftrightarrow> (\<exists>new. db_events db' = db_events db @ new)"

definition participation_same :: "collab_db \<Rightarrow> collab_db \<Rightarrow> bool" where
  "participation_same db db' \<longleftrightarrow> db_turns db' = db_turns db \<and> db_stops db' = db_stops db
     \<and> db_profiles db' = db_profiles db \<and> db_personas db' = db_personas db \<and> db_runs db' = db_runs db
     \<and> db_rooms db' = db_rooms db"

definition core_frame :: "collab_db \<Rightarrow> collab_db \<Rightarrow> bool" where
  "core_frame db db' \<longleftrightarrow> events_grow db db' \<and> participation_same db db'"

lemma core_frame_refl [simp]: "core_frame db db"
  by (simp add: core_frame_def events_grow_def participation_same_def)

lemma events_grow_refl [simp]: "events_grow db db"
  by (simp add: events_grow_def)

lemma events_grow_trans: "events_grow a b \<Longrightarrow> events_grow b c \<Longrightarrow> events_grow a c"
  by (auto simp: events_grow_def)

lemma event_frame:
  "insert_event eid c seq actor kind content now db = Some db' \<Longrightarrow> core_frame db db'"
  "append_event eid c actor kind content now db = Some db' \<Longrightarrow> core_frame db db'"
  by (auto simp: append_event_def insert_event_def core_frame_def events_grow_def participation_same_def
      split: if_splits)

lemmas frame_defs = core_frame_def events_grow_def participation_same_def

lemma channel_tx_frame:
  "createChannel_tx pf en name db = Inr (r, red, db') \<Longrightarrow> core_frame db db'"
  "setPolicy_tx en caller c policy key db = Inr (r, red, db') \<Longrightarrow> core_frame db db'"
  "addMember_tx en caller c p db = Inr (r, red, db') \<Longrightarrow> core_frame db db'"
  "removeMember_tx en caller c p db = Inr (r, red, db') \<Longrightarrow> core_frame db db'"
  "archive_tx en caller c db = Inr (r, red, db') \<Longrightarrow> core_frame db db'"
  "unarchive_tx pf en caller c db = Inr (r, red, db') \<Longrightarrow> core_frame db db'"
  "post_tx en caller c msg db = Inr (r, red, db') \<Longrightarrow> core_frame db db'"
  subgoal by (auto simp: createChannel_tx_def Let_def append_channel_def frame_defs
      split: option.splits sum.splits if_splits dest!: event_frame)
  subgoal by (auto simp: setPolicy_tx_def frame_defs split: option.splits)
  subgoal by (auto simp: addMember_tx_def Let_def update_member_def frame_defs
      split: option.splits if_splits dest!: event_frame)
  subgoal by (auto simp: removeMember_tx_def Let_def update_member_def frame_defs
      split: option.splits if_splits dest!: event_frame)
  subgoal by (auto simp: archive_tx_def Let_def update_channel_def frame_defs
      split: option.splits if_splits dest!: event_frame)
  subgoal by (auto simp: unarchive_tx_def Let_def update_channel_def frame_defs
      split: option.splits if_splits dest!: event_frame)
  subgoal by (auto simp: post_tx_def Let_def split: option.splits if_splits dest!: event_frame)
  done

lemma issue_frame: "issueCredentialRow issue k p db = Some (t, db') \<Longrightarrow> core_frame db db'"
  by (auto simp: issueCredentialRow_def case_prod_beta frame_defs split: if_splits)

lemma agent_tx_frame:
  "createAgent_tx issue en caller name db = Inr (r, red, db') \<Longrightarrow> core_frame db db'"
  "createCredential_tx issue en caller p db = Inr (r, red, db') \<Longrightarrow> core_frame db db'"
  "suspend_tx en caller p db = Inr (r, red, db') \<Longrightarrow> core_frame db db'"
  "restore_tx en caller p db = Inr (r, red, db') \<Longrightarrow> core_frame db db'"
  "revoke_tx en caller p db = Inr (r, red, db') \<Longrightarrow> core_frame db db'"
  "rotate_tx issue en caller p k db = Inr (r, red, db') \<Longrightarrow> core_frame db db'"
  "revokeCredential_tx en caller k db = Inr (r, red, db') \<Longrightarrow> core_frame db db'"
  subgoal by (auto simp: createAgent_tx_def Let_def frame_defs agent_effects
      split: option.splits if_splits dest!: issue_frame)
  subgoal by (auto simp: createCredential_tx_def frame_defs agent_effects
      split: option.splits if_splits dest!: issue_frame)
  subgoal by (auto simp: suspend_tx_def Let_def frame_defs agent_effects split: sum.splits if_splits)
  subgoal by (auto simp: restore_tx_def Let_def frame_defs agent_effects split: sum.splits if_splits)
  subgoal by (auto simp: revoke_tx_def Let_def frame_defs agent_effects split: sum.splits if_splits)
  subgoal by (auto simp: rotate_tx_def Let_def frame_defs agent_effects
      split: option.splits if_splits dest!: issue_frame)
  subgoal by (auto simp: revokeCredential_tx_def Let_def frame_defs agent_effects
      split: option.splits if_splits)
  done

lemma keyed_frame:
  assumes "\<And>r red db'. fn db = Inr (r, red, db') \<Longrightarrow> core_frame db db'"
  shows "core_frame db (fst (runKeyedCommand pf p cmd key body predicate fn db))"
  by (rule runKeyedCommand_cases [of pf p cmd key body predicate fn db])
     (use assms in \<open>auto simp: frame_defs\<close>)

lemma channel_frame: "core_frame db (run_channel pf en caller cmd db)"
proof (cases cmd)
  case (Ack c cursor)
  then show ?thesis
    by (auto simp: ackChannelCursor_def runNaturallyIdempotentCommand_def ack_tx_def Let_def frame_defs
        split: sum.splits option.splits if_splits)
qed (use keyed_frame [OF channel_tx_frame(1)] keyed_frame [OF channel_tx_frame(2)]
      keyed_frame [OF channel_tx_frame(3)] keyed_frame [OF channel_tx_frame(4)]
      keyed_frame [OF channel_tx_frame(5)] keyed_frame [OF channel_tx_frame(6)]
      keyed_frame [OF channel_tx_frame(7)]
    in \<open>simp_all add: createChannel_def setChannelExternalExportPolicy_def addChannelMember_def
      removeChannelMember_def archiveChannel_def unarchiveChannel_def postChannelMessage_def
      split: option.split\<close>)

lemma collab_step_frame: "core_frame db (collab_step pf op db)"
proof (cases op)
  case (ChannelOp en caller cmd)
  then show ?thesis by (simp add: channel_frame)
next
  case (Startup checks live now)
  then show ?thesis by (auto simp: performStartup_def Let_def frame_defs split: option.split bool.split)
qed (use keyed_frame [OF agent_tx_frame(1)] keyed_frame [OF agent_tx_frame(2)]
      keyed_frame [OF agent_tx_frame(3)] keyed_frame [OF agent_tx_frame(4)]
      keyed_frame [OF agent_tx_frame(5)] keyed_frame [OF agent_tx_frame(6)]
      keyed_frame [OF agent_tx_frame(7)]
    in \<open>simp_all add: createAgent_def createPrincipalCredential_def suspendAgent_def restoreAgent_def
      revokeAgent_def rotatePrincipalCredential_def revokePrincipalCredential_def createSessionBinding_def
      closeSessionBinding_def frame_defs Let_def split: option.split\<close>)

subsection \<open>What the turn, profile and schedule commands leave alone\<close>

text \<open>The fresh commit of an output, as one inversion of its transaction.\<close>

definition output_hit :: "turn_id \<Rightarrow> string \<Rightarrow> string option \<Rightarrow> TurnRow \<Rightarrow> bool" where
  "output_hit i request lease t \<longleftrightarrow> turn_is i t \<and> tu_output t = None \<and> tu_request t = Some request \<and> tu_lease t = lease"

definition bind_output :: "string \<Rightarrow> OutputKind \<Rightarrow> TurnRow \<Rightarrow> TurnRow" where
  "bind_output eventId kind t = t\<lparr>tu_output := Some (eventId, kind), tu_state := TurnCompleted, tu_resolved := True\<rparr>"

definition commit_id :: "CommitAgentTurnOutputInput \<Rightarrow> turn_id" where
  "commit_id b = (ci_channel b, ci_agent b, ci_seq b)"

definition message_content :: "string \<Rightarrow> text_cp \<Rightarrow> jval" where
  "message_content c msg = JObj [(cps ''channelId'', JStr (cps c)), (cps ''text'', JStr msg)]"

lemma commit_tx_cases:
  assumes "commit_turn_tx pf en b x db = Inr (r, db')"
  obtains (replay) turn eventId kind e where
      "turn_row db (commit_id b) = Some turn" "tu_lease turn = ci_lease b" "tu_output turn = Some (eventId, kind)"
      "tbl_get (\<lambda>e. EventRow.ev_id e = eventId \<and> ev_channel e = ci_channel b) (db_events db) = Some e"
      "r = \<lparr>cm_event = eventId, cm_cursor = show_nat (ev_seq e), cm_at = ev_createdAt e, cm_kind = kind,
            cm_replayed = True\<rparr>" "db' = db"
  | (fresh) turn claimed db1 where
      "turn_row db (commit_id b) = Some turn" "tu_request turn = Some (ci_request b)" "tu_lease turn = ci_lease b"
      "tu_output turn = None" "tu_state turn = TurnDispatched"
      "validatePersonaEnvelope pf (tu_persona turn) = Inr claimed" "personaEnvelopesEqual claimed x"
      "turn_authorized pf db (ci_channel b) (ci_agent b) (ci_profile b) claimed = Inr True"
      "append_event (en_uuid en 0) (ci_channel b) (ci_agent b) message_posted
         (message_content (ci_channel b) (ci_text b)) (en_clock en 0) db = Some db1"
      "\<not> list_ex (\<lambda>t. map_option fst (tu_output t) = Some (en_uuid en 0)) (db_turns db1)"
      "tbl_changes (output_hit (commit_id b) (ci_request b) (ci_lease b)) (db_turns db1) = 1"
      "r = \<lparr>cm_event = en_uuid en 0, cm_cursor = show_nat (getMaxChannelSeq db (ci_channel b) + 1),
            cm_at = en_clock en 0, cm_kind = ci_kind b, cm_replayed = False\<rparr>"
      "db' = update_turns (output_hit (commit_id b) (ci_request b) (ci_lease b))
               (bind_output (en_uuid en 0) (ci_kind b)) db1"
proof (cases "turn_row db (commit_id b)")
  case None
  then show thesis using assms by (simp add: commit_turn_tx_def commit_id_def Let_def)
next
  case turn: (Some turn)
  have hit: "output_hit (commit_id b) (ci_request b) (ci_lease b) = (\<lambda>t. turn_is (commit_id b) t
      \<and> tu_output t = None \<and> tu_request t = Some (ci_request b) \<and> tu_lease t = ci_lease b)"
    by (simp add: fun_eq_iff output_hit_def)
  have bind: "bind_output e k = (\<lambda>t. t\<lparr>tu_output := Some (e, k), tu_state := TurnCompleted, tu_resolved := True\<rparr>)" for e k
    by (simp add: fun_eq_iff bind_output_def)
  note body = assms [unfolded commit_turn_tx_def Let_def commit_id_def [symmetric] turn option.case]
  have req: "tu_request turn = Some (ci_request b)" and lease: "tu_lease turn = ci_lease b"
    using body by (simp_all split: if_split_asm)
  note body1 = body [unfolded req lease, simplified]
  obtain claimed where claimed: "validatePersonaEnvelope pf (tu_persona turn) = Inr claimed"
    using body1 by (cases "validatePersonaEnvelope pf (tu_persona turn)") simp_all
  note body2 = body1 [unfolded claimed sum.case]
  have eq: "personaEnvelopesEqual claimed x" using body2 by (simp split: if_split_asm)
  have eq_True: "personaEnvelopesEqual claimed x = True" using eq by simp
  note body3 = body2 [unfolded eq_True, simplified]
  show thesis
  proof (cases "tu_output turn")
    case (Some p)
    obtain eventId kind where p: "p = (eventId, kind)" by (cases p)
    note body4 = body3 [unfolded Some p, simplified]
    obtain e where e: "tbl_get (\<lambda>e. EventRow.ev_id e = eventId \<and> ev_channel e = ci_channel b) (db_events db) = Some e"
      using body4 by (auto split: option.split_asm)
    show thesis using body4 Some p
      by (intro replay [OF turn lease _ e]) (auto simp: e)
  next
    case None
    note body4 = body3 [unfolded None option.case]
    have st: "tu_state turn = TurnDispatched" using body4 by (simp split: if_split_asm)
    note body5 = body4 [unfolded st, simplified]
    have auth: "turn_authorized pf db (ci_channel b) (ci_agent b) (ci_profile b) claimed = Inr True"
      using body5 by (simp split: sum.split_asm if_split_asm)
    note body6 = body5 [unfolded auth, simplified]
    obtain db1 where db1: "append_event (en_uuid en 0) (ci_channel b) (ci_agent b) message_posted
         (message_content (ci_channel b) (ci_text b)) (en_clock en 0) db = Some db1"
      using body6 unfolding message_content_def by (simp split: option.split_asm)
    note body7 = body6 [folded message_content_def, unfolded db1 option.case]
    show thesis using body7 unfolding hit [symmetric] bind [symmetric]
      by (intro fresh [OF turn req lease None st claimed eq auth db1]) (auto split: if_split_asm)
  qed
qed

lemma commit_run:
  obtains (refused) e where "commitAgentTurnOutput pf en b db = (db, Inl e)"
  | (tx) b' x where "commitAgentTurnOutput pf en b db = runNaturallyIdempotentCommand (commit_turn_tx pf en b' x) db"
      "ci_channel b' = ci_channel b" "ci_seq b' = ci_seq b"
      "normalizeRuntimeIdentifier (ci_agent b) = Some (ci_agent b')" "ci_kind b' = ci_kind b"
      "ci_lease b' = normalizeLease (ci_lease b)" "normalizeRuntimeIdentifier (ci_request b) = Some (ci_request b')"
      "normalizeMessageText (pf_nfc pf) (ci_text b) = Some (ci_text b')"
proof (cases "\<exists>e. commitAgentTurnOutput pf en b db = (db, Inl e)")
  case True
  then show thesis using refused by blast
next
  case False
  note no = this
  note ca = commitAgentTurnOutput_def Let_def
  obtain agent where agent: "normalizeRuntimeIdentifier (ci_agent b) = Some agent"
    using no by (cases "normalizeRuntimeIdentifier (ci_agent b)") (simp_all add: ca)
  obtain request where request: "normalizeRuntimeIdentifier (ci_request b) = Some request"
    using no by (cases "normalizeRuntimeIdentifier (ci_request b)") (simp_all add: ca agent)
  have seq: "safe_seq (ci_seq b)" "\<not> rs_revision (ci_profile b) < 0"
    using no by (simp_all add: ca agent request split: if_split_asm)
  note ca2 = ca agent request seq
  obtain account where account: "normalizeRuntimeIdentifier (rs_account (ci_profile b)) = Some account"
    using no by (cases "normalizeRuntimeIdentifier (rs_account (ci_profile b))") (simp_all add: ca2)
  obtain adapter where adapter: "normalizeRuntimeIdentifier (rs_adapter (ci_profile b)) = Some adapter"
    using no by (cases "normalizeRuntimeIdentifier (rs_adapter (ci_profile b))") (simp_all add: ca2 account)
  obtain model where model: "normalizeRuntimeIdentifier (rs_model (ci_profile b)) = Some model"
    using no by (cases "normalizeRuntimeIdentifier (rs_model (ci_profile b))") (simp_all add: ca2 account adapter)
  note ca3 = ca2 account adapter model
  obtain x where x: "validatePersonaEnvelope pf (ci_envelope b) = Inr x"
    using no by (cases "validatePersonaEnvelope pf (ci_envelope b)") (simp_all add: ca3)
  have rev: "rs_revision (ci_profile b) = ae_revision x" using no by (simp add: ca3 x split: if_split_asm)
  obtain msg where msg: "normalizeMessageText (pf_nfc pf) (ci_text b) = Some msg"
    using no by (cases "normalizeMessageText (pf_nfc pf) (ci_text b)") (use seq in \<open>simp_all add: ca agent request account adapter model x rev\<close>)
  show thesis
    by (rule tx [of "b\<lparr>ci_agent := agent, ci_request := request, ci_text := msg, ci_lease := normalizeLease (ci_lease b),
          ci_profile := (ci_profile b)\<lparr>rs_account := account, rs_adapter := adapter, rs_model := model\<rparr>\<rparr>" x])
       (use seq in \<open>simp_all add: ca agent request account adapter model x rev msg\<close>)
qed

lemma commit_cases:
  obtains (idle) "fst (commitAgentTurnOutput pf en b db) = db"
      "\<And>r. snd (commitAgentTurnOutput pf en b db) = Inr r \<Longrightarrow> cm_replayed r"
  | (ran) b' x r db' where "commit_turn_tx pf en b' x db = Inr (r, db')" "\<not> cm_replayed r"
      "commitAgentTurnOutput pf en b db = (db', Inr r)" "ci_channel b' = ci_channel b" "ci_seq b' = ci_seq b"
      "normalizeRuntimeIdentifier (ci_agent b) = Some (ci_agent b')" "ci_kind b' = ci_kind b"
      "ci_lease b' = normalizeLease (ci_lease b)" "normalizeRuntimeIdentifier (ci_request b) = Some (ci_request b')"
      "normalizeMessageText (pf_nfc pf) (ci_text b) = Some (ci_text b')"
proof (cases rule: commit_run [of pf en b db])
  case (refused e)
  show thesis by (rule idle) (simp_all add: refused)
next
  case (tx b' x)
  show thesis
  proof (cases "commit_turn_tx pf en b' x db")
    case (Inl e)
    then have run: "commitAgentTurnOutput pf en b db = (db, Inl e)"
      using tx(1) by (simp add: runNaturallyIdempotentCommand_def)
    show thesis by (rule idle) (simp_all add: run)
  next
    case (Inr t)
    obtain r db' where t: "t = (r, db')" by (cases t)
    show thesis
    proof (cases "cm_replayed r")
      case True
      then have "db' = db" using Inr t by (auto elim!: commit_tx_cases)
      then have run: "commitAgentTurnOutput pf en b db = (db, Inr r)"
        using tx(1) Inr t by (simp add: runNaturallyIdempotentCommand_def)
      show thesis by (rule idle) (use True in \<open>simp_all add: run\<close>)
    next
      case False
      have run: "commitAgentTurnOutput pf en b db = (db', Inr r)"
        using tx(1) Inr t by (simp add: runNaturallyIdempotentCommand_def)
      show thesis by (rule ran [OF _ False run tx(2-8)]) (use Inr t in simp)
    qed
  qed
qed

definition core_same :: "collab_db \<Rightarrow> collab_db \<Rightarrow> bool" where
  "core_same db db' \<longleftrightarrow> db_principals db' = db_principals db \<and> db_credentials db' = db_credentials db
     \<and> db_channels db' = db_channels db \<and> db_members db' = db_members db \<and> db_cursors db' = db_cursors db
     \<and> db_sessions db' = db_sessions db"

lemma core_same_refl [simp]: "core_same db db"
  by (simp add: core_same_def)

lemma event_same:
  "insert_event eid c seq actor kind content now db = Some db' \<Longrightarrow> core_same db db' \<and> db_schedules db' = db_schedules db"
  "append_event eid c actor kind content now db = Some db' \<Longrightarrow> core_same db db' \<and> db_schedules db' = db_schedules db"
  by (auto simp: append_event_def insert_event_def core_same_def split: if_splits)

definition profiles_same :: "collab_db \<Rightarrow> collab_db \<Rightarrow> bool" where
  "profiles_same db db' \<longleftrightarrow> db_profiles db' = db_profiles db \<and> db_personas db' = db_personas db"

lemmas same_defs = core_same_def profiles_same_def

text \<open>A turn step writes turns and STOP rows only, a commit one event besides.\<close>

lemma insert_turn_Inserted:
  "insert_turn t db = Inserted db' \<Longrightarrow> db' = db\<lparr>db_turns := db_turns db @ [t]\<rparr> \<and> turn_row db (turn_key t) = None
     \<and> persona_guard (tu_persona t)"
  by (simp add: insert_turn_def split: if_splits)

lemma claim_cases:
  obtains (idle) "fst (claimAgentTurn pf identity now db) = db"
  | (terminated) i where "fst (claimAgentTurn pf identity now db)
       = update_turns (turn_is i) (\<lambda>t. t\<lparr>tu_state := TurnTerminated, tu_resolved := True\<rparr>) db"
  | (inserted) i trigger e directives revision where
      "fst (claimAgentTurn pf identity now db) = db\<lparr>db_turns := db_turns db @ [fresh_turn i trigger now (envelope_fields e)]\<rparr>"
      "turn_row db i = None" "mintPersonaEnvelope pf directives revision = Inr e"
proof -
  have tx: "thesis" if "fst (claimAgentTurn pf identity now db) = db'"
    "claim_tx pf x now db = Inr (r, db')" for x r db'
  proof (cases "turn_row db (ti_channel x, ti_agent x, ti_seq x)")
    case (Some t)
    then have "db' = db \<or> db' = update_turns (turn_is (ti_channel x, ti_agent x, ti_seq x))
        (\<lambda>t. t\<lparr>tu_state := TurnTerminated, tu_resolved := True\<rparr>) db"
      using that(2) by (auto simp: claim_tx_def Let_def split: if_splits sum.splits)
    then show thesis using that(1) idle terminated by blast
  next
    case None
    obtain directives revision where dr: "(case persona_row db (ti_agent x) of
        None \<Rightarrow> ([], 0) | Some r \<Rightarrow> (ps_directives r, ps_revision r)) = (directives, revision)" by (rule prod.exhaust)
    note tx = that(2) [unfolded claim_tx_def Let_def None option.case dr prod.case]
    obtain profile where profile: "runtimeProfileForClaim db (ti_agent x) = Inr profile"
      using tx by (cases "runtimeProfileForClaim db (ti_agent x)") simp_all
    obtain e where e: "mintPersonaEnvelope pf directives revision = Inr e"
      using tx by (cases "mintPersonaEnvelope pf directives revision") (simp_all add: profile)
    obtain d where d: "insert_turn (fresh_turn (ti_channel x, ti_agent x, ti_seq x) (ti_trigger x) now (envelope_fields e)) db
        = Inserted d" "db' = d"
      using tx by (auto simp: profile e split: insert_outcome.splits)
    show thesis using insert_turn_Inserted [OF d(1)] d(2) that(1) e None by (intro inserted) simp_all
  qed
  show thesis
  proof (cases "fst (claimAgentTurn pf identity now db) = db")
    case True
    then show thesis by (rule idle)
  next
    case False
    then show thesis
      by (auto simp: claimAgentTurn_def runNaturallyIdempotentCommand_def
          split: option.splits if_splits sum.splits intro: tx [rotated])
  qed
qed

lemma claim_attempts_result:
  "claim_attempts n busy t db = Some (db', won) \<Longrightarrow>
   (won \<and> insert_turn t db = Inserted db') \<or> (\<not> won \<and> db' = db)"
  by (induction n busy t db rule: claim_attempts.induct) (auto split: if_splits insert_outcome.splits)

lemma claim_bare_cases:
  obtains (idle) "turn_step pf (ClaimBare busy identity now) db = db"
  | (inserted) i trigger where
      "turn_step pf (ClaimBare busy identity now) db = db\<lparr>db_turns := db_turns db @ [fresh_turn i trigger now no_persona]\<rparr>"
      "turn_row db i = None"
proof (cases "claimTurnRow busy identity now db")
  case None
  then show thesis using idle by simp
next
  case (Some r)
  obtain db' won where r: "r = (db', won)" by (cases r)
  let ?i = "(ti_channel identity, ti_agent identity, ti_seq identity)"
  have "won \<and> insert_turn (fresh_turn ?i (ti_trigger identity) now no_persona) db = Inserted db' \<or> \<not> won \<and> db' = db"
    using Some r by (intro claim_attempts_result) (simp add: claimTurnRow_def)
  then show thesis
  proof
    assume "won \<and> insert_turn (fresh_turn ?i (ti_trigger identity) now no_persona) db = Inserted db'"
    then have ins: "insert_turn (fresh_turn ?i (ti_trigger identity) now no_persona) db = Inserted db'" by blast
    have "turn_row db ?i = None" using insert_turn_Inserted [OF ins] by (simp add: fresh_turn_def turn_key_def)
    then show thesis using Some r insert_turn_Inserted [OF ins] by (intro inserted [of ?i]) simp_all
  next
    assume "\<not> won \<and> db' = db"
    then show thesis using Some r idle by simp
  qed
qed
lemma turn_frame:
  "core_same db (turn_step pf op db) \<and> profiles_same db (turn_step pf op db)
   \<and> events_grow db (turn_step pf op db) \<and> db_runs (turn_step pf op db) = db_runs db
   \<and> db_rooms (turn_step pf op db) = db_rooms db"
proof (cases op)
  case (ClaimTurn identity now)
  show ?thesis by (rule claim_cases [of pf identity now db])
      (use ClaimTurn in \<open>simp_all add: same_defs events_grow_def update_turns_def\<close>)
next
  case (ClaimBare busy identity now)
  show ?thesis by (rule claim_bare_cases [of pf busy identity now db])
      (use ClaimBare in \<open>simp_all add: same_defs events_grow_def\<close>)
next
  case (CommitTurn en b)
  show ?thesis
  proof (rule commit_cases [of pf en b db])
    assume "fst (commitAgentTurnOutput pf en b db) = db"
    then show ?thesis using CommitTurn by (simp add: same_defs)
  next
    fix b' x r db'
    assume tx: "commit_turn_tx pf en b' x db = Inr (r, db')" "\<not> cm_replayed r"
      and run: "commitAgentTurnOutput pf en b db = (db', Inr r)"
    from tx show ?thesis
    proof (cases rule: commit_tx_cases)
      case (fresh turn claimed db1)
      from event_frame(2) [OF fresh(9)] event_same(2) [OF fresh(9)] CommitTurn run fresh(13)
      show ?thesis by (simp add: same_defs frame_defs update_turns_def)
    qed simp
  qed
next
  case (SetStop operator stop scope channelId now)
  then show ?thesis
    by (auto simp: handleSetAutoreplyStop_def setAutoreplyStop_def clearAutoreplyStop_def Let_def same_defs
        events_grow_def split: option.split StopScope.split if_splits)
qed (auto simp: attachDispatchRequestId_def resolveAgentTurn_def reclaimStrandedAgentTurn_def update_turns_def
    same_defs events_grow_def Let_def split: option.split)

lemma cron_frame:
  "core_same db (cron_step op db) \<and> profiles_same db (cron_step op db) \<and> events_grow db (cron_step op db)
   \<and> db_turns (cron_step op db) = db_turns db \<and> db_stops (cron_step op db) = db_stops db
   \<and> db_rooms (cron_step op db) = db_rooms db"
  by (cases op)
     (auto simp: handleCreateSchedule_def createSchedule_def handleSetScheduleState_def setScheduleState_def
       claimScheduleFire_def recordScheduleRunDispatched_def attachScheduleRunDispatchRequestId_def
       resolveScheduleRun_def same_defs events_grow_def Let_def split: option.split)

lemma job_frame:
  "core_same db (job_step pf op db) \<and> profiles_same db (job_step pf op db) \<and> events_grow db (job_step pf op db)
   \<and> db_turns (job_step pf op db) = db_turns db \<and> db_stops (job_step pf op db) = db_stops db
   \<and> db_runs (job_step pf op db) = db_runs db \<and> db_schedules (job_step pf op db) = db_schedules db"
  by (rule job_step_frame [of pf op db]) (use rooms_only_same in \<open>auto simp: same_defs events_grow_def\<close>)

text \<open>The three profile edits write profiles and personas only.\<close>

definition edit_frame :: "collab_db \<Rightarrow> collab_db \<Rightarrow> bool" where
  "edit_frame db db' \<longleftrightarrow> core_same db db' \<and> db_events db' = db_events db \<and> db_turns db' = db_turns db
     \<and> db_stops db' = db_stops db \<and> db_runs db' = db_runs db \<and> db_schedules db' = db_schedules db
     \<and> db_rooms db' = db_rooms db"

lemma edit_tx_frame:
  "upsertProfile_tx pf en p b db = Inr (r, red, db') \<Longrightarrow> edit_frame db db'"
  "upsertPersona_tx pf en p q db = Inr (r, red, db') \<Longrightarrow> edit_frame db db'"
  "autostart_tx en p autostart db = Inr (r, red, db') \<Longrightarrow> edit_frame db db'"
  by (auto simp: upsertProfile_tx_def upsertPersona_tx_def autostart_tx_def persona_revision_def set_profiles_def
      edit_frame_def core_same_def Let_def split: if_splits option.splits sum.splits)

lemma keyed_edit:
  assumes "\<And>r red db'. fn db = Inr (r, red, db') \<Longrightarrow> edit_frame db db'"
  shows "edit_frame db (fst (runKeyedCommand pf p cmd key body predicate fn db))"
  by (rule runKeyedCommand_cases [of pf p cmd key body predicate fn db])
     (use assms in \<open>auto simp: edit_frame_def core_same_def\<close>)

lemma edit_step_frame:
  "edit_frame db (profile_step pf (UpsertProfile en caller p b key) db)"
  "edit_frame db (profile_step pf (UpsertPersona en caller p q key delegate) db)"
  "edit_frame db (profile_step pf (SetAutostart en caller p autostart key delegate) db)"
  using keyed_edit [OF edit_tx_frame(1)] keyed_edit [OF edit_tx_frame(2)] keyed_edit [OF edit_tx_frame(3)]
  by (simp_all add: upsertAgentRuntimeProfile_def upsertAgentPersona_def setLocalAgentAutostart_def Let_def
      edit_frame_def split: option.split)

text \<open>Provisioning, channel by channel.\<close>

lemma provision_members_frame:
  "provision_members en caller agent k cs db = Inr db' \<Longrightarrow>
   db_principals db' = db_principals db \<and> db_credentials db' = db_credentials db \<and> db_channels db' = db_channels db
   \<and> db_cursors db' = db_cursors db \<and> db_sessions db' = db_sessions db \<and> db_schedules db' = db_schedules db
   \<and> core_frame db db' \<and> (log_ok db \<longrightarrow> log_ok db')"
proof (induction en caller agent k cs db arbitrary: db' rule: provision_members.induct)
  case (2 en caller agent k c cs db)
  let ?m = "\<lparr>mb_channel = c, mb_principal = agent, mb_role = AgentRole, mb_state = MActive,
     mb_epoch = 1, mb_rejoinedSeq = getMaxChannelSeq db c,
     mb_joinedAt = en_clock en (1 + 2 * k), mb_removedAt = None\<rparr>"
  let ?db1 = "db\<lparr>db_members := db_members db @ [?m]\<rparr>"
  obtain ch db2 where ch: "channel_row db c = Some ch" and fresh: "member_row db c agent = None"
    and ev: "append_event (en_uuid en (1 + k)) c caller member_added (member_content c agent 1)
      (en_clock en (2 + 2 * k)) ?db1 = Some db2"
    and rest: "provision_members en caller agent (Suc k) cs db2 = Inr db'"
    using "2.prems" by (auto split: option.splits if_splits)
  have "channel_row ?db1 c \<noteq> None" using ch by (simp add: channel_row_def)
  then have ok: "log_ok db2" if "log_ok db"
    using that log_ok_new_member [OF that fresh, of ?m] max_seq [OF log_ok_parts(1) [OF that], of c]
    by (intro log_ok_append_event [OF _ _ ev]) (simp_all add: member_key_def)
  show ?case
    using "2.IH" [OF ch _ ev rest] fresh ok event_same(2) [OF ev] event_frame(2) [OF ev]
    by (auto simp: core_same_def frame_defs)
qed simp
definition provisioned_row :: "string \<Rightarrow> text_cp \<Rightarrow> string \<Rightarrow> PrincipalRow" where
  "provisioned_row agent name owner = \<lparr>pr_id = agent, pr_kind = AgentKind, pr_displayName = name,
     pr_owner = Some owner, pr_status = PSuspended, pr_authEpoch = 1, pr_revokedAt = None\<rparr>"

text \<open>The database the memberships start from, and what activation does to the one they end in.\<close>

definition provision_start :: "env \<Rightarrow> text_cp \<Rightarrow> profile_body \<Rightarrow> string \<Rightarrow> collab_db \<Rightarrow> collab_db" where
  "provision_start en name b owner db = set_profiles
     (\<lambda>t. t @ [stored_profile (en_uuid en 0) (b\<lparr>pb_autostart := False\<rparr>) (en_clock en 0) (en_clock en 0)])
     (db\<lparr>db_principals := db_principals db @ [provisioned_row (en_uuid en 0) name owner]\<rparr>)"

definition provision_finish :: "string \<Rightarrow> bool \<Rightarrow> string \<Rightarrow> collab_db \<Rightarrow> collab_db" where
  "provision_finish agent autostart activatedAt db =
     set_profiles (tbl_update (\<lambda>r. rp_agent r = agent)
       (\<lambda>r. r\<lparr>rp_autostart := autostart, rp_updatedAt := activatedAt\<rparr>))
       (db\<lparr>db_principals := tbl_update (\<lambda>r. pr_id r = agent \<and> pr_status r = PSuspended)
              (\<lambda>r. r\<lparr>pr_status := PActive\<rparr>) (db_principals db)\<rparr>)"

lemma provision_tx_cases:
  assumes "provision_tx en caller name b channels db = Inr (r, red, db')"
  obtains operator db1 where "getOperatorOrThrow db = Some operator"
    "principal_row db (en_uuid en 0) = None" "profile_row db (en_uuid en 0) = None"
    "provision_members en caller (en_uuid en 0) 0 channels (provision_start en name b (pr_id operator) db) = Inr db1"
    "db' = provision_finish (en_uuid en 0) (pb_autostart b) (en_clock en (1 + 2 * length channels)) db1"
    "r = ProvisionReply name (body_profile (en_uuid en 0) b (en_clock en 0) (en_clock en (1 + 2 * length channels))) channels"
  using assms
  by (auto simp: provision_tx_def Let_def provision_start_def provision_finish_def provisioned_row_def set_profiles_def
      split: option.splits if_splits sum.splits)

lemma log_ok_principals: "log_ok (db\<lparr>db_principals := x\<rparr>) = log_ok db"
  and log_ok_profiles: "log_ok (set_profiles f db) = log_ok db"
  by (simp_all add: log_ok_def contiguous_def channel_events_def channel_row_def set_profiles_def)

lemma provision_effects:
  assumes "provision_tx en caller name b channels db = Inr (r, red, db')"
  shows "log_ok db \<Longrightarrow> log_ok db'" and "events_grow db db'" and "db_turns db' = db_turns db"
    and "db_stops db' = db_stops db" and "db_personas db' = db_personas db" and "db_runs db' = db_runs db"
    and "db_sessions db' = db_sessions db" and "db_credentials db' = db_credentials db"
    and "db_rooms db' = db_rooms db"
proof -
  obtain operator :: PrincipalRow and db1 where mem: "provision_members en caller (en_uuid en 0) 0 channels
      (provision_start en name b (pr_id operator) db) = Inr db1"
    and db': "db' = provision_finish (en_uuid en 0) (pb_autostart b) (en_clock en (1 + 2 * length channels)) db1"
    by (rule provision_tx_cases [OF assms]) blast
  note f = provision_members_frame [OF mem]
  show "log_ok db'" if "log_ok db"
    using f that by (simp add: db' provision_start_def provision_finish_def log_ok_principals log_ok_profiles)
  show "events_grow db db'" "db_turns db' = db_turns db"
    "db_stops db' = db_stops db" "db_personas db' = db_personas db" "db_runs db' = db_runs db"
    "db_sessions db' = db_sessions db" "db_credentials db' = db_credentials db" "db_rooms db' = db_rooms db"
    using f by (simp_all add: db' provision_start_def provision_finish_def set_profiles_def frame_defs)
qed

lemma provision_step_cases:
  obtains (idle) "profile_step pf (Provision en caller name b channels key delegate) db = db"
  | (ran) name' b' cs r red db' m where "provision_tx en caller name' b' cs db = Inr (r, red, db')"
      "pb_autostart b' = pb_autostart b" "pb_account b' = local_account \<or> \<not> pb_autostart b' \<and> \<not> pb_confirmed b'"
      "profile_step pf (Provision en caller name b channels key delegate) db = db'\<lparr>db_results := db_results db' @ [m]\<rparr>"
proof -
  have keyed: "thesis" if "profile_step pf (Provision en caller name b channels key delegate) db
      = fst (runKeyedCommand pf caller cmd key body predicate (provision_tx en caller name' b' cs) db)"
    "pb_autostart b' = pb_autostart b" "pb_account b' = local_account \<or> \<not> pb_autostart b' \<and> \<not> pb_confirmed b'"
    for cmd body predicate name' b' cs
    by (rule runKeyedCommand_cases [of pf caller cmd key body predicate "provision_tx en caller name' b' cs" db])
       (use that idle ran in auto)
  have norm: "pb_autostart b' = pb_autostart b" if "normalize_profile b = Some b'" for b'
    using that by (auto simp: normalize_profile_def split: option.splits)
  show thesis
  proof (cases "profile_step pf (Provision en caller name b channels key delegate) db = db")
    case True
    then show thesis by (rule idle)
  next
    case False
    then obtain name' b' cs where n: "normalizeName (pf_nfc pf) name = Some name'" "normalize_profile b = Some b'"
      "those (map normalizeRuntimeIdentifier channels) = Some cs"
      by (auto simp: provisionAgent_def split: option.splits)
    have acc: "pb_account b' = local_account \<or> \<not> pb_autostart b' \<and> \<not> pb_confirmed b'"
      using False n by (simp add: provisionAgent_def Let_def split: if_splits)
    show thesis
      by (rule keyed [OF _ norm [OF n(2)] acc, where name' = name' and cs = "js_unique cs"
            and cmd = PROVISION_AGENT_CMD and predicate = "provision_predicate caller delegate (js_unique cs)"
            and body = "JObj ((cps ''displayName'', JStr name') # profile_members b'
              @ [(cps ''channelIds'', JArr (map (\<lambda>c. Some (JStr (cps c))) (js_unique cs)))])"])
         (use False n in \<open>auto simp: provisionAgent_def Let_def split: if_splits\<close>)
  qed
qed

subsection \<open>The invariants of the core along every history\<close>

lemma log_ok_same:
  "core_same db db' \<Longrightarrow> db_events db' = db_events db \<Longrightarrow> log_ok db \<Longrightarrow> log_ok db'"
  by (simp add: core_same_def log_ok_def contiguous_def channel_events_def channel_row_def)

lemma log_ok_edit: "edit_frame db db' \<Longrightarrow> log_ok db \<Longrightarrow> log_ok db'"
  unfolding edit_frame_def by (blast intro: log_ok_same)

lemma log_ok_turn: "log_ok db \<Longrightarrow> log_ok (turn_step pf op db)"
proof (cases "\<exists>en b. op = CommitTurn en b")
  case True
  assume ok: "log_ok db"
  obtain en b where op: "op = CommitTurn en b" using True by blast
  show ?thesis
  proof (rule commit_cases [of pf en b db])
    assume "fst (commitAgentTurnOutput pf en b db) = db"
    then show ?thesis using ok op by simp
  next
    fix b' x r db'
    assume tx: "commit_turn_tx pf en b' x db = Inr (r, db')" "\<not> cm_replayed r"
      and run: "commitAgentTurnOutput pf en b db = (db', Inr r)"
    from tx show ?thesis
    proof (cases rule: commit_tx_cases)
      case (fresh turn claimed db1)
      have "channel_row db (ci_channel b') \<noteq> None"
        using fresh(8) by (auto simp: turn_authorized_def split: option.splits)
      from log_ok_append_event [OF ok this fresh(9)]
      show ?thesis using op run fresh(13)
        by (auto intro: log_ok_same simp: core_same_def update_turns_def)
    qed simp
  qed
next
  case False
  assume "log_ok db"
  moreover have "db_events (turn_step pf op db) = db_events db"
  proof (cases op)
    case (ClaimTurn identity now)
    show ?thesis by (rule claim_cases [of pf identity now db]) (use ClaimTurn in \<open>simp_all add: update_turns_def\<close>)
  next
    case (ClaimBare busy identity now)
    show ?thesis by (rule claim_bare_cases [of pf busy identity now db]) (use ClaimBare in simp_all)
  next
    case (SetStop operator stop scope channelId now)
    then show ?thesis
      by (auto simp: handleSetAutoreplyStop_def setAutoreplyStop_def clearAutoreplyStop_def Let_def
          split: option.split StopScope.split if_splits)
  qed (use False in \<open>auto simp: attachDispatchRequestId_def resolveAgentTurn_def reclaimStrandedAgentTurn_def
      update_turns_def Let_def split: option.split\<close>)
  ultimately show ?thesis using turn_frame [of db pf op] by (blast intro: log_ok_same)
qed

lemma log_ok_store_step: "log_ok db \<Longrightarrow> log_ok (store_step pf op db)"
proof (cases op)
  case (Core o1)
  assume "log_ok db"
  then show ?thesis using Core by (simp add: log_ok_step)
next
  case (Turn o1)
  assume "log_ok db"
  then show ?thesis using Turn by (simp add: log_ok_turn)
next
  case (Cron o1)
  assume ok: "log_ok db"
  have "db_events (cron_step o1 db) = db_events db"
    by (cases o1)
       (auto simp: handleCreateSchedule_def createSchedule_def handleSetScheduleState_def setScheduleState_def
         claimScheduleFire_def recordScheduleRunDispatched_def attachScheduleRunDispatchRequestId_def
         resolveScheduleRun_def Let_def split: option.split)
  then show ?thesis using ok Cron cron_frame [of db o1] by (auto intro: log_ok_same)
next
  case (Job o1)
  assume ok: "log_ok db"
  show ?thesis by (rule job_step_frame [of pf o1 db]) (use ok Job in \<open>auto simp: log_ok_results\<close>)
next
  case (Profile o1)
  assume ok: "log_ok db"
  show ?thesis
  proof (cases o1)
    case (Provision en caller name b channels key delegate)
    show ?thesis
      by (rule provision_step_cases [of pf en caller name b channels key delegate db])
         (use ok Profile Provision provision_effects(1) in \<open>auto simp: log_ok_results\<close>)
  qed (use log_ok_edit [OF edit_step_frame(1) ok] log_ok_edit [OF edit_step_frame(2) ok]
      log_ok_edit [OF edit_step_frame(3) ok] Profile in \<open>simp_all only: store_step.simps\<close>)
qed

lemma log_ok_store: "log_ok db \<Longrightarrow> log_ok (fold (store_step pf) ops db)"
  by (induction ops arbitrary: db) (simp_all add: log_ok_store_step)

text \<open>
  C5. Gapless channel logs. After any history of channel, agent, session, turn, profile and schedule
  commands in any order from a bootstrapped database, the events of every channel are numbered 1, 2,
  and so on without gap or repetition in the order of their commits, no two active channels share a
  name key, and no rejoin point and no acknowledged cursor lies beyond the end of its channel's log.
\<close>

theorem store_log_gapless:
  "let db = fold (store_step pf) ops (fresh_db ps cs) in
     map ev_seq (channel_events db c) = [1..<Suc (length (channel_events db c))]
     \<and> distinct (map ch_nameKey (filter (\<lambda>r. ch_state r = ChActive) (db_channels db)))
     \<and> list_all (\<lambda>m. mb_rejoinedSeq m \<le> getMaxChannelSeq db (mb_channel m)) (db_members db)
     \<and> list_all (\<lambda>r. cu_ack r \<le> getMaxChannelSeq db (cu_channel r)) (db_cursors db)"
  unfolding Let_def by (intro log_facts log_ok_store log_ok_fresh)

subsection \<open>Roles along every history\<close>

text \<open>The part of \<open>auth_step\<close> that does not speak of schedules, which an operator may resume.\<close>

definition role_step :: "collab_db \<Rightarrow> collab_db \<Rightarrow> bool" where
  "role_step db db' \<longleftrightarrow> ids_ok db' \<and> keeps_rows db db' \<and> keeps_bindings db db'
     \<and> (\<forall>p. operator_keyed db p \<longrightarrow> operator_keyed db' p)
     \<and> (\<forall>p. revoked_keyless db p \<longrightarrow> revoked_keyless db' p)"

lemma auth_role: "auth_step db db' \<Longrightarrow> role_step db db'"
  by (simp add: auth_step_def role_step_def)

lemma role_step_ids: "role_step db db' \<Longrightarrow> ids_ok db'"
  by (simp add: role_step_def)

lemma role_step_trans: "role_step a b \<Longrightarrow> role_step b c \<Longrightarrow> role_step a c"
  unfolding role_step_def keeps_rows_def keeps_bindings_def
  by (meson row_step_trans binding_step_trans)

lemma same_role:
  assumes "ids_ok db" and "core_same db db'"
  shows "role_step db db'"
  using assms by (simp add: core_same_def role_step_def keeps_rows_def keeps_bindings_def ids_ok_def principal_row_def
      getSessionBinding_def operator_keyed_def revoked_keyless_def countActiveCredentials_def)

lemma role_step_row:
  "role_step db db' \<Longrightarrow> principal_row db p = Some r \<Longrightarrow> \<exists>r'. principal_row db' p = Some r' \<and> row_step r r'"
  by (simp add: role_step_def keeps_rows_def)

lemma role_provision:
  assumes "ids_ok db" and "provision_tx en caller name b channels db = Inr (r, red, db')"
  shows "role_step db db'"
proof -
  obtain operator :: PrincipalRow and db1 where op: "getOperatorOrThrow db = Some operator"
    and new: "principal_row db (en_uuid en 0) = None"
    and mem: "provision_members en caller (en_uuid en 0) 0 channels
      (provision_start en name b (pr_id operator) db) = Inr db1"
    and db': "db' = provision_finish (en_uuid en 0) (pb_autostart b) (en_clock en (1 + 2 * length channels)) db1"
    by (rule provision_tx_cases [OF assms(2)]) blast
  let ?row = "provisioned_row (en_uuid en 0) name (pr_id operator)"
  have 1: "role_step db (db\<lparr>db_principals := db_principals db @ [?row]\<rparr>)"
    using new by (intro auth_role new_principal_step assms(1)) (simp add: provisioned_row_def)
  have 2: "role_step (db\<lparr>db_principals := db_principals db @ [?row]\<rparr>) (provision_start en name b (pr_id operator) db)"
    using role_step_ids [OF 1] by (intro same_role) (simp_all add: provision_start_def set_profiles_def core_same_def)
  have 3: "role_step (provision_start en name b (pr_id operator) db) db1"
    using role_step_ids [OF 2] provision_members_frame [OF mem]
    by (simp add: role_step_def keeps_rows_def keeps_bindings_def ids_ok_def principal_row_def
      getSessionBinding_def operator_keyed_def revoked_keyless_def countActiveCredentials_def)
  let ?f = "\<lambda>r. if pr_status r = PSuspended then r\<lparr>pr_status := PActive\<rparr> else r"
  have act: "db_principals (set_principal (en_uuid en 0) ?f db1)
      = tbl_update (\<lambda>r. pr_id r = en_uuid en 0 \<and> pr_status r = PSuspended) (\<lambda>r. r\<lparr>pr_status := PActive\<rparr>) (db_principals db1)"
    by (auto simp: set_principal_def tbl_update_def)
  have row: "principal_row db1 (en_uuid en 0) = Some ?row"
    using new provision_members_frame [OF mem]
    by (simp add: principal_row_def provision_start_def set_profiles_def tbl_get_snoc) (simp add: provisioned_row_def)
  have 4: "role_step db1 (set_principal (en_uuid en 0) ?f db1)"
    by (intro auth_role principal_step role_step_ids [OF 3]) (use row in \<open>auto simp: provisioned_row_def\<close>)
  have 5: "role_step (set_principal (en_uuid en 0) ?f db1) db'"
    using role_step_ids [OF 4] act
    by (intro same_role) (simp_all add: db' provision_finish_def set_profiles_def core_same_def, simp add: set_principal_def)
  show ?thesis by (intro role_step_trans [OF 1] role_step_trans [OF 2] role_step_trans [OF 3] role_step_trans [OF 4] 5)
qed

lemma role_store_step: "ids_ok db \<Longrightarrow> role_step db (store_step pf op db)"
proof (cases op)
  case (Core o1)
  assume "ids_ok db"
  then show ?thesis using Core auth_role [OF auth_collab_step] by simp
next
  case (Turn o1)
  assume "ids_ok db"
  then show ?thesis using Turn turn_frame [of db pf o1] same_role by auto
next
  case (Cron o1)
  assume "ids_ok db"
  then show ?thesis using Cron cron_frame [of db o1] same_role by auto
next
  case (Job o1)
  assume "ids_ok db"
  then show ?thesis using Job job_frame [of db pf o1] same_role by auto
next
  case (Profile o1)
  assume ok: "ids_ok db"
  have edit: "role_step db d" if "edit_frame db d" for d
    using that ok by (auto simp: edit_frame_def intro: same_role)
  show ?thesis
  proof (cases o1)
    case (Provision en caller name b channels key delegate)
    have stored: "role_step db' (db'\<lparr>db_results := x\<rparr>)" if "ids_ok db'" for db' x
      using that by (rule same_role) (simp add: core_same_def)
    show ?thesis
    proof (rule provision_step_cases [of pf en caller name b channels key delegate db])
      assume "profile_step pf (Provision en caller name b channels key delegate) db = db"
      then show ?thesis using Profile Provision ok same_role [OF ok core_same_refl] by simp
    next
      fix name' b' cs r red db' m
      assume "provision_tx en caller name' b' cs db = Inr (r, red, db')"
        and run: "profile_step pf (Provision en caller name b channels key delegate) db = db'\<lparr>db_results := db_results db' @ [m]\<rparr>"
      from role_provision [OF ok this(1)] show ?thesis
        using Profile Provision run by (auto intro: role_step_trans stored role_step_ids)
    qed
  qed (use edit [OF edit_step_frame(1)] edit [OF edit_step_frame(2)] edit [OF edit_step_frame(3)]
      Profile in \<open>simp_all only: store_step.simps\<close>)
qed

lemma role_store: "ids_ok db \<Longrightarrow> role_step db (fold (store_step pf) ops db)"
proof (induction ops arbitrary: db)
  case Nil
  then show ?case by (simp add: same_role)
next
  case (Cons op ops)
  from role_step_trans [OF role_store_step [OF Cons.prems] Cons.IH [OF role_step_ids [OF role_store_step [OF Cons.prems]]]]
  show ?case by simp
qed

lemma revoked_stays:
  assumes "ids_ok db" and "principal_row db p = Some r" and "pr_status r = PRevoked"
  shows "principal_row (fold (store_step pf) ops db) p = Some r"
  using role_step_row [OF role_store [OF assms(1)] assms(2), of pf ops] assms(3) by (auto simp: row_step_def)

subsection \<open>Channel logs only grow\<close>

lemma store_events_grow: "events_grow db (store_step pf op db)"
proof (cases op)
  case (Core o1)
  then show ?thesis using collab_step_frame [of db pf o1] by (simp add: core_frame_def)
next
  case (Turn o1)
  then show ?thesis using turn_frame [of db pf o1] by simp
next
  case (Cron o1)
  then show ?thesis using cron_frame [of db o1] by simp
next
  case (Job o1)
  then show ?thesis using job_frame [of db pf o1] by simp
next
  case (Profile o1)
  show ?thesis
  proof (cases o1)
    case (Provision en caller name b channels key delegate)
    show ?thesis
      by (rule provision_step_cases [of pf en caller name b channels key delegate db])
         (use Profile Provision provision_effects(2) in \<open>auto simp: events_grow_def\<close>)
  qed (use edit_step_frame Profile in \<open>auto simp: edit_frame_def events_grow_def simp del: profile_step.simps\<close>)
qed

text \<open>A body whose members all have a canonical form has a digest.\<close>

lemma members_hashed:
  assumes "list_all (\<lambda>m. \<exists>p. canonicalJson (snd m) = Inr p) ms"
  shows "\<exists>h. requestHash pf (JObj ms) = Some h"
proof -
  let ?part = "\<lambda>(k, v). if v = JUndefined \<or> v = JFunction \<or> v = JSymbol then Inl (BadMember k)
     else case canonicalJson v of Inl e \<Rightarrow> Inl e | Inr p \<Rightarrow> Inr (serializeString k @ [58] @ p)"
  have "\<forall>p \<in> set (map ?part (sortByCodePoint ms)). \<exists>s. p = Inr s"
    using assms by (fastforce simp: list_all_iff)
  then obtain qs where "seq_parts (map ?part (sortByCodePoint ms)) = Inr qs" using seq_parts_ok by blast
  then show ?thesis by (simp add: requestHash_def)
qed

end
