(* ===== verification/Collab_Participation.thy ===== *)
theory Collab_Participation
  imports Collab_World
begin

text \<open>
  What agent participation guarantees over every history of the store: a turn posts once, its output
  traces back to its claim, STOP, revocation and a newer lease silence it, and an agent that runs
  outside the machine does so under consent for the persona it has now.
\<close>

subsection \<open>How a turn may change\<close>

text \<open>A resolved turn never changes; an open one keeps its trigger and its persona.\<close>

definition turn_evolves :: "TurnRow \<Rightarrow> TurnRow \<Rightarrow> bool" where
  "turn_evolves t t' \<longleftrightarrow> turn_key t' = turn_key t \<and> tu_trigger t' = tu_trigger t \<and> tu_persona t' = tu_persona t
     \<and> (tu_state t \<noteq> TurnDispatched \<longrightarrow> t' = t)"

lemma turn_evolves_refl [simp]: "turn_evolves t t"
  by (simp add: turn_evolves_def)

lemma turn_evolves_trans: "turn_evolves a b \<Longrightarrow> turn_evolves b c \<Longrightarrow> turn_evolves a c"
  by (auto simp: turn_evolves_def)

text \<open>The turn tables of two states: the old rows evolved in place, then new open rows.\<close>

definition new_turn :: "platform \<Rightarrow> collab_db \<Rightarrow> TurnRow \<Rightarrow> bool" where
  "new_turn pf db t \<longleftrightarrow> turn_row db (turn_key t) = None \<and> tu_output t = None \<and> tu_state t = TurnDispatched
     \<and> tu_request t = None \<and> tu_lease t = None
     \<and> (tu_persona t = no_persona
          \<or> (\<exists>directives revision e. mintPersonaEnvelope pf directives revision = Inr e \<and> tu_persona t = envelope_fields e))"

text \<open>One step on the turn table: an update of open rows that binds no output, or one new row.\<close>

definition plain_update :: "(TurnRow \<Rightarrow> bool) \<Rightarrow> (TurnRow \<Rightarrow> TurnRow) \<Rightarrow> bool" where
  "plain_update P f \<longleftrightarrow> (\<forall>t. turn_evolves t (if P t then f t else t) \<and> tu_output (f t) = tu_output t)"

definition plain_step :: "platform \<Rightarrow> collab_db \<Rightarrow> collab_db \<Rightarrow> bool" where
  "plain_step pf db db' \<longleftrightarrow>
     (\<exists>P f. plain_update P f \<and> db_turns db' = tbl_update P f (db_turns db))
     \<or> (\<exists>t. new_turn pf db t \<and> db_turns db' = db_turns db @ [t])"

lemma plain_refl: "db_turns db' = db_turns db \<Longrightarrow> plain_step pf db db'"
  unfolding plain_step_def
  by (intro disjI1 exI [of _ "\<lambda>_. False"] exI [of _ id]) (simp add: plain_update_def tbl_update_def)

definition is_commit :: "turn_op \<Rightarrow> bool" where
  "is_commit op \<longleftrightarrow> (case op of CommitTurn en b \<Rightarrow> True | _ \<Rightarrow> False)"

lemma plain_updateI:
  assumes "plain_update P f" and "db' = update_turns P f db"
  shows "plain_step pf db db'"
  unfolding plain_step_def using assms by (intro disjI1 exI [of _ P] exI [of _ f]) (simp add: update_turns_def)

lemma plain_turn_step: "\<not> is_commit op \<Longrightarrow> plain_step pf db (turn_step pf op db)"
proof (cases op)
  case (ClaimTurn identity now)
  show ?thesis
  proof (rule claim_cases [of pf identity now db])
    fix i assume "fst (claimAgentTurn pf identity now db)
      = update_turns (turn_is i) (\<lambda>t. t\<lparr>tu_state := TurnTerminated, tu_resolved := True\<rparr>) db"
    then show ?thesis using ClaimTurn
      by (intro plain_updateI) (simp_all add: plain_update_def turn_evolves_def turn_is_def turn_key_def)
  next
    fix i trigger e directives revision
    assume "fst (claimAgentTurn pf identity now db) = db\<lparr>db_turns := db_turns db @ [fresh_turn i trigger now (envelope_fields e)]\<rparr>"
      and "turn_row db i = None" and "mintPersonaEnvelope pf directives revision = Inr e"
    then show ?thesis using ClaimTurn unfolding plain_step_def new_turn_def
      by (intro disjI2 exI [of _ "fresh_turn i trigger now (envelope_fields e)"])
         (cases i, auto simp: fresh_turn_def turn_key_def)
  qed (use ClaimTurn in \<open>simp add: plain_refl\<close>)
next
  case (ClaimBare busy identity now)
  show ?thesis
  proof (rule claim_bare_cases [of pf busy identity now db])
    fix i trigger
    assume "turn_step pf (ClaimBare busy identity now) db = db\<lparr>db_turns := db_turns db @ [fresh_turn i trigger now no_persona]\<rparr>"
      and "turn_row db i = None"
    then show ?thesis using ClaimBare unfolding plain_step_def new_turn_def
      by (intro disjI2 exI [of _ "fresh_turn i trigger now no_persona"]) (cases i, simp add: fresh_turn_def turn_key_def)
  qed (use ClaimBare in \<open>simp add: plain_refl\<close>)
next
  case (AttachRequest i request)
  then show ?thesis
    by (intro plain_updateI [of "turn_is i" "\<lambda>t. t\<lparr>tu_request := Some request\<rparr>"])
       (simp_all add: attachDispatchRequestId_def plain_update_def turn_evolves_def turn_is_def turn_key_def)
next
  case (ResolveTurn i outcome lease remark)
  then show ?thesis
    by (cases "outcome = TurnDispatched")
       (simp_all add: plain_refl, intro plain_updateI [of "resolvable i lease"
          "\<lambda>t. t\<lparr>tu_state := outcome, tu_resolved := True, tu_note := remark\<rparr>"],
        simp_all add: resolveAgentTurn_def plain_update_def turn_evolves_def resolvable_def turn_is_def turn_key_def)
next
  case (ReclaimTurn i now expected lease)
  show ?thesis
  proof (cases expected)
    case None
    then show ?thesis using ReclaimTurn by (simp add: reclaimStrandedAgentTurn_def plain_refl)
  next
    case (Some seen)
    then show ?thesis using ReclaimTurn
      by (intro plain_updateI [of "\<lambda>t. turn_is i t \<and> tu_dispatchedAt t = seen"
            "\<lambda>t. t\<lparr>tu_dispatchedAt := now, tu_attempt := tu_attempt t + 1, tu_lease := Some lease\<rparr>"])
         (simp_all add: reclaimStrandedAgentTurn_def Let_def plain_update_def turn_evolves_def turn_is_def turn_key_def)
  qed
next
  case (SetStop operator stop scope channelId now)
  then have "db_turns (turn_step pf op db) = db_turns db"
    by (auto simp: handleSetAutoreplyStop_def setAutoreplyStop_def clearAutoreplyStop_def Let_def
        split: option.split StopScope.split if_splits)
  then show ?thesis by (rule plain_refl)
qed (simp add: is_commit_def)

lemma plain_store_step: "(\<And>en b. op \<noteq> Turn (CommitTurn en b)) \<Longrightarrow> plain_step pf db (store_step pf op db)"
proof (cases op)
  case (Core o1)
  then show ?thesis using collab_step_frame [of db pf o1]
    by (intro plain_refl) (simp add: core_frame_def participation_same_def)
next
  case (Turn o1)
  assume "\<And>en b. op \<noteq> Turn (CommitTurn en b)"
  then show ?thesis using Turn plain_turn_step [of o1 pf db] by (auto simp: is_commit_def split: turn_op.splits)
next
  case (Cron o1)
  then show ?thesis using cron_frame [of db o1] by (intro plain_refl) simp
next
  case (Job o1)
  then show ?thesis using job_frame [of db pf o1] by (intro plain_refl) simp
next
  case (Profile o1)
  show ?thesis
  proof (cases o1)
    case (Provision en caller name b channels key delegate)
    show ?thesis
      by (rule provision_step_cases [of pf en caller name b channels key delegate db])
         (use Profile Provision in \<open>auto intro!: plain_refl dest: provision_effects(3)\<close>)
  qed (use edit_step_frame Profile in \<open>auto intro!: plain_refl simp: edit_frame_def simp del: profile_step.simps\<close>)
qed

subsection \<open>Well-formed turns\<close>

definition outputs_of :: "(turn_id \<Rightarrow> bool) \<Rightarrow> collab_db \<Rightarrow> (turn_id \<times> (string \<times> OutputKind) option) list" where
  "outputs_of K db = map (\<lambda>t. (turn_key t, tu_output t))
     (filter (\<lambda>t. K (turn_key t) \<and> tu_output t \<noteq> None) (db_turns db))"

text \<open>A bound output is a message of the turn's agent in the turn's channel, and of no other turn.\<close>

definition output_event :: "TurnRow \<Rightarrow> EventRow \<Rightarrow> bool" where
  "output_event t e \<longleftrightarrow> map_option fst (tu_output t) = Some (EventRow.ev_id e) \<and> ev_channel e = tu_channel t
     \<and> EventRow.ev_actor e = tu_agent t \<and> EventRow.ev_kind e = message_posted"

definition turns_ok :: "collab_db \<Rightarrow> bool" where
  "turns_ok db \<longleftrightarrow> key_unique turn_key (db_turns db)
     \<and> distinct (List.map_filter (\<lambda>t. map_option fst (tu_output t)) (db_turns db))
     \<and> (\<forall>t \<in> set (db_turns db). tu_output t \<noteq> None \<longrightarrow>
          tu_state t = TurnCompleted \<and> (\<exists>e \<in> set (db_events db). output_event t e))"

lemma map_filter_append: "List.map_filter g (us @ ts) = List.map_filter g us @ List.map_filter g ts"
  by (simp add: List.map_filter_def)

lemma map_filter_same:
  "(\<And>t. g (f t) = g t) \<Longrightarrow> List.map_filter g (tbl_update P f ts) = List.map_filter g ts"
  by (induction ts) (auto simp: map_filter_simps tbl_update_def split: option.split)

lemma plain_turns_ok:
  assumes "turns_ok db" and "plain_step pf db db'" and "events_grow db db'"
  shows "turns_ok db'"
proof -
  have grow: "set (db_events db) \<subseteq> set (db_events db')" using assms(3) by (auto simp: events_grow_def)
  consider (update) P f where "plain_update P f" "db_turns db' = tbl_update P f (db_turns db)"
    | (new) t where "new_turn pf db t" "db_turns db' = db_turns db @ [t]"
    using assms(2) by (auto simp: plain_step_def)
  then show ?thesis
  proof cases
    case update
    have out: "tu_output (if P t then f t else t) = tu_output t" and key: "turn_key (if P t then f t else t) = turn_key t" for t
      using update(1) by (auto simp: plain_update_def turn_evolves_def)
    let ?g = "\<lambda>t. if P t then f t else t"
    have turns: "db_turns db' = tbl_update (\<lambda>_. True) ?g (db_turns db)" using update(2) by (simp add: tbl_update_def)
    have "key_unique turn_key (db_turns db')"
      unfolding turns using assms(1) key by (intro key_unique_update) (simp_all add: turns_ok_def)
    moreover have "distinct (List.map_filter (\<lambda>t. map_option fst (tu_output t)) (db_turns db'))"
      unfolding turns using assms(1) out by (subst map_filter_same) (simp_all add: turns_ok_def)
    moreover have "tu_state u = TurnCompleted \<and> (\<exists>e \<in> set (db_events db'). output_event u e)"
      if u: "u \<in> set (db_turns db')" "tu_output u \<noteq> None" for u
    proof -
      obtain t where t: "t \<in> set (db_turns db)" "u = ?g t"
        using u(1) unfolding update(2) by (rule in_tbl_update)
      have e: "tu_state t = TurnCompleted" "\<exists>e \<in> set (db_events db). output_event t e"
        using assms(1) t(1) u(2) out [of t] unfolding t(2) turns_ok_def by auto
      have "u = t" using update(1) e(1) t(2) by (auto simp: plain_update_def turn_evolves_def split: if_splits)
      with e grow show ?thesis by (auto simp: output_event_def)
    qed
    ultimately show ?thesis by (simp add: turns_ok_def)
  next
    case new
    have "\<forall>u \<in> set (db_turns db). turn_key u \<noteq> turn_key t"
      using new(1) by (simp add: new_turn_def turn_row_def tbl_get_None)
    moreover have "tu_state u = TurnCompleted \<and> (\<exists>e \<in> set (db_events db'). output_event u e)"
      if u: "u \<in> set (db_turns db')" "tu_output u \<noteq> None" for u
    proof -
      have "u \<in> set (db_turns db)" using u new by (auto simp: new_turn_def)
      with assms(1) u(2) grow show ?thesis unfolding turns_ok_def by blast
    qed
    ultimately show ?thesis using new assms(1)
      by (simp add: turns_ok_def new_turn_def map_filter_append map_filter_simps key_unique_append)
  qed
qed

lemma turn_row_entry:
  "turn_row db i = Some t \<Longrightarrow> t \<in> set (db_turns db) \<and> turn_key t = i"
  unfolding turn_row_def by (rule tbl_get_Some)

text \<open>What a fresh commit does to the turn table: exactly one row, the one named, is bound.\<close>

lemma commit_row:
  assumes "key_unique turn_key ts" and "t \<in> set ts" and "output_hit i q l t"
  shows "tbl_update (output_hit i q l) f ts = tbl_update (\<lambda>u. turn_key u = i) f ts"
proof -
  have "output_hit i q l u = (turn_key u = i)" if "u \<in> set ts" for u
    using key_unique_eq [OF assms(1) that assms(2)] assms(3) by (auto simp: output_hit_def turn_is_def)
  then show ?thesis by (auto simp: tbl_update_def)
qed

lemma fresh_commit_turns:
  assumes "turns_ok db" and "commit_turn_tx pf en b x db = Inr (r, db')" and "\<not> cm_replayed r"
  obtains e where "db_turns db' = tbl_update (\<lambda>t. turn_key t = commit_id b) (bind_output (en_uuid en 0) (ci_kind b)) (db_turns db)"
    "db_events db' = db_events db @ [e]" "EventRow.ev_id e = en_uuid en 0" "ev_channel e = ci_channel b"
    "EventRow.ev_actor e = ci_agent b" "EventRow.ev_kind e = message_posted"
    "ev_seq e = getMaxChannelSeq db (ci_channel b) + 1" "ev_content e = message_content (ci_channel b) (ci_text b)"
    "\<not> list_ex (\<lambda>t. map_option fst (tu_output t) = Some (en_uuid en 0)) (db_turns db)"
    "core_same db db' \<and> db_stops db' = db_stops db \<and> profiles_same db db'"
proof -
  from assms(2,3) show thesis
  proof (cases rule: commit_tx_cases)
    case (fresh turn claimed db1)
    obtain e where e: "EventRow.ev_id e = en_uuid en 0" "ev_channel e = ci_channel b"
      "ev_seq e = getMaxChannelSeq db (ci_channel b) + 1" "EventRow.ev_actor e = ci_agent b"
      "EventRow.ev_kind e = message_posted" "db1 = db\<lparr>db_events := db_events db @ [e]\<rparr>"
      using insert_event_Some [OF fresh(9) [unfolded append_event_def]] by blast
    have "db_events db1 = db_events db @ [\<lparr>EventRow.ev_id = en_uuid en 0, ev_channel = ci_channel b,
        ev_seq = getMaxChannelSeq db (ci_channel b) + 1, EventRow.ev_actor = ci_agent b, EventRow.ev_kind = message_posted,
        ev_content = message_content (ci_channel b) (ci_text b), ev_createdAt = en_clock en 0\<rparr>]"
      using fresh(9) by (auto simp: append_event_def insert_event_def split: if_splits)
    with e(6) have content: "ev_content e = message_content (ci_channel b) (ci_text b)" by simp
    have t: "turn \<in> set (db_turns db)" "turn_key turn = commit_id b" using turn_row_entry [OF fresh(1)] by auto
    have hit: "output_hit (commit_id b) (ci_request b) (ci_lease b) turn"
      using fresh(2-5) t(2) by (simp add: output_hit_def turn_is_def)
    have uniq: "key_unique turn_key (db_turns db)" using assms(1) by (simp add: turns_ok_def)
    show thesis
      using e content fresh(10,13) commit_row [OF uniq t(1) hit]
      by (intro that [of e]) (simp_all add: update_turns_def same_defs)
  qed simp
qed

lemma map_filter_bind:
  assumes "key_unique turn_key ts" and "t \<in> set ts" and "turn_key t = i" and "tu_output t = None"
    and "\<not> list_ex (\<lambda>t. map_option fst (tu_output t) = Some e) ts"
    and "distinct (List.map_filter (\<lambda>t. map_option fst (tu_output t)) ts)"
  shows "distinct (List.map_filter (\<lambda>t. map_option fst (tu_output t)) (tbl_update (\<lambda>t. turn_key t = i) (bind_output e k) ts))"
proof -
  let ?out = "List.map_filter (\<lambda>t. map_option fst (tu_output t))"
  have bound: "tu_output (bind_output e k u) = Some (e, k)" for u by (simp add: bind_output_def)
  have sub: "set (?out (tbl_update (\<lambda>t. turn_key t = i) (bind_output e k) us)) \<subseteq> insert e (set (?out us))" for us
    by (induction us) (auto simp: tbl_update_def map_filter_simps bound split: option.split)
  have none: "?out (tbl_update (\<lambda>t. turn_key t = i) (bind_output e k) us) = ?out us"
    if "\<forall>u \<in> set us. turn_key u \<noteq> i" for us
    using that by (induction us) (auto simp: tbl_update_def map_filter_simps split: option.split)
  obtain us vs where ts: "ts = us @ t # vs" using assms(2) by (auto simp: in_set_conv_decomp)
  have no: "\<forall>u \<in> set us. turn_key u \<noteq> i" "\<forall>u \<in> set vs. turn_key u \<noteq> i"
    using assms(1,3) unfolding ts key_unique_def by (auto simp: image_iff)
  have "e \<notin> set (?out ts)"
    using assms(5) by (auto simp: list_ex_iff map_filter_def)
  then show ?thesis
    using assms(3,4,6) none [OF no(1)] none [OF no(2)] unfolding ts
    by (auto simp: tbl_update_def map_filter_append map_filter_simps bound)
qed

lemma fresh_commit_turns_ok:
  assumes "turns_ok db" and "commit_turn_tx pf en b x db = Inr (r, db')" and "\<not> cm_replayed r"
  shows "turns_ok db'"
proof -
  obtain e where turns: "db_turns db' = tbl_update (\<lambda>t. turn_key t = commit_id b) (bind_output (en_uuid en 0) (ci_kind b)) (db_turns db)"
    and events: "db_events db' = db_events db @ [e]"
    and e: "EventRow.ev_id e = en_uuid en 0" "ev_channel e = ci_channel b"
      "EventRow.ev_actor e = ci_agent b" "EventRow.ev_kind e = message_posted"
    and new: "\<not> list_ex (\<lambda>t. map_option fst (tu_output t) = Some (en_uuid en 0)) (db_turns db)"
    by (rule fresh_commit_turns [OF assms]) blast
  obtain turn where row: "turn_row db (commit_id b) = Some turn" and none: "tu_output turn = None"
    using assms(2,3) by (cases rule: commit_tx_cases) auto
  note ok = assms(1) [unfolded turns_ok_def]
  note t = turn_row_entry [OF row]
  have key: "turn_key (bind_output e k u) = turn_key u" for e k u by (simp add: bind_output_def turn_key_def)
  have "key_unique turn_key (db_turns db')" unfolding turns using ok key by (intro key_unique_update) simp_all
  moreover have "distinct (List.map_filter (\<lambda>t. map_option fst (tu_output t)) (db_turns db'))"
    unfolding turns using ok t none new by (intro map_filter_bind [of _ turn]) simp_all
  moreover have "tu_state u = TurnCompleted \<and> (\<exists>e \<in> set (db_events db'). output_event u e)"
    if u: "u \<in> set (db_turns db')" "tu_output u \<noteq> None" for u
  proof -
    obtain u0 where u0: "u0 \<in> set (db_turns db)"
      "u = (if turn_key u0 = commit_id b then bind_output (en_uuid en 0) (ci_kind b) u0 else u0)"
      using u(1) unfolding turns by (rule in_tbl_update)
    show ?thesis
    proof (cases "turn_key u0 = commit_id b")
      case True
      then show ?thesis using u0(2) e events
        by (auto simp: bind_output_def output_event_def turn_key_def commit_id_def)
    next
      case False
      with u0 u(2) ok events show ?thesis by (auto simp: output_event_def)
    qed
  qed
  ultimately show ?thesis by (simp add: turns_ok_def)
qed

lemma commit_turns_ok: "turns_ok db \<Longrightarrow> turns_ok (fst (commitAgentTurnOutput pf en b db))"
  by (rule commit_cases [of pf en b db]) (auto dest: fresh_commit_turns_ok)

lemma turns_ok_step: "turns_ok db \<Longrightarrow> turns_ok (store_step pf op db)"
proof (cases "\<exists>en b. op = Turn (CommitTurn en b)")
  case True
  assume "turns_ok db"
  then show ?thesis using True commit_turns_ok by auto
next
  case False
  assume "turns_ok db"
  then show ?thesis using False by (intro plain_turns_ok [OF _ plain_store_step store_events_grow]) auto
qed

lemma turns_ok_store: "turns_ok db \<Longrightarrow> turns_ok (fold (store_step pf) ops db)"
  by (induction ops arbitrary: db) (simp_all add: turns_ok_step)
subsection \<open>Every step evolves every turn\<close>

lemma turn_row_update:
  "(\<And>t. turn_key (f t) = turn_key t) \<Longrightarrow> db_turns db' = tbl_update P f (db_turns db) \<Longrightarrow>
   turn_row db' i = map_option (\<lambda>t. if P t then f t else t) (turn_row db i)"
  by (simp add: turn_row_def tbl_get_tbl_update)

lemma plain_row:
  assumes "plain_step pf db db'" and "turn_row db i = Some t"
  shows "\<exists>t'. turn_row db' i = Some t' \<and> turn_evolves t t' \<and> tu_output t' = tu_output t"
proof -
  consider (update) P f where "plain_update P f" "db_turns db' = tbl_update P f (db_turns db)"
    | (new) u where "new_turn pf db u" "db_turns db' = db_turns db @ [u]"
    using assms(1) by (auto simp: plain_step_def)
  then show ?thesis
  proof cases
    case update
    let ?g = "\<lambda>t. if P t then f t else t"
    have turns: "db_turns db' = tbl_update (\<lambda>_. True) ?g (db_turns db)" using update(2) by (simp add: tbl_update_def)
    have ev: "turn_evolves u (?g u)" "tu_output (?g u) = tu_output u" for u
      using update(1) by (auto simp: plain_update_def)
    have "turn_row db' i = Some (?g t)"
      using turn_row_update [OF _ turns, of i] ev(1) assms(2) by (simp add: turn_evolves_def)
    then show ?thesis using ev by blast
  next
    case new
    then show ?thesis using assms(2) by (simp add: turn_row_def tbl_get_snoc)
  qed
qed

lemma bind_key: "turn_key (bind_output e k t) = turn_key t"
  by (simp add: bind_output_def turn_key_def)

lemma commit_row_evolves:
  assumes "turns_ok db" and "commit_turn_tx pf en b x db = Inr (r, db')" and "\<not> cm_replayed r"
    and "turn_row db i = Some t"
  shows "turn_row db' i = Some (if i = commit_id b then bind_output (en_uuid en 0) (ci_kind b) t else t)"
    and "i = commit_id b \<Longrightarrow> tu_output t = None \<and> tu_state t = TurnDispatched"
proof -
  obtain e where turns: "db_turns db' = tbl_update (\<lambda>t. turn_key t = commit_id b) (bind_output (en_uuid en 0) (ci_kind b)) (db_turns db)"
    by (rule fresh_commit_turns [OF assms(1-3)]) blast
  show "turn_row db' i = Some (if i = commit_id b then bind_output (en_uuid en 0) (ci_kind b) t else t)"
    using turn_row_update [OF bind_key turns, of i] assms(4) turn_row_entry [OF assms(4)] by simp
  show "tu_output t = None \<and> tu_state t = TurnDispatched" if "i = commit_id b"
    using assms(2,3) by (cases rule: commit_tx_cases) (use that assms(4) in auto)
qed

text \<open>A step that commits a new output for a turn, no replay.\<close>

definition normalized_id :: "CommitAgentTurnOutputInput \<Rightarrow> turn_id option" where
  "normalized_id b = map_option (\<lambda>a. (ci_channel b, a, ci_seq b)) (normalizeRuntimeIdentifier (ci_agent b))"

definition fresh_output :: "platform \<Rightarrow> turn_id \<Rightarrow> store_op \<Rightarrow> collab_db \<Rightarrow> bool" where
  "fresh_output pf i op db =
     (case op of
        Turn (CommitTurn en b) \<Rightarrow>
          (case snd (commitAgentTurnOutput pf en b db) of
             Inl e \<Rightarrow> False | Inr r \<Rightarrow> \<not> cm_replayed r \<and> normalized_id b = Some i)
      | _ \<Rightarrow> False)"

lemma commit_not_plain:
  obtains (plain) "plain_step pf db (store_step pf op db)" "\<And>i. \<not> fresh_output pf i op db"
  | (commit) en b b' x r db' where "op = Turn (CommitTurn en b)" "commit_turn_tx pf en b' x db = Inr (r, db')"
      "\<not> cm_replayed r" "store_step pf op db = db'" "commitAgentTurnOutput pf en b db = (db', Inr r)"
      "ci_channel b' = ci_channel b" "ci_seq b' = ci_seq b"
      "normalizeRuntimeIdentifier (ci_agent b) = Some (ci_agent b')" "ci_kind b' = ci_kind b"
proof (cases "\<exists>en b. op = Turn (CommitTurn en b)")
  case True
  then obtain en b where op: "op = Turn (CommitTurn en b)" by blast
  show thesis
  proof (rule commit_cases [of pf en b db])
    assume idle: "fst (commitAgentTurnOutput pf en b db) = db"
      and replay: "\<And>r. snd (commitAgentTurnOutput pf en b db) = Inr r \<Longrightarrow> cm_replayed r"
    show thesis
    proof (rule plain)
      show "plain_step pf db (store_step pf op db)" using idle op by (simp add: plain_refl)
      show "\<not> fresh_output pf i op db" for i
        using replay op by (auto simp: fresh_output_def split: sum.split)
    qed
  qed (use op commit in auto)
next
  case False
  show thesis
  proof (rule plain)
    show "plain_step pf db (store_step pf op db)" by (rule plain_store_step) (use False in blast)
    show "\<not> fresh_output pf i op db" for i
      using False by (auto simp: fresh_output_def split: store_op.split turn_op.split)
  qed
qed

lemma turn_row_evolves:
  assumes "turns_ok db" and "turn_row db i = Some t"
  shows "\<exists>t'. turn_row (store_step pf op db) i = Some t' \<and> turn_evolves t t'
    \<and> (tu_output t' = tu_output t \<or> fresh_output pf i op db)"
proof (rule commit_not_plain [of pf db op])
  assume "plain_step pf db (store_step pf op db)"
  from plain_row [OF this assms(2)] show ?thesis by blast
next
  fix en b b' x r db'
  assume op: "op = Turn (CommitTurn en b)" and tx: "commit_turn_tx pf en b' x db = Inr (r, db')"
    and r: "\<not> cm_replayed r" and step: "store_step pf op db = db'" and run: "commitAgentTurnOutput pf en b db = (db', Inr r)"
    and same: "ci_channel b' = ci_channel b" "ci_seq b' = ci_seq b"
      "normalizeRuntimeIdentifier (ci_agent b) = Some (ci_agent b')"
  note row = commit_row_evolves [OF assms(1) tx r assms(2)]
  show ?thesis
  proof (cases "i = commit_id b'")
    case True
    have "fresh_output pf i op db"
      using op run r same True by (simp add: fresh_output_def normalized_id_def commit_id_def)
    moreover have "turn_evolves t (bind_output (en_uuid en 0) (ci_kind b') t)"
      using row(2) [OF True] by (simp add: turn_evolves_def bind_key) (simp add: bind_output_def)
    ultimately show ?thesis using row(1) True step by simp
  next
    case False
    then show ?thesis using row(1) step by simp
  qed
qed

subsection \<open>A turn posts at most once\<close>

definition awaiting_output :: "turn_id \<Rightarrow> collab_db \<Rightarrow> bool" where
  "awaiting_output i db \<longleftrightarrow> (case turn_row db i of None \<Rightarrow> True | Some t \<Rightarrow> tu_output t = None)"

definition output_attempt :: "platform \<Rightarrow> turn_id \<Rightarrow> store_op \<Rightarrow> collab_db \<Rightarrow> collab_db \<times> bool" where
  "output_attempt pf i op db = (store_step pf op db, fresh_output pf i op db)"

lemma fresh_output_row:
  assumes "turns_ok db" and "fresh_output pf i op db"
  obtains t e where "turn_row db i = Some t" "tu_output t = None" "tu_state t = TurnDispatched"
    "turn_row (store_step pf op db) i = Some (bind_output (fst e) (snd e) t)"
proof (rule commit_not_plain [of pf db op])
  assume "\<And>i. \<not> fresh_output pf i op db"
  with assms(2) show thesis by blast
next
  fix en b b' x r db'
  assume op: "op = Turn (CommitTurn en b)" and tx: "commit_turn_tx pf en b' x db = Inr (r, db')"
    and r: "\<not> cm_replayed r" and step: "store_step pf op db = db'" and run: "commitAgentTurnOutput pf en b db = (db', Inr r)"
    and same: "ci_channel b' = ci_channel b" "ci_seq b' = ci_seq b"
      "normalizeRuntimeIdentifier (ci_agent b) = Some (ci_agent b')"
  have i: "i = commit_id b'" using assms(2) op run same by (simp add: fresh_output_def normalized_id_def commit_id_def)
  obtain t where t: "turn_row db (commit_id b') = Some t"
    using tx r by (cases rule: commit_tx_cases) auto
  note row = commit_row_evolves [OF assms(1) tx r t]
  show thesis using t row step i by (intro that [of t "(en_uuid en 0, ci_kind b')"]) simp_all
qed

interpretation turn_output: one_shot "output_attempt pf i" "awaiting_output i" turns_ok for pf i
proof unfold_locales
  fix db op
  assume ok: "turns_ok db"
  show "turns_ok (fst (output_attempt pf i op db))" using ok by (simp add: output_attempt_def turns_ok_step)
  have hit: "awaiting_output i db \<and> \<not> awaiting_output i (store_step pf op db)" if fresh: "fresh_output pf i op db"
  proof -
    obtain t e where "turn_row db i = Some t" "tu_output t = None"
      "turn_row (store_step pf op db) i = Some (bind_output (fst e) (snd e) t)"
      by (rule fresh_output_row [OF ok fresh])
    then show ?thesis by (simp add: awaiting_output_def bind_output_def)
  qed
  show "awaiting_output i db" if "snd (output_attempt pf i op db)"
    using hit that by (simp add: output_attempt_def)
  show "\<not> awaiting_output i (fst (output_attempt pf i op db))" if "snd (output_attempt pf i op db)"
    using hit that by (simp add: output_attempt_def)
  show "\<not> awaiting_output i (fst (output_attempt pf i op db))" if "\<not> awaiting_output i db"
  proof -
    have "case turn_row db i of None \<Rightarrow> False | Some t \<Rightarrow> tu_output t \<noteq> None"
      using that by (cases "turn_row db i") (simp_all add: awaiting_output_def)
    then obtain t where t: "turn_row db i = Some t" "tu_output t \<noteq> None"
      by (cases "turn_row db i") simp_all
    have "tu_state t = TurnCompleted" using ok t turn_row_entry [OF t(1)] by (auto simp: turns_ok_def)
    with turn_row_evolves [OF ok t(1), of pf op] t(2) show ?thesis
      by (auto simp: output_attempt_def awaiting_output_def turn_evolves_def)
  qed
qed


text \<open>
  C2. A turn posts once. Whatever claims, reclaims, retries, commits and other commands run in
  whatever order from a bootstrapped database, at most one of them binds a new output to a given
  turn of a given agent; every other commit for that turn is refused or replays the first result.
\<close>

theorem turn_posts_once: "wins (snd (run_steps (output_attempt pf i) ops (fresh_db ps cs))) \<le> 1"
proof (rule turn_output.at_most_one_win)
  show "turns_ok (fresh_db ps cs)" by (simp add: turns_ok_def fresh_db_def key_unique_def map_filter_simps)
qed

text \<open>
  C21. Outputs trace back. After any history of the store every output bound to a turn is a posted
  message of that turn's agent in that turn's channel, the turn is completed, no two turns share an
  output, and each trigger has at most one turn per agent and channel.
\<close>

theorem outputs_trace_back:
  "let db = fold (store_step pf) ops (fresh_db ps cs) in
     key_unique turn_key (db_turns db)
     \<and> distinct (List.map_filter (\<lambda>t. map_option fst (tu_output t)) (db_turns db))
     \<and> list_all (\<lambda>t. tu_output t = None \<or>
          (tu_state t = TurnCompleted \<and> list_ex (output_event t) (db_events db))) (db_turns db)"
proof -
  have "turns_ok (fold (store_step pf) ops (fresh_db ps cs))"
    by (rule turns_ok_store) (simp add: turns_ok_def fresh_db_def key_unique_def map_filter_simps)
  then show ?thesis unfolding Let_def turns_ok_def list_all_iff list_ex_iff by blast
qed

lemma turn_history:
  assumes "turns_ok db" and "turn_row db i = Some t"
  shows "\<exists>t'. turn_row (fold (store_step pf) ops db) i = Some t' \<and> turn_evolves t t'"
  using assms
proof (induction ops arbitrary: db t)
  case (Cons op ops)
  obtain t1 where t1: "turn_row (store_step pf op db) i = Some t1" "turn_evolves t t1"
    using turn_row_evolves [OF Cons.prems, of pf op] by blast
  from Cons.IH [OF turns_ok_step [OF Cons.prems(1)] t1(1)] t1(2)
  show ?case by (auto intro: turn_evolves_trans)
qed auto

subsection \<open>What a new output was allowed by\<close>

lemma authorized_row:
  assumes "turn_authorized pf db c a expected claimed = Inr True"
  obtains p ch m r where "principal_row db a = Some p" "pr_kind p = AgentKind" "pr_status p = PActive"
    "channel_row db c = Some ch" "ch_state ch = ChActive" "member_row db c a = Some m" "mb_state m = MActive"
    "profile_row db a = Some r" "rp_autostart r" "rp_account r = rs_account expected"
    "rp_adapter r = rs_adapter expected" "rp_model r = rs_model expected" "externalBindingValid expected r"
    "\<not> turn_stopped db c"
  using assms by (auto simp: turn_authorized_def split: option.splits prod.splits sum.splits)

lemma fresh_output_authorized:
  assumes "fresh_output pf (c, a, n) op db"
  obtains p ch m r t where "principal_row db a = Some p" "pr_kind p = AgentKind" "pr_status p = PActive"
    "channel_row db c = Some ch" "ch_state ch = ChActive" "member_row db c a = Some m" "mb_state m = MActive"
    "profile_row db a = Some r" "rp_autostart r" "\<not> turn_stopped db c"
    "turn_row db (c, a, n) = Some t" "tu_state t = TurnDispatched"
proof (rule commit_not_plain [of pf db op])
  assume "\<And>i. \<not> fresh_output pf i op db"
  with assms show thesis by blast
next
  fix en b b' x r db'
  assume op: "op = Turn (CommitTurn en b)" and tx: "commit_turn_tx pf en b' x db = Inr (r, db')"
    and r: "\<not> cm_replayed r" and run: "commitAgentTurnOutput pf en b db = (db', Inr r)"
    and same: "ci_channel b' = ci_channel b" "ci_seq b' = ci_seq b"
      "normalizeRuntimeIdentifier (ci_agent b) = Some (ci_agent b')"
  have i: "ci_channel b' = c" "ci_agent b' = a" "ci_seq b' = n"
    using assms op run same by (simp_all add: fresh_output_def normalized_id_def)
  from tx show thesis
  proof (cases rule: commit_tx_cases)
    case (fresh turn claimed db1)
    from fresh(8) show thesis
      by (rule authorized_row) (use fresh(1,5) i in \<open>auto simp: commit_id_def intro!: that\<close>)
  qed (use r in simp)
qed

text \<open>
  C25. A revoked agent stays silent. Once an agent is revoked no later history contains a commit that
  binds a new output to any of its turns: turns in flight at the revocation end without a post.
\<close>

theorem revoked_agent_silent:
  assumes "ids_ok db" and "principal_row db a = Some r" and "pr_status r = PRevoked"
  shows "\<not> fresh_output pf (c, a, n) op (fold (store_step pf) ops db)"
proof
  assume "fresh_output pf (c, a, n) op (fold (store_step pf) ops db)"
  then show False
    by (rule fresh_output_authorized) (use revoked_stays [OF assms, of pf ops] assms(3) in simp)
qed

subsection \<open>STOP\<close>

text \<open>The one command that lifts a STOP from a channel.\<close>

definition lifts_stop :: "string \<Rightarrow> store_op \<Rightarrow> bool" where
  "lifts_stop c op =
     (case op of
        Turn (SetStop operator halt scope channelId now) \<Rightarrow> \<not> halt \<and> (scope = GlobalStop \<or> channelId = Some c)
      | _ \<Rightarrow> False)"

lemma stop_set_grows:
  "setAutoreplyStop scope channelId actor now db = Some db' \<Longrightarrow> turn_stopped db c \<Longrightarrow> turn_stopped db' c"
  by (auto simp: setAutoreplyStop_def turn_stopped_def split: if_splits)

lemma stop_clear_other:
  "scope \<noteq> GlobalStop \<Longrightarrow> channelId \<noteq> Some c \<Longrightarrow> turn_stopped (clearAutoreplyStop scope channelId db) c = turn_stopped db c"
  by (cases scope; cases channelId) (auto simp: clearAutoreplyStop_def turn_stopped_def list_ex_iff)

lemma turn_stop_step:
  assumes "\<And>operator scope channelId now. op = SetStop operator False scope channelId now \<Longrightarrow>
    scope \<noteq> GlobalStop \<and> channelId \<noteq> Some c" and "turn_stopped db c"
  shows "turn_stopped (turn_step pf op db) c"
proof (cases op)
  case (SetStop operator halt scope channelId now)
  show ?thesis
  proof (cases halt)
    case True
    then show ?thesis using SetStop assms(2)
      by (auto simp: handleSetAutoreplyStop_def Let_def split: option.split dest: stop_set_grows)
  next
    case False
    then show ?thesis using SetStop assms stop_clear_other [of scope channelId c db]
      by (auto simp: handleSetAutoreplyStop_def Let_def)
  qed
next
  case (CommitTurn en b)
  show ?thesis
  proof (rule commit_cases [of pf en b db])
    assume "fst (commitAgentTurnOutput pf en b db) = db"
    then show ?thesis using CommitTurn assms(2) by simp
  next
    fix b' x r db'
    assume tx: "commit_turn_tx pf en b' x db = Inr (r, db')" "\<not> cm_replayed r"
      and run: "commitAgentTurnOutput pf en b db = (db', Inr r)"
    from tx have "db_stops db' = db_stops db"
      by (cases rule: commit_tx_cases)
         (auto simp: update_turns_def dest!: event_frame(2) simp: core_frame_def participation_same_def)
    then show ?thesis using CommitTurn run assms(2) by (simp add: turn_stopped_def)
  qed
next
  case (ClaimTurn identity now)
  show ?thesis
    by (rule claim_cases [of pf identity now db]) (use ClaimTurn assms(2) in \<open>simp_all add: turn_stopped_def update_turns_def\<close>)
next
  case (ClaimBare busy identity now)
  show ?thesis
    by (rule claim_bare_cases [of pf busy identity now db]) (use ClaimBare assms(2) in \<open>simp_all add: turn_stopped_def\<close>)
qed (use assms(2) in \<open>auto simp: turn_stopped_def attachDispatchRequestId_def resolveAgentTurn_def
    reclaimStrandedAgentTurn_def update_turns_def Let_def split: option.split\<close>)

lemma stops_same: "db_stops db' = db_stops db \<Longrightarrow> turn_stopped db c \<Longrightarrow> turn_stopped db' c"
  by (simp add: turn_stopped_def)

lemma stop_step: "\<not> lifts_stop c op \<Longrightarrow> turn_stopped db c \<Longrightarrow> turn_stopped (store_step pf op db) c"
proof (cases op)
  case (Core o1)
  assume "turn_stopped db c"
  then show ?thesis using Core collab_step_frame [of db pf o1]
    by (simp add: core_frame_def participation_same_def turn_stopped_def)
next
  case (Turn o1)
  assume "\<not> lifts_stop c op" "turn_stopped db c"
  then have "turn_stopped (turn_step pf o1 db) c" by (intro turn_stop_step) (auto simp: Turn lifts_stop_def)
  then show ?thesis using Turn by simp
next
  case (Cron o1)
  assume "turn_stopped db c"
  then show ?thesis using Cron cron_frame [of db o1] by (simp add: turn_stopped_def)
next
  case (Job o1)
  assume "turn_stopped db c"
  then show ?thesis using Job job_frame [of db pf o1] by (simp add: turn_stopped_def)
next
  case (Profile o1)
  assume s: "turn_stopped db c"
  show ?thesis
  proof (cases o1)
    case (Provision en caller name b channels key delegate)
    show ?thesis
      by (rule provision_step_cases [of pf en caller name b channels key delegate db])
         (use s Profile Provision provision_effects(4) in \<open>auto simp: turn_stopped_def\<close>)
  qed (use edit_step_frame Profile s in \<open>auto intro!: stops_same [OF _ s] simp: edit_frame_def simp del: profile_step.simps\<close>)
qed

lemma stop_history:
  "list_all (\<lambda>op. \<not> lifts_stop c op) ops \<Longrightarrow> turn_stopped db c \<Longrightarrow> turn_stopped (fold (store_step pf) ops db) c"
  by (induction ops arbitrary: db) (simp_all add: stop_step)

lemma stop_effective:
  "handleSetAutoreplyStop operator True scope channelId now db = (db', None) \<Longrightarrow>
   scope = GlobalStop \<or> channelId = Some c \<Longrightarrow> turn_stopped db' c"
  by (cases scope; cases channelId)
     (auto simp: handleSetAutoreplyStop_def setAutoreplyStop_def turn_stopped_def list_ex_iff Let_def
       split: option.splits if_splits)

text \<open>A replay hands out an output that is bound already.\<close>

lemma replay_bound:
  assumes "commitAgentTurnOutput pf en b db = (d, Inr r)" and "cm_replayed r" and "normalized_id b = Some i"
  shows "\<not> awaiting_output i db"
proof (cases rule: commit_run [of pf en b db])
  case (tx b' x)
  have i: "commit_id b' = i" using assms(3) tx(2-4) by (simp add: normalized_id_def commit_id_def)
  obtain d' where "commit_turn_tx pf en b' x db = Inr (r, d')"
    using assms(1) tx(1) by (auto simp: runNaturallyIdempotentCommand_def split: sum.splits prod.splits)
  then show ?thesis using assms(2) i by (cases rule: commit_tx_cases) (auto simp: awaiting_output_def)
qed (use assms(1) in simp)

lemma awaiting_step:
  assumes "turns_ok db" and "awaiting_output i db" and "\<not> fresh_output pf i op db"
  shows "awaiting_output i (store_step pf op db)"
proof (cases "turn_row db i")
  case (Some t)
  then obtain t' where "turn_row (store_step pf op db) i = Some t'" "tu_output t' = tu_output t"
    using turn_row_evolves [OF assms(1) Some, of pf op] assms(3) by blast
  then show ?thesis using assms(2) Some by (simp add: awaiting_output_def)
next
  case None
  show ?thesis
  proof (rule commit_not_plain [of pf db op])
    assume "plain_step pf db (store_step pf op db)"
    then consider (update) P f where "plain_update P f" "db_turns (store_step pf op db) = tbl_update P f (db_turns db)"
      | (new) t where "new_turn pf db t" "db_turns (store_step pf op db) = db_turns db @ [t]"
      by (auto simp: plain_step_def)
    then show ?thesis
    proof cases
      case update
      have key: "turn_key (if P t then f t else t) = turn_key t" for t
        using update(1) by (auto simp: plain_update_def turn_evolves_def)
      have "db_turns (store_step pf op db) = tbl_update (\<lambda>_. True) (\<lambda>t. if P t then f t else t) (db_turns db)"
        using update(2) by (simp add: tbl_update_def)
      from turn_row_update [OF key this, of i] None show ?thesis by (simp add: awaiting_output_def)
    next
      case new
      then show ?thesis using None by (simp add: awaiting_output_def turn_row_def tbl_get_snoc new_turn_def)
    qed
  next
    fix en b b' x r db'
    assume tx: "commit_turn_tx pf en b' x db = Inr (r, db')" "\<not> cm_replayed r" and step: "store_step pf op db = db'"
    obtain e where "db_turns db' = tbl_update (\<lambda>t. turn_key t = commit_id b') (bind_output (en_uuid en 0) (ci_kind b')) (db_turns db)"
      by (rule fresh_commit_turns [OF assms(1) tx]) blast
    from turn_row_update [OF bind_key this, of i] None step show ?thesis by (simp add: awaiting_output_def)
  qed
qed

lemma stopped_no_output: "turn_stopped db c \<Longrightarrow> \<not> fresh_output pf (c, a, n) op db"
  using fresh_output_authorized [of pf c a n op db False] by blast

lemma stopped_awaiting:
  "turns_ok db \<Longrightarrow> turn_stopped db c \<Longrightarrow> list_all (\<lambda>op. \<not> lifts_stop c op) ops \<Longrightarrow> awaiting_output (c, a, n) db \<Longrightarrow>
   awaiting_output (c, a, n) (fold (store_step pf) ops db)"
proof (induction ops arbitrary: db)
  case (Cons op ops)
  have "awaiting_output (c, a, n) (store_step pf op db)"
    using Cons.prems by (intro awaiting_step stopped_no_output)
  moreover have "turn_stopped (store_step pf op db) c" using Cons.prems by (intro stop_step) simp_all
  ultimately show ?case using Cons by (simp add: turns_ok_step)
qed simp

text \<open>
  C8. STOP holds back the output of turns, those in flight included. Once the operator's STOP for a
  channel, or for all, has answered, then after any later history that does not lift that STOP, a
  commit of the output of a turn in that channel writes nothing: it is refused, or it repeats an
  output that was bound already; and a turn that had no output when STOP answered, in flight or not
  yet claimed, is always refused. The comments of \<open>autoReply.ts\<close>, \<open>migration.ts\<close> and
  \<open>autoReplyDispatcher.ts\<close> say that turns in flight complete; the commit reads STOP again inside its
  transaction, so they end without a post. What an agent posts by \<open>postChannelMessage\<close> under a session
  of its own is no output of a turn and is not subject to STOP.
\<close>

theorem stop_silences:
  assumes "turns_ok db" and "handleSetAutoreplyStop operator True scope channelId now db = (db', None)"
    and "scope = GlobalStop \<or> channelId = Some c"
    and "list_all (\<lambda>op. \<not> lifts_stop c op) ops" and "db'' = fold (store_step pf) ops db'"
    and "normalized_id b = Some (c, a, n)"
  shows "fst (commitAgentTurnOutput pf en b db'') = db''
    \<and> (\<forall>r. snd (commitAgentTurnOutput pf en b db'') = Inr r \<longrightarrow> cm_replayed r \<and> \<not> awaiting_output (c, a, n) db'')
    \<and> (awaiting_output (c, a, n) db' \<longrightarrow> (\<exists>e. commitAgentTurnOutput pf en b db'' = (db'', Inl e)))"
proof -
  have stopped: "turn_stopped db' c" by (rule stop_effective [OF assms(2,3)])
  then have "turn_stopped db'' c" unfolding assms(5) by (rule stop_history [OF assms(4)])
  then have none: "\<not> fresh_output pf (c, a, n) (Turn (CommitTurn en b)) db''" by (rule stopped_no_output)
  have idle: "fst (commitAgentTurnOutput pf en b db'') = db''"
    and replay: "\<And>r. snd (commitAgentTurnOutput pf en b db'') = Inr r \<Longrightarrow> cm_replayed r"
    by (rule commit_cases [of pf en b db'']; use none assms(6) in \<open>simp add: fresh_output_def\<close>)+
  have bound: "\<not> awaiting_output (c, a, n) db''" if "snd (commitAgentTurnOutput pf en b db'') = Inr r" for r
    using replay_bound [of pf en b db'' db'' r, OF _ replay [OF that] assms(6)] idle that by (metis prod.collapse)
  have "db' = store_step pf (Turn (SetStop operator True scope channelId now)) db" using assms(2) by simp
  then have "turns_ok db'" using assms(1) by (simp only: turns_ok_step)
  then have "awaiting_output (c, a, n) db' \<Longrightarrow> awaiting_output (c, a, n) db''"
    unfolding assms(5) using stopped assms(4) by (rule stopped_awaiting)
  then show ?thesis using idle replay bound
    by (cases "commitAgentTurnOutput pf en b db''"; cases "snd (commitAgentTurnOutput pf en b db'')") auto
qed

subsection \<open>Leases\<close>

text \<open>Only a reclaim writes the lease of a turn.\<close>

definition reclaims :: "turn_id \<Rightarrow> store_op \<Rightarrow> bool" where
  "reclaims i op = (case op of Turn (ReclaimTurn j now expected lease) \<Rightarrow> j = i | _ \<Rightarrow> False)"

definition keeps_lease :: "turn_id \<Rightarrow> collab_db \<Rightarrow> collab_db \<Rightarrow> bool" where
  "keeps_lease i db db' \<longleftrightarrow> (\<forall>t. turn_row db i = Some t \<longrightarrow>
     (\<exists>t'. turn_row db' i = Some t' \<and> tu_lease t' = tu_lease t))"

lemma keeps_lease_same: "db_turns db' = db_turns db \<Longrightarrow> keeps_lease i db db'"
  by (simp add: keeps_lease_def turn_row_def)

lemma keeps_lease_new: "db_turns db' = db_turns db @ ts \<Longrightarrow> keeps_lease i db db'"
  by (auto simp: keeps_lease_def turn_row_def tbl_get_append split: option.split)

lemma keeps_lease_update:
  assumes "db_turns db' = tbl_update P f (db_turns db)" and "\<And>t. turn_key (f t) = turn_key t"
    and "\<And>t. P t \<Longrightarrow> turn_key t = i \<Longrightarrow> tu_lease (f t) = tu_lease t"
  shows "keeps_lease i db db'"
  unfolding keeps_lease_def
proof (intro allI impI)
  fix t assume t: "turn_row db i = Some t"
  have "turn_row db' i = Some (if P t then f t else t)" using turn_row_update [OF assms(2,1)] t by simp
  moreover have "turn_key t = i" using turn_row_entry [OF t] by simp
  ultimately show "\<exists>t'. turn_row db' i = Some t' \<and> tu_lease t' = tu_lease t" using assms(3) [of t] by auto
qed

lemma keeps_lease_turn:
  assumes "\<And>now expected l. op \<noteq> ReclaimTurn i now expected l"
  shows "keeps_lease i db (turn_step pf op db)"
proof (cases op)
  case (ClaimTurn identity now)
  show ?thesis
  proof (rule claim_cases [of pf identity now db])
    fix j assume "fst (claimAgentTurn pf identity now db)
      = update_turns (turn_is j) (\<lambda>t. t\<lparr>tu_state := TurnTerminated, tu_resolved := True\<rparr>) db"
    then show ?thesis using ClaimTurn
      by (intro keeps_lease_update [of _ "turn_is j" "\<lambda>t. t\<lparr>tu_state := TurnTerminated, tu_resolved := True\<rparr>"])
         (simp_all add: update_turns_def turn_key_def)
  qed (use ClaimTurn in \<open>simp_all add: keeps_lease_same keeps_lease_new\<close>)
next
  case (ClaimBare busy identity now)
  show ?thesis
    by (rule claim_bare_cases [of pf busy identity now db])
       (use ClaimBare in \<open>simp_all add: keeps_lease_same keeps_lease_new\<close>)
next
  case (AttachRequest j request)
  then show ?thesis
    by (intro keeps_lease_update [of _ "turn_is j" "\<lambda>t. t\<lparr>tu_request := Some request\<rparr>"])
       (simp_all add: attachDispatchRequestId_def update_turns_def turn_key_def)
next
  case (ResolveTurn j outcome lease remark)
  then show ?thesis
    by (cases "outcome = TurnDispatched")
       (simp_all add: keeps_lease_same, intro keeps_lease_update [of _ "resolvable j lease"
          "\<lambda>t. t\<lparr>tu_state := outcome, tu_resolved := True, tu_note := remark\<rparr>"],
        simp_all add: resolveAgentTurn_def update_turns_def turn_key_def)
next
  case (ReclaimTurn j now expected lease)
  then have "j \<noteq> i" using assms by blast
  show ?thesis
  proof (cases expected)
    case (Some seen)
    then show ?thesis using ReclaimTurn \<open>j \<noteq> i\<close>
      by (intro keeps_lease_update [of _ "\<lambda>t. turn_is j t \<and> tu_dispatchedAt t = seen"
            "\<lambda>t. t\<lparr>tu_dispatchedAt := now, tu_attempt := tu_attempt t + 1, tu_lease := Some lease\<rparr>"])
         (simp_all add: reclaimStrandedAgentTurn_def Let_def update_turns_def turn_key_def turn_is_def)
  qed (use ReclaimTurn in \<open>simp add: reclaimStrandedAgentTurn_def keeps_lease_same\<close>)
next
  case (CommitTurn en b)
  show ?thesis
  proof (rule commit_cases [of pf en b db])
    fix b' x r db'
    assume tx: "commit_turn_tx pf en b' x db = Inr (r, db')" "\<not> cm_replayed r"
      and run: "commitAgentTurnOutput pf en b db = (db', Inr r)"
    from tx show ?thesis
    proof (cases rule: commit_tx_cases)
      case (fresh turn claimed db1)
      have "db_turns db1 = db_turns db"
        using event_frame(2) [OF fresh(9)] by (simp add: core_frame_def participation_same_def)
      then show ?thesis using CommitTurn run fresh(13)
        by (intro keeps_lease_update [of _ "output_hit (commit_id b') (ci_request b') (ci_lease b')"
              "bind_output (en_uuid en 0) (ci_kind b')"])
           (simp_all add: update_turns_def bind_key, simp add: bind_output_def)
    qed (use CommitTurn run in \<open>simp add: keeps_lease_same\<close>)
  qed (use CommitTurn in \<open>simp add: keeps_lease_same\<close>)
next
  case (SetStop operator halt scope channelId now)
  then have "db_turns (turn_step pf op db) = db_turns db"
    by (auto simp: handleSetAutoreplyStop_def setAutoreplyStop_def clearAutoreplyStop_def Let_def
        split: option.split StopScope.split if_splits)
  then show ?thesis by (rule keeps_lease_same)
qed

lemma keeps_lease_step: "\<not> reclaims i op \<Longrightarrow> keeps_lease i db (store_step pf op db)"
proof (cases op)
  case (Core o1)
  then show ?thesis using collab_step_frame [of db pf o1]
    by (intro keeps_lease_same) (simp add: core_frame_def participation_same_def)
next
  case (Turn o1)
  assume "\<not> reclaims i op"
  then show ?thesis using Turn by (simp, intro keeps_lease_turn) (auto simp: reclaims_def)
next
  case (Cron o1)
  then show ?thesis using cron_frame [of db o1] by (intro keeps_lease_same) simp
next
  case (Job o1)
  then show ?thesis using job_frame [of db pf o1] by (intro keeps_lease_same) simp
next
  case (Profile o1)
  show ?thesis
  proof (cases o1)
    case (Provision en caller name b channels key delegate)
    show ?thesis
      by (rule provision_step_cases [of pf en caller name b channels key delegate db])
         (use Profile Provision in \<open>auto intro!: keeps_lease_same dest: provision_effects(3)\<close>)
  qed (use edit_step_frame Profile in \<open>auto intro!: keeps_lease_same simp: edit_frame_def simp del: profile_step.simps\<close>)
qed

lemma lease_history:
  "list_all (\<lambda>op. \<not> reclaims i op) ops \<Longrightarrow> turn_row db i = Some t \<Longrightarrow>
   \<exists>t'. turn_row (fold (store_step pf) ops db) i = Some t' \<and> tu_lease t' = tu_lease t"
proof (induction ops arbitrary: db t)
  case (Cons op ops)
  from Cons.prems keeps_lease_step [of i op db pf]
  obtain t1 where "turn_row (store_step pf op db) i = Some t1" "tu_lease t1 = tu_lease t"
    by (auto simp: keeps_lease_def)
  with Cons show ?case by force
qed auto

lemma reclaim_row:
  assumes "turns_ok db" and "reclaimStrandedAgentTurn i now expected lease db = (db', Some (l, n))"
  obtains t where "turn_row db' i = Some t" "tu_lease t = Some lease" "l = lease"
proof -
  obtain seen where seen: "expected = Some seen"
    using assms(2) by (auto simp: reclaimStrandedAgentTurn_def split: option.splits)
  let ?hit = "\<lambda>t. turn_is i t \<and> tu_dispatchedAt t = seen"
  let ?f = "\<lambda>t. t\<lparr>tu_dispatchedAt := now, tu_attempt := tu_attempt t + 1, tu_lease := Some lease\<rparr>"
  have db': "db' = update_turns ?hit ?f db" and one: "tbl_changes ?hit (db_turns db) = 1" and l: "l = lease"
    using assms(2) seen by (auto simp: reclaimStrandedAgentTurn_def Let_def split: if_splits option.splits)
  obtain t where t: "t \<in> set (db_turns db)" "?hit t"
    using one tbl_changes_0 [of ?hit "db_turns db"] by (metis zero_neq_one)
  have key: "turn_key t = i" using t(2) by (simp add: turn_is_def)
  have "turn_row db i = Some t"
    using assms(1) t(1) key tbl_get_unique [of turn_key "db_turns db" t] by (simp add: turns_ok_def turn_row_def)
  moreover have "db_turns db' = tbl_update ?hit ?f (db_turns db)" by (simp add: db' update_turns_def)
  ultimately have "turn_row db' i = Some (?f t)"
    using turn_row_update [of ?f db' ?hit db i] t(2) by (simp add: turn_key_def)
  then show thesis by (rule that) (simp_all add: l)
qed

lemma stale_commit_refused:
  assumes "turn_row db i = Some t" and "tu_lease t \<noteq> normalizeLease (ci_lease b)" and "normalized_id b = Some i"
  shows "\<exists>e. commitAgentTurnOutput pf en b db = (db, Inl e)"
proof (cases rule: commit_run [of pf en b db])
  case (tx b' x)
  have "commit_id b' = i" using assms(3) tx(2-4) by (simp add: normalized_id_def commit_id_def)
  then have "turn_row db (ci_channel b', ci_agent b', ci_seq b') = Some t" using assms(1) by (simp add: commit_id_def)
  then show ?thesis using tx(1,6) assms(2)
    by (auto simp: commit_turn_tx_def Let_def runNaturallyIdempotentCommand_def)
qed blast

text \<open>A resolution touches the row of its turn alone, and only when it is open and the lease fits.\<close>

lemma resolve_exact:
  assumes "turns_ok db" and "turn_row db i = Some t"
  shows "resolveAgentTurn i outcome lease remark db =
    (if tu_state t = TurnDispatched \<and> (lease = None \<or> tu_lease t = lease)
     then (db\<lparr>db_turns := tbl_update (\<lambda>u. turn_key u = i)
             (\<lambda>u. u\<lparr>tu_state := outcome, tu_resolved := True, tu_note := remark\<rparr>) (db_turns db)\<rparr>, 1)
     else (db, 0))"
proof -
  note t = turn_row_entry [OF assms(2)]
  have uniq: "key_unique turn_key (db_turns db)" using assms(1) by (simp add: turns_ok_def)
  have hit: "resolvable i lease u = (turn_key u = i \<and> resolvable i lease t)" if "u \<in> set (db_turns db)" for u
  proof (cases "turn_key u = i")
    case True
    then have "u = t" using key_unique_eq [OF uniq that] t by simp
    then show ?thesis using True by simp
  qed (simp add: resolvable_def turn_is_def)
  have fits: "resolvable i lease t = (tu_state t = TurnDispatched \<and> (lease = None \<or> tu_lease t = lease))"
    using t by (simp add: resolvable_def turn_is_def)
  show ?thesis
  proof (cases "resolvable i lease t")
    case True
    have "tbl_update (resolvable i lease) f (db_turns db) = tbl_update (\<lambda>u. turn_key u = i) f (db_turns db)" for f
      using hit True by (auto simp: tbl_update_def)
    moreover have "tbl_changes (resolvable i lease) (db_turns db) = 1"
    proof -
      have "resolvable i lease = (\<lambda>u. turn_key u = i \<and> tu_state u = TurnDispatched \<and> (lease = None \<or> tu_lease u = lease))"
        by (simp add: fun_eq_iff resolvable_def turn_is_def conj_assoc)
      then have "tbl_changes (resolvable i lease) (db_turns db) \<le> 1"
        using tbl_changes_unique [OF uniq, of i] by simp
      moreover have "tbl_changes (resolvable i lease) (db_turns db) \<noteq> 0"
        unfolding tbl_changes_0 using True t(1) by blast
      ultimately show ?thesis by linarith
    qed
    ultimately show ?thesis using True fits by (simp add: resolveAgentTurn_def update_turns_def)
  next
    case False
    then have "\<forall>u \<in> set (db_turns db). \<not> resolvable i lease u" using hit by blast
    then have "tbl_update (resolvable i lease) f (db_turns db) = db_turns db" "tbl_changes (resolvable i lease) (db_turns db) = 0" for f
      by (simp_all add: tbl_update_unchanged tbl_changes_0)
    then show ?thesis using False fits by (auto simp: resolveAgentTurn_def update_turns_def)
  qed
qed

text \<open>
  C14. How far a lease fences. After a stranded turn was reclaimed under a new lease, and until it is
  reclaimed again, a commit that does not carry this lease is refused in every later state: it
  neither posts nor reads back the output. A resolution that names a lease takes effect exactly when
  it names this one and the turn is still open, and then on this turn alone. A resolution that names
  no lease is not fenced: it closes the reclaimed turn like the holder of the lease. The worker of the
  first dispatch names none, so it can still close the turn under the worker that reclaimed it.
\<close>

theorem lease_fences_stale_worker:
  assumes "turns_ok db" and "reclaimStrandedAgentTurn i now expected lease db = (db', Some (l, n))"
    and "list_all (\<lambda>op. \<not> reclaims i op) ops" and "db'' = fold (store_step pf) ops db'"
    and "normalized_id b = Some i" and "normalizeLease (ci_lease b) \<noteq> Some l"
  shows "(\<exists>e. commitAgentTurnOutput pf en b db'' = (db'', Inl e))
    \<and> (\<exists>t. turn_row db'' i = Some t \<and> tu_lease t = Some l
         \<and> (\<forall>named. resolveAgentTurn i outcome named remark db'' =
              (if tu_state t = TurnDispatched \<and> (named = Some l \<or> named = None)
               then (db''\<lparr>db_turns := tbl_update (\<lambda>u. turn_key u = i)
                       (\<lambda>u. u\<lparr>tu_state := outcome, tu_resolved := True, tu_note := remark\<rparr>) (db_turns db'')\<rparr>, 1)
               else (db'', 0))))"
proof -
  obtain t0 where t0: "turn_row db' i = Some t0" "tu_lease t0 = Some lease" "l = lease"
    by (rule reclaim_row [OF assms(1,2)])
  have "db' = store_step pf (Turn (ReclaimTurn i now expected lease)) db" using assms(2) by simp
  then have ok: "turns_ok db''" unfolding assms(4) using assms(1) by (simp only: turns_ok_step turns_ok_store)
  obtain t where t: "turn_row db'' i = Some t" "tu_lease t = Some l"
    using lease_history [OF assms(3) t0(1), of pf] t0(2,3) unfolding assms(4) by auto
  have fits: "(named = None \<or> tu_lease t = named) = (named = Some l \<or> named = None)" for named
    using t(2) by auto
  show ?thesis using stale_commit_refused [OF t(1) _ assms(5), of pf en] t assms(6) resolve_exact [OF ok t(1), unfolded fits]
    by auto
qed

subsection \<open>The effect of a commit\<close>

text \<open>
  C16. The effect of a commit. A commit that is no replay found the agent active, member of an active
  channel, started automatically and not stopped, the turn open under exactly the request and lease
  given; it appends one message event with the next number of the channel and the normalized text,
  completes that turn with it, and leaves every other turn and every other table, STOP, schedules,
  profiles, jobs and stored results among them, exactly as they were.
\<close>

theorem fresh_commit_effect:
  assumes "turns_ok db" and "commitAgentTurnOutput pf en b db = (db', Inr r)" and "\<not> cm_replayed r"
    and "normalizeRuntimeIdentifier (ci_agent b) = Some a"
  shows "(\<exists>p ch m rp. principal_row db a = Some p \<and> pr_kind p = AgentKind \<and> pr_status p = PActive
        \<and> channel_row db (ci_channel b) = Some ch \<and> ch_state ch = ChActive
        \<and> member_row db (ci_channel b) a = Some m \<and> mb_state m = MActive
        \<and> profile_row db a = Some rp \<and> rp_autostart rp \<and> \<not> turn_stopped db (ci_channel b))
    \<and> (\<exists>t. turn_row db (ci_channel b, a, ci_seq b) = Some t \<and> tu_state t = TurnDispatched \<and> tu_output t = None
        \<and> tu_request t = normalizeRuntimeIdentifier (ci_request b) \<and> tu_lease t = normalizeLease (ci_lease b)
        \<and> turn_row db' (ci_channel b, a, ci_seq b) = Some (bind_output (cm_event r) (ci_kind b) t))
    \<and> (\<exists>msg. normalizeMessageText (pf_nfc pf) (ci_text b) = Some msg
        \<and> db' = db\<lparr>db_events := db_events db @ [\<lparr>EventRow.ev_id = cm_event r, ev_channel = ci_channel b,
              ev_seq = getMaxChannelSeq db (ci_channel b) + 1, EventRow.ev_actor = a,
              EventRow.ev_kind = message_posted, ev_content = message_content (ci_channel b) msg,
              ev_createdAt = cm_at r\<rparr>],
            db_turns := tbl_update (\<lambda>t. turn_key t = (ci_channel b, a, ci_seq b)) (bind_output (cm_event r) (ci_kind b))
              (db_turns db)\<rparr>)"
proof (rule commit_cases [of pf en b db])
  assume "\<And>r. snd (commitAgentTurnOutput pf en b db) = Inr r \<Longrightarrow> cm_replayed r"
  with assms(2,3) show ?thesis by force
next
  fix b' x r1 db1
  assume tx: "commit_turn_tx pf en b' x db = Inr (r1, db1)" and "\<not> cm_replayed r1"
    and run: "commitAgentTurnOutput pf en b db = (db1, Inr r1)"
    and same: "ci_channel b' = ci_channel b" "ci_seq b' = ci_seq b"
      "normalizeRuntimeIdentifier (ci_agent b) = Some (ci_agent b')" "ci_kind b' = ci_kind b"
      "ci_lease b' = normalizeLease (ci_lease b)" "normalizeRuntimeIdentifier (ci_request b) = Some (ci_request b')"
      "normalizeMessageText (pf_nfc pf) (ci_text b) = Some (ci_text b')"
  have eq: "r1 = r" "db1 = db'" "ci_agent b' = a" using run assms(2,4) same(3) by simp_all
  note tx = tx [unfolded eq(1,2)]
  have i: "commit_id b' = (ci_channel b, a, ci_seq b)" using same eq(3) by (simp add: commit_id_def)
  obtain t where t: "turn_row db (commit_id b') = Some t" "tu_request t = Some (ci_request b')"
      "tu_lease t = ci_lease b'" "tu_output t = None" "tu_state t = TurnDispatched"
    and auth: "\<exists>claimed. turn_authorized pf db (ci_channel b') (ci_agent b') (ci_profile b') claimed = Inr True"
    and r: "r = \<lparr>cm_event = en_uuid en 0, cm_cursor = show_nat (getMaxChannelSeq db (ci_channel b') + 1),
            cm_at = en_clock en 0, cm_kind = ci_kind b', cm_replayed = False\<rparr>"
    and ev: "\<exists>d. append_event (en_uuid en 0) (ci_channel b') (ci_agent b') message_posted
         (message_content (ci_channel b') (ci_text b')) (en_clock en 0) db = Some d
       \<and> db' = update_turns (output_hit (commit_id b') (ci_request b') (ci_lease b')) (bind_output (en_uuid en 0) (ci_kind b')) d"
    using tx assms(3) by (cases rule: commit_tx_cases) auto
  have uniq: "key_unique turn_key (db_turns db)" using assms(1) by (simp add: turns_ok_def)
  note entry = turn_row_entry [OF t(1)]
  have hit: "output_hit (commit_id b') (ci_request b') (ci_lease b') t"
    using t entry by (simp add: output_hit_def turn_is_def)
  have db': "db' = db\<lparr>db_events := db_events db @ [\<lparr>EventRow.ev_id = cm_event r, ev_channel = ci_channel b,
        ev_seq = getMaxChannelSeq db (ci_channel b) + 1, EventRow.ev_actor = a, EventRow.ev_kind = message_posted,
        ev_content = message_content (ci_channel b) (ci_text b'), ev_createdAt = cm_at r\<rparr>],
      db_turns := tbl_update (\<lambda>t. turn_key t = commit_id b') (bind_output (cm_event r) (ci_kind b)) (db_turns db)\<rparr>"
    using ev commit_row [OF uniq entry [THEN conjunct1] hit, of "bind_output (en_uuid en 0) (ci_kind b')"] same(1,4) eq(3)
    by (auto simp: r append_event_def insert_event_def update_turns_def split: if_splits)
  then have "db_turns db' = tbl_update (\<lambda>t. turn_key t = commit_id b') (bind_output (cm_event r) (ci_kind b)) (db_turns db)" by simp
  note row = turn_row_update [OF bind_key this]
  have mine: "turn_row db' (commit_id b') = Some (bind_output (cm_event r) (ci_kind b) t)"
    using row [of "commit_id b'"] t(1) entry by simp
  have found: "\<exists>p ch m rp. principal_row db a = Some p \<and> pr_kind p = AgentKind \<and> pr_status p = PActive
        \<and> channel_row db (ci_channel b) = Some ch \<and> ch_state ch = ChActive
        \<and> member_row db (ci_channel b) a = Some m \<and> mb_state m = MActive
        \<and> profile_row db a = Some rp \<and> rp_autostart rp \<and> \<not> turn_stopped db (ci_channel b)"
  proof -
    obtain claimed where "turn_authorized pf db (ci_channel b') (ci_agent b') (ci_profile b') claimed = Inr True"
      using auth by blast
    then show ?thesis by (rule authorized_row) (use same(1) eq(3) in auto)
  qed
  show ?thesis
    using found t mine db' same(5,6,7) unfolding i by auto
qed

subsection \<open>Whom a post triggers\<close>

lemma resolver_set:
  assumes uniq: "key_unique member_key (db_members db)"
  shows "distinct (map mb_principal (filter (eligible db c actor) (db_members db)))"
    and "set (resolveEligibleAgents db c actor n) = {p. p \<noteq> actor
       \<and> (\<exists>m. member_row db c p = Some m \<and> mb_state m = MActive)
       \<and> (\<exists>r. principal_row db p = Some r \<and> pr_kind r = AgentKind \<and> pr_status r = PActive)}"
proof -
  have row: "member_row db c (mb_principal m) = Some m" if "m \<in> set (db_members db)" "mb_channel m = c" for m
    using tbl_get_unique [OF uniq that(1), of "(c, mb_principal m)"] that(2)
    by (simp add: member_row_def member_key_def)
  show "distinct (map mb_principal (filter (eligible db c actor) (db_members db)))"
    using uniq unfolding key_unique_def
    by (auto simp: distinct_map inj_on_def eligible_def member_key_def intro!: distinct_filter)
  have "set (map mb_principal (filter (eligible db c actor) (db_members db))) = {p. p \<noteq> actor
       \<and> (\<exists>m. member_row db c p = Some m \<and> mb_state m = MActive)
       \<and> (\<exists>r. principal_row db p = Some r \<and> pr_kind r = AgentKind \<and> pr_status r = PActive)}"
    (is "?L = ?R")
  proof
    show "?L \<subseteq> ?R" using row by (auto simp: eligible_def split: option.splits)
    show "?R \<subseteq> ?L"
    proof
      fix q assume "q \<in> ?R"
      then obtain m r where q: "q \<noteq> actor" "member_row db c q = Some m" "mb_state m = MActive"
        "principal_row db q = Some r" "pr_kind r = AgentKind" "pr_status r = PActive" by auto
      have "m \<in> set (db_members db)" "mb_channel m = c" "mb_principal m = q"
        using q(2) unfolding member_row_def by (auto dest!: tbl_get_Some simp: member_key_def)
      with q show "q \<in> ?L" by (auto simp: image_iff eligible_def intro!: bexI [of _ m])
    qed
  qed
  then show "set (resolveEligibleAgents db c actor n) = ?R" by (simp add: resolveEligibleAgents_def)
qed

text \<open>
  The resolver. After any history the agents triggered by an event of a channel are, each once
  and in the order of their ids, exactly the active agents with an active membership other than the
  actor; the text and number of the event and everything else in the log play no part.
\<close>

theorem resolver_exact:
  "let db = fold (store_step pf) ops (fresh_db ps cs) in
     resolveEligibleAgents db c actor n = sorted_list_of_set {p. p \<noteq> actor
       \<and> (\<exists>m. member_row db c p = Some m \<and> mb_state m = MActive)
       \<and> (\<exists>r. principal_row db p = Some r \<and> pr_kind r = AgentKind \<and> pr_status r = PActive)}"
proof -
  define db where "db = fold (store_step pf) ops (fresh_db ps cs)"
  have "log_ok db" unfolding db_def by (rule log_ok_store) (rule log_ok_fresh)
  then have uniq: "key_unique member_key (db_members db)" by (rule log_ok_parts)
  have "resolveEligibleAgents db c actor n = sorted_list_of_set (set (resolveEligibleAgents db c actor n))"
    using resolver_set(1) [OF uniq, of c actor]
    by (simp only: resolveEligibleAgents_def sorted_list_of_set_sort_remdups distinct_remdups_id set_sort
        distinct_sort sort_key_id_if_sorted sorted_sort)
  then show ?thesis unfolding Let_def db_def [symmetric] resolver_set(2) [OF uniq] .
qed

subsection \<open>A concrete turn\<close>

definition demo_channel :: ChannelRow where
  "demo_channel = \<lparr>ch_id = ''c'', ch_name = [120], ch_nameKey = [120], ch_state = ChActive,
     ch_owner = ''o'', ch_epoch = 1, ch_policy = LocalOnly\<rparr>"

definition demo_member :: MemberRow where
  "demo_member = \<lparr>mb_channel = ''c'', mb_principal = ''a'', mb_role = AgentRole, mb_state = MActive,
     mb_epoch = 1, mb_rejoinedSeq = 0, mb_joinedAt = ''t'', mb_removedAt = None\<rparr>"

definition demo_profile :: RuntimeProfileRow where
  "demo_profile = \<lparr>rp_agent = ''a'', rp_account = ''ollama-local'', rp_adapter = ''ollama'', rp_model = ''m'',
     rp_autostart = True, rp_confirmed = False, rp_xAccount = None, rp_xModel = None, rp_xFingerprint = None,
     rp_xExactModel = None, rp_xRevision = None, rp_xSha = None, rp_createdAt = ''t'', rp_updatedAt = ''t''\<rparr>"

definition demo_envelope :: PersonaFields where
  "demo_envelope = \<lparr>pe_version = Some 1, pe_content = Some [], pe_revision = Some 0, pe_sha = Some []\<rparr>"

definition demo_turn :: "string option \<Rightarrow> TurnRow" where
  "demo_turn lease = (fresh_turn (''c'', ''a'', 1) ''m'' 5 demo_envelope)\<lparr>tu_request := Some ''r'', tu_lease := lease\<rparr>"

definition turn_db :: collab_db where
  "turn_db = agent_db\<lparr>db_channels := [demo_channel], db_members := [demo_member],
     db_profiles := [demo_profile], db_turns := [demo_turn None]\<rparr>"

definition demo_commit :: "string option \<Rightarrow> CommitAgentTurnOutputInput" where
  "demo_commit lease = \<lparr>ci_channel = ''c'', ci_agent = ''a'', ci_seq = 1, ci_request = ''r'', ci_lease = lease,
     ci_profile = \<lparr>rs_account = ''ollama-local'', rs_adapter = ''ollama'', rs_model = ''m'', rs_revision = 0,
       rs_fingerprint = None, rs_exactModel = None, rs_sha = None\<rparr>,
     ci_envelope = demo_envelope, ci_text = [104], ci_kind = ToolOutput\<rparr>"

lemma demo_identifiers:
  "normalizeRuntimeIdentifier ''a'' = Some ''a''" "normalizeRuntimeIdentifier ''r'' = Some ''r''"
  "normalizeRuntimeIdentifier ''ollama-local'' = Some ''ollama-local''"
  "normalizeRuntimeIdentifier ''ollama'' = Some ''ollama''" "normalizeRuntimeIdentifier ''m'' = Some ''m''"
  "normalizeRuntimeIdentifier ''c'' = Some ''c''" "normalizeLease None = None" "normalizeLease (Some ''w'') = Some ''w''"
  by (simp_all add: normalizeRuntimeIdentifier_def normalizeLease_def trim_def is_space_def of_char_def)

lemma demo_persona: "validatePersonaEnvelope demo_pf demo_envelope = Inr \<lparr>ae_content = [], ae_revision = 0, ae_sha = []\<rparr>"
  "mintPersonaEnvelope demo_pf [] 0 = Inr \<lparr>ae_content = [], ae_revision = 0, ae_sha = []\<rparr>"
  by (simp_all add: validatePersonaEnvelope_def mintPersonaEnvelope_def demo_envelope_def normalizeSystemDirectives_def
      demo_pf_def trim_cp_def utf16_length_def sha_hex_def utf8_def)

lemmas turn_eval = turn_db_def agent_eval demo_channel_def demo_member_def demo_profile_def demo_turn_def
  fresh_turn_def turn_row_def turn_key_def channel_row_def member_row_def member_key_def profile_row_def persona_row_def

lemma turn_db_rows: "turn_row turn_db (''c'', ''a'', 1) = Some (demo_turn None)" "channel_row turn_db ''c'' = Some demo_channel"
  "member_row turn_db ''c'' ''a'' = Some demo_member" "profile_row turn_db ''a'' = Some demo_profile"
  "principal_row turn_db ''a'' = Some demo_agent" "persona_row turn_db ''a'' = None" "db_stops turn_db = []"
  "db_turns turn_db = [demo_turn None]" "db_events turn_db = []"
  by (simp_all add: turn_eval)

lemma demo_turn_fields:
  "turn_key (demo_turn l) = (''c'', ''a'', 1)" "tu_request (demo_turn l) = Some ''r''" "tu_lease (demo_turn l) = l"
  "tu_persona (demo_turn l) = demo_envelope" "tu_output (demo_turn l) = None" "tu_state (demo_turn l) = TurnDispatched"
  "tu_dispatchedAt (demo_turn l) = 5"
  by (simp_all add: demo_turn_def fresh_turn_def turn_key_def)

lemma turn_db_ok: "turns_ok turn_db" "ids_ok turn_db"
  using agent_db_ok(1)
  by (simp_all add: turns_ok_def turn_db_rows key_unique_def map_filter_simps demo_turn_def fresh_turn_def)
     (simp add: turn_db_def ids_ok_def)

lemma demo_commits:
  "\<exists>d r. commitAgentTurnOutput demo_pf (demo_env ''e'') (demo_commit None) turn_db = (d, Inr r) \<and> \<not> cm_replayed r"
proof -
  have auth: "turn_authorized demo_pf turn_db ''c'' ''a'' (ci_profile (demo_commit None))
      \<lparr>ae_content = [], ae_revision = 0, ae_sha = []\<rparr> = Inr True"
    by (simp add: turn_authorized_def turn_db_rows demo_persona, simp add: demo_agent_def demo_channel_def
        demo_member_def demo_profile_def demo_commit_def personaEnvelopesEqual_def externalBindingValid_def
        turn_stopped_def turn_db_rows)
  have "getMaxChannelSeq turn_db ''c'' = 0"
    by (simp add: getMaxChannelSeq_def channel_events_def turn_db_rows)
  then obtain d where d: "append_event ''e'' ''c'' ''a'' message_posted (message_content ''c'' [104]) ''t'' turn_db = Some d"
    "db_turns d = [demo_turn None]"
    by (simp add: append_event_def insert_event_def turn_db_rows tbl_get_def)
  note d1 = d(1) [unfolded message_content_def]
  have nfc: "pf_nfc demo_pf = id" by (simp add: demo_pf_def)
  have env: "en_uuid (demo_env ''e'') 0 = ''e''" "en_clock (demo_env ''e'') 0 = ''t''" by (simp_all add: demo_env_def)
  show ?thesis
    using auth
    by (simp add: commitAgentTurnOutput_def Let_def demo_commit_def demo_identifiers demo_persona safe_seq_def
        demo_texts nfc runNaturallyIdempotentCommand_def commit_turn_tx_def turn_db_rows demo_turn_fields
        personaEnvelopesEqual_def env d1 d(2) tbl_changes_def turn_is_def)
qed

lemma demo_output: "fresh_output demo_pf (''c'', ''a'', 1) (Turn (CommitTurn (demo_env ''e'') (demo_commit None))) turn_db"
  using demo_commits by (auto simp: fresh_output_def normalized_id_def demo_commit_def demo_identifiers)

theorem revoked_agent_silent_witness:
  "\<not> fresh_output demo_pf (''c'', ''a'', 1) (Turn (CommitTurn (demo_env ''e'') (demo_commit None)))
     (fold (store_step demo_pf) [Turn (ReclaimTurn (''c'', ''a'', 1) 9 (Some 5) ''w'')]
        (turn_db\<lparr>db_principals := [demo_operator, demo_agent\<lparr>pr_status := PRevoked\<rparr>]\<rparr>))"
  by (rule revoked_agent_silent [where r = "demo_agent\<lparr>pr_status := PRevoked\<rparr>"])
     (use agent_db_ok(1) in \<open>simp_all add: ids_ok_def key_unique_def turn_eval\<close>)

lemma demo_normalized_id: "normalized_id (demo_commit l) = Some (''c'', ''a'', 1)" "ci_lease (demo_commit l) = l"
  by (simp_all add: normalized_id_def demo_commit_def demo_identifiers)

theorem stop_silences_witness:
  "fresh_output demo_pf (''c'', ''a'', 1) (Turn (CommitTurn (demo_env ''e'') (demo_commit None))) turn_db
   \<and> (\<exists>d. handleSetAutoreplyStop (Some ''o'') True GlobalStop None 9 turn_db = (d, None)
        \<and> (\<exists>e. commitAgentTurnOutput demo_pf (demo_env ''e'') (demo_commit None) d = (d, Inl e)))"
proof -
  obtain d where d: "handleSetAutoreplyStop (Some ''o'') True GlobalStop None 9 turn_db = (d, None)"
    "turn_row d (''c'', ''a'', 1) = Some (demo_turn None)"
    by (simp add: handleSetAutoreplyStop_def setAutoreplyStop_def turn_eval Let_def)
  have "\<exists>e. commitAgentTurnOutput demo_pf (demo_env ''e'') (demo_commit None) d = (d, Inl e)"
    using stop_silences [OF turn_db_ok(1) d(1), of "''c''" "[]" d demo_pf "demo_commit None" "''a''" 1 "demo_env ''e''"] d(2)
    by (simp add: demo_normalized_id awaiting_output_def demo_turn_fields)
  then show ?thesis using d(1) demo_output by blast
qed

theorem lease_fences_stale_worker_witness:
  "\<exists>d. reclaimStrandedAgentTurn (''c'', ''a'', 1) 9 (Some 5) ''w'' turn_db = (d, Some (''w'', 1))
     \<and> (\<exists>e. commitAgentTurnOutput demo_pf (demo_env ''e'') (demo_commit None) d = (d, Inl e))
     \<and> resolveAgentTurn (''c'', ''a'', 1) TurnNoPost (Some ''v'') None d = (d, 0)
     \<and> snd (resolveAgentTurn (''c'', ''a'', 1) TurnNoPost None None d) = 1"
proof -
  have "\<exists>d. reclaimStrandedAgentTurn (''c'', ''a'', 1) 9 (Some 5) ''w'' turn_db = (d, Some (''w'', 1))
      \<and> (\<forall>t. turn_row d (''c'', ''a'', 1) = Some t \<longrightarrow> tu_state t = TurnDispatched)"
    by (simp add: reclaimStrandedAgentTurn_def Let_def update_turns_def turn_db_rows tbl_changes_def tbl_update_def
        turn_is_def demo_turn_fields tbl_get_def turn_row_def) (simp add: demo_turn_def fresh_turn_def turn_key_def)
  then obtain d where d: "reclaimStrandedAgentTurn (''c'', ''a'', 1) 9 (Some 5) ''w'' turn_db = (d, Some (''w'', 1))"
    "\<And>t. turn_row d (''c'', ''a'', 1) = Some t \<Longrightarrow> tu_state t = TurnDispatched" by blast
  note fence = lease_fences_stale_worker [OF turn_db_ok(1) d(1), of "[]" d demo_pf "demo_commit None" "demo_env ''e''" TurnNoPost None]
  obtain t where "\<exists>e. commitAgentTurnOutput demo_pf (demo_env ''e'') (demo_commit None) d = (d, Inl e)"
    and t: "turn_row d (''c'', ''a'', 1) = Some t"
    and named: "\<And>named. resolveAgentTurn (''c'', ''a'', 1) TurnNoPost named None d =
       (if tu_state t = TurnDispatched \<and> (named = Some ''w'' \<or> named = None)
        then (d\<lparr>db_turns := tbl_update (\<lambda>u. turn_key u = (''c'', ''a'', 1))
                (\<lambda>u. u\<lparr>tu_state := TurnNoPost, tu_resolved := True, tu_note := None\<rparr>) (db_turns d)\<rparr>, 1)
        else (d, 0))"
    using fence by (auto simp: demo_normalized_id demo_identifiers)
  then show ?thesis using d(1) named [of "Some ''v''"] named [of None] d(2) [OF t] by simp
qed

theorem fresh_commit_effect_witness:
  "\<exists>d r. commitAgentTurnOutput demo_pf (demo_env ''e'') (demo_commit None) turn_db = (d, Inr r)
     \<and> length (db_events d) = 1"
proof -
  obtain d r where run: "commitAgentTurnOutput demo_pf (demo_env ''e'') (demo_commit None) turn_db = (d, Inr r)"
    and r: "\<not> cm_replayed r" using demo_commits by blast
  have "normalizeRuntimeIdentifier (ci_agent (demo_commit None)) = Some ''a''"
    by (simp add: demo_commit_def demo_identifiers)
  from fresh_commit_effect [OF turn_db_ok(1) run r this] have "length (db_events d) = 1"
    by (auto simp: turn_db_rows)
  with run show ?thesis by blast
qed

subsection \<open>A STOP without a resolved operator\<close>

text \<open>
  Without a resolved principal no STOP is recorded. The handler then writes the literal
  \<open>operator-seat\<close> as the actor, which the foreign key to the principals refuses: the command
  answers that the service is unavailable and the database, so every agent, goes on as before.
\<close>

theorem stop_needs_resolved_operator:
  assumes "principal_row db ''operator-seat'' = None" and "\<not> list_ex (\<lambda>s. so_channel s = channelId) (db_stops db)"
    and "(scope = ChannelStop) = (channelId \<noteq> None)"
  shows "handleSetAutoreplyStop None True scope channelId now db = (db, Some COLLAB_UNAVAILABLE)"
  using assms by (cases scope) (auto simp: handleSetAutoreplyStop_def setAutoreplyStop_def)

theorem stop_needs_resolved_operator_witness:
  "handleSetAutoreplyStop None True GlobalStop None 9 turn_db = (turn_db, Some COLLAB_UNAVAILABLE)"
  by (rule stop_needs_resolved_operator) (simp_all add: turn_eval)
end
