(* ===== verification/Collab_Consent.thy ===== *)
theory Collab_Consent
  imports Collab_Participation
begin

text \<open>
  The persona of an agent and the consent bound to it: every turn carries an envelope that validates,
  an agent on an external account starts by itself only under consent for the persona and model it has
  now, and provisioning creates an agent whole or not at all.
\<close>

subsection \<open>Envelopes\<close>

lemma dropWhile_done: "dropWhile P xs = xs \<longleftrightarrow> xs = [] \<or> \<not> P (hd xs)"
proof (cases xs)
  case (Cons y ys)
  have "dropWhile P ys \<noteq> y # ys"
  proof
    assume "dropWhile P ys = y # ys"
    then have "length (dropWhile P ys) = Suc (length ys)" by simp
    with length_dropWhile_le [of P ys] show False by simp
  qed
  then show ?thesis using Cons by simp
qed simp

lemma dropWhile_again: "dropWhile P (dropWhile P xs) = dropWhile P xs"
  by (induction xs) auto

lemma trim_cp_idem: "trim_cp (trim_cp t) = trim_cp t"
proof -
  let ?u = "dropWhile js_space t"
  let ?v = "rev (dropWhile js_space (rev ?u))"
  have u: "?u = ?v @ rev (takeWhile js_space (rev ?u))"
    by (metis rev_append rev_rev_ident takeWhile_dropWhile_id)
  have "dropWhile js_space ?v = ?v"
  proof (cases "?v = []")
    case False
    then have "hd ?v = hd ?u" and "?u \<noteq> []" using u by (metis hd_append2, metis append_is_Nil_conv)
    then show ?thesis using dropWhile_again [of js_space t] by (simp only: dropWhile_done) simp
  next
    case True
    then show ?thesis by (simp only: dropWhile.simps)
  qed
  then show ?thesis by (simp only: trim_cp_def rev_rev_ident dropWhile_again)
qed

definition nfc_stable :: "platform \<Rightarrow> bool" where
  "nfc_stable pf \<longleftrightarrow> (\<forall>s. pf_nfc pf (trim_cp (pf_nfc pf s)) = trim_cp (pf_nfc pf s))"

lemma directives_stable:
  "nfc_stable pf \<Longrightarrow> normalizeSystemDirectives pf raw = Some t \<Longrightarrow> normalizeSystemDirectives pf t = Some t"
  by (auto simp: normalizeSystemDirectives_def Let_def nfc_stable_def trim_cp_idem split: if_splits)

lemma minted_valid:
  assumes "nfc_stable pf" and "mintPersonaEnvelope pf raw revision = Inr e"
  shows "validatePersonaEnvelope pf (envelope_fields e) = Inr e"
proof -
  obtain t where t: "normalizeSystemDirectives pf raw = Some t"
    using assms(2) by (auto simp: mintPersonaEnvelope_def split: option.splits)
  note again = directives_stable [OF assms(1) t]
  show ?thesis using assms(2) t again
    by (auto simp: mintPersonaEnvelope_def validatePersonaEnvelope_def envelope_fields_def split: if_splits)
qed

text \<open>The type of the persona columns: all four absent, or an envelope that validates.\<close>

definition persona_typed :: "platform \<Rightarrow> TurnRow \<Rightarrow> bool" where
  "persona_typed pf t \<longleftrightarrow> tu_persona t = no_persona
     \<or> (case validatePersonaEnvelope pf (tu_persona t) of Inl e \<Rightarrow> False | Inr e \<Rightarrow> tu_persona t = envelope_fields e)"

lemma typed_new: "nfc_stable pf \<Longrightarrow> new_turn pf db t \<Longrightarrow> persona_typed pf t"
  by (auto simp: new_turn_def persona_typed_def minted_valid)

lemma typed_update:
  "\<forall>t. tu_persona (f t) = tu_persona t \<Longrightarrow> list_all (persona_typed pf) ts \<Longrightarrow>
   list_all (persona_typed pf) (tbl_update P f ts)"
proof -
  assume f: "\<forall>t. tu_persona (f t) = tu_persona t" and ts: "list_all (persona_typed pf) ts"
  have "persona_typed pf (f t) = persona_typed pf t" for t using spec [OF f, of t] by (simp only: persona_typed_def)
  then show ?thesis using ts by (auto simp: tbl_update_def list_all_iff)
qed

lemma typed_step:
  assumes "nfc_stable pf" and "turns_ok db" and "list_all (persona_typed pf) (db_turns db)"
  shows "list_all (persona_typed pf) (db_turns (store_step pf op db))"
proof (rule commit_not_plain [of pf db op])
  assume "plain_step pf db (store_step pf op db)"
  then consider (update) P f where "plain_update P f" "db_turns (store_step pf op db) = tbl_update P f (db_turns db)"
    | (new) t where "new_turn pf db t" "db_turns (store_step pf op db) = db_turns db @ [t]"
    by (auto simp: plain_step_def)
  then show ?thesis
  proof cases
    case update
    let ?g = "\<lambda>t. if P t then f t else t"
    have "db_turns (store_step pf op db) = tbl_update (\<lambda>_. True) ?g (db_turns db)"
      using update(2) by (simp add: tbl_update_def)
    moreover have "\<forall>t. tu_persona (?g t) = tu_persona t"
      using update(1) unfolding plain_update_def turn_evolves_def by blast
    ultimately show ?thesis using typed_update [of ?g pf "db_turns db" "\<lambda>_. True"] assms(3) by simp
  next
    case new
    then show ?thesis using typed_new [OF assms(1)] assms(3) by simp
  qed
next
  fix en b b' x r db'
  assume tx: "commit_turn_tx pf en b' x db = Inr (r, db')" "\<not> cm_replayed r" and step: "store_step pf op db = db'"
  obtain e where "db_turns db' = tbl_update (\<lambda>t. turn_key t = commit_id b') (bind_output (en_uuid en 0) (ci_kind b')) (db_turns db)"
    by (rule fresh_commit_turns [OF assms(2) tx]) blast
  then show ?thesis using step assms(3) typed_update [of "bind_output (en_uuid en 0) (ci_kind b')"] by (simp add: bind_output_def)
qed

lemma typed_store:
  "nfc_stable pf \<Longrightarrow> turns_ok db \<Longrightarrow> list_all (persona_typed pf) (db_turns db) \<Longrightarrow>
   list_all (persona_typed pf) (db_turns (fold (store_step pf) ops db))"
  by (induction ops arbitrary: db) (simp_all add: typed_step turns_ok_step)

text \<open>
  C37. The persona columns are well typed. When normalizing a trimmed normalized text changes nothing,
  after any history every turn either carries no persona at all, as the turns from before personas do,
  or four columns that validate and are exactly an envelope; no claim or commit ever meets a turn it
  cannot read.
\<close>

theorem turn_personas_typed:
  assumes "nfc_stable pf"
  shows "list_all (persona_typed pf) (db_turns (fold (store_step pf) ops (fresh_db ps cs)))"
  using assms by (rule typed_store) (simp_all add: fresh_db_def turns_ok_def key_unique_def map_filter_simps)

theorem turn_personas_typed_witness:
  "list_all (persona_typed demo_pf) (db_turns (fold (store_step demo_pf) [Turn (ClaimBare (\<lambda>_. False)
     \<lparr>ti_channel = ''c'', ti_agent = ''a'', ti_seq = 1, ti_trigger = ''m''\<rparr> 5)] (fresh_db [demo_operator] [])))"
  by (rule turn_personas_typed) (simp add: nfc_stable_def demo_pf_def trim_cp_idem)

subsection \<open>Consent\<close>

text \<open>A profile on an external account holds consent for its own account, model and current persona.\<close>

definition consented :: "platform \<Rightarrow> collab_db \<Rightarrow> RuntimeProfileRow \<Rightarrow> bool" where
  "consented pf db r \<longleftrightarrow> rp_confirmed r \<and> rp_xAccount r = Some (rp_account r) \<and> rp_xModel r = Some (rp_model r)
     \<and> rp_xRevision r = Some (fst (derived_persona pf db (rp_agent r)))
     \<and> rp_xSha r = Some (snd (derived_persona pf db (rp_agent r)))"

definition consent_row :: "platform \<Rightarrow> collab_db \<Rightarrow> RuntimeProfileRow \<Rightarrow> bool" where
  "consent_row pf db r \<longleftrightarrow> rp_account r = local_account
     \<or> ((rp_autostart r \<longrightarrow> rp_confirmed r) \<and> (rp_confirmed r \<longrightarrow> consented pf db r))"

definition consent_ok :: "platform \<Rightarrow> collab_db \<Rightarrow> bool" where
  "consent_ok pf db \<longleftrightarrow> list_all (consent_row pf db) (db_profiles db)"

lemma consent_same_persona: "db_personas db' = db_personas db \<Longrightarrow> consent_row pf db' r = consent_row pf db r"
  by (simp add: consent_row_def consented_def derived_persona_def persona_row_def)

lemma consent_same: "profiles_same db db' \<Longrightarrow> consent_ok pf db \<Longrightarrow> consent_ok pf db'"
  using consent_same_persona [of db' db pf] by (simp add: profiles_same_def consent_ok_def list_all_iff)

lemma consent_update:
  assumes "consent_ok pf db" and "db_personas db' = db_personas db"
    and "db_profiles db' = tbl_update P f (db_profiles db)"
    and "\<And>r. P r \<Longrightarrow> consent_row pf db r \<Longrightarrow> consent_row pf db (f r)"
  shows "consent_ok pf db'"
  using assms(1,4) unfolding consent_ok_def assms(3) consent_same_persona [OF assms(2)]
  by (auto simp: tbl_update_def list_all_iff)

lemma consent_append:
  assumes "consent_ok pf db" and "db_personas db' = db_personas db"
    and "db_profiles db' = db_profiles db @ [r]" and "consent_row pf db r"
  shows "consent_ok pf db'"
  using assms unfolding consent_ok_def consent_same_persona [OF assms(2)] by simp

text \<open>A profile edit stores consent only for the persona as it stands.\<close>

lemma upsertProfile_consent:
  assumes "consent_ok pf db" and "upsertProfile_tx pf en p b db = Inr (r, red, db')"
    and "pb_autostart b \<longrightarrow> pb_account b = local_account \<or> pb_confirmed b"
  shows "consent_ok pf db'"
proof -
  define row where "row = stored_profile p b (case profile_row db p of None \<Rightarrow> en_clock en 0 | Some r \<Rightarrow> rp_createdAt r) (en_clock en 0)"
  have guard: "\<not> (pb_confirmed b \<and> pb_account b \<noteq> local_account \<and> (pb_revision b \<noteq> Some (fst (derived_persona pf db p))
      \<or> pb_sha b \<noteq> Some (snd (derived_persona pf db p))))"
    and db': "db' = set_profiles (\<lambda>t. if profile_row db p = None then t @ [row]
        else tbl_update (\<lambda>r. rp_agent r = p) (\<lambda>_. row) t) db"
    using assms(2) unfolding row_def by (auto simp: upsertProfile_tx_def Let_def split: if_splits)
  have row: "consent_row pf db row"
    using guard assms(3) by (auto simp: row_def stored_profile_def Let_def consent_row_def consented_def)
  show ?thesis
  proof (cases "profile_row db p = None")
    case True
    then show ?thesis using assms(1) row db' by (intro consent_append [of pf db db' row]) (simp_all add: set_profiles_def)
  next
    case False
    have "db_profiles db' = tbl_update (\<lambda>r. rp_agent r = p) (\<lambda>_. row) (db_profiles db)"
      using False unfolding db' set_profiles_def by (simp del: not_None_eq)
    then show ?thesis using assms(1) row db'
      by (intro consent_update [of pf db db' "\<lambda>r. rp_agent r = p" "\<lambda>_. row"]) (simp_all add: set_profiles_def)
  qed
qed

lemma autostart_consent:
  assumes "consent_ok pf db" and "autostart_tx en p autostart db = Inr (r, red, db')"
  shows "consent_ok pf db'"
proof -
  have "db' = set_profiles (tbl_update (\<lambda>r. rp_agent r = p \<and> rp_account r = local_account)
      (\<lambda>r. r\<lparr>rp_autostart := autostart, rp_updatedAt := en_clock en 0\<rparr>)) db"
    using assms(2) by (auto simp: autostart_tx_def Let_def split: option.splits if_splits)
  then show ?thesis using assms(1)
    by (intro consent_update [of pf db db' "\<lambda>r. rp_agent r = p \<and> rp_account r = local_account"
          "\<lambda>r. r\<lparr>rp_autostart := autostart, rp_updatedAt := en_clock en 0\<rparr>"])
       (simp_all add: set_profiles_def consent_row_def)
qed

text \<open>A new persona of an agent first takes the consent away, then gives it for what was stored.\<close>

lemma persona_revision_row:
  assumes "persona_revision p b now db = Inr (revision, createdAt, db1)"
  shows "derived_persona pf db1 p = (if qb_directives b = [] then 0 else revision, sha_hex pf (qb_directives b))"
    and "q \<noteq> p \<Longrightarrow> derived_persona pf db1 q = derived_persona pf db q"
    and "db_profiles db1 = db_profiles db"
proof -
  let ?new = "\<lparr>ps_agent = p, ps_icon = qb_icon b, ps_directives = qb_directives b, ps_revision = 1,
    ps_createdAt = now, ps_updatedAt = now\<rparr>"
  let ?hit = "\<lambda>r. ps_agent r = p \<and> ps_revision r = qb_expected b"
  let ?f = "\<lambda>r. r\<lparr>ps_icon := qb_icon b, ps_directives := qb_directives b, ps_revision := ps_revision r + 1, ps_updatedAt := now\<rparr>"
  consider (create) "persona_row db p = None" "revision = 1" "db1 = db\<lparr>db_personas := db_personas db @ [?new]\<rparr>"
    | (edit) old where "persona_row db p = Some old" "revision = qb_expected b + 1" "qb_expected b = ps_revision old"
        "db1 = db\<lparr>db_personas := tbl_update ?hit ?f (db_personas db)\<rparr>"
    using assms by (auto simp: persona_revision_def Let_def split: option.splits if_splits)
  then have rows: "(\<exists>s. persona_row db1 p = Some s \<and> ps_directives s = qb_directives b \<and> ps_revision s = revision)
    \<and> (\<forall>q. q \<noteq> p \<longrightarrow> persona_row db1 q = persona_row db q) \<and> db_profiles db1 = db_profiles db"
  proof cases
    case create
    then show ?thesis by (auto simp: persona_row_def tbl_get_snoc split: option.splits)
  next
    case (edit old)
    have row: "persona_row db1 q = map_option (\<lambda>r. if ?hit r then ?f r else r) (persona_row db q)" for q
      using edit(4) by (simp add: persona_row_def tbl_get_tbl_update)
    have agent: "ps_agent r = q" if "persona_row db q = Some r" for q r
      using that by (auto simp: persona_row_def dest: tbl_get_Some)
    have "persona_row db1 p = Some (?f old)" using row [of p] edit(1,3) agent [OF edit(1)] by simp
    moreover have "persona_row db1 q = persona_row db q" if "q \<noteq> p" for q
      using row [of q] agent [of q] that by (cases "persona_row db q") auto
    ultimately show ?thesis using edit(2-4) by simp
  qed
  then show "derived_persona pf db1 p = (if qb_directives b = [] then 0 else revision, sha_hex pf (qb_directives b))"
    and "q \<noteq> p \<Longrightarrow> derived_persona pf db1 q = derived_persona pf db q"
    and "db_profiles db1 = db_profiles db"
    by (auto simp: derived_persona_def)
qed

lemma persona_consent:
  assumes "consent_ok pf db" and "upsertPersona_tx pf en p b db = Inr (r, red, db')"
  shows "consent_ok pf db'"
proof -
  obtain revision createdAt db1 where rev: "persona_revision p b (en_clock en 0) db = Inr (revision, createdAt, db1)"
    using assms(2) by (auto simp: upsertPersona_tx_def Let_def split: sum.splits)
  let ?db2 = "set_profiles (tbl_update (external p) (drop_consent (en_clock en 0))) db1"
  let ?give = "give_consent (qb_fingerprint b) (qb_exactModel b) (if qb_directives b = [] then 0 else revision)
    (sha_hex pf (qb_directives b)) (en_clock en 0)"
  note pers = persona_revision_row [OF rev]
  have derived: "derived_persona pf ?db2 q = derived_persona pf db1 q"
    "derived_persona pf (set_profiles f db1) q = derived_persona pf db1 q" for q f
    by (simp_all add: derived_persona_def persona_row_def set_profiles_def)
  have ok2: "consent_row pf ?db2 u" if u: "u \<in> set (db_profiles ?db2)" for u
  proof -
    obtain v where v: "v \<in> set (db_profiles db)" "u = (if external p v then drop_consent (en_clock en 0) v else v)"
      using u pers(3) by (auto simp: set_profiles_def elim: in_tbl_update)
    have v_ok: "consent_row pf db v" using assms(1) v(1) by (simp add: consent_ok_def list_all_iff)
    show ?thesis
    proof (cases "external p v")
      case True
      then show ?thesis using v(2) by (simp add: consent_row_def drop_consent_def)
    next
      case False
      then have "rp_account v = local_account \<or> rp_agent v \<noteq> p" by (auto simp: external_def)
      then show ?thesis using v_ok v(2) False pers(2) [of "rp_agent v" pf] derived(1)
        by (auto simp: consent_row_def consented_def)
    qed
  qed
  have "db' = ?db2 \<or> db' = set_profiles (tbl_update (external p) ?give) ?db2"
    using assms(2) rev by (auto simp: upsertPersona_tx_def Let_def split: if_splits option.splits)
  then show ?thesis
  proof
    assume "db' = ?db2"
    then show ?thesis using ok2 by (simp add: consent_ok_def list_all_iff)
  next
    assume db': "db' = set_profiles (tbl_update (external p) ?give) ?db2"
    have "consent_row pf db' u" if u: "u \<in> set (db_profiles db')" for u
    proof -
      obtain v where v: "v \<in> set (db_profiles ?db2)" "u = (if external p v then ?give v else v)"
        using u db' by (auto simp: set_profiles_def elim: in_tbl_update)
      have same: "consent_row pf db' w = consent_row pf ?db2 w" for w
        by (rule consent_same_persona) (simp add: db' set_profiles_def)
      show ?thesis
      proof (cases "external p v")
        case True
        have "derived_persona pf db' q = derived_persona pf db1 q" for q
          by (simp add: db' derived_persona_def persona_row_def set_profiles_def)
        with True show ?thesis using v(2) pers(1) [of pf]
          by (simp add: consent_row_def consented_def give_consent_def external_def)
      next
        case False
        then show ?thesis using v same ok2 by simp
      qed
    qed
    then show ?thesis by (simp add: consent_ok_def list_all_iff)
  qed
qed

lemma consent_results: "consent_ok pf (db\<lparr>db_results := x\<rparr>) = consent_ok pf db"
  using consent_same_persona [of "db\<lparr>db_results := x\<rparr>" db pf] by (simp add: consent_ok_def list_all_iff)

lemma keyed_consent:
  assumes "consent_ok pf db" and "\<And>r red db'. fn db = Inr (r, red, db') \<Longrightarrow> consent_ok pf db'"
  shows "consent_ok pf (fst (runKeyedCommand pf p cmd key body predicate fn db))"
  by (rule runKeyedCommand_cases [of pf p cmd key body predicate fn db]) (use assms in \<open>auto simp: consent_results\<close>)

lemma provision_consent:
  assumes "consent_ok pf db" and "provision_tx en caller name b channels db = Inr (r, red, db')"
    and "pb_account b = local_account \<or> \<not> pb_autostart b \<and> \<not> pb_confirmed b"
  shows "consent_ok pf db'"
proof -
  obtain operator :: PrincipalRow and db1 where mem: "provision_members en caller (en_uuid en 0) 0 channels
      (provision_start en name b (pr_id operator) db) = Inr db1"
    and new: "profile_row db (en_uuid en 0) = None"
    and db': "db' = provision_finish (en_uuid en 0) (pb_autostart b) (en_clock en (1 + 2 * length channels)) db1"
    by (rule provision_tx_cases [OF assms(2)]) blast
  let ?row = "stored_profile (en_uuid en 0) (b\<lparr>pb_autostart := False\<rparr>) (en_clock en 0) (en_clock en 0)"
  let ?f = "\<lambda>r. r\<lparr>rp_autostart := pb_autostart b, rp_updatedAt := en_clock en (1 + 2 * length channels)\<rparr>"
  have same: "db_profiles db1 = db_profiles db @ [?row]" "db_personas db1 = db_personas db"
    using provision_members_frame [OF mem] by (simp_all add: provision_start_def set_profiles_def frame_defs)
  have others: "\<forall>r \<in> set (db_profiles db). rp_agent r \<noteq> en_uuid en 0"
    using new by (simp add: profile_row_def tbl_get_None)
  have profiles: "db_profiles db' = db_profiles db @ [?f ?row]"
  proof -
    have "tbl_update (\<lambda>r. rp_agent r = en_uuid en 0) ?f (db_profiles db) = db_profiles db"
      using others by (intro tbl_update_unchanged) (simp add: tbl_changes_0)
    then show ?thesis
      by (simp add: db' provision_finish_def set_profiles_def same(1)) (simp add: tbl_update_def stored_profile_def Let_def)
  qed
  have row: "consent_row pf db (?f ?row)"
    using assms(3) by (auto simp: consent_row_def stored_profile_def Let_def)
  show ?thesis using assms(1) profiles row same(2)
    by (intro consent_append [of pf db db' "?f ?row"]) (simp_all add: db' provision_finish_def set_profiles_def)
qed

lemma consent_profile_step: "consent_ok pf db \<Longrightarrow> consent_ok pf (profile_step pf op db)"
proof (cases op)
  case (Provision en caller name b channels key delegate)
  assume ok: "consent_ok pf db"
  show ?thesis
    by (rule provision_step_cases [of pf en caller name b channels key delegate db])
       (use ok Provision provision_consent in \<open>auto simp: consent_results\<close>)
next
  case (UpsertProfile en caller p b key)
  assume ok: "consent_ok pf db"
  show ?thesis
  proof (cases "profile_step pf op db = db")
    case False
    then obtain p' b' where n: "normalizeRuntimeIdentifier p = Some p'" "normalize_profile b = Some b'"
      using UpsertProfile by (auto simp: upsertAgentRuntimeProfile_def split: option.splits)
    have c: "pb_autostart b' \<longrightarrow> pb_account b' = local_account \<or> pb_confirmed b'"
      and run: "profile_step pf op db = fst (runKeyedCommand pf caller UPSERT_AGENT_RUNTIME_PROFILE_CMD key
        (JObj ((cps ''agentPrincipalId'', JStr (cps p')) # profile_members b'))
        (owned_predicate caller True p') (upsertProfile_tx pf en p' b') db)"
      using False UpsertProfile n by (auto simp: upsertAgentRuntimeProfile_def split: if_splits)
    show ?thesis unfolding run by (rule keyed_consent [OF ok upsertProfile_consent [OF ok _ c]])
  qed (simp add: ok)
next
  case (UpsertPersona en caller p b key delegate)
  assume ok: "consent_ok pf db"
  show ?thesis using UpsertPersona keyed_consent [OF ok persona_consent [OF ok]] ok
    by (simp add: upsertAgentPersona_def Let_def split: option.split)
next
  case (SetAutostart en caller p autostart key delegate)
  assume ok: "consent_ok pf db"
  show ?thesis using SetAutostart keyed_consent [OF ok autostart_consent [OF ok]] ok
    by (simp add: setLocalAgentAutostart_def split: option.split)
qed

lemma consent_store_step: "consent_ok pf db \<Longrightarrow> consent_ok pf (store_step pf op db)"
proof (cases op)
  case (Core o1)
  assume "consent_ok pf db"
  moreover have "profiles_same db (collab_step pf o1 db)"
    using collab_step_frame [of db pf o1] by (simp add: core_frame_def participation_same_def profiles_same_def)
  ultimately show ?thesis using Core consent_same by simp
next
  case (Turn o1)
  assume "consent_ok pf db"
  then show ?thesis using Turn turn_frame [of db pf o1] consent_same by auto
next
  case (Cron o1)
  assume "consent_ok pf db"
  then show ?thesis using Cron cron_frame [of db o1] consent_same by auto
next
  case (Job o1)
  assume "consent_ok pf db"
  then show ?thesis using Job job_frame [of db pf o1] consent_same by auto
next
  case (Profile o1)
  assume "consent_ok pf db"
  then show ?thesis using Profile consent_profile_step by simp
qed

lemma consent_store: "consent_ok pf db \<Longrightarrow> consent_ok pf (fold (store_step pf) ops db)"
  by (induction ops arbitrary: db) (simp_all add: consent_store_step)

lemma consent_fresh: "consent_ok pf (fresh_db ps cs)"
  by (simp add: consent_ok_def fresh_db_def)

text \<open>
  C10. External work needs current consent. After any history, an agent whose profile names an account
  other than the local one starts by itself only while its consent is confirmed, and a confirmed
  consent names exactly the account and model of the profile and the revision and digest of the
  persona the agent has now: a changed persona or model takes consent and autostart away.
\<close>

theorem external_consent_current:
  "let db = fold (store_step pf) ops (fresh_db ps cs) in
     list_all (\<lambda>r. rp_account r = ''ollama-local''
       \<or> ((rp_autostart r \<longrightarrow> rp_confirmed r)
          \<and> (rp_confirmed r \<longrightarrow> rp_xAccount r = Some (rp_account r) \<and> rp_xModel r = Some (rp_model r)
               \<and> rp_xRevision r = Some (fst (derived_persona pf db (rp_agent r)))
               \<and> rp_xSha r = Some (snd (derived_persona pf db (rp_agent r)))))) (db_profiles db)"
proof -
  have "consent_ok pf (fold (store_step pf) ops (fresh_db ps cs))" by (rule consent_store [OF consent_fresh])
  then show ?thesis
    unfolding Let_def consent_ok_def consent_row_def consented_def local_account_def by (auto simp: list_all_iff)
qed

theorem external_consent_current_witness:
  "list_all (\<lambda>r. rp_account r = ''ollama-local'' \<or> \<not> rp_autostart r \<or> rp_confirmed r)
     (db_profiles (store_step demo_pf (Profile (Provision (demo_env ''x'') ''o'' [97]
        \<lparr>pb_account = ''cloud'', pb_adapter = ''ollama'', pb_model = ''m'', pb_autostart = False,
         pb_confirmed = False, pb_fingerprint = None, pb_exactModel = None, pb_revision = None, pb_sha = None\<rparr>
        [] ''k'' True)) (fresh_db [demo_operator] [])))"
  using external_consent_current [of demo_pf "[Profile (Provision (demo_env ''x'') ''o'' [97]
        \<lparr>pb_account = ''cloud'', pb_adapter = ''ollama'', pb_model = ''m'', pb_autostart = False,
         pb_confirmed = False, pb_fingerprint = None, pb_exactModel = None, pb_revision = None, pb_sha = None\<rparr>
        [] ''k'' True)]" "[demo_operator]" "[]"]
  by (auto simp: Let_def list_all_iff simp del: profile_step.simps)

subsection \<open>Provisioning\<close>

lemma provision_members_rows:
  "provision_members en caller agent k cs db = Inr db' \<Longrightarrow>
   (\<forall>c \<in> set cs. \<exists>m. member_row db' c agent = Some m \<and> mb_state m = MActive \<and> mb_role m = AgentRole)
   \<and> (\<forall>c p m. member_row db c p = Some m \<longrightarrow> member_row db' c p = Some m)
   \<and> length (db_events db') = length (db_events db) + length cs"
proof (induction en caller agent k cs db arbitrary: db' rule: provision_members.induct)
  case (2 en caller agent k c cs db)
  let ?m = "\<lparr>mb_channel = c, mb_principal = agent, mb_role = AgentRole, mb_state = MActive,
     mb_epoch = 1, mb_rejoinedSeq = getMaxChannelSeq db c,
     mb_joinedAt = en_clock en (1 + 2 * k), mb_removedAt = None\<rparr>"
  let ?db1 = "db\<lparr>db_members := db_members db @ [?m]\<rparr>"
  obtain ch db2 where ch: "channel_row db c = Some ch" and fresh: "member_row db c agent = None"
    and ev: "append_event (en_uuid en (1 + k)) c caller member_added (member_content c agent 1)
      (en_clock en (2 + 2 * k)) ?db1 = Some db2"
    and rest: "provision_members en caller agent (Suc k) cs db2 = Inr db'"
    using "2.prems" by (auto split: option.splits if_splits)
  have members: "db_members db2 = db_members db @ [?m]" and events: "length (db_events db2) = Suc (length (db_events db))"
    using ev by (auto simp: append_event_def insert_event_def split: if_splits)
  have "member_row db2 c agent = Some ?m" using fresh members
    by (simp add: member_row_def tbl_get_snoc member_key_def)
  moreover have "member_row db2 d p = Some m" if "member_row db d p = Some m" for d p m
    using that members by (simp add: member_row_def tbl_get_snoc)
  ultimately show ?case using "2.IH" [OF ch _ ev rest] fresh events by auto
qed simp

lemma provision_result:
  assumes "provision_tx en caller name b cs db = Inr (r, red, db')"
  shows "principal_row db (en_uuid en 0) = None"
    and "\<exists>p. principal_row db' (en_uuid en 0) = Some p \<and> pr_kind p = AgentKind \<and> pr_status p = PActive"
    and "\<exists>rp. profile_row db' (en_uuid en 0) = Some rp \<and> rp_account rp = pb_account b \<and> rp_autostart rp = pb_autostart b"
    and "\<forall>c \<in> set cs. \<exists>m. member_row db' c (en_uuid en 0) = Some m \<and> mb_state m = MActive"
    and "length (db_events db') = length (db_events db) + length cs"
proof -
  obtain operator :: PrincipalRow and db1 where new: "principal_row db (en_uuid en 0) = None" "profile_row db (en_uuid en 0) = None"
    and mem: "provision_members en caller (en_uuid en 0) 0 cs (provision_start en name b (pr_id operator) db) = Inr db1"
    and db': "db' = provision_finish (en_uuid en 0) (pb_autostart b) (en_clock en (1 + 2 * length cs)) db1"
    by (rule provision_tx_cases [OF assms]) blast
  show "principal_row db (en_uuid en 0) = None" by (rule new(1))
  note rows = provision_members_rows [OF mem]
  have p: "principal_row db1 (en_uuid en 0) = Some (provisioned_row (en_uuid en 0) name (pr_id operator))"
    using new(1) provision_members_frame [OF mem]
    by (simp add: principal_row_def provision_start_def set_profiles_def tbl_get_snoc) (simp add: provisioned_row_def)
  have rp: "profile_row db1 (en_uuid en 0)
      = Some (stored_profile (en_uuid en 0) (b\<lparr>pb_autostart := False\<rparr>) (en_clock en 0) (en_clock en 0))"
    using new(2) provision_members_frame [OF mem]
    by (simp add: profile_row_def provision_start_def set_profiles_def frame_defs tbl_get_snoc)
       (simp add: stored_profile_def Let_def)
  show "\<exists>p. principal_row db' (en_uuid en 0) = Some p \<and> pr_kind p = AgentKind \<and> pr_status p = PActive"
    using p by (simp add: db' provision_finish_def set_profiles_def principal_row_def tbl_get_tbl_update)
       (simp add: provisioned_row_def)
  show "\<exists>rp. profile_row db' (en_uuid en 0) = Some rp \<and> rp_account rp = pb_account b \<and> rp_autostart rp = pb_autostart b"
    using rp by (simp add: db' provision_finish_def set_profiles_def profile_row_def tbl_get_tbl_update)
       (simp add: stored_profile_def Let_def)
  show "\<forall>c \<in> set cs. \<exists>m. member_row db' c (en_uuid en 0) = Some m \<and> mb_state m = MActive"
    using rows by (auto simp: db' provision_finish_def set_profiles_def member_row_def)
  show "length (db_events db') = length (db_events db) + length cs"
    using rows by (simp add: db' provision_finish_def set_profiles_def provision_start_def)
qed

text \<open>
  C34. Provisioning is all or nothing. A provisioning command that fails leaves the database as it
  was. One that changes it leaves a new, active agent with a profile on the account asked for,
  started automatically exactly as asked, an active membership in every channel named and one
  membership event for each, a channel named twice counting once.
\<close>

theorem provision_all_or_nothing:
  assumes "provisionAgent pf en caller name b channels key delegate db = (db', result)"
    and "those (map normalizeRuntimeIdentifier channels) = Some ids"
  shows "((\<exists>e. result = Inl e) \<longrightarrow> db' = db)
    \<and> (db' = db \<or>
       (principal_row db (en_uuid en 0) = None
        \<and> (\<exists>p. principal_row db' (en_uuid en 0) = Some p \<and> pr_kind p = AgentKind \<and> pr_status p = PActive)
        \<and> (\<exists>rp. profile_row db' (en_uuid en 0) = Some rp \<and> normalizeRuntimeIdentifier (pb_account b) = Some (rp_account rp)
              \<and> rp_autostart rp = pb_autostart b)
        \<and> list_all (\<lambda>c. \<exists>m. member_row db' c (en_uuid en 0) = Some m \<and> mb_state m = MActive) ids
        \<and> length (db_events db') = length (db_events db) + card (set ids)))"
proof (cases "normalizeName (pf_nfc pf) name = None \<or> normalize_profile b = None")
  case True
  then show ?thesis using assms by (auto simp: provisionAgent_def split: option.splits)
next
  case False
  then obtain name' b' where n: "normalizeName (pf_nfc pf) name = Some name'" "normalize_profile b = Some b'" by auto
  have b': "normalizeRuntimeIdentifier (pb_account b) = Some (pb_account b')" "pb_autostart b' = pb_autostart b"
    using n(2) by (auto simp: normalize_profile_def split: option.splits)
  let ?cs = "js_unique ids"
  have cs: "set ?cs = set ids" "length ?cs = card (set ids)"
    by (simp_all add: js_unique_def length_remdups_card_conv)
  let ?body = "JObj ((cps ''displayName'', JStr name') # profile_members b'
    @ [(cps ''channelIds'', JArr (map (\<lambda>c. Some (JStr (cps c))) ?cs))])"
  consider (refused) e where "db' = db" "result = Inl e"
    | (keyed) "runKeyedCommand pf caller PROVISION_AGENT_CMD key ?body
        (provision_predicate caller delegate ?cs) (provision_tx en caller name' b' ?cs) db = (db', result)"
    using assms n by (auto simp: provisionAgent_def Let_def split: if_splits)
  then show ?thesis
  proof cases
    case refused
    then show ?thesis by simp
  next
    case keyed
    show ?thesis
    proof (rule runKeyedCommand_cases [of pf caller PROVISION_AGENT_CMD key ?body "provision_predicate caller delegate ?cs"
          "provision_tx en caller name' b' ?cs" db])
      fix hash r red d
      assume tx: "provision_tx en caller name' b' ?cs db = Inr (r, red, d)"
        and "runKeyedCommand pf caller PROVISION_AGENT_CMD key ?body (provision_predicate caller delegate ?cs)
          (provision_tx en caller name' b' ?cs) db = (d\<lparr>db_results := db_results d @
             [\<lparr>mr_principal = caller, mr_command = PROVISION_AGENT_CMD, mr_key = key, mr_hash = hash, mr_result = red\<rparr>]\<rparr>, Inr r)"
      then have d: "db' = d\<lparr>db_results := db_results d @
             [\<lparr>mr_principal = caller, mr_command = PROVISION_AGENT_CMD, mr_key = key, mr_hash = hash, mr_result = red\<rparr>]\<rparr>"
        and res: "result = Inr r" using keyed by simp_all
      have rows: "principal_row db' = principal_row d" "profile_row db' = profile_row d" "member_row db' = member_row d"
        by (simp_all add: d fun_eq_iff principal_row_def profile_row_def member_row_def)
      show ?thesis using provision_result [OF tx] res cs b' unfolding rows
        by (auto simp: d list_all_iff)
    qed (use keyed in simp_all)
  qed
qed

definition demo_body :: profile_body where
  "demo_body = \<lparr>pb_account = ''ollama-local'', pb_adapter = ''ollama'', pb_model = ''m'', pb_autostart = True,
     pb_confirmed = False, pb_fingerprint = None, pb_exactModel = None, pb_revision = None, pb_sha = None\<rparr>"


lemma demo_provision_tx:
  "\<exists>r red d. provision_tx (demo_env ''p'') ''o'' [97] demo_body [''c''] turn_db = Inr (r, red, d)"
proof -
  have op: "getOperatorOrThrow turn_db = Some demo_operator" "pr_id demo_operator = ''o''"
    by (simp_all add: getOperatorOrThrow_def turn_eval)
  have new: "principal_row turn_db ''p'' = None" "profile_row turn_db ''p'' = None" by (simp_all add: turn_eval)
  let ?db = "provision_start (demo_env ''p'') [97] demo_body ''o'' turn_db"
  have c: "channel_row ?db ''c'' = Some demo_channel" "member_row ?db ''c'' ''p'' = None" "db_events ?db = []"
    by (simp_all add: provision_start_def set_profiles_def channel_row_def member_row_def)
       (simp_all add: turn_eval)
  have "getMaxChannelSeq (?db\<lparr>db_members := ms\<rparr>) ''c'' = 0" for ms
    using c(3) by (simp add: getMaxChannelSeq_def channel_events_def)
  then have "\<exists>d. provision_members (demo_env ''p'') ''o'' ''p'' 0 [''c''] ?db = Inr d"
    using c by (simp add: append_event_def insert_event_def tbl_get_def)
  then obtain d where d: "provision_members (demo_env ''p'') ''o'' ''p'' 0 [''c''] ?db = Inr d" by blast
  have env: "en_uuid (demo_env ''p'') 0 = ''p''" by (simp add: demo_env_def)
  note start = d [unfolded provision_start_def provisioned_row_def env]
  show ?thesis
    unfolding provision_tx_def Let_def op(1) option.case env op(2) start sum.case new by simp
qed

theorem provision_all_or_nothing_witness:
  "\<exists>p m. principal_row (fst (provisionAgent demo_pf (demo_env ''p'') ''o'' [97] demo_body [''c''] ''k'' True turn_db)) ''p'' = Some p
     \<and> pr_status p = PActive
     \<and> member_row (fst (provisionAgent demo_pf (demo_env ''p'') ''o'' [97] demo_body [''c''] ''k'' True turn_db)) ''c'' ''p'' = Some m
     \<and> mb_state m = MActive"
proof -
  let ?run = "provisionAgent demo_pf (demo_env ''p'') ''o'' [97] demo_body [''c''] ''k'' True turn_db"
  have ids: "those (map normalizeRuntimeIdentifier [''c'']) = Some [''c'']" by (simp add: demo_identifiers)
  have env: "en_uuid (demo_env ''p'') 0 = ''p''" by (simp add: demo_env_def)
  have body: "normalize_profile demo_body = Some demo_body" "pb_account demo_body = local_account"
    "validateExternalContextBinding demo_body"
    by (simp_all add: normalize_profile_def demo_body_def demo_identifiers local_account_def validateExternalContextBinding_def)
  have name: "normalizeName (pf_nfc demo_pf) [97] = Some [97]"
    by (simp add: normalizeName_def demo_pf_def trim_cp_def js_space_def C0_CONTROLS_def
      C1_CONTROLS_def SEPARATOR_CHARS_def BIDI_CONTROLS_def utf8_length_def utf8_len_def)
  have pred: "provision_predicate ''o'' True [''c''] turn_db = None" "db_results turn_db = []"
    by (simp_all add: provision_predicate_def assertOperatorCaller_def assertChannelOwner_def turn_eval)
  let ?b = "JObj ((cps ''displayName'', JStr [97]) # profile_members demo_body
    @ [(cps ''channelIds'', JArr [Some (JStr (cps ''c''))])])"
  obtain h where h: "requestHash demo_pf ?b = Some h"
    using members_hashed [of "(cps ''displayName'', JStr [97]) # profile_members demo_body
      @ [(cps ''channelIds'', JArr [Some (JStr (cps ''c''))])]" demo_pf]
    by (auto simp: profile_members_def demo_body_def jstr_or_null_def jint_or_null_def)
  obtain r red d where tx: "provision_tx (demo_env ''p'') ''o'' [97] demo_body [''c''] turn_db = Inr (r, red, d)"
    using demo_provision_tx by blast
  have "length (db_events d) = 1" using provision_result(5) [OF tx] by (simp add: turn_db_rows)
  then have "length (db_events (fst ?run)) = 1"
    using ids body name pred h tx
    by (simp add: provisionAgent_def js_unique_def runKeyedCommand_def find_result_def tbl_get_def)
  then have changed: "fst ?run \<noteq> turn_db" by (auto simp: turn_db_rows)
  show ?thesis
    using provision_all_or_nothing [OF surjective_pairing ids, of demo_pf "demo_env ''p''" "''o''" "[97]" demo_body "''k''" True turn_db]
      changed by (auto simp: env)
qed
end
