(* ===== verification/Collab_Schedules.thy ===== *)
theory Collab_Schedules
  imports Collab_Participation
begin

text \<open>
  What the schedules guarantee: a fire number is claimed once, a schedule fires no faster than its
  interval, a refused wake runs nothing and says why, and a wake is admitted exactly for an agent a
  post would trigger.
\<close>

subsection \<open>The schedule columns other commands leave alone\<close>

text \<open>The schedules with their activity forgotten.\<close>

definition fire_columns :: "collab_db \<Rightarrow> AgentSchedule list" where
  "fire_columns db = map (\<lambda>s. s\<lparr>sr_active := False\<rparr>) (db_schedules db)"

lemma fire_columns_same: "db_schedules db' = db_schedules db \<Longrightarrow> fire_columns db' = fire_columns db"
  by (simp add: fire_columns_def)

lemma fire_columns_update:
  "db_schedules db' = tbl_update P f (db_schedules db) \<Longrightarrow> (\<And>s. (f s)\<lparr>sr_active := False\<rparr> = s\<lparr>sr_active := False\<rparr>) \<Longrightarrow>
   fire_columns db' = fire_columns db"
  by (auto simp: fire_columns_def tbl_update_def)

lemma channel_tx_schedules:
  "createChannel_tx pf en name db = Inr (r, red, db') \<Longrightarrow> db_schedules db' = db_schedules db"
  "setPolicy_tx en caller c policy key db = Inr (r, red, db') \<Longrightarrow> db_schedules db' = db_schedules db"
  "addMember_tx en caller c p db = Inr (r, red, db') \<Longrightarrow> db_schedules db' = db_schedules db"
  "removeMember_tx en caller c p db = Inr (r, red, db') \<Longrightarrow> db_schedules db' = db_schedules db"
  "archive_tx en caller c db = Inr (r, red, db') \<Longrightarrow> db_schedules db' = db_schedules db"
  "unarchive_tx pf en caller c db = Inr (r, red, db') \<Longrightarrow> db_schedules db' = db_schedules db"
  "post_tx en caller c msg db = Inr (r, red, db') \<Longrightarrow> db_schedules db' = db_schedules db"
  subgoal by (auto simp: createChannel_tx_def Let_def append_channel_def
      split: option.splits sum.splits if_splits dest!: event_same)
  subgoal by (auto simp: setPolicy_tx_def split: option.splits)
  subgoal by (auto simp: addMember_tx_def Let_def update_member_def split: option.splits if_splits dest!: event_same)
  subgoal by (auto simp: removeMember_tx_def Let_def update_member_def split: option.splits if_splits dest!: event_same)
  subgoal by (auto simp: archive_tx_def Let_def update_channel_def split: option.splits if_splits dest!: event_same)
  subgoal by (auto simp: unarchive_tx_def Let_def update_channel_def split: option.splits if_splits dest!: event_same)
  subgoal by (auto simp: post_tx_def Let_def split: option.splits if_splits dest!: event_same)
  done

lemma issue_schedules: "issueCredentialRow issue k p db = Some (t, db') \<Longrightarrow> db_schedules db' = db_schedules db"
  by (auto simp: issueCredentialRow_def case_prod_beta split: if_splits)

lemma agent_tx_schedules:
  "createAgent_tx issue en caller name db = Inr (r, red, db') \<Longrightarrow> fire_columns db' = fire_columns db"
  "createCredential_tx issue en caller p db = Inr (r, red, db') \<Longrightarrow> fire_columns db' = fire_columns db"
  "suspend_tx en caller p db = Inr (r, red, db') \<Longrightarrow> fire_columns db' = fire_columns db"
  "restore_tx en caller p db = Inr (r, red, db') \<Longrightarrow> fire_columns db' = fire_columns db"
  "revoke_tx en caller p db = Inr (r, red, db') \<Longrightarrow> fire_columns db' = fire_columns db"
  "rotate_tx issue en caller p k db = Inr (r, red, db') \<Longrightarrow> fire_columns db' = fire_columns db"
  "revokeCredential_tx en caller k db = Inr (r, red, db') \<Longrightarrow> fire_columns db' = fire_columns db"
  subgoal by (auto simp: createAgent_tx_def Let_def agent_effects intro!: fire_columns_same
      split: option.splits if_splits dest!: issue_schedules)
  subgoal by (auto simp: createCredential_tx_def agent_effects intro!: fire_columns_same
      split: option.splits if_splits dest!: issue_schedules)
  subgoal by (auto simp: suspend_tx_def Let_def agent_effects intro!: fire_columns_same split: sum.splits if_splits)
  subgoal by (auto simp: restore_tx_def Let_def agent_effects intro!: fire_columns_same split: sum.splits if_splits)
  subgoal by (auto simp: revoke_tx_def Let_def agent_effects intro!: fire_columns_update split: sum.splits if_splits)
  subgoal by (auto simp: rotate_tx_def Let_def agent_effects intro!: fire_columns_same
      split: option.splits if_splits dest!: issue_schedules)
  subgoal by (auto simp: revokeCredential_tx_def Let_def agent_effects intro!: fire_columns_same
      split: option.splits if_splits)
  done

lemma keyed_schedules:
  assumes "\<And>r red db'. fn db = Inr (r, red, db') \<Longrightarrow> fire_columns db' = fire_columns db"
  shows "fire_columns (fst (runKeyedCommand pf p cmd key body predicate fn db)) = fire_columns db"
  by (rule runKeyedCommand_cases [of pf p cmd key body predicate fn db])
     (use assms in \<open>auto simp: fire_columns_def\<close>)

lemma channel_schedules: "fire_columns (run_channel pf en caller cmd db) = fire_columns db"
proof (cases cmd)
  case (Ack c cursor)
  then show ?thesis
    by (auto simp: ackChannelCursor_def runNaturallyIdempotentCommand_def ack_tx_def Let_def intro!: fire_columns_same
        split: sum.splits option.splits if_splits)
qed (use keyed_schedules [OF fire_columns_same [OF channel_tx_schedules(1)]]
      keyed_schedules [OF fire_columns_same [OF channel_tx_schedules(2)]]
      keyed_schedules [OF fire_columns_same [OF channel_tx_schedules(3)]]
      keyed_schedules [OF fire_columns_same [OF channel_tx_schedules(4)]]
      keyed_schedules [OF fire_columns_same [OF channel_tx_schedules(5)]]
      keyed_schedules [OF fire_columns_same [OF channel_tx_schedules(6)]]
      keyed_schedules [OF fire_columns_same [OF channel_tx_schedules(7)]]
    in \<open>simp_all add: createChannel_def setChannelExternalExportPolicy_def addChannelMember_def
      removeChannelMember_def archiveChannel_def unarchiveChannel_def postChannelMessage_def
      split: option.split\<close>)

lemma core_schedules: "fire_columns (collab_step pf op db) = fire_columns db"
proof (cases op)
  case (ChannelOp en caller cmd)
  then show ?thesis by (simp add: channel_schedules)
next
  case (Startup checks live now)
  then show ?thesis by (auto simp: performStartup_def Let_def intro!: fire_columns_same split: option.split bool.split)
qed (use keyed_schedules [OF agent_tx_schedules(1)] keyed_schedules [OF agent_tx_schedules(2)]
      keyed_schedules [OF agent_tx_schedules(3)] keyed_schedules [OF agent_tx_schedules(4)]
      keyed_schedules [OF agent_tx_schedules(5)] keyed_schedules [OF agent_tx_schedules(6)]
      keyed_schedules [OF agent_tx_schedules(7)]
    in \<open>simp_all add: createAgent_def createPrincipalCredential_def suspendAgent_def restoreAgent_def
      revokeAgent_def rotatePrincipalCredential_def revokePrincipalCredential_def createSessionBinding_def
      closeSessionBinding_def Let_def fire_columns_def split: option.split\<close>)

lemma turn_schedules: "db_schedules (turn_step pf op db) = db_schedules db"
proof (cases op)
  case (ClaimTurn identity now)
  show ?thesis by (rule claim_cases [of pf identity now db]) (use ClaimTurn in \<open>simp_all add: update_turns_def\<close>)
next
  case (ClaimBare busy identity now)
  show ?thesis by (rule claim_bare_cases [of pf busy identity now db]) (use ClaimBare in simp_all)
next
  case (CommitTurn en b)
  show ?thesis
  proof (rule commit_cases [of pf en b db])
    fix b' x r db'
    assume tx: "commit_turn_tx pf en b' x db = Inr (r, db')" "\<not> cm_replayed r"
      and run: "commitAgentTurnOutput pf en b db = (db', Inr r)"
    from tx show ?thesis
      by (cases rule: commit_tx_cases) (use CommitTurn run in \<open>auto simp: update_turns_def dest!: event_same(2)\<close>)
  qed (use CommitTurn in simp)
next
  case (SetStop operator halt scope channelId now)
  then show ?thesis
    by (auto simp: handleSetAutoreplyStop_def setAutoreplyStop_def clearAutoreplyStop_def Let_def
        split: option.split StopScope.split if_splits)
qed (auto simp: attachDispatchRequestId_def resolveAgentTurn_def reclaimStrandedAgentTurn_def update_turns_def
    Let_def split: option.split)

lemma profile_schedules: "db_schedules (profile_step pf op db) = db_schedules db"
proof (cases op)
  case (Provision en caller name b channels key delegate)
  show ?thesis
  proof (rule provision_step_cases [of pf en caller name b channels key delegate db])
    fix name' b' cs r red db' m
    assume tx: "provision_tx en caller name' b' cs db = Inr (r, red, db')"
      and run: "profile_step pf (Provision en caller name b channels key delegate) db = db'\<lparr>db_results := db_results db' @ [m]\<rparr>"
    obtain operator :: PrincipalRow and db1 where mem: "provision_members en caller (en_uuid en 0) 0 cs
        (provision_start en name' b' (pr_id operator) db) = Inr db1"
      and db': "db' = provision_finish (en_uuid en 0) (pb_autostart b') (en_clock en (1 + 2 * length cs)) db1"
      by (rule provision_tx_cases [OF tx]) blast
    show ?thesis using provision_members_frame [OF mem] run Provision
      by (simp add: db' provision_finish_def provision_start_def set_profiles_def)
  qed (use Provision in simp)
qed (use edit_step_frame in \<open>auto simp: edit_frame_def simp del: profile_step.simps\<close>)

text \<open>So only two commands touch the fire columns: a creation appends one schedule, a claim moves one on.\<close>

definition claim_hit :: "string \<Rightarrow> nat \<Rightarrow> AgentSchedule \<Rightarrow> bool" where
  "claim_hit i n s \<longleftrightarrow> sr_id s = i \<and> sr_active s \<and> sr_nextSeq s = n"

definition moved_on :: "nat \<Rightarrow> int \<Rightarrow> int \<Rightarrow> AgentSchedule \<Rightarrow> AgentSchedule" where
  "moved_on n interval now s = s\<lparr>sr_nextSeq := n + 1, sr_nextAt := now + interval * 1000, sr_lastAt := Some now\<rparr>"

lemma claimScheduleFire_alt:
  "claimScheduleFire i n interval now db =
     (db\<lparr>db_schedules := tbl_update (claim_hit i n) (moved_on n interval now) (db_schedules db)\<rparr>,
      if tbl_changes (claim_hit i n) (db_schedules db) = 1 then Some (n + 1) else None)"
proof -
  have "(\<lambda>s. sr_id s = i \<and> sr_active s \<and> sr_nextSeq s = n) = claim_hit i n" by (simp add: fun_eq_iff claim_hit_def)
  moreover have "(\<lambda>s. s\<lparr>sr_nextSeq := n + 1, sr_nextAt := now + interval * 1000, sr_lastAt := Some now\<rparr>) = moved_on n interval now"
    by (simp add: fun_eq_iff moved_on_def)
  ultimately show ?thesis by (simp add: claimScheduleFire_def Let_def)
qed

lemma schedule_step_cases:
  obtains (same) "fire_columns (store_step pf op db) = fire_columns db"
      "\<And>i n interval now. op = Cron (ClaimFire i n interval now) \<Longrightarrow> tbl_changes (claim_hit i n) (db_schedules db) = 0"
  | (create) s where "fire_columns (store_step pf op db) = fire_columns db @ [s]" "sr_nextSeq s = 0"
      "\<forall>r \<in> set (db_schedules db). sr_id r \<noteq> sr_id s"
      "\<And>i n interval now. op \<noteq> Cron (ClaimFire i n interval now)"
  | (claim) i n interval now where "op = Cron (ClaimFire i n interval now)"
      "db_schedules (store_step pf op db) = tbl_update (claim_hit i n) (moved_on n interval now) (db_schedules db)"
proof (cases op)
  case (Core o1)
  show thesis by (rule same) (use Core core_schedules in simp_all)
next
  case (Turn o1)
  show thesis by (rule same) (use Turn fire_columns_same [OF turn_schedules] in simp_all)
next
  case (Profile o1)
  show thesis by (rule same) (use Profile fire_columns_same [OF profile_schedules] in simp_all)
next
  case (Job o1)
  have schedules: "db_schedules (job_step pf o1 db) = db_schedules db" using job_frame [of db pf o1] by simp
  show thesis by (rule same) (use Job fire_columns_same [OF schedules] in simp_all)
next
  case (Cron o1)
  show thesis
  proof (cases o1)
    case (CreateSchedule i operator c agent interval hint key now)
    show thesis
    proof (cases "db_schedules (store_step pf op db) = db_schedules db")
      case True
      show thesis by (rule same [OF fire_columns_same [OF True]]) (use Cron CreateSchedule in simp)
    next
      case False
      define creator where "creator = (case operator of None \<Rightarrow> ''operator-seat'' | Some p \<Rightarrow> p)"
      have step: "store_step pf op db = fst (handleCreateSchedule i operator c agent interval hint key now db)"
        using Cron CreateSchedule by simp
      have auth: "assertScheduleStillAuthorized db c agent = None"
        using False unfolding step handleCreateSchedule_def Let_def by (simp split: option.splits)
      obtain d x where d: "createSchedule i c agent creator interval hint key now db = Some (d, x)"
        using False auth unfolding step handleCreateSchedule_def Let_def creator_def [symmetric]
        by (cases "createSchedule i c agent creator interval hint key now db") auto
      have "store_step pf op db = d" using auth d
        unfolding step handleCreateSchedule_def Let_def creator_def [symmetric] by simp
      with False d have "tbl_get (\<lambda>s. sr_creator s = creator \<and> sr_key s = key) (db_schedules db) = None"
        by (auto simp: createSchedule_def split: option.splits)
      with d \<open>store_step pf op db = d\<close> have new: "tbl_get (\<lambda>s. sr_id s = i) (db_schedules db) = None"
        "db_schedules (store_step pf op db) = db_schedules db @
          [\<lparr>sr_id = i, sr_channel = c, sr_agent = agent, sr_creator = creator, sr_interval = interval,
            sr_hint = hint, sr_active = True, sr_nextSeq = 0, sr_nextAt = now + interval * 1000,
            sr_lastAt = None, sr_key = key\<rparr>]"
        by (auto simp: createSchedule_def split: if_splits dest: sym)
      then show thesis
        using Cron CreateSchedule
        by (intro create [of "\<lparr>sr_id = i, sr_channel = c, sr_agent = agent, sr_creator = creator, sr_interval = interval,
              sr_hint = hint, sr_active = False, sr_nextSeq = 0, sr_nextAt = now + interval * 1000,
              sr_lastAt = None, sr_key = key\<rparr>"])
           (use new in \<open>simp_all add: fire_columns_def tbl_get_None\<close>)
    qed
  next
    case (SetSchedule i active)
    then show thesis using Cron
      by (intro same) (auto simp: handleSetScheduleState_def setScheduleState_def intro!: fire_columns_update)
  next
    case (ClaimFire i n interval now)
    then show thesis using Cron by (intro claim [of i n interval now]) (simp_all add: claimScheduleFire_alt)
  qed (use Cron in \<open>auto intro!: same fire_columns_same simp: recordScheduleRunDispatched_def
      attachScheduleRunDispatchRequestId_def resolveScheduleRun_def\<close>)
qed

subsection \<open>A fire number is claimed once\<close>

definition schedules_keyed :: "collab_db \<Rightarrow> bool" where
  "schedules_keyed db \<longleftrightarrow> key_unique sr_id (fire_columns db)"

definition fire_open :: "string \<Rightarrow> nat \<Rightarrow> collab_db \<Rightarrow> bool" where
  "fire_open i n db \<longleftrightarrow> list_all (\<lambda>s. sr_id s = i \<longrightarrow> sr_nextSeq s < n) (fire_columns db)"

text \<open>A step as an attempt to claim the n-th fire of a schedule: did it win?\<close>

definition fire_attempt :: "platform \<Rightarrow> string \<Rightarrow> nat \<Rightarrow> store_op \<Rightarrow> collab_db \<Rightarrow> collab_db \<times> bool" where
  "fire_attempt pf i n op db =
     (store_step pf op db,
      case op of
        Cron (ClaimFire j expectedSeq interval now) \<Rightarrow>
          j = i \<and> snd (claimScheduleFire j expectedSeq interval now db) = Some n
      | _ \<Rightarrow> False)"

lemma claim_columns:
  assumes "db_schedules db' = tbl_update (claim_hit i n) (moved_on n interval now) (db_schedules db)"
  shows "key_unique sr_id (fire_columns db') = key_unique sr_id (fire_columns db)"
    and "fire_open j m db' \<Longrightarrow> fire_open j m db"
proof -
  have "map sr_id (fire_columns db') = map sr_id (fire_columns db)"
    by (simp add: fire_columns_def assms tbl_update_def moved_on_def)
  then show "key_unique sr_id (fire_columns db') = key_unique sr_id (fire_columns db)" by (simp add: key_unique_def)
  show "fire_open j m db" if open': "fire_open j m db'"
    unfolding fire_open_def list_all_iff fire_columns_def
  proof (intro ballI impI)
    fix r assume "r \<in> set (map (\<lambda>s. s\<lparr>sr_active := False\<rparr>) (db_schedules db))" and j: "sr_id r = j"
    then obtain s where s: "s \<in> set (db_schedules db)" "r = s\<lparr>sr_active := False\<rparr>" by auto
    let ?s = "if claim_hit i n s then moved_on n interval now s else s"
    have "?s \<in> set (db_schedules db')" using s(1) by (auto simp: assms tbl_update_def)
    then have "sr_id ?s = j \<longrightarrow> sr_nextSeq ?s < m" using open' by (force simp: fire_open_def list_all_iff fire_columns_def)
    then show "sr_nextSeq r < m" using s(2) j by (auto simp: claim_hit_def moved_on_def split: if_splits)
  qed
qed

lemma claim_won:
  assumes "snd (claimScheduleFire i e interval now db) = Some n"
  obtains s where "s \<in> set (db_schedules db)" "claim_hit i e s" "n = e + 1"
proof -
  have "tbl_changes (claim_hit i e) (db_schedules db) = 1" "n = e + 1"
    using assms by (simp_all add: claimScheduleFire_alt split: if_splits)
  then show thesis using tbl_changes_0 [of "claim_hit i e" "db_schedules db"] that by auto
qed

lemma schedules_keyed_step: "schedules_keyed db \<Longrightarrow> schedules_keyed (store_step pf op db)"
proof (cases rule: schedule_step_cases [of pf op db])
  case same
  assume "schedules_keyed db"
  then show ?thesis by (simp add: schedules_keyed_def same)
next
  case (create s)
  assume "schedules_keyed db"
  moreover have "\<forall>r \<in> set (fire_columns db). sr_id r \<noteq> sr_id s" using create(3) by (simp add: fire_columns_def)
  ultimately show ?thesis by (simp add: schedules_keyed_def create(1) key_unique_append)
next
  case (claim i n interval now)
  assume "schedules_keyed db"
  then show ?thesis using claim_columns(1) [OF claim(2)] by (simp add: schedules_keyed_def)
qed

interpretation fire_claim: one_shot "fire_attempt pf i n" "fire_open i n" schedules_keyed for pf i n
proof unfold_locales
  fix db op
  assume keyed: "schedules_keyed db"
  show "schedules_keyed (fst (fire_attempt pf i n op db))" using keyed by (simp add: fire_attempt_def schedules_keyed_step)
  have won: "fire_open i n db \<and> \<not> fire_open i n (store_step pf op db)"
    if win: "op = Cron (ClaimFire i e interval now)" "snd (claimScheduleFire i e interval now db) = Some n" for e interval now
  proof
    obtain s where s: "s \<in> set (db_schedules db)" "claim_hit i e s" "n = e + 1" by (rule claim_won [OF win(2)])
    have uniq: "key_unique sr_id (db_schedules db)"
      using keyed by (simp add: schedules_keyed_def fire_columns_def key_unique_def comp_def)
    have "r = s" if "r \<in> set (db_schedules db)" "sr_id r = i" for r
      using key_unique_eq [OF uniq that(1) s(1)] s(2) that(2) by (simp add: claim_hit_def)
    then show "fire_open i n db"
      using s(2,3) by (auto simp: fire_open_def list_all_iff fire_columns_def claim_hit_def)
    have "moved_on e interval now s \<in> set (db_schedules (store_step pf op db))"
      using s(1,2) win(1) by (auto simp: claimScheduleFire_alt tbl_update_def)
    then show "\<not> fire_open i n (store_step pf op db)"
      using s(2,3) by (force simp: fire_open_def list_all_iff fire_columns_def moved_on_def claim_hit_def)
  qed
  show "fire_open i n db" if "snd (fire_attempt pf i n op db)"
    using that won by (auto simp: fire_attempt_def split: store_op.splits cron_op.splits)
  show "\<not> fire_open i n (fst (fire_attempt pf i n op db))" if "snd (fire_attempt pf i n op db)"
    using that won by (auto simp: fire_attempt_def split: store_op.splits cron_op.splits)
  show "\<not> fire_open i n (fst (fire_attempt pf i n op db))" if "\<not> fire_open i n db"
  proof (cases rule: schedule_step_cases [of pf op db])
    case same
    then show ?thesis using that by (simp add: fire_attempt_def fire_open_def)
  next
    case (create s)
    then show ?thesis using that by (simp add: fire_attempt_def fire_open_def)
  next
    case (claim j m interval now)
    then show ?thesis using that claim_columns(2) [OF claim(2), of i n] by (auto simp: fire_attempt_def)
  qed
qed

text \<open>
  C20. A fire number is claimed once. Whatever ticks, retries, creations and state changes run in
  whatever order from a bootstrapped database, at most one claim of the n-th fire of a schedule
  succeeds: two gateways or two overlapping ticks never both wake the agent for the same fire.
\<close>

theorem fire_claimed_once: "wins (snd (run_steps (fire_attempt pf i n) ops (fresh_db ps cs))) \<le> 1"
  by (rule fire_claim.at_most_one_win) (simp add: schedules_keyed_def fire_columns_def fresh_db_def key_unique_def)

subsection \<open>No faster than the interval\<close>

definition claims_fire :: "string \<Rightarrow> store_op \<Rightarrow> bool" where
  "claims_fire i op = (case op of Cron (ClaimFire j n interval now) \<Rightarrow> j = i | _ \<Rightarrow> False)"

text \<open>The schedule exists and all its rows are due at the same instant.\<close>

definition next_at :: "string \<Rightarrow> int \<Rightarrow> collab_db \<Rightarrow> bool" where
  "next_at i t db \<longleftrightarrow> list_ex (\<lambda>s. sr_id s = i) (db_schedules db)
     \<and> list_all (\<lambda>s. sr_id s = i \<longrightarrow> sr_nextAt s = t) (db_schedules db)"

lemma moved_ids:
  "list_ex (\<lambda>s. sr_id s = i) (tbl_update (claim_hit j e) (moved_on e interval now) ts) = list_ex (\<lambda>s. sr_id s = i) ts"
  by (induction ts) (simp_all add: tbl_update_def moved_on_def)

lemma next_at_columns:
  "next_at i t db \<longleftrightarrow> list_ex (\<lambda>s. sr_id s = i) (fire_columns db)
     \<and> list_all (\<lambda>s. sr_id s = i \<longrightarrow> sr_nextAt s = t) (fire_columns db)"
  by (auto simp: next_at_def fire_columns_def list_ex_iff list_all_iff)

lemma next_at_step: "\<not> claims_fire i op \<Longrightarrow> next_at i t db \<Longrightarrow> next_at i t (store_step pf op db)"
proof (cases rule: schedule_step_cases [of pf op db])
  case same
  assume "next_at i t db"
  then show ?thesis by (simp add: next_at_columns same(1))
next
  case (create s)
  assume at_t: "next_at i t db"
  then have "sr_id s \<noteq> i" using create(3) by (auto simp: next_at_def list_ex_iff)
  then show ?thesis using at_t by (simp add: next_at_columns create(1))
next
  case (claim j n interval now)
  assume "\<not> claims_fire i op" and at_t: "next_at i t db"
  then have "j \<noteq> i" using claim(1) by (simp add: claims_fire_def)
  then show ?thesis using at_t
    by (auto simp: next_at_def claim(2) tbl_update_def list_ex_iff list_all_iff claim_hit_def moved_on_def
        split: if_splits intro: bexI)
qed

lemma next_at_history:
  "list_all (\<lambda>op. \<not> claims_fire i op) ops \<Longrightarrow> next_at i t db \<Longrightarrow> next_at i t (fold (store_step pf) ops db)"
  by (induction ops arbitrary: db) (simp_all add: next_at_step)

lemma claimed_next_at:
  assumes "schedules_keyed db" and "claimScheduleFire i e interval now db = (db', Some n)"
  shows "next_at i (now + interval * 1000) db'"
proof -
  obtain s where s: "s \<in> set (db_schedules db)" "claim_hit i e s" "n = e + 1"
    by (rule claim_won [of i e interval now db n]) (simp add: assms(2))
  have uniq: "key_unique sr_id (db_schedules db)"
    using assms(1) by (simp add: schedules_keyed_def fire_columns_def key_unique_def comp_def)
  have one: "r = s" if "r \<in> set (db_schedules db)" "sr_id r = i" for r
    using key_unique_eq [OF uniq that(1) s(1)] s(2) that(2) by (simp add: claim_hit_def)
  have "db_schedules db' = tbl_update (claim_hit i e) (moved_on e interval now) (db_schedules db)"
    using assms(2) by (auto simp: claimScheduleFire_alt)
  moreover have "list_ex (\<lambda>s. sr_id s = i) (db_schedules db)" using s by (auto simp: list_ex_iff claim_hit_def)
  moreover have "sr_nextAt r = now + interval * 1000"
    if r: "r \<in> set (tbl_update (claim_hit i e) (moved_on e interval now) (db_schedules db))" "sr_id r = i" for r
  proof -
    obtain r0 where r0: "r0 \<in> set (db_schedules db)" "r = (if claim_hit i e r0 then moved_on e interval now r0 else r0)"
      using r(1) by (rule in_tbl_update)
    then have "sr_id r0 = i" using r(2) by (auto simp: moved_on_def split: if_splits)
    then have "r0 = s" using one r0(1) by blast
    then show ?thesis using r0(2) s(2) by (simp add: moved_on_def)
  qed
  ultimately show ?thesis by (simp add: next_at_def moved_ids list_all_iff)
qed

text \<open>
  C27. No faster than the interval. After a claimed fire at an instant, no later history makes the
  schedule due again before its interval has passed, unless it is claimed again: pauses, resumptions,
  creations, failures and recovery sweeps never bring a fire forward, and missed intervals are not
  caught up.
\<close>

theorem schedule_rate_bounded:
  assumes "schedules_keyed db" and "claimScheduleFire i e interval now db = (db', Some n)"
    and "list_all (\<lambda>op. \<not> claims_fire i op) ops"
    and "s \<in> set (findDueSchedules (fold (store_step pf) ops db') later)" and "sr_id s = i"
  shows "now + interval * 1000 \<le> later"
  using next_at_history [OF assms(3) claimed_next_at [OF assms(1,2)], of pf] assms(4,5)
  by (auto simp: next_at_def findDueSchedules_def list_all_iff)

theorem schedule_rate_bounded_witness:
  "\<exists>d. claimScheduleFire ''j'' 0 60 1000 turn_db = (d, Some 1)
     \<and> (\<forall>s \<in> set (findDueSchedules d 70000). sr_id s = ''j'' \<longrightarrow> 61000 \<le> (70000 :: int))"
proof -
  have keyed: "schedules_keyed turn_db"
    by (simp add: schedules_keyed_def fire_columns_def key_unique_def turn_eval)
  have "\<exists>d. claimScheduleFire ''j'' 0 60 1000 turn_db = (d, Some 1)"
    by (simp add: claimScheduleFire_alt tbl_changes_def claim_hit_def turn_eval)
  then obtain d where d: "claimScheduleFire ''j'' 0 60 1000 turn_db = (d, Some 1)" by blast
  from schedule_rate_bounded [OF keyed d, of "[]" _ demo_pf 70000] d show ?thesis by simp
qed

subsection \<open>The schedules of a revoked agent\<close>

text \<open>The schedules of an agent are none but those with an id of a given set, and all are stopped.\<close>

definition stopped_for :: "string \<Rightarrow> string set \<Rightarrow> collab_db \<Rightarrow> bool" where
  "stopped_for p ids db \<longleftrightarrow> (\<forall>s \<in> set (db_schedules db). sr_agent s = p \<longrightarrow> \<not> sr_active s \<and> sr_id s \<in> ids)"

lemma stopped_for_same: "db_schedules db' = db_schedules db \<Longrightarrow> stopped_for p ids db' = stopped_for p ids db"
  by (simp add: stopped_for_def)

text \<open>What a core command may do to the schedules: keep everything but activity, and start none.\<close>

lemma stopped_for_core:
  assumes "ids_ok db" and "stopped_for p ids db"
  shows "stopped_for p ids (collab_step pf op db)"
proof -
  have "unscheduled db p" using assms(2) by (simp add: stopped_for_def unscheduled_def)
  then have off: "unscheduled (collab_step pf op db) p"
    by (rule auth_step_parts(6) [OF auth_collab_step [OF assms(1)]])
  have "sr_agent s = p \<Longrightarrow> sr_id s \<in> ids" if "s \<in> set (db_schedules (collab_step pf op db))" for s
  proof -
    assume agent: "sr_agent s = p"
    have "s\<lparr>sr_active := False\<rparr> \<in> set (fire_columns (collab_step pf op db))" using that by (simp add: fire_columns_def)
    then obtain s0 where "s0 \<in> set (db_schedules db)" "s\<lparr>sr_active := False\<rparr> = s0\<lparr>sr_active := False\<rparr>"
      unfolding core_schedules by (auto simp: fire_columns_def)
    moreover from this(2) have "sr_agent s = sr_agent s0" "sr_id s = sr_id s0"
      by (metis AgentSchedule.select_convs(1,3) AgentSchedule.surjective AgentSchedule.update_convs(7))+
    ultimately show "sr_id s \<in> ids" using assms(2) agent by (auto simp: stopped_for_def)
  qed
  with off show ?thesis by (auto simp: stopped_for_def unscheduled_def)
qed

lemma stopped_for_update:
  assumes "stopped_for p ids db" and "db_schedules db' = tbl_update P f (db_schedules db)"
    and "\<And>s. P s \<Longrightarrow> sr_agent (f s) = sr_agent s \<and> sr_id (f s) = sr_id s
      \<and> (sr_active (f s) \<longrightarrow> sr_active s \<or> sr_id s \<notin> ids)"
  shows "stopped_for p ids db'"
  unfolding stopped_for_def assms(2)
proof
  fix s assume "s \<in> set (tbl_update P f (db_schedules db))"
  then obtain s0 where "s0 \<in> set (db_schedules db)" "s = (if P s0 then f s0 else s0)" by (rule in_tbl_update)
  then show "sr_agent s = p \<longrightarrow> \<not> sr_active s \<and> sr_id s \<in> ids"
    using assms(1) assms(3) [of s0] by (auto simp: stopped_for_def split: if_splits)
qed

text \<open>An agent that is revoked gets no schedule, and only an operator's resume starts one it has.\<close>

lemma inactive_refused:
  "principal_row db p = Some r \<Longrightarrow> pr_status r \<noteq> PActive \<Longrightarrow> assertScheduleStillAuthorized db c p \<noteq> None"
  by (auto simp: assertScheduleStillAuthorized_def split: option.splits)

lemma stopped_for_cron:
  assumes "stopped_for p ids db" and "principal_row db p = Some r" and "pr_status r \<noteq> PActive"
    and "\<And>j. op = SetSchedule j True \<Longrightarrow> j \<notin> ids"
  shows "stopped_for p ids (cron_step op db)"
proof (cases op)
  case (CreateSchedule i operator c agent interval hint key now)
  show ?thesis
  proof (cases "agent = p")
    case True
    then show ?thesis
      using CreateSchedule inactive_refused [OF assms(2,3), of c] assms(1) by (auto simp: handleCreateSchedule_def)
  next
    case False
    then show ?thesis using CreateSchedule assms(1)
      by (auto simp: handleCreateSchedule_def createSchedule_def Let_def stopped_for_def split: option.splits if_splits)
  qed
next
  case (SetSchedule j active)
  show ?thesis
    by (rule stopped_for_update [OF assms(1), of _ "\<lambda>s. sr_id s = j" "\<lambda>s. s\<lparr>sr_active := active\<rparr>"])
       (use SetSchedule assms(4) in \<open>auto simp: handleSetScheduleState_def setScheduleState_def\<close>)
next
  case (ClaimFire i n interval now)
  show ?thesis
    by (rule stopped_for_update [OF assms(1), of _ "claim_hit i n" "moved_on n interval now"])
       (use ClaimFire in \<open>simp_all add: claimScheduleFire_alt moved_on_def\<close>)
qed (use assms(1) in \<open>auto simp: stopped_for_def recordScheduleRunDispatched_def
      attachScheduleRunDispatchRequestId_def resolveScheduleRun_def\<close>)

lemma stopped_for_step:
  assumes "ids_ok db" and "stopped_for p ids db" and "principal_row db p = Some r" and "pr_status r = PRevoked"
    and "\<And>j. op = Cron (SetSchedule j True) \<Longrightarrow> j \<notin> ids"
  shows "stopped_for p ids (store_step pf op db)"
proof (cases op)
  case (Cron o1)
  then show ?thesis using stopped_for_cron [OF assms(2,3), of o1] assms(4,5) by simp
next
  case (Job o1)
  then show ?thesis using job_frame [of db pf o1] assms(2) by (simp add: stopped_for_def)
next
  case (Core o1)
  then show ?thesis using stopped_for_core [OF assms(1,2)] by simp
next
  case (Turn o1)
  then show ?thesis using stopped_for_same [OF turn_schedules] assms(2) by simp
next
  case (Profile o1)
  then show ?thesis using stopped_for_same [OF profile_schedules] assms(2) by simp
qed

lemma stopped_for_history:
  assumes "ids_ok db" and "stopped_for p ids db" and "principal_row db p = Some r" and "pr_status r = PRevoked"
    and "\<forall>j. Cron (SetSchedule j True) \<in> set ops \<longrightarrow> j \<notin> ids"
  shows "stopped_for p ids (fold (store_step pf) ops db)"
  using assms
proof (induction ops arbitrary: db)
  case (Cons op ops)
  have "stopped_for p ids (store_step pf op db)"
    using Cons.prems by (intro stopped_for_step [where r = r]) auto
  moreover have "ids_ok (store_step pf op db)" using role_store_step [OF Cons.prems(1)] by (rule role_step_ids)
  moreover have "principal_row (store_step pf op db) p = Some r"
    using revoked_stays [OF Cons.prems(1,3,4), of pf "[op]"] by simp
  ultimately show ?case using Cons.IH Cons.prems(4,5) by simp
qed simp

text \<open>
  C26. Revoking an agent is final. Once a revocation of a not yet revoked agent commits, then after any
  further history of commands of any kind the agent is still revoked, has no active credential, no
  session bound to it, whenever it was opened, passes the base check, and no wake is authorized for it
  in any channel. Its schedules stay stopped, and it has no others, unless the history resumes one of
  those it had when it was revoked: the command that resumes a schedule does not look at the agent.
\<close>

theorem agent_revocation_final:
  assumes "ids_ok db" and "principal_row db p = Some t" and "pr_status t \<noteq> PRevoked"
    and "committed db (revokeAgent pf en caller p key db)"
    and "db' = fold (store_step pf) ops (fst (revokeAgent pf en caller p key db))"
  shows "(\<exists>r. principal_row db' p = Some r \<and> pr_status r = PRevoked) \<and> countActiveCredentials db' p = 0
    \<and> (\<forall>s b. getSessionBinding db' s = Some b \<and> sb_principal b = p \<longrightarrow> \<not> evaluateBase db' s)
    \<and> (\<forall>c. assertScheduleStillAuthorized db' c p \<noteq> None)
    \<and> ((\<forall>s \<in> set (db_schedules db). sr_agent s = p \<longrightarrow> Cron (SetSchedule (sr_id s) True) \<notin> set ops) \<longrightarrow>
         (\<forall>s \<in> set (db_schedules db'). sr_agent s = p \<longrightarrow> \<not> sr_active s
            \<and> (\<exists>s0 \<in> set (db_schedules db). sr_agent s0 = p \<and> sr_id s0 = sr_id s)))"
proof -
  define db1 where "db1 = fst (revokeAgent pf en caller p key db)"
  note revoked = revocation_commits [OF assms(1-4), folded db1_def]
  obtain r1 where r1: "principal_row db1 p = Some r1" "pr_status r1 = PRevoked"
    using revoked(1) by (auto simp: revoked_keyless_def)
  have now: "principal_row db' p = Some r1" unfolding assms(5) db1_def [symmetric] by (rule revoked_stays [OF revoked(3) r1])
  have keyless: "revoked_keyless db' p"
    using role_store [OF revoked(3), of pf ops] revoked(1) unfolding assms(5) db1_def [symmetric] by (simp add: role_step_def)
  have wake: "assertScheduleStillAuthorized db' c p \<noteq> None" for c
    by (rule inactive_refused [OF now]) (simp add: r1(2))
  let ?ids = "sr_id ` {s \<in> set (db_schedules db). sr_agent s = p}"
  have "sr_id ` {s \<in> set (db_schedules db1). sr_agent s = p} = ?ids"
    using arg_cong [OF revoked(4), of set] by simp
  then have stopped: "stopped_for p ?ids db1"
    using revoked(2) by (auto simp: stopped_for_def unscheduled_def)
  have kept: "\<not> sr_active s \<and> (\<exists>s0 \<in> set (db_schedules db). sr_agent s0 = p \<and> sr_id s0 = sr_id s)"
    if ops: "\<forall>s \<in> set (db_schedules db). sr_agent s = p \<longrightarrow> Cron (SetSchedule (sr_id s) True) \<notin> set ops"
      and s: "s \<in> set (db_schedules db')" "sr_agent s = p" for s
  proof -
    have "stopped_for p ?ids db'"
      unfolding assms(5) db1_def [symmetric]
      by (rule stopped_for_history [OF revoked(3) stopped r1]) (use ops in auto)
    then have "\<not> sr_active s \<and> sr_id s \<in> ?ids" using s by (simp add: stopped_for_def del: image_iff)
    then show ?thesis by (auto simp: image_iff intro: sym)
  qed
  have sessions: "\<not> evaluateBase db' s" if "getSessionBinding db' s = Some b" "sb_principal b = p" for s b
    by (rule evaluateBase_revoked [OF that(1), of r1]) (use that(2) now r1(2) in simp_all)
  show ?thesis using keyless wake now r1(2) sessions kept unfolding revoked_keyless_def by blast
qed

theorem agent_revocation_final_witness:
  "let d = store_step demo_pf (Cron (SetSchedule ''other'' True))
             (fst (revokeAgent demo_pf (demo_env ''x'') ''o'' ''a'' ''k'' agent_db))
   in countActiveCredentials d ''a'' = 0 \<and> assertScheduleStillAuthorized d ''c'' ''a'' \<noteq> None
      \<and> (\<forall>s \<in> set (db_schedules d). sr_agent s = ''a'' \<longrightarrow> \<not> sr_active s)"
proof -
  have "\<forall>s \<in> set (db_schedules agent_db). sr_agent s = ''a'' \<longrightarrow>
      Cron (SetSchedule (sr_id s) True) \<notin> set [Cron (SetSchedule ''other'' True)]"
    by (simp add: agent_eval)
  with agent_revocation_final [OF agent_db_ok(1,3) _ revoke_commits, of _ "[Cron (SetSchedule ''other'' True)]"]
  show ?thesis by (simp add: demo_agent_def Let_def del: store_step.simps)
qed

subsection \<open>A refused wake\<close>

text \<open>
  A refused wake runs nothing. When a due schedule is claimed while STOP holds or its agent, its
  membership or its channel is no longer active, the tick records exactly one run, terminated with the
  reason of the refusal, and does nothing else: neither context, nor profile, nor task are touched.
\<close>

theorem refused_wake_runs_nothing:
  assumes "claimScheduleFire (sr_id s) (sr_nextSeq s) (sr_interval s) now db = (db1, Some n)"
    and "assertScheduleStillAuthorized db1 (sr_channel s) (sr_agent s) = Some reason"
    and "tbl_get (run_is (sr_id s) n) (db_runs db) = None"
  shows "fire_schedule k now s db = (db1\<lparr>db_runs := db_runs db @ [\<lparr>sn_schedule = sr_id s, sn_seq = n,
     sn_channel = sr_channel s, sn_agent = sr_agent s, sn_state = RunTerminated, sn_request = None,
     sn_refusal = Some reason, sn_firedAt = now, sn_resolved = True\<rparr>]\<rparr>, True)"
proof -
  obtain r where r: "r \<in> set (db_schedules db)" "claim_hit (sr_id s) (sr_nextSeq s) r" "n = sr_nextSeq s + 1"
    by (rule claim_won [of "sr_id s" "sr_nextSeq s" "sr_interval s" now db n]) (simp add: assms(1))
  have db1: "db1 = db\<lparr>db_schedules := tbl_update (claim_hit (sr_id s) (sr_nextSeq s))
      (moved_on (sr_nextSeq s) (sr_interval s) now) (db_schedules db)\<rparr>"
    using assms(1) by (auto simp: claimScheduleFire_alt)
  have "list_ex (\<lambda>t. sr_id t = sr_id s) (db_schedules db1)"
    unfolding db1 by (simp add: moved_ids) (use r in \<open>auto simp: list_ex_iff claim_hit_def\<close>)
  then have found: "getSchedule db1 (sr_id s) \<noteq> None"
    by (auto simp: getSchedule_def tbl_get_None list_ex_iff)
  have runs: "db_runs db1 = db_runs db" by (simp add: db1)
  let ?run = "\<lparr>sn_schedule = sr_id s, sn_seq = n, sn_channel = sr_channel s, sn_agent = sr_agent s,
    sn_state = RunDispatched, sn_request = None, sn_refusal = None, sn_firedAt = now, sn_resolved = False\<rparr>"
  have rec: "recordScheduleRunDispatched (sr_id s) n (sr_channel s) (sr_agent s) now db1
      = (db1\<lparr>db_runs := db_runs db @ [?run]\<rparr>, True)"
    using found assms(3) r(3) by (simp add: recordScheduleRunDispatched_def runs del: not_None_eq)
  have old: "tbl_update (open_run (sr_id s) n) f (db_runs db) = db_runs db" for f
    using assms(3) by (intro tbl_update_unchanged) (simp add: tbl_changes_0 open_run_def tbl_get_None)
  have new: "tbl_update P f (ts @ us) = tbl_update P f ts @ tbl_update P f us"
    for P and f :: "ScheduleRun \<Rightarrow> ScheduleRun" and ts us by (simp add: tbl_update_def)
  have "resolveScheduleRun (sr_id s) n RunTerminated (Some reason) (db1\<lparr>db_runs := db_runs db @ [?run]\<rparr>)
      = db1\<lparr>db_runs := db_runs db @ [?run\<lparr>sn_state := RunTerminated, sn_refusal := Some reason, sn_resolved := True\<rparr>]\<rparr>"
    by (simp add: resolveScheduleRun_def new old) (simp add: tbl_update_def open_run_def run_is_def)
  then show ?thesis using assms(1,2) rec by (simp add: fire_schedule_def)
qed

subsection \<open>Whom a wake admits\<close>

text \<open>
  C29. A wake is admitted exactly for whom a post would trigger. After any history the check at the
  wake passes for an agent and a channel if and only if no STOP covers the channel, the channel is
  active and the resolver would select the agent for a post by anybody else.
\<close>

theorem wake_admits_resolver:
  assumes "actor \<noteq> agent"
  shows "let db = fold (store_step pf) ops (fresh_db ps cs) in
     (assertScheduleStillAuthorized db c agent = None) =
       (\<not> isAutoreplyStopped db c \<and> (\<exists>ch. channel_row db c = Some ch \<and> ch_state ch = ChActive)
        \<and> agent \<in> set (resolveEligibleAgents db c actor n))"
proof -
  define db where "db = fold (store_step pf) ops (fresh_db ps cs)"
  have "log_ok db" unfolding db_def by (rule log_ok_store) (rule log_ok_fresh)
  then have uniq: "key_unique member_key (db_members db)" by (rule log_ok_parts)
  show ?thesis
    unfolding Let_def db_def [symmetric] resolver_set(2) [OF uniq]
    using assms by (auto simp: assertScheduleStillAuthorized_def isAutoreplyStopped_def list_ex_iff
        split: option.splits if_splits)
qed

theorem wake_admits_resolver_witness:
  "assertScheduleStillAuthorized (fresh_db [demo_operator, demo_agent] []) ''c'' ''a'' \<noteq> None"
  using wake_admits_resolver [of "''o''" "''a''" demo_pf "[]" "[demo_operator, demo_agent]" "[]" "''c''" 1]
  by (simp add: Let_def channel_row_def fresh_db_def tbl_get_def)

theorem refused_wake_runs_nothing_witness:
  "\<exists>k d. fire_schedule k 1000 (demo_schedule ''a'')
       (turn_db\<lparr>db_stops := [\<lparr>so_channel = None, so_by = ''o'', so_at = 5\<rparr>]\<rparr>) = (d, True)
     \<and> map sn_refusal (db_runs d) = [Some ''stop-global'']"
proof -
  let ?s = "demo_schedule ''a''"
  let ?db = "turn_db\<lparr>db_stops := [\<lparr>so_channel = None, so_by = ''o'', so_at = 5\<rparr>]\<rparr>"
  have "tbl_changes (claim_hit (sr_id ?s) (sr_nextSeq ?s)) (db_schedules ?db) = 1"
    by (simp add: tbl_changes_def claim_hit_def turn_eval)
  then obtain d where d: "claimScheduleFire (sr_id ?s) (sr_nextSeq ?s) (sr_interval ?s) 1000 ?db = (d, Some (sr_nextSeq ?s + 1))"
    "db_stops d = [\<lparr>so_channel = None, so_by = ''o'', so_at = 5\<rparr>]"
    by (simp add: claimScheduleFire_alt)
  have "assertScheduleStillAuthorized d (sr_channel ?s) (sr_agent ?s) = Some ''stop-global''"
    by (simp add: assertScheduleStillAuthorized_def d(2))
  moreover have "db_runs ?db = []" by (simp add: turn_eval)
  ultimately show ?thesis
    using refused_wake_runs_nothing [OF d(1), of "''stop-global''"] by (auto simp: tbl_get_def)
qed
end
