(* ===== verification/Collab_Job_Facts.thy ===== *)
theory Collab_Job_Facts
  imports Collab_World
begin

text \<open>
  What holds of room jobs over any history of the store: the keys of the tables, the automaton of a
  stage, the finality of a cancellation, the lifecycle log and the bounds of a job.
\<close>

subsection \<open>Tables after a change\<close>

lemmas room_write_defs = mark_requested_def mark_cancelled_def add_attempt_def claimed_outbox_def add_artifact_def
  report_terminal_def room_writes

text \<open>The databases a change passes through, as the tables of the room store see them.\<close>

lemma logged_rooms:
  assumes "logged j kind c actor db db'"
  obtains e v where "db_rooms db' = (db_rooms db)\<lparr>rm_events := rm_events (db_rooms db) @ [e]\<rparr>"
    "db_events db' = db_events db @ [v]" "re_job e = j" "re_kind e = kind" "re_seq e = max_job_seq db j + 1"
    "room_event_of e c actor v" "list_all (\<lambda>x. re_event x \<noteq> re_event e) (rm_events (db_rooms db))"
  using assms by (auto simp: logged_def with_event_def)

text \<open>The outbox after a change: every row kept, its state moved along an edge, new rows pending.\<close>

inductive stage_edge :: "OutboxState \<Rightarrow> OutboxState \<Rightarrow> bool" where
  "stage_edge ObPending ObClaimed"
| "stage_edge ObPending ObCancelled"
| "stage_edge ObClaimed ObAcknowledged"
| "stage_edge ObClaimed ObRefused"
| "stage_edge ObClaimed ObRecoveryNeeded"
| "stage_edge ObClaimed ObCancelled"

inductive_simps stage_edge_iff: "stage_edge s s'"

code_pred stage_edge .

definition outbox_moves :: "RoomOutboxRow \<Rightarrow> RoomOutboxRow \<Rightarrow> bool" where
  "outbox_moves b b' \<longleftrightarrow> ob_id b' = ob_id b \<and> ob_attempt b' = ob_attempt b \<and> ob_stage b' = ob_stage b
     \<and> (ob_state b' = ob_state b \<or> stage_edge (ob_state b) (ob_state b'))"

definition outbox_next :: "RoomOutboxRow list \<Rightarrow> RoomOutboxRow list \<Rightarrow> bool" where
  "outbox_next old new' \<longleftrightarrow> length old \<le> length new' \<and> list_all2 outbox_moves old (take (length old) new')
     \<and> list_all (\<lambda>b. ob_state b = ObPending) (drop (length old) new')"

lemma outbox_moves_refl [simp]: "outbox_moves b b"
  by (simp add: outbox_moves_def)

lemma outbox_next_refl [simp]: "outbox_next t t"
  by (simp add: outbox_next_def list_all2_refl)

lemma outbox_next_update:
  assumes "\<And>b. P b \<Longrightarrow> outbox_moves b (f b)" and "list_all (\<lambda>b. ob_state b = ObPending) rows"
  shows "outbox_next t (tbl_update P f t @ rows)"
  using assms by (auto simp: outbox_next_def tbl_update_def list_all2_conv_all_nth)

lemma outbox_change: "room_change db db' \<Longrightarrow> outbox_next (rm_outbox (db_rooms db)) (rm_outbox (db_rooms db'))"
proof (induction rule: room_change.induct)
  case (cancelled db c j r actor now db1 now' db')
  have 1: "rm_outbox (db_rooms db1) = rm_outbox (db_rooms db)"
    by (rule logged_rooms [OF cancelled(4)]) (simp add: room_write_defs)
  have cancel_out: "outbox_next t (tbl_update P (\<lambda>r. r\<lparr>ob_state := ObCancelled\<rparr>) t)"
    if "\<And>b. P b \<Longrightarrow> ob_state b \<in> {ObPending, ObClaimed}" for t P
    by (rule outbox_next_update [of P _ "[]", simplified]) (use that in \<open>auto simp: outbox_moves_def stage_edge_iff\<close>)
  have "outbox_next (rm_outbox (db_rooms db1)) (rm_outbox (db_rooms (mark_cancelled j (rj_revision r + 1) now' db1)))"
    by (simp add: room_write_defs) (auto intro: cancel_out)
  then show ?case by (rule_tac logged_rooms [OF cancelled(5)]) (simp add: 1)
next
  case (created db c r actor db')
  show ?case by (rule logged_rooms [OF created(7)]) (simp add: set_rooms_def)
next
  case (started db c j r a b facts actor db')
  show ?case by (rule logged_rooms [OF started(13)])
      (use started(10) in \<open>simp add: room_write_defs outbox_next_def list_all2_refl\<close>)
next
  case (claimed db t stage a r b ch p)
  have "outbox_next o' (tbl_update (\<lambda>r. outbox_is t stage r \<and> ob_state r = ObPending) (\<lambda>r. r\<lparr>ob_state := ObClaimed\<rparr>) o' @ [])" for o'
    by (rule outbox_next_update) (auto simp: outbox_moves_def stage_edge_iff)
  then show ?case by (simp add: room_write_defs)
next
  case (artifact db t stage a r b ch p x rows acks s db')
  have "outbox_next o' (tbl_update (\<lambda>r. outbox_is t stage r \<and> ob_state r = ObClaimed)
      (\<lambda>r. r\<lparr>ob_state := ObAcknowledged, ob_ackAt := Some (ra_createdAt x)\<rparr>) o' @ rows)" for o'
    by (rule outbox_next_update)
       (use artifact(9) in \<open>auto simp: outbox_moves_def stage_edge_iff next_outbox_def split: list.splits\<close>)
  then show ?case by (rule_tac logged_rooms [OF artifact(12)]) (simp add: room_write_defs)
next
  case (terminal db t stage a r b ch p outbox attempt reason now db')
  have "outbox_next o' (tbl_update (\<lambda>r. outbox_is t stage r \<and> ob_state r = ObClaimed)
      (\<lambda>r. r\<lparr>ob_state := outbox, ob_ackAt := Some now\<rparr>) o' @ [])" for o'
    by (rule outbox_next_update) (use terminal(4) in \<open>auto simp: outbox_moves_def stage_edge_iff\<close>)
  then show ?case by (rule_tac logged_rooms [OF terminal(5)]) (simp add: room_write_defs)
qed (simp add: set_rooms_def)

subsection \<open>Steps of the store\<close>

text \<open>Only job commands touch the room tables, and each of them makes one change or none.\<close>

lemma store_room_step:
  obtains (same) "db_rooms (store_step pf op db) = db_rooms db"
  | (change) o' d res where "op = Job o'" "room_change db d" "store_step pf op db = d\<lparr>db_results := res\<rparr>"
proof (cases op)
  case (Core o1)
  show thesis by (rule same) (use collab_step_frame [of db pf o1] Core in \<open>simp add: core_frame_def participation_same_def\<close>)
next
  case (Turn o1)
  show thesis by (rule same) (use turn_frame [of db pf o1] Turn in simp)
next
  case (Cron o1)
  show thesis by (rule same) (use cron_frame [of db o1] Cron in simp)
next
  case (Profile o1)
  have "db_rooms (profile_step pf o1 db) = db_rooms db"
  proof (cases o1)
    case (Provision en caller name b channels key delegate)
    show ?thesis
      by (rule provision_step_cases [of pf en caller name b channels key delegate db])
         (use Provision in \<open>auto dest: provision_effects(9)\<close>)
  qed (use edit_step_frame in \<open>auto simp: edit_frame_def simp del: profile_step.simps\<close>)
  then show thesis using Profile by (intro same) simp
next
  case (Job o1)
  obtain d res where d: "d = db \<or> room_change db d" "job_step pf o1 db = d\<lparr>db_results := res\<rparr>"
    using job_step_change by blast
  show thesis
  proof (cases "d = db")
    case True
    show thesis by (rule same) (use True d(2) Job in simp)
  next
    case False
    show thesis by (rule change [of o1 d res]) (use False d Job in simp_all)
  qed
qed

text \<open>
  An invariant of the room tables is one that every change keeps; it then holds along every
  history of the store.
\<close>

locale room_invariant =
  fixes I :: "room_tables \<Rightarrow> bool"
  assumes change: "room_change db db' \<Longrightarrow> I (db_rooms db) \<Longrightarrow> I (db_rooms db')"
begin

lemma step: "I (db_rooms db) \<Longrightarrow> I (db_rooms (store_step pf op db))"
  by (rule store_room_step [of pf op db]) (auto dest: change)

lemma history: "I (db_rooms db) \<Longrightarrow> I (db_rooms (fold (store_step pf) ops db))"
  by (induction ops arbitrary: db) (simp_all add: step)

end

subsection \<open>Keys\<close>

definition outbox_key :: "RoomOutboxRow \<Rightarrow> string \<times> RoomJobStage" where
  "outbox_key b = (ob_attempt b, ob_stage b)"

definition rooms_keyed :: "room_tables \<Rightarrow> bool" where
  "rooms_keyed m \<longleftrightarrow> key_unique rj_id (rm_jobs m) \<and> key_unique rt_id (rm_attempts m)
     \<and> key_unique (\<lambda>a. (rt_job a, rt_generation a)) (rm_attempts m) \<and> key_unique outbox_key (rm_outbox m)"

lemma key_unique_append_list:
  "key_unique key t \<Longrightarrow> list_all (\<lambda>r. \<forall>r' \<in> set t. key r' \<noteq> key r) rows \<Longrightarrow> key_unique key rows \<Longrightarrow> key_unique key (t @ rows)"
  by (force simp: key_unique_def list_all_iff)

lemma job_row_None: "job_row db j = None \<longleftrightarrow> (\<forall>r \<in> set (rm_jobs (db_rooms db)). rj_id r \<noteq> j)"
  by (auto simp: job_row_def tbl_get_None)

lemma outbox_row_None: "outbox_row db t stage = None \<longleftrightarrow> (\<forall>b \<in> set (rm_outbox (db_rooms db)). outbox_key b \<noteq> (t, stage))"
  by (auto simp: outbox_row_def tbl_get_None outbox_is_def outbox_key_def)

lemma rooms_keyed_change: "room_change db db' \<Longrightarrow> rooms_keyed (db_rooms db) \<Longrightarrow> rooms_keyed (db_rooms db')"
proof (induction rule: room_change.induct)
  case (created db c r actor db')
  show ?case by (rule logged_rooms [OF created(7)])
      (use created(2,8) in \<open>auto simp: rooms_keyed_def job_row_None intro!: key_unique_append\<close>)
next
  case (cancelled db c j r actor now db1 now' db')
  have 1: "rooms_keyed (db_rooms db1)"
    by (rule logged_rooms [OF cancelled(4)])
       (use cancelled(6) in \<open>auto simp: room_write_defs rooms_keyed_def intro!: key_unique_update\<close>)
  have 2: "rooms_keyed (db_rooms (mark_cancelled j (rj_revision r + 1) now' db1))"
    using 1 by (auto simp: room_write_defs rooms_keyed_def outbox_key_def intro!: key_unique_update)
  show ?case by (rule logged_rooms [OF cancelled(5)]) (use 2 in \<open>simp add: rooms_keyed_def\<close>)
next
  case (started db c j r a b facts actor db')
  show ?case by (rule logged_rooms [OF started(13)])
      (use started(5,6,8,9,11,14) in \<open>auto simp: room_write_defs rooms_keyed_def list_all_iff outbox_row_None outbox_is_def
         outbox_key_def intro!: key_unique_append\<close>)
next
  case (claimed db t stage a r b ch p)
  then show ?case by (auto simp: room_write_defs rooms_keyed_def outbox_key_def intro!: key_unique_update)
next
  case (artifact db t stage a r b ch p x rows acks s db')
  have "list_all (\<lambda>r. \<forall>r' \<in> set (rm_outbox (db_rooms db)). outbox_key r' \<noteq> outbox_key r) rows \<and> key_unique outbox_key rows"
    using artifact(9,10) by (auto simp: next_outbox_def outbox_row_None outbox_is_def outbox_key_def key_unique_def
        split: list.splits)
  moreover have "outbox_key (b\<lparr>ob_state := z, ob_ackAt := y\<rparr>) = outbox_key b" for b z y by (simp add: outbox_key_def)
  ultimately show ?case
    by (rule_tac logged_rooms [OF artifact(12)])
       (use artifact(13) in \<open>auto simp: room_write_defs rooms_keyed_def set_tbl_update list_all_iff
          intro!: key_unique_append_list key_unique_update\<close>)
next
  case (terminal db t stage a r b ch p outbox attempt reason now db')
  then show ?case by (rule_tac logged_rooms [OF terminal(5)])
      (auto simp: room_write_defs rooms_keyed_def outbox_key_def intro!: key_unique_update)
qed (simp add: set_rooms_def rooms_keyed_def)

interpretation keyed: room_invariant rooms_keyed
  by unfold_locales (rule rooms_keyed_change)

subsection \<open>A cancelled job is frozen\<close>

text \<open>Everything the room tables hold of a job: its row, log, artifacts, facts, attempts and theirs.\<close>

record job_view =
  vw_job :: "RoomJobRow list"
  vw_log :: "RoomJobEventRow list"
  vw_artifacts :: "RoomArtifactRow list"
  vw_facts :: "RoomFactRow list"
  vw_attempts :: "RoomAttemptRow list"
  vw_inputs :: "RoomAttemptFactRow list"
  vw_outbox :: "RoomOutboxRow list"
  vw_acks :: "RoomAckRow list"

definition attempt_ids :: "room_tables \<Rightarrow> string \<Rightarrow> string list" where
  "attempt_ids m j = map rt_id (filter (\<lambda>r. rt_job r = j) (rm_attempts m))"

definition job_view_of :: "room_tables \<Rightarrow> string \<Rightarrow> job_view" where
  "job_view_of m j = \<lparr>vw_job = filter (\<lambda>r. rj_id r = j) (rm_jobs m),
     vw_log = filter (\<lambda>e. re_job e = j) (rm_events m),
     vw_artifacts = filter (\<lambda>a. ra_job a = j) (rm_artifacts m),
     vw_facts = filter (\<lambda>f. rf_job f = j) (rm_facts m),
     vw_attempts = filter (\<lambda>t. rt_job t = j) (rm_attempts m),
     vw_inputs = filter (\<lambda>x. tf_attempt x \<in> set (attempt_ids m j)) (rm_attemptFacts m),
     vw_outbox = filter (\<lambda>b. ob_attempt b \<in> set (attempt_ids m j)) (rm_outbox m),
     vw_acks = filter (\<lambda>k. ak_attempt k \<in> set (attempt_ids m j)) (rm_acks m)\<rparr>"

definition is_cancelled :: "room_tables \<Rightarrow> string \<Rightarrow> bool" where
  "is_cancelled m j \<longleftrightarrow> list_ex (\<lambda>r. rj_id r = j \<and> rj_state r = JobCancelled) (rm_jobs m)"

lemma filter_tbl_update:
  "(\<And>r. P (f r) = P r) \<Longrightarrow> (\<And>r. r \<in> set t \<Longrightarrow> Q r \<Longrightarrow> \<not> P r) \<Longrightarrow> filter P (tbl_update Q f t) = filter P t"
  by (induction t) (auto simp: tbl_update_def)

lemma is_cancelled_view: "is_cancelled m j \<longleftrightarrow> list_ex (\<lambda>r. rj_state r = JobCancelled) (vw_job (job_view_of m j))"
  by (auto simp: is_cancelled_def job_view_of_def list_ex_iff)

lemma not_cancelled:
  assumes "rooms_keyed m" and "is_cancelled m j" and "r \<in> set (rm_jobs m)" and "rj_state r = JobCreated"
  shows "rj_id r \<noteq> j"
proof
  assume "rj_id r = j"
  moreover obtain r' where r': "r' \<in> set (rm_jobs m)" "rj_id r' = j" "rj_state r' = JobCancelled"
    using assms(2) by (auto simp: is_cancelled_def list_ex_iff)
  ultimately have "r' = r" using assms(1,3) by (intro key_unique_eq [of rj_id "rm_jobs m"]) (simp_all add: rooms_keyed_def)
  then show False using r' assms(4) by simp
qed

lemma attempt_ids_outside:
  assumes "rooms_keyed m" and "a \<in> set (rm_attempts m)" and "rt_job a \<noteq> j"
  shows "rt_id a \<notin> set (attempt_ids m j)"
proof
  assume "rt_id a \<in> set (attempt_ids m j)"
  then obtain a' where a': "a' \<in> set (rm_attempts m)" "rt_id a' = rt_id a" "rt_job a' = j" by (auto simp: attempt_ids_def)
  then have "a' = a" using assms(1,2) by (intro key_unique_eq [of rt_id "rm_attempts m"]) (simp_all add: rooms_keyed_def)
  then show False using a' assms(3) by simp
qed

lemma run_row_rows:
  assumes "run_row db t stage = Some (a, r, b, ch, p)"
  shows "a \<in> set (rm_attempts (db_rooms db))" "rt_id a = t" "r \<in> set (rm_jobs (db_rooms db))" "rj_id r = rt_job a"
    "b \<in> set (rm_outbox (db_rooms db))" "outbox_is t stage b"
  using assms by (auto simp: run_row_def attempt_row_def job_row_def outbox_row_def split: option.splits dest!: tbl_get_Some)

lemma view_cong:
  assumes "filter (\<lambda>r. rj_id r = j) (rm_jobs m') = filter (\<lambda>r. rj_id r = j) (rm_jobs m)"
    and "filter (\<lambda>e. re_job e = j) (rm_events m') = filter (\<lambda>e. re_job e = j) (rm_events m)"
    and "filter (\<lambda>a. ra_job a = j) (rm_artifacts m') = filter (\<lambda>a. ra_job a = j) (rm_artifacts m)"
    and "filter (\<lambda>f. rf_job f = j) (rm_facts m') = filter (\<lambda>f. rf_job f = j) (rm_facts m)"
    and "filter (\<lambda>t. rt_job t = j) (rm_attempts m') = filter (\<lambda>t. rt_job t = j) (rm_attempts m)"
    and "\<And>ids. ids = set (attempt_ids m j) \<Longrightarrow> filter (\<lambda>x. tf_attempt x \<in> ids) (rm_attemptFacts m') = filter (\<lambda>x. tf_attempt x \<in> ids) (rm_attemptFacts m)"
    and "\<And>ids. ids = set (attempt_ids m j) \<Longrightarrow> filter (\<lambda>b. ob_attempt b \<in> ids) (rm_outbox m') = filter (\<lambda>b. ob_attempt b \<in> ids) (rm_outbox m)"
    and "\<And>ids. ids = set (attempt_ids m j) \<Longrightarrow> filter (\<lambda>k. ak_attempt k \<in> ids) (rm_acks m') = filter (\<lambda>k. ak_attempt k \<in> ids) (rm_acks m)"
  shows "job_view_of m' j = job_view_of m j"
proof -
  have ids: "attempt_ids m' j = attempt_ids m j" using assms(5) by (simp add: attempt_ids_def)
  show ?thesis by (simp add: job_view_of_def ids assms)
qed

lemma filter_acks_outside:
  assumes "filter (\<lambda>k. ak_attempt k \<noteq> t) acks = filter (\<lambda>k. ak_attempt k \<noteq> t) old" and "t \<notin> ids"
  shows "filter (\<lambda>k. ak_attempt k \<in> ids) acks = filter (\<lambda>k. ak_attempt k \<in> ids) old"
proof -
  have "filter (\<lambda>k. ak_attempt k \<in> ids) ks = filter (\<lambda>k. ak_attempt k \<in> ids) (filter (\<lambda>k. ak_attempt k \<noteq> t) ks)" for ks
    using assms(2) by (induction ks) auto
  then show ?thesis using assms(1) by metis
qed

lemma view_change:
  "room_change db db' \<Longrightarrow> rooms_keyed (db_rooms db) \<Longrightarrow> is_cancelled (db_rooms db) j
   \<Longrightarrow> job_view_of (db_rooms db') j = job_view_of (db_rooms db) j"
proof (induction rule: room_change.induct)
  case (created db c r actor db')
  have other: "rj_id r \<noteq> j" using created(2,9) by (auto simp: job_row_None is_cancelled_def list_ex_iff)
  show ?case by (rule logged_rooms [OF created(7)]) (rule view_cong, use other in auto)
next
  case (cancelled db c i r actor now db1 now' db')
  have other: "i \<noteq> j" using not_cancelled [OF cancelled(6,7)] job_in_row [OF cancelled(2)] cancelled(3) by auto
  have 1: "job_view_of (db_rooms db1) j = job_view_of (db_rooms db) j"
    by (rule logged_rooms [OF cancelled(4)], rule view_cong)
       (use other in \<open>auto simp: room_write_defs intro!: filter_tbl_update\<close>)
  have keyed: "rooms_keyed (db_rooms db1)"
    by (rule logged_rooms [OF cancelled(4)])
       (use cancelled(6) in \<open>auto simp: room_write_defs rooms_keyed_def intro!: key_unique_update\<close>)
  have out: "x \<notin> set (attempt_ids m j)" if "x \<in> set (attempt_ids m i)" "rooms_keyed m" for x m
    using that other attempt_ids_outside [OF that(2)] by (auto simp: attempt_ids_def)
  have ids: "attempts_of (db1\<lparr>db_rooms := (db_rooms db1)\<lparr>rm_jobs := js\<rparr>\<rparr>) i = attempt_ids (db_rooms db1) i" for js
    by (simp add: attempts_of_def attempt_ids_def)
  have 2: "job_view_of (db_rooms (mark_cancelled i (rj_revision r + 1) now' db1)) j = job_view_of (db_rooms db1) j"
    by (rule view_cong) (use other out [OF _ keyed] in \<open>auto simp: room_write_defs ids intro!: filter_tbl_update trans [OF filter_tbl_update filter_tbl_update]\<close>)
  show ?case by (rule logged_rooms [OF cancelled(5)], rule trans [OF view_cong trans [OF 2 1]])
      (use other in simp_all)
next
  case (facts_added db c i r rows db')
  have other: "i \<noteq> j" using not_cancelled [OF facts_added(6,7)] job_in_row [OF facts_added(1)] facts_added(2) by auto
  then have "filter (\<lambda>f. rf_job f = j) rows = []" using facts_added(4) by (auto simp: list_all_iff filter_empty_conv)
  then show ?case by (intro view_cong) (simp_all add: facts_added(5) set_rooms_def)
next
  case (started db c i r a b facts actor db')
  have other: "i \<noteq> j" using not_cancelled [OF started(14,15)] job_in_row [OF started(2)] started(3) by auto
  have fresh: "rt_id a \<notin> set (attempt_ids (db_rooms db) j)" using started(8) by (auto simp: attempt_ids_def list_all_iff)
  show ?case by (rule logged_rooms [OF started(13)], rule view_cong)
      (use other fresh started(5,9) in \<open>auto simp: room_write_defs outbox_is_def filter_empty_conv\<close>)
next
  case (claimed db t stage a r b ch p)
  note rows = run_row_rows [OF claimed(1)]
  have "rt_job a \<noteq> j" using not_cancelled [OF claimed(4,5) rows(3)] rows(4) claimed(2)
    by (auto simp: run_dispatchable_def run_current_def)
  then have "t \<notin> set (attempt_ids (db_rooms db) j)" using attempt_ids_outside [OF claimed(4) rows(1)] rows(2) by simp
  then show ?case by (intro view_cong) (auto simp: room_write_defs outbox_is_def intro!: filter_tbl_update)
next
  case (artifact db t stage a r b ch p x rows acks s db')
  note rows' = run_row_rows [OF artifact(1)]
  have other: "rt_job a \<noteq> j" using not_cancelled [OF artifact(13,14) rows'(3)] rows'(4) artifact(2) by (auto simp: run_current_def)
  then have out: "t \<notin> set (attempt_ids (db_rooms db) j)" using attempt_ids_outside [OF artifact(13) rows'(1)] rows'(2) by simp
  have at: "rt_id y = t \<Longrightarrow> y \<in> set (rm_attempts (db_rooms db)) \<Longrightarrow> rt_job y \<noteq> j" for y
    using out by (auto simp: attempt_ids_def)
  have attempts: "filter (\<lambda>y. rt_job y = j) (tbl_update (\<lambda>x. rt_id x = t) f (rm_attempts (db_rooms db)))
      = filter (\<lambda>y. rt_job y = j) (rm_attempts (db_rooms db))" if "\<And>y. rt_job (f y) = rt_job y" for f
    by (rule filter_tbl_update) (use at that in auto)
  have new: "filter (\<lambda>b. ob_attempt b \<in> ids) rows = []" if "t \<notin> ids" for ids
    using artifact(9) that by (auto simp: next_outbox_def outbox_is_def split: list.splits)
  show ?case
    by (rule logged_rooms [OF artifact(12)], rule view_cong)
       (use other out artifact(4) new attempts filter_acks_outside [OF artifact(11)] in
         \<open>auto simp: room_write_defs outbox_is_def intro!: filter_tbl_update\<close>)
next
  case (terminal db t stage a r b ch p outbox attempt reason now db')
  note rows' = run_row_rows [OF terminal(1)]
  have other: "rt_job a \<noteq> j" using not_cancelled [OF terminal(6,7) rows'(3)] rows'(4) terminal(2) by (auto simp: run_current_def)
  then have out: "t \<notin> set (attempt_ids (db_rooms db) j)" using attempt_ids_outside [OF terminal(6) rows'(1)] rows'(2) by simp
  have at: "rt_id y = t \<Longrightarrow> y \<in> set (rm_attempts (db_rooms db)) \<Longrightarrow> rt_job y \<noteq> j" for y
    using out by (auto simp: attempt_ids_def)
  have attempts: "filter (\<lambda>y. rt_job y = j) (tbl_update (\<lambda>x. rt_id x = t) f (rm_attempts (db_rooms db)))
      = filter (\<lambda>y. rt_job y = j) (rm_attempts (db_rooms db))" if "\<And>y. rt_job (f y) = rt_job y" for f
    by (rule filter_tbl_update) (use at that in auto)
  show ?case by (rule logged_rooms [OF terminal(5)], rule view_cong)
       (use other out attempts in \<open>auto simp: room_write_defs outbox_is_def intro!: filter_tbl_update\<close>)
qed

lemma job_in_keyed:
  assumes "rooms_keyed (db_rooms db)" and "job_in db c j = Some r" and "r' \<in> set (rm_jobs (db_rooms db))" and "rj_id r' = j"
  shows "r' = r"
  using assms job_in_row [OF assms(2)] by (intro key_unique_eq [of rj_id "rm_jobs (db_rooms db)"]) (simp_all add: rooms_keyed_def)

lemma is_cancelled_filter:
  "is_cancelled m j \<longleftrightarrow> list_ex (\<lambda>r. rj_state r = JobCancelled) (filter (\<lambda>r. rj_id r = j) (rm_jobs m))"
  by (auto simp: is_cancelled_def list_ex_iff)

text \<open>Only a cancellation cancels a job, and it closes what was open.\<close>

definition closed_state :: "OutboxState \<Rightarrow> bool" where
  "closed_state s \<longleftrightarrow> s \<noteq> ObPending \<and> s \<noteq> ObClaimed"

lemma fence_closes:
  assumes "rm_execution (db_rooms db)"
  shows "list_all (\<lambda>b. closed_state (ob_state b)) (vw_outbox (job_view_of (db_rooms (mark_cancelled j n now db)) j))"
proof -
  let ?m = "db_rooms (mark_cancelled j n now db)" and ?ids = "set (attempt_ids (db_rooms db) j)"
  have ids: "attempt_ids ?m j = attempt_ids (db_rooms db) j"
  proof -
    have "map rt_id (filter (\<lambda>r. rt_job r = j) (tbl_update P (\<lambda>r. r\<lparr>rt_state := s, rt_reason := x, rt_updatedAt := y\<rparr>) t))
        = map rt_id (filter (\<lambda>r. rt_job r = j) t)" for P s x y t
      by (induction t) (simp_all add: tbl_update_def)
    then show ?thesis using assms by (simp add: attempt_ids_def mark_cancelled_def room_writes)
  qed
  have out: "rm_outbox ?m = tbl_update (\<lambda>b. ob_attempt b \<in> ?ids \<and> ob_state b \<in> {ObPending, ObClaimed})
      (\<lambda>b. b\<lparr>ob_state := ObCancelled\<rparr>) (rm_outbox (db_rooms db))"
    using assms by (simp add: mark_cancelled_def room_writes attempts_of_def attempt_ids_def)
  have "closed_state (ob_state b)" if b: "b \<in> set (rm_outbox ?m)" "ob_attempt b \<in> ?ids" for b
  proof -
    obtain b0 where "b = (if ob_attempt b0 \<in> ?ids \<and> ob_state b0 \<in> {ObPending, ObClaimed} then b0\<lparr>ob_state := ObCancelled\<rparr> else b0)"
      using b(1) unfolding out by (rule in_tbl_update)
    then show ?thesis using b(2) by (simp add: closed_state_def split: if_splits)
  qed
  then show ?thesis by (simp add: job_view_of_def ids list_all_iff)
qed

lemma newly_cancelled:
  "room_change db db' \<Longrightarrow> rooms_keyed (db_rooms db) \<Longrightarrow> rm_execution (db_rooms db) \<Longrightarrow> is_cancelled (db_rooms db') j
   \<Longrightarrow> \<not> is_cancelled (db_rooms db) j \<Longrightarrow> list_all (\<lambda>b. closed_state (ob_state b)) (vw_outbox (job_view_of (db_rooms db') j))"
proof (induction rule: room_change.induct)
  case (created db c r actor db')
  show ?case by (rule logged_rooms [OF created(7)]) (use created(4,10,11) in \<open>simp add: is_cancelled_def\<close>)
next
  case (cancelled db c i r actor now db1 now' db')
  have cong: "is_cancelled (m\<lparr>rm_events := es\<rparr>) j = is_cancelled m j" "job_view_of (m\<lparr>rm_events := es\<rparr>) j
      = (job_view_of m j)\<lparr>vw_log := filter (\<lambda>e. re_job e = j) es\<rparr>" for m es
    by (simp_all add: is_cancelled_def job_view_of_def attempt_ids_def)
  let ?db2 = "mark_cancelled i (rj_revision r + 1) now' db1"
  have 1: "rm_execution (db_rooms db1)" and not: "\<not> is_cancelled (db_rooms db1) j"
    by (rule logged_rooms [OF cancelled(4)],
        use cancelled(7,9) in \<open>auto simp: room_write_defs is_cancelled_def tbl_update_ex\<close>)+
  have "is_cancelled (db_rooms ?db2) j" using cancelled(8) by (rule_tac logged_rooms [OF cancelled(5)]) (simp add: cong)
  moreover have "filter (\<lambda>r. rj_id r = j) (rm_jobs (db_rooms ?db2)) = filter (\<lambda>r. rj_id r = j) (rm_jobs (db_rooms db1))" if "i \<noteq> j"
    using that 1 by (auto simp: room_write_defs intro!: trans [OF filter_tbl_update filter_tbl_update])
  ultimately have "i = j" using not unfolding is_cancelled_filter by fastforce
  then have "list_all (\<lambda>b. closed_state (ob_state b)) (vw_outbox (job_view_of (db_rooms ?db2) j))"
    using fence_closes [OF 1] by simp
  then show ?case by (rule_tac logged_rooms [OF cancelled(5)]) (simp add: cong)
next
  case (started db c i r a b facts actor db')
  show ?case by (rule logged_rooms [OF started(13)]) (use started(16,17) in \<open>simp add: is_cancelled_def room_write_defs\<close>)
next
  case (artifact db t stage a r b ch p x rows acks s db')
  show ?case by (rule logged_rooms [OF artifact(12)]) (use artifact(15,16) in \<open>simp add: is_cancelled_def room_write_defs tbl_update_ex\<close>)
next
  case (terminal db t stage a r b ch p outbox attempt reason now db')
  show ?case by (rule logged_rooms [OF terminal(5)]) (use terminal(8,9) in \<open>simp add: is_cancelled_def room_write_defs\<close>)
qed (simp_all add: is_cancelled_def room_write_defs)

definition rooms_ok :: "room_tables \<Rightarrow> bool" where
  "rooms_ok m \<longleftrightarrow> rooms_keyed m \<and> rm_execution m
     \<and> list_all (\<lambda>r. rj_state r = JobCancelled \<longrightarrow>
         list_all (\<lambda>b. closed_state (ob_state b)) (vw_outbox (job_view_of m (rj_id r)))) (rm_jobs m)"

lemma rooms_ok_iff: "rooms_ok m \<longleftrightarrow> rooms_keyed m \<and> rm_execution m
   \<and> (\<forall>j. is_cancelled m j \<longrightarrow> list_all (\<lambda>b. closed_state (ob_state b)) (vw_outbox (job_view_of m j)))"
  by (auto simp: rooms_ok_def is_cancelled_def list_ex_iff list_all_iff)

lemma execution_change: "room_change db db' \<Longrightarrow> rm_execution (db_rooms db') = rm_execution (db_rooms db)"
proof (induction rule: room_change.induct)
  case (cancelled db c i r actor now db1 now' db')
  have "rm_execution (db_rooms db1) = rm_execution (db_rooms db)"
    by (rule logged_rooms [OF cancelled(4)]) (simp add: room_write_defs)
  then show ?case by (rule_tac logged_rooms [OF cancelled(5)]) (simp add: room_write_defs)
qed (auto simp: room_write_defs elim!: logged_rooms)

lemma rooms_ok_change: "room_change db db' \<Longrightarrow> rooms_ok (db_rooms db) \<Longrightarrow> rooms_ok (db_rooms db')"
  using rooms_keyed_change execution_change newly_cancelled view_change unfolding rooms_ok_iff by metis

interpretation sound: room_invariant rooms_ok
  by unfold_locales (rule rooms_ok_change)

lemma rooms_ok_fresh: "rooms_ok (db_rooms (fresh_db ps cs))"
  by (simp add: rooms_ok_def rooms_keyed_def fresh_db_def empty_rooms_def key_unique_def)

lemma view_step:
  "rooms_keyed (db_rooms db) \<Longrightarrow> is_cancelled (db_rooms db) j
   \<Longrightarrow> job_view_of (db_rooms (store_step pf op db)) j = job_view_of (db_rooms db) j"
  by (rule store_room_step [of pf op db]) (auto dest: view_change)

lemma view_history:
  "rooms_keyed (db_rooms db) \<Longrightarrow> is_cancelled (db_rooms db) j
   \<Longrightarrow> job_view_of (db_rooms (fold (store_step pf) ops db)) j = job_view_of (db_rooms db) j"
proof (induction ops arbitrary: db)
  case (Cons op ops)
  have "is_cancelled (db_rooms (store_step pf op db)) j"
    using Cons.prems view_step [OF Cons.prems] by (simp add: is_cancelled_view)
  then show ?case using Cons.IH [OF keyed.step [OF Cons.prems(1)]] view_step [OF Cons.prems] by simp
qed simp

lemma tbl_update_member: "r \<in> set t \<Longrightarrow> (if P r then f r else r) \<in> set (tbl_update P f t)"
  by (simp only: set_tbl_update) (rule imageI)

lemma mark_cancelled_cancels:
  assumes "r \<in> set (rm_jobs (db_rooms db))" and "rj_id r = j"
  shows "is_cancelled (db_rooms (mark_cancelled j n now db)) j"
proof -
  let ?f = "\<lambda>r. r\<lparr>rj_state := JobCancelled, rj_revision := n, rj_cancelledAt := Some now\<rparr>"
  let ?jobs = "tbl_update (\<lambda>r. rj_id r = j \<and> rj_state r = JobCreated) ?f (rm_jobs (db_rooms db))"
  have "(if rj_id r = j \<and> rj_state r = JobCreated then ?f r else r) \<in> set ?jobs"
    using assms(1) by (rule tbl_update_member)
  then have "list_ex (\<lambda>r. rj_id r = j \<and> rj_state r = JobCancelled) ?jobs"
    using assms(2) by (cases "rj_state r") (auto simp: list_ex_iff intro: bexI [rotated])
  then show ?thesis by (simp add: mark_cancelled_def room_writes is_cancelled_def tbl_update_ex)
qed

lemma cancel_commits:
  assumes "cancel_job_tx en caller c j n db = Inr (r, red, db')"
  shows "is_cancelled (db_rooms db') j"
proof -
  obtain row where row: "job_in db c j = Some row" using assms by (cases "job_in db c j") (simp_all add: cancel_job_tx_def)
  note in' = job_in_row [OF row]
  show ?thesis
  proof (cases "rj_state row = JobCancelled")
    case True
    then show ?thesis using assms row in' by (auto simp: cancel_job_tx_def Let_def is_cancelled_def list_ex_iff split: if_splits)
  next
    case False
    obtain db1 db4 where db1: "appendRoomJobLifecycle (en_uuid en 0) (en_clock en 1) (rj_channel row) j cancel_requested JobCreated
        (rj_revision row) caller [] (mark_requested j (en_clock en 0) db) = Some db1"
      and db4: "appendRoomJobLifecycle (en_uuid en 1) (en_clock en 3) (rj_channel row) j job_cancelled JobCancelled
        (rj_revision row + 1) caller [] (mark_cancelled j (rj_revision row + 1) (en_clock en 2) db1) = Some db'"
      using assms row False by (auto simp: cancel_job_tx_def Let_def mark_requested_def mark_cancelled_def split: if_splits option.splits)
    have "list_ex (\<lambda>r. rj_id r = j) (rm_jobs (db_rooms db1))"
      by (rule logged_rooms [OF lifecycle_logged [OF db1]])
         (use in' in \<open>auto simp: room_write_defs tbl_update_ex list_ex_iff [of _ "rm_jobs (db_rooms db)"]\<close>)
    then obtain r1 where r1: "r1 \<in> set (rm_jobs (db_rooms db1))" "rj_id r1 = j" by (auto simp: list_ex_iff)
    have "is_cancelled (db_rooms (mark_cancelled j (rj_revision row + 1) (en_clock en 2) db1)) j"
      by (rule mark_cancelled_cancels [OF r1])
    then show ?thesis by (rule_tac logged_rooms [OF lifecycle_logged [OF db4]]) (simp add: is_cancelled_def)
  qed
qed

text \<open>
  C11. A cancellation is final. Once a cancel command has committed, the job is cancelled, no stage of
  its attempts is pending or claimed, and along every later history of the store nothing the room
  tables hold of the job changes: its row, lifecycle log, artifacts, facts, attempts, outbox and
  acknowledgements stay as they are.
\<close>

theorem cancel_freezes_job:
  assumes "rooms_ok (db_rooms db)"
    and "cancelRoomJob pf en caller c j n key db = (db', Inr r)" and "committed db (db', Inr r)"
  shows "let view = job_view_of (db_rooms db') j in
     list_ex (\<lambda>r. rj_state r = JobCancelled) (vw_job view)
     \<and> list_all (\<lambda>b. closed_state (ob_state b)) (vw_outbox view)
     \<and> job_view_of (db_rooms (fold (store_step pf) ops db')) j = view"
proof -
  obtain red d where tx: "cancel_job_tx en caller c j n db = Inr (r, red, d)" and rooms: "db_rooms db' = db_rooms d"
    using assms(2,3) by (rule_tac runKeyedCommand_cases [of pf caller CANCEL_ROOM_JOB key
        "JObj [(cps ''channelId'', jtext c), (cps ''jobId'', jtext j), (cps ''expectedRevision'', JNum (Fin n))]"
        "assertChannelOwner caller c" "cancel_job_tx en caller c j n" db])
      (auto simp: cancelRoomJob_def committed_def)
  have ok: "rooms_ok (db_rooms db')"
    using sound.step [OF assms(1), of pf "Job (CancelJob en caller c j n key)"] assms(2) by simp
  have "is_cancelled (db_rooms db') j" using cancel_commits [OF tx] rooms by simp
  then show ?thesis using ok view_history [of db' j pf ops] by (simp add: rooms_ok_iff is_cancelled_view Let_def)
qed

subsection \<open>A stage is dispatched and delivered at most once\<close>

lemma claim_inversion:
  assumes "claimRoomJobInternalDispatch t stage configuration db = (db', Some run)"
  obtains a r b ch p where "run_row db t stage = Some (a, r, b, ch, p)" "run_dispatchable a r ch p"
    "ob_state b = ObPending" "rt_configuration a = configuration" "db' = claimed_outbox t stage db"
    "getRoomJobInternalRun t stage True db' = Some run"
proof -
  have won: "claim_run_tx t stage configuration db = Inr (True, db')" and run: "getRoomJobInternalRun t stage True db' = Some run"
    using assms by (auto simp: claimRoomJobInternalDispatch_def runNaturallyIdempotentCommand_def
        split: sum.splits prod.splits bool.splits)
  from won obtain a r b ch p where row: "run_row db t stage = Some (a, r, b, ch, p)"
    and c: "\<not> (rt_configuration a \<noteq> configuration \<or> \<not> run_dispatchable a r ch p \<or> ob_state b \<noteq> ObPending)"
    and d: "db' = claimed_outbox t stage db"
    by (auto simp: claim_run_tx_def Let_def claimed_outbox_def split: if_splits option.splits prod.splits)
  show thesis by (rule that [OF row _ _ _ d run]) (use c in auto)
qed

definition stage_in :: "string \<Rightarrow> RoomJobStage \<Rightarrow> OutboxState list \<Rightarrow> collab_db \<Rightarrow> bool" where
  "stage_in t stage states db \<longleftrightarrow>
     list_all (\<lambda>b. outbox_is t stage b \<longrightarrow> ob_state b \<in> set states) (rm_outbox (db_rooms db))"

lemma outbox_step: "outbox_next (rm_outbox (db_rooms db)) (rm_outbox (db_rooms (store_step pf op db)))"
  by (rule store_room_step [of pf op db]) (auto dest: outbox_change)

text \<open>A row that has left a set of states no edge enters stays outside.\<close>

lemma stage_stays_out:
  assumes "\<not> stage_in t stage states db" and "\<And>s s'. stage_edge s s' \<Longrightarrow> s' \<in> set states \<Longrightarrow> s \<in> set states"
  shows "\<not> stage_in t stage states (store_step pf op db)"
proof -
  obtain b where b: "b \<in> set (rm_outbox (db_rooms db))" "outbox_is t stage b" "ob_state b \<notin> set states"
    using assms(1) by (auto simp: stage_in_def list_all_iff)
  obtain b' where b': "b' \<in> set (rm_outbox (db_rooms (store_step pf op db)))" "outbox_moves b b'"
    using outbox_step [of db pf op] b(1) unfolding outbox_next_def list_all2_conv_all_nth
    by (metis in_set_conv_nth in_set_takeD)
  have "outbox_is t stage b'" using b(2) b'(2) by (simp add: outbox_is_def outbox_moves_def)
  moreover have "ob_state b' \<notin> set states" using b(3) b'(2) assms(2) by (auto simp: outbox_moves_def)
  ultimately show ?thesis using b'(1) by (auto simp: stage_in_def list_all_iff)
qed

lemma stage_row_only:
  assumes "rooms_keyed (db_rooms db)" and "run_row db t stage = Some (a, r, b, ch, p)"
  shows "stage_in t stage states db \<longleftrightarrow> ob_state b \<in> set states"
proof -
  note b = run_row_rows(5,6) [OF assms(2)]
  have "b' = b" if b': "b' \<in> set (rm_outbox (db_rooms db))" "outbox_is t stage b'" for b'
  proof (rule key_unique_eq [of outbox_key "rm_outbox (db_rooms db)"])
    show "key_unique outbox_key (rm_outbox (db_rooms db))" using assms(1) by (simp add: rooms_keyed_def)
    show "outbox_key b' = outbox_key b" using b(2) b'(2) by (simp add: outbox_key_def outbox_is_def)
  qed (rule b', rule b)
  then show ?thesis using b unfolding stage_in_def list_all_iff by metis
qed

lemma settled_out:
  assumes "b \<in> set old" and "outbox_is t stage b" and "ob_state b = s" and "s' \<notin> set states" and "new' = tbl_update
      (\<lambda>r. outbox_is t stage r \<and> ob_state r = s) f old @ rows" and "\<And>r. ob_state (f r) = s'"
    and "\<And>r. outbox_is t stage (f r) = outbox_is t stage r"
  shows "\<not> list_all (\<lambda>b. outbox_is t stage b \<longrightarrow> ob_state b \<in> set states) new'"
proof -
  have "f b \<in> set new'"
    using tbl_update_member [OF assms(1), of "\<lambda>r. outbox_is t stage r \<and> ob_state r = s" f] assms(2,3,5) by simp
  moreover have "outbox_is t stage (f b)" "ob_state (f b) \<notin> set states" using assms by simp_all
  ultimately show ?thesis by (auto simp: list_all_iff)
qed

definition stage_claim :: "platform \<Rightarrow> string \<Rightarrow> RoomJobStage \<Rightarrow> store_op \<Rightarrow> collab_db \<Rightarrow> collab_db \<times> bool" where
  "stage_claim pf t stage op db =
     (store_step pf op db,
      case op of
        Job (ClaimRun u s configuration) \<Rightarrow>
          u = t \<and> s = stage \<and> snd (claimRoomJobInternalDispatch u s configuration db) \<noteq> None
      | _ \<Rightarrow> False)"

definition stage_commit :: "platform \<Rightarrow> string \<Rightarrow> RoomJobStage \<Rightarrow> store_op \<Rightarrow> collab_db \<Rightarrow> collab_db \<times> bool" where
  "stage_commit pf t stage op db =
     (store_step pf op db,
      case op of
        Job (CommitArtifact en i) \<Rightarrow> ic_attempt i = t \<and> ic_stage i = stage
          \<and> (\<exists>m. snd (commitRoomJobInternalArtifact pf en i db) = Inr (Some m))
      | _ \<Rightarrow> False)"

lemma stage_claim_win:
  assumes "rooms_keyed (db_rooms db)" and "snd (stage_claim pf t stage op db)"
  shows "stage_in t stage [ObPending] db \<and> \<not> stage_in t stage [ObPending] (store_step pf op db)"
proof -
  obtain configuration db' run where op: "op = Job (ClaimRun t stage configuration)"
    and run: "claimRoomJobInternalDispatch t stage configuration db = (db', Some run)"
    using assms(2) by (auto simp: stage_claim_def split: store_op.splits job_op.splits)
      (metis prod.collapse)
  from run obtain a r b ch p where row: "run_row db t stage = Some (a, r, b, ch, p)" and b: "ob_state b = ObPending"
    and db': "db' = claimed_outbox t stage db" by (rule claim_inversion)
  have "\<not> stage_in t stage [ObPending] db'"
    unfolding stage_in_def
    by (rule settled_out [of b "rm_outbox (db_rooms db)" t stage ObPending ObClaimed _ _ "\<lambda>r. r\<lparr>ob_state := ObClaimed\<rparr>" "[]"])
       (use run_row_rows(5,6) [OF row] b in \<open>simp_all add: db' room_write_defs outbox_is_def\<close>)
  then show ?thesis using stage_row_only [OF assms(1) row] b op run by simp
qed

lemma stage_commit_win:
  assumes "rooms_keyed (db_rooms db)" and "snd (stage_commit pf t stage op db)"
  shows "stage_in t stage [ObPending, ObClaimed] db \<and> \<not> stage_in t stage [ObPending, ObClaimed] (store_step pf op db)"
proof -
  obtain en i m where op: "op = Job (CommitArtifact en i)" "ic_attempt i = t" "ic_stage i = stage"
    and run: "snd (commitRoomJobInternalArtifact pf en i db) = Inr (Some m)"
    using assms(2) by (auto simp: stage_commit_def split: store_op.splits job_op.splits)
  obtain db' where tx: "commit_artifact_tx pf en i db = Inr (Some m, db')" and db': "store_step pf op db = db'"
    using run op(1) by (auto simp: commitRoomJobInternalArtifact_def runNaturallyIdempotentCommand_def
        split: sum.splits prod.splits if_splits)
  from tx show ?thesis
  proof (cases rule: artifact_cases)
    case (ran a j b ch p x rows acks s)
    have "\<not> stage_in t stage [ObPending, ObClaimed] db'"
      unfolding stage_in_def
      by (rule logged_rooms [OF ran(18)], rule settled_out [of b "rm_outbox (db_rooms db)" t stage ObClaimed ObAcknowledged _ _
            "\<lambda>r. r\<lparr>ob_state := ObAcknowledged, ob_ackAt := Some (ra_createdAt x)\<rparr>" rows])
         (use run_row_rows(5,6) [OF ran(1)] ran(3) op in \<open>simp_all add: room_write_defs outbox_is_def\<close>)
    then show ?thesis using stage_row_only [OF assms(1)] ran(1,3) op db' by simp
  qed simp
qed

interpretation stage_claims: one_shot "stage_claim pf t stage" "stage_in t stage [ObPending]" "\<lambda>db. rooms_keyed (db_rooms db)"
proof unfold_locales
  fix db op
  show "rooms_keyed (db_rooms db) \<Longrightarrow> rooms_keyed (db_rooms (fst (stage_claim pf t stage op db)))"
    by (simp add: stage_claim_def keyed.step)
  show "\<not> stage_in t stage [ObPending] db \<Longrightarrow> \<not> stage_in t stage [ObPending] (fst (stage_claim pf t stage op db))"
    by (simp add: stage_claim_def) (rule stage_stays_out, auto simp: stage_edge_iff)
qed (use stage_claim_win in \<open>auto simp: stage_claim_def\<close>)

interpretation stage_commits: one_shot "stage_commit pf t stage" "stage_in t stage [ObPending, ObClaimed]"
  "\<lambda>db. rooms_keyed (db_rooms db)"
proof unfold_locales
  fix db op
  show "rooms_keyed (db_rooms db) \<Longrightarrow> rooms_keyed (db_rooms (fst (stage_commit pf t stage op db)))"
    by (simp add: stage_commit_def keyed.step)
  show "\<not> stage_in t stage [ObPending, ObClaimed] db
    \<Longrightarrow> \<not> stage_in t stage [ObPending, ObClaimed] (fst (stage_commit pf t stage op db))"
    by (simp add: stage_commit_def) (rule stage_stays_out, auto simp: stage_edge_iff)
qed (use stage_commit_win in \<open>auto simp: stage_commit_def\<close>)

text \<open>
  C4. Each stage of an attempt is dispatched at most once and delivers at most one artifact. Along any
  history of the store from a fresh database, whatever cancellations, failures, recoveries and other
  commands come in between, at most one claim of a given stage of a given attempt is granted and at
  most one artifact is committed for it.
\<close>

theorem stage_at_most_once:
  "wins (snd (run_steps (stage_claim pf t stage) ops (fresh_db ps cs))) \<le> 1
   \<and> wins (snd (run_steps (stage_commit pf t stage) ops (fresh_db ps cs))) \<le> 1"
proof -
  have "rooms_keyed (db_rooms (fresh_db ps cs))" using rooms_ok_fresh by (simp add: rooms_ok_def)
  then show ?thesis by (intro conjI stage_claims.at_most_one_win stage_commits.at_most_one_win)
qed

subsection \<open>The lifecycle log\<close>

text \<open>The entries of a job are numbered in order; each is also an event of the job's channel.\<close>

definition log_numbered :: "room_tables \<Rightarrow> bool" where
  "log_numbered m \<longleftrightarrow> (\<forall>j. let es = filter (\<lambda>e. re_job e = j) (rm_events m)
     in map re_seq es = [1..<Suc (length es)])"

lemma fold_max_numbered:
  assumes "map f xs = [1..<Suc (length xs)]"
  shows "fold max (map f xs) 0 = length xs"
proof -
  have "fold max [1..<Suc n] 0 = n" for n :: nat by (induction n) simp_all
  then show ?thesis unfolding assms .
qed

lemma logged_numbered:
  assumes "logged j kind c actor db db'" and "log_numbered (db_rooms db)"
  shows "log_numbered (db_rooms db')"
proof (rule logged_rooms [OF assms(1)])
  fix e v
  assume rooms: "db_rooms db' = (db_rooms db)\<lparr>rm_events := rm_events (db_rooms db) @ [e]\<rparr>" and j: "re_job e = j"
    and seq: "re_seq e = max_job_seq db j + 1"
  have "max_job_seq db j = length (filter (\<lambda>e. re_job e = j) (rm_events (db_rooms db)))"
    using assms(2) unfolding max_job_seq_def job_events_def by (intro fold_max_numbered) (simp add: log_numbered_def Let_def)
  then show ?thesis using assms(2) seq j by (auto simp: log_numbered_def rooms Let_def)
qed

lemma log_numbered_cong: "rm_events m' = rm_events m \<Longrightarrow> log_numbered m' = log_numbered m"
  by (simp add: log_numbered_def)

lemma log_numbered_change: "room_change db db' \<Longrightarrow> log_numbered (db_rooms db) \<Longrightarrow> log_numbered (db_rooms db')"
proof (induction rule: room_change.induct)
  case (created db c r actor db')
  then show ?case by (intro logged_numbered [OF created(7)]) (simp add: set_rooms_def log_numbered_def)
next
  case (cancelled db c i r actor now db1 now' db')
  have "log_numbered (db_rooms db1)"
    by (rule logged_numbered [OF cancelled(4)]) (use cancelled(6) in \<open>simp add: room_write_defs log_numbered_def\<close>)
  moreover have "log_numbered (db_rooms (mark_cancelled i (rj_revision r + 1) now' db1)) = log_numbered (db_rooms db1)"
    by (rule log_numbered_cong) (simp add: room_write_defs)
  ultimately show ?case by (intro logged_numbered [OF cancelled(5)]) simp
next
  case (started db c i r a b facts actor db')
  then show ?case by (intro logged_numbered [OF started(13)]) (simp add: room_write_defs log_numbered_def)
next
  case (artifact db t stage a r b ch p x rows acks s db')
  then show ?case by (intro logged_numbered [OF artifact(12)]) (simp add: room_write_defs log_numbered_def)
next
  case (terminal db t stage a r b ch p outbox attempt reason now db')
  then show ?case by (intro logged_numbered [OF terminal(5)]) (simp add: room_write_defs log_numbered_def)
qed (simp_all add: room_write_defs log_numbered_def)

interpretation numbered: room_invariant log_numbered
  by unfold_locales (rule log_numbered_change)

text \<open>Every entry has its event; both logs only grow and no job changes its channel.\<close>

definition entry_mirrored :: "collab_db \<Rightarrow> RoomJobEventRow \<Rightarrow> bool" where
  "entry_mirrored db e \<longleftrightarrow> (\<exists>r \<in> set (rm_jobs (db_rooms db)). rj_id r = re_job e
     \<and> (\<exists>v \<in> set (db_events db). ev_id v = re_event e \<and> ev_kind v = room_job (re_kind e) \<and> ev_channel v = rj_channel r
          \<and> ev_createdAt v = re_createdAt e))"

definition log_mirrored :: "collab_db \<Rightarrow> bool" where
  "log_mirrored db \<longleftrightarrow> list_all (entry_mirrored db) (rm_events (db_rooms db))"

definition jobs_kept :: "collab_db \<Rightarrow> collab_db \<Rightarrow> bool" where
  "jobs_kept db db' \<longleftrightarrow> (\<lambda>r. (rj_id r, rj_channel r)) ` set (rm_jobs (db_rooms db))
     \<subseteq> (\<lambda>r. (rj_id r, rj_channel r)) ` set (rm_jobs (db_rooms db')) \<and> set (db_events db) \<subseteq> set (db_events db')"

lemma jobs_kept_refl [simp]: "jobs_kept db db"
  by (simp add: jobs_kept_def)

lemma jobs_kept_trans: "jobs_kept a b \<Longrightarrow> jobs_kept b c \<Longrightarrow> jobs_kept a c"
  unfolding jobs_kept_def by (elim conjE, intro conjI; erule (1) subset_trans)

lemma mirrored_mono:
  assumes "entry_mirrored db e" and "jobs_kept db db'"
  shows "entry_mirrored db' e"
proof -
  obtain r v where r: "r \<in> set (rm_jobs (db_rooms db))" "rj_id r = re_job e"
    and v: "v \<in> set (db_events db)" "ev_id v = re_event e" "ev_kind v = room_job (re_kind e)" "ev_channel v = rj_channel r"
      "ev_createdAt v = re_createdAt e"
    using assms(1) by (auto simp: entry_mirrored_def)
  have "(rj_id r, rj_channel r) \<in> (\<lambda>r. (rj_id r, rj_channel r)) ` set (rm_jobs (db_rooms db'))"
    using assms(2) r(1) unfolding jobs_kept_def by blast
  then obtain r' where r': "r' \<in> set (rm_jobs (db_rooms db'))" "rj_id r' = rj_id r" "rj_channel r' = rj_channel r" by auto
  have v': "v \<in> set (db_events db')" using assms(2) v(1) unfolding jobs_kept_def by blast
  show ?thesis unfolding entry_mirrored_def
    by (rule bexI [OF _ r'(1)], rule conjI, simp add: r' r, rule bexI [OF _ v']) (simp add: r' v)
qed

lemma job_keys_update:
  "(\<And>r. rj_id (f r) = rj_id r \<and> rj_channel (f r) = rj_channel r)
   \<Longrightarrow> (\<lambda>r. (rj_id r, rj_channel r)) ` set (tbl_update P f t) = (\<lambda>r. (rj_id r, rj_channel r)) ` set t"
  using map_tbl_update [of "\<lambda>r. (rj_id r, rj_channel r)" f P t] by (metis list.set_map)

lemma jobs_kept_update:
  assumes "rm_jobs (db_rooms db') = tbl_update P f (rm_jobs (db_rooms db))" and "set (db_events db) \<subseteq> set (db_events db')"
    and "\<And>r. rj_id (f r) = rj_id r \<and> rj_channel (f r) = rj_channel r"
  shows "jobs_kept db db'"
  unfolding jobs_kept_def assms(1) using assms(2,3) by (simp add: job_keys_update)

lemma logged_mirrored:
  assumes "logged j kind c actor db db'" and "log_mirrored db0" and "rm_events (db_rooms db) = rm_events (db_rooms db0)"
    and "jobs_kept db0 db" and "r \<in> set (rm_jobs (db_rooms db))" and "rj_id r = j" and "rj_channel r = c"
  shows "log_mirrored db'" and "jobs_kept db0 db'"
proof -
  obtain e v where rooms: "db_rooms db' = (db_rooms db)\<lparr>rm_events := rm_events (db_rooms db) @ [e]\<rparr>"
    and events: "db_events db' = db_events db @ [v]" and e: "re_job e = j" "room_event_of e c actor v"
    by (rule logged_rooms [OF assms(1)])
  have kept: "jobs_kept db db'" by (auto simp: jobs_kept_def rooms events)
  then show "jobs_kept db0 db'" using assms(4) jobs_kept_trans by blast
  have "entry_mirrored db' e"
    using assms(5-7) e by (auto simp: entry_mirrored_def rooms events room_event_of_def intro!: bexI [of _ r])
  moreover have "list_all (entry_mirrored db') (rm_events (db_rooms db))"
    using assms(2) mirrored_mono [OF _ \<open>jobs_kept db0 db'\<close>] by (auto simp: log_mirrored_def assms(3) list_all_iff)
  ultimately show "log_mirrored db'" by (simp add: log_mirrored_def rooms)
qed

lemma log_mirrored_cong:
  "log_mirrored db \<Longrightarrow> rm_events (db_rooms db') = rm_events (db_rooms db) \<Longrightarrow> jobs_kept db db' \<Longrightarrow> log_mirrored db'"
  using mirrored_mono by (auto simp: log_mirrored_def list_all_iff)

lemma kept_job:
  assumes "jobs_kept db db'" and "r \<in> set (rm_jobs (db_rooms db))"
  obtains r' where "r' \<in> set (rm_jobs (db_rooms db'))" "rj_id r' = rj_id r" "rj_channel r' = rj_channel r"
proof -
  have "(rj_id r, rj_channel r) \<in> (\<lambda>r. (rj_id r, rj_channel r)) ` set (rm_jobs (db_rooms db'))"
    using assms unfolding jobs_kept_def by blast
  then show thesis using that by auto
qed

lemma rewrite_kept: "rooms_rewrite db db' \<Longrightarrow> (\<lambda>r. (rj_id r, rj_channel r)) ` set (rm_jobs (db_rooms db))
     \<subseteq> (\<lambda>r. (rj_id r, rj_channel r)) ` set (rm_jobs (db_rooms db')) \<Longrightarrow> jobs_kept db db'"
  by (simp add: jobs_kept_def rewrite_same)

lemma log_mirrored_change: "room_change db db' \<Longrightarrow> log_mirrored db \<Longrightarrow> log_mirrored db'"
proof (induction rule: room_change.induct)
  case (created db c r actor db')
  show ?case by (rule logged_mirrored(1) [OF created(7,8), of r]) (use created(3) in \<open>auto simp: jobs_kept_def set_rooms_def\<close>)
next
  case (cancelled db c i r actor now db1 now' db')
  note r = job_in_row [OF cancelled(2)]
  have k1: "jobs_kept db (mark_requested i now db)"
    by (rule jobs_kept_update [of _ "\<lambda>r. rj_id r = i" "\<lambda>r. r\<lparr>rj_cancelRequestedAt := Some now\<rparr>"]) (simp_all add: room_write_defs)
  obtain r1 where r1: "r1 \<in> set (rm_jobs (db_rooms (mark_requested i now db)))" "rj_id r1 = i" "rj_channel r1 = c"
    by (rule kept_job [OF k1, of r]) (use r in auto)
  have same: "rm_events (db_rooms (mark_requested i now db)) = rm_events (db_rooms db)" by (simp add: room_write_defs)
  note m1 = logged_mirrored [OF cancelled(4,6) same k1 r1]
  let ?db2 = "mark_cancelled i (rj_revision r + 1) now' db1"
  have k2: "jobs_kept db1 ?db2"
    by (rule rewrite_kept [OF room_rewrites(2)]) (simp add: room_write_defs job_keys_update)
  obtain ra where ra: "ra \<in> set (rm_jobs (db_rooms db1))" "rj_id ra = i" "rj_channel ra = c"
    by (rule kept_job [OF m1(2), of r]) (use r in auto)
  obtain r2 where r2: "r2 \<in> set (rm_jobs (db_rooms ?db2))" "rj_id r2 = i" "rj_channel r2 = c"
    by (rule kept_job [OF k2, of ra]) (use ra in auto)
  show ?case by (rule logged_mirrored(1) [OF cancelled(5) m1(1) _ k2 r2]) (simp add: room_write_defs)
next
  case (facts_added db c i r rows db')
  then show ?case by (elim log_mirrored_cong) (simp_all add: room_write_defs jobs_kept_def)
next
  case (started db c i r a b facts actor db')
  show ?case by (rule logged_mirrored(1) [OF started(13,14), of r])
      (use job_in_row [OF started(2)] in \<open>auto simp: room_write_defs jobs_kept_def\<close>)
next
  case (claimed db t stage a r b ch p)
  then show ?case by (elim log_mirrored_cong) (simp_all add: room_write_defs jobs_kept_def)
next
  case (artifact db t stage a r b ch p x rows acks s db')
  note r = run_row_rows(3,4) [OF artifact(1)]
  let ?d = "set_rooms (\<lambda>m. m\<lparr>rm_acks := acks, rm_outbox := rm_outbox m @ rows\<rparr>) (add_artifact x t stage s db)"
  have k: "jobs_kept db ?d"
    by (rule jobs_kept_update [of _ "\<lambda>y. rj_id y = ra_job x" "\<lambda>y. y\<lparr>rj_revision := ra_revision x\<rparr>"]) (simp_all add: room_write_defs)
  obtain r' where r': "r' \<in> set (rm_jobs (db_rooms ?d))" "rj_id r' = rt_job a" "rj_channel r' = rj_channel r"
    by (rule kept_job [OF k r(1)]) (use r in auto)
  show ?case by (rule logged_mirrored(1) [OF artifact(12,13) _ k r']) (simp add: room_write_defs)
next
  case (terminal db t stage a r b ch p outbox attempt reason now db')
  note r = run_row_rows(3,4) [OF terminal(1)]
  show ?case by (rule logged_mirrored(1) [OF terminal(5,6), of r])
      (use r in \<open>auto simp: room_write_defs jobs_kept_def\<close>)
qed

lemma log_mirrored_step: "log_mirrored db \<Longrightarrow> log_mirrored (store_step pf op db)"
proof (rule store_room_step [of pf op db])
  assume m: "log_mirrored db" and same: "db_rooms (store_step pf op db) = db_rooms db"
  have "set (db_events db) \<subseteq> set (db_events (store_step pf op db))"
    using store_events_grow [of db pf op] by (auto simp: events_grow_def)
  then show ?thesis using m by (elim log_mirrored_cong) (simp_all add: same jobs_kept_def)
next
  fix o' d res
  assume m: "log_mirrored db" and d: "room_change db d" "store_step pf op db = d\<lparr>db_results := res\<rparr>"
  from log_mirrored_change [OF d(1) m] show ?thesis
    by (elim log_mirrored_cong) (simp_all add: d(2) jobs_kept_def)
qed

lemma log_mirrored_history: "log_mirrored db \<Longrightarrow> log_mirrored (fold (store_step pf) ops db)"
  by (induction ops arbitrary: db) (simp_all add: log_mirrored_step)

text \<open>
  C22. The two logs of a room job agree. After any history of the store the lifecycle entries of every
  job are numbered 1, 2, and so on in the order of their commits, and each of them is also an event of
  the log of the job's own channel, under the same event id and instant and with the matching kind.
\<close>

theorem job_log_mirrored:
  "let db = fold (store_step pf) ops (fresh_db ps cs) in
     map re_seq (job_events db j) = [1..<Suc (length (job_events db j))]
     \<and> list_all (entry_mirrored db) (rm_events (db_rooms db))"
proof -
  have "log_numbered (db_rooms (fresh_db ps cs))" and "log_mirrored (fresh_db ps cs)"
    by (simp_all add: log_numbered_def log_mirrored_def fresh_db_def empty_rooms_def)
  then show ?thesis
    using numbered.history [of "fresh_db ps cs" pf ops] log_mirrored_history [of "fresh_db ps cs" pf ops]
    by (simp add: log_numbered_def log_mirrored_def job_events_def Let_def)
qed

subsection \<open>A concrete room\<close>

definition room_channel :: ChannelRow where
  "room_channel = \<lparr>ch_id = ''c'', ch_name = [120], ch_nameKey = [120], ch_state = ChActive, ch_owner = ''o'',
     ch_epoch = 1, ch_policy = LocalOnly\<rparr>"

definition room_job_row :: RoomJobRow where
  "room_job_row = \<lparr>rj_id = ''j'', rj_channel = ''c'', rj_creator = ''o'', rj_brief = [98], rj_briefSha = ''s'',
     rj_state = JobCreated, rj_revision = 1, rj_createdAt = ''t'', rj_cancelRequestedAt = None, rj_cancelledAt = None,
     rj_generation = 1\<rparr>"

definition room_attempt :: RoomAttemptRow where
  "room_attempt = \<lparr>rt_id = ''u'', rt_job = ''j'', rt_owner = ''o'', rt_generation = 1, rt_inputHash = ''h'',
     rt_configuration = ''g'', rt_state = Queued, rt_reason = None, rt_createdAt = ''t'', rt_updatedAt = ''t''\<rparr>"

definition room_outbox :: "OutboxState \<Rightarrow> RoomOutboxRow" where
  "room_outbox s = \<lparr>ob_id = ''b'', ob_attempt = ''u'', ob_stage = Draft, ob_payload = ''p'', ob_state = s,
     ob_createdAt = ''t'', ob_ackAt = None\<rparr>"

definition room_fact :: RoomFactRow where
  "room_fact = \<lparr>rf_id = ''f'', rf_job = ''j'', rf_ordinal = 1, rf_content = [97], rf_sha = ''y'', rf_createdAt = ''t''\<rparr>"

text \<open>A job with one started attempt, whose draft is in the given state.\<close>

definition room_db :: "OutboxState \<Rightarrow> collab_db" where
  "room_db s = agent_db\<lparr>db_channels := [room_channel], db_rooms := (empty_rooms True)\<lparr>rm_jobs := [room_job_row],
     rm_facts := [room_fact], rm_attempts := [room_attempt],
     rm_attemptFacts := [\<lparr>tf_attempt = ''u'', tf_fact = ''f'', tf_ordinal = 1, tf_sha = ''y''\<rparr>],
     rm_outbox := [room_outbox s]\<rparr>\<rparr>"

lemmas room_eval = room_db_def room_outbox_def room_fact_def room_attempt_def room_job_row_def room_channel_def
  empty_rooms_def agent_eval

lemma room_db_ok: "rooms_ok (db_rooms (room_db s))"
  by (simp add: rooms_ok_def rooms_keyed_def key_unique_def outbox_key_def room_eval)

lemma room_run_row: "run_row (room_db s) ''u'' Draft = Some (room_attempt, room_job_row, room_outbox s, room_channel, demo_operator)"
  by (simp add: run_row_def attempt_row_def job_row_def outbox_row_def outbox_is_def channel_row_def room_eval)

lemma room_cancels: "\<exists>d r. cancelRoomJob demo_pf (demo_env ''e'') ''o'' ''c'' ''j'' 1 ''k'' (room_db ObPending) = (d, Inr r)
   \<and> committed (room_db ObPending) (d, Inr r)"
proof -
  let ?body = "JObj [(cps ''channelId'', jtext ''c''), (cps ''jobId'', jtext ''j''), (cps ''expectedRevision'', JNum (Fin 1))]"
  obtain h where h: "requestHash demo_pf ?body = Some h"
    using members_hashed [of "[(cps ''channelId'', jtext ''c''), (cps ''jobId'', jtext ''j''), (cps ''expectedRevision'', JNum (Fin 1))]" demo_pf]
    by (auto simp: jtext_def)
  have owner: "assertChannelOwner ''o'' ''c'' (room_db ObPending) = None"
    by (simp add: assertChannelOwner_def channel_row_def room_eval)
  have none: "find_result (room_db ObPending) ''o'' CANCEL_ROOM_JOB ''k'' = None"
    by (simp add: find_result_def room_eval)
  have "case cancel_job_tx (demo_env ''e'') ''o'' ''c'' ''j'' 1 (room_db ObPending) of Inl e \<Rightarrow> False
      | Inr x \<Rightarrow> db_results (snd (snd x)) = []" by code_simp
  then obtain r red d where tx: "cancel_job_tx (demo_env ''e'') ''o'' ''c'' ''j'' 1 (room_db ObPending) = Inr (r, red, d)"
    and res: "db_results d = []" by (auto split: sum.splits)
  show ?thesis unfolding cancelRoomJob_def runKeyedCommand_def h option.case owner none tx sum.case prod.case
    by (simp add: committed_def res) (simp add: room_eval)
qed

theorem cancel_freezes_job_witness:
  "\<exists>d. is_cancelled (db_rooms d) ''j'' \<and> list_all (\<lambda>b. closed_state (ob_state b)) (vw_outbox (job_view_of (db_rooms d) ''j''))
     \<and> fst (cancelRoomJob demo_pf (demo_env ''e'') ''o'' ''c'' ''j'' 1 ''k'' (room_db ObPending)) = d"
proof -
  obtain d r where run: "cancelRoomJob demo_pf (demo_env ''e'') ''o'' ''c'' ''j'' 1 ''k'' (room_db ObPending) = (d, Inr r)"
    and c: "committed (room_db ObPending) (d, Inr r)" using room_cancels by blast
  from cancel_freezes_job [OF room_db_ok run c, of "[]"] run show ?thesis
    by (intro exI [of _ d]) (simp add: Let_def is_cancelled_view)
qed

end
