(* ===== verification/Room_Artifacts.thy ===== *)
theory Room_Artifacts
  imports Collab_Job_Facts
begin

text \<open>
  What the gateway does with the text of a local model: the response reader of
  \<open>packages/inference/src/ollama.ts\<close> (\<open>executeRoomJobLocal\<close>) and the artifact validators of
  \<open>packages/gateway/src/roomJobArtifactValidators.ts\<close>. \<open>JSON.parse\<close> is an argument, a function
  from texts to values or none where it throws; every throw of the code is \<open>None\<close> or an \<open>Inl\<close>.
\<close>

subsection \<open>The response of the provider\<close>

definition ROOM_JOB_RESPONSE_BYTE_CAP :: nat where
  "ROOM_JOB_RESPONSE_BYTE_CAP = 65536"

datatype RoomJobLocalRunCode =
    RuntimeUnavailable | RuntimeUnknown | StageTimeout | ResponseOversize | ToolAttemptRefused | ProviderFailed
  | InvalidResponse

text \<open>An error that carries no code is one of the platform, with its name: a rejected read, or a property of \<open>null\<close>.\<close>

datatype local_run_error = Coded RoomJobLocalRunCode | Uncoded string

text \<open>
  How the one request ends: the deadline aborted it, the transport failed, or a response came with
  its status and, if it has one, its body, whose reads give a chunk or reject.
\<close>

datatype fetch_result = FetchAborted | FetchFailed | Response bool "(string + nat list) list option"

fun read_chunks :: "nat \<Rightarrow> (string + nat list) list \<Rightarrow> local_run_error + nat list" where
  "read_chunks bytes [] = Inr []"
| "read_chunks bytes (Inl name # cs) = Inl (Uncoded name)"
| "read_chunks bytes (Inr c # cs) =
     (if bytes + length c > ROOM_JOB_RESPONSE_BYTE_CAP then Inl (Coded ResponseOversize)
      else map_sum id (\<lambda>r. c @ r) (read_chunks (bytes + length c) cs))"

text \<open>The decoder drops a byte order mark.\<close>

definition decode_stream :: "nat list \<Rightarrow> text_cp" where
  "decode_stream bs = (case utf8_decode bs of [] \<Rightarrow> [] | c # t \<Rightarrow> if c = 65279 then t else c # t)"

definition readResponseWithinLimit :: "(string + nat list) list option \<Rightarrow> local_run_error + text_cp \<times> nat" where
  "readResponseWithinLimit body =
     (case body of
        None \<Rightarrow> Inl (Coded InvalidResponse)
      | Some chunks \<Rightarrow> map_sum id (\<lambda>bytes. (decode_stream bytes, length bytes)) (read_chunks 0 chunks))"

text \<open>A property of a value; of a value that is no object it is undefined.\<close>

definition jprop :: "string \<Rightarrow> jval \<Rightarrow> jval" where
  "jprop k v = (case v of JObj ms \<Rightarrow> (case map_of ms (cps k) of None \<Rightarrow> JUndefined | Some x \<Rightarrow> x) | _ \<Rightarrow> JUndefined)"

definition cloud_model :: "string \<Rightarrow> bool" where
  "cloud_model m \<longleftrightarrow> endsWith (toLowerCase m) '':cloud''"

text \<open>The text of the answer with the size of the response; the token count and the elapsed time are left out.\<close>

definition executeRoomJobLocal ::
  "(text_cp \<Rightarrow> jval option) \<Rightarrow> string \<Rightarrow> fetch_result \<Rightarrow> local_run_error + text_cp \<times> nat" where
  "executeRoomJobLocal parse modelId result =
     (if modelId = [] \<or> cloud_model modelId then Inl (Coded RuntimeUnavailable)
      else (case result of
        FetchAborted \<Rightarrow> Inl (Coded StageTimeout)
      | FetchFailed \<Rightarrow> Inl (Coded RuntimeUnavailable)
      | Response ok body \<Rightarrow>
          if \<not> ok then Inl (Coded ProviderFailed)
          else (case readResponseWithinLimit body of
            Inl e \<Rightarrow> Inl e
          | Inr (raw, bytes) \<Rightarrow>
              (case parse raw of
                None \<Rightarrow> Inl (Coded InvalidResponse)
              | Some data \<Rightarrow>
                  if data = JNull then Inl (Uncoded ''TypeError'')
                  else if jprop ''tool_calls'' data \<noteq> JUndefined
                          \<or> jprop ''tool_calls'' (jprop ''message'' data) \<noteq> JUndefined
                  then Inl (Coded ToolAttemptRefused)
                  else (case jprop ''content'' (jprop ''message'' data) of
                          JStr text \<Rightarrow> Inr (text, bytes) | _ \<Rightarrow> Inl (Coded InvalidResponse))))))"

subsection \<open>Artifacts\<close>

definition MAX_JSON_DEPTH :: nat where "MAX_JSON_DEPTH = 12"
definition MAX_JSON_ITEMS :: nat where "MAX_JSON_ITEMS = 1000"
definition MAX_STRING_BYTES :: nat where "MAX_STRING_BYTES = 60000"

definition forbiddenKeys :: "text_cp list" where
  "forbiddenKeys = [cps ''__proto__'', cps ''constructor'', cps ''prototype'']"

text \<open>The walk with its budget, which counts the values seen; the first argument is the depth left.\<close>

fun fold_option :: "('a \<Rightarrow> 's \<Rightarrow> 's option) \<Rightarrow> 'a list \<Rightarrow> 's \<Rightarrow> 's option" where
  "fold_option f [] s = Some s"
| "fold_option f (x # xs) s = (case f x s of None \<Rightarrow> None | Some s' \<Rightarrow> fold_option f xs s')"

primrec inspect_value :: "(text_cp \<Rightarrow> text_cp) \<Rightarrow> nat \<Rightarrow> jval \<Rightarrow> nat \<Rightarrow> nat option" where
  "inspect_value nfc 0 = (\<lambda>v items. None)"
| "inspect_value nfc (Suc left) = (\<lambda>v items.
     if items + 1 > MAX_JSON_ITEMS then None
     else case v of
       JStr s \<Rightarrow> if s \<noteq> nfc s \<or> utf8_length s > MAX_STRING_BYTES then None else Some (items + 1)
     | JArr xs \<Rightarrow> fold_option (\<lambda>x. inspect_value nfc left (case x of None \<Rightarrow> JUndefined | Some y \<Rightarrow> y)) xs (items + 1)
     | JObj ms \<Rightarrow> fold_option (\<lambda>(k, x) n. if k \<in> set forbiddenKeys then None else inspect_value nfc left x n) ms (items + 1)
     | _ \<Rightarrow> Some (items + 1))"

definition inspect_ok :: "(text_cp \<Rightarrow> text_cp) \<Rightarrow> jval \<Rightarrow> bool" where
  "inspect_ok nfc v \<longleftrightarrow> inspect_value nfc (MAX_JSON_DEPTH + 1) v 0 \<noteq> None"

definition parse_artifact ::
  "(text_cp \<Rightarrow> text_cp) \<Rightarrow> (text_cp \<Rightarrow> jval option) \<Rightarrow> text_cp \<Rightarrow> (text_cp \<times> jval) list option" where
  "parse_artifact nfc parse text =
     (if utf8_length text > 65536 then None
      else case parse text of
        Some (JObj ms) \<Rightarrow> if inspect_ok nfc (JObj ms) then Some ms else None
      | _ \<Rightarrow> None)"

definition assertExactKeys :: "(text_cp \<times> jval) list \<Rightarrow> string list \<Rightarrow> bool" where
  "assertExactKeys ms expected \<longleftrightarrow> sort (map fst ms) = sort (map cps expected)"

type_synonym fact = "text_cp \<times> text_cp"

text \<open>One entry of the fact list after another, with the ids seen so far.\<close>

fun validate_entries :: "fact list \<Rightarrow> text_cp list \<Rightarrow> jval option list \<Rightarrow> fact list option" where
  "validate_entries admitted seen [] = Some []"
| "validate_entries admitted seen (entry # rest) =
     (case entry of
        Some (JObj ms) \<Rightarrow>
          (if \<not> assertExactKeys ms [''factId'', ''sha256''] then None
           else (case (jprop ''factId'' (JObj ms), jprop ''sha256'' (JObj ms)) of
               (JStr i, JStr h) \<Rightarrow>
                 if i \<in> set seen \<or> map_of (rev admitted) i \<noteq> Some h then None
                 else map_option (\<lambda>fs. (i, h) # fs) (validate_entries admitted (i # seen) rest)
             | _ \<Rightarrow> None))
      | _ \<Rightarrow> None)"

definition validateFacts :: "fact list \<Rightarrow> jval \<Rightarrow> fact list option" where
  "validateFacts admitted v =
     (case v of
        JArr xs \<Rightarrow> if length xs \<noteq> length admitted then None else validate_entries admitted [] xs
      | _ \<Rightarrow> None)"

record ValidatedProposal =
  vp_title :: text_cp
  vp_body :: text_cp
  vp_facts :: "fact list"

definition validateRoomJobProposal ::
  "(text_cp \<Rightarrow> text_cp) \<Rightarrow> (text_cp \<Rightarrow> jval option) \<Rightarrow> text_cp \<Rightarrow> fact list \<Rightarrow> ValidatedProposal option" where
  "validateRoomJobProposal nfc parse text admitted =
     (case parse_artifact nfc parse text of
        None \<Rightarrow> None
      | Some ms \<Rightarrow>
      if \<not> assertExactKeys ms [''body'', ''facts'', ''title''] then None
      else (case (jprop ''title'' (JObj ms), jprop ''body'' (JObj ms)) of
          (JStr title, JStr body) \<Rightarrow>
            if utf16_length title < 1 \<or> utf16_length title > 180 \<or> utf16_length body < 1 \<or> utf8_length body > 60000
            then None
            else map_option (\<lambda>fs. \<lparr>vp_title = title, vp_body = body, vp_facts = fs\<rparr>)
                   (validateFacts admitted (jprop ''facts'' (JObj ms)))
        | _ \<Rightarrow> None))"

record ValidatedReview =
  vr_acceptable :: bool
  vr_summary :: text_cp
  vr_revision :: int
  vr_sha :: string
  vr_facts :: "fact list"

definition validateRoomJobReview ::
  "(text_cp \<Rightarrow> text_cp) \<Rightarrow> (text_cp \<Rightarrow> jval option) \<Rightarrow> text_cp \<Rightarrow> fact list \<Rightarrow> int \<Rightarrow> string \<Rightarrow> ValidatedReview option" where
  "validateRoomJobReview nfc parse text admitted revision sha =
     (case parse_artifact nfc parse text of
        None \<Rightarrow> None
      | Some ms \<Rightarrow>
      if \<not> assertExactKeys ms [''facts'', ''proposal'', ''summary'', ''verdict''] then None
      else
        let verdict = jprop ''verdict'' (JObj ms)
        in if verdict \<noteq> jtext ''acceptable'' \<and> verdict \<noteq> jtext ''revise'' then None
        else (case jprop ''summary'' (JObj ms) of
            JStr summary \<Rightarrow>
              if utf16_length summary < 1 \<or> utf8_length summary > 60000 then None
              else (case jprop ''proposal'' (JObj ms) of
                  JObj bound \<Rightarrow>
                    if \<not> assertExactKeys bound [''revision'', ''sha256''] then None
                    else if jprop ''revision'' (JObj bound) \<noteq> JNum (Fin revision)
                            \<or> jprop ''sha256'' (JObj bound) \<noteq> jtext sha then None
                    else map_option (\<lambda>fs. \<lparr>vr_acceptable = (verdict = jtext ''acceptable''), vr_summary = summary,
                           vr_revision = revision, vr_sha = sha, vr_facts = fs\<rparr>)
                           (validateFacts admitted (jprop ''facts'' (JObj ms)))
                | _ \<Rightarrow> None)
          | _ \<Rightarrow> None))"

definition fact_value :: "fact \<Rightarrow> jval option" where
  "fact_value f = Some (JObj [(cps ''factId'', JStr (fst f)), (cps ''sha256'', JStr (snd f))])"

definition proposal_artifact :: "ValidatedProposal \<Rightarrow> nat list" where
  "proposal_artifact p = utf8 (stringify (JObj [(cps ''title'', JStr (vp_title p)), (cps ''body'', JStr (vp_body p)),
     (cps ''facts'', JArr (map fact_value (vp_facts p)))]))"

definition review_artifact :: "ValidatedReview \<Rightarrow> nat list" where
  "review_artifact r = utf8 (stringify (JObj [(cps ''verdict'', jtext (if vr_acceptable r then ''acceptable'' else ''revise'')),
     (cps ''summary'', JStr (vr_summary r)),
     (cps ''proposal'', JObj [(cps ''revision'', JNum (Fin (vr_revision r))), (cps ''sha256'', jtext (vr_sha r))]),
     (cps ''facts'', JArr (map fact_value (vr_facts r)))]))"

subsection \<open>What an accepted artifact cites\<close>

lemma validate_entries_facts:
  "validate_entries admitted seen xs = Some fs \<Longrightarrow> length fs = length xs \<and> distinct (map fst fs)
   \<and> set (map fst fs) \<inter> set seen = {} \<and> (\<forall>f \<in> set fs. map_of (rev admitted) (fst f) = Some (snd f))"
proof (induction xs arbitrary: seen fs)
  case (Cons x xs)
  obtain i h fs' where "fs = (i, h) # fs'" "i \<notin> set seen" "map_of (rev admitted) i = Some h"
    "validate_entries admitted (i # seen) xs = Some fs'"
    using Cons.prems by (auto split: option.splits jval.splits if_splits)
  with Cons.IH [of "i # seen" fs'] show ?case by auto
qed simp

lemma validateFacts_exact:
  assumes "validateFacts admitted v = Some fs" and "distinct (map fst admitted)"
  shows "mset fs = mset admitted"
proof -
  obtain xs where xs: "validate_entries admitted [] xs = Some fs" "length xs = length admitted"
    using assms(1) by (auto simp: validateFacts_def split: jval.splits if_splits)
  note facts = validate_entries_facts [OF xs(1)]
  have d: "distinct fs" "distinct admitted" using facts assms(2) by (simp_all add: distinct_map)
  have "f \<in> set admitted" if "f \<in> set fs" for f
  proof -
    have "map_of (rev admitted) (fst f) = Some (snd f)" using facts that by blast
    then have "(fst f, snd f) \<in> set (rev admitted)" by (rule map_of_SomeD)
    then show ?thesis by simp
  qed
  then have "set fs \<subseteq> set admitted" by blast
  moreover have "card (set fs) = card (set admitted)" using facts xs(2) d by (simp add: distinct_card)
  ultimately have "set fs = set admitted" by (simp add: card_subset_eq)
  then show ?thesis using d by (simp add: set_eq_iff_mset_eq_distinct)
qed

lemma proposal_facts:
  assumes "validateRoomJobProposal nfc parse text admitted = Some p"
  shows "\<exists>v. validateFacts admitted v = Some (vp_facts p)"
proof -
  obtain ms where ms: "parse_artifact nfc parse text = Some ms"
    using assms by (cases "parse_artifact nfc parse text") (simp_all add: validateRoomJobProposal_def)
  note body = assms [unfolded validateRoomJobProposal_def ms option.case]
  obtain title where title: "jprop ''title'' (JObj ms) = JStr title"
    using body by (cases "jprop ''title'' (JObj ms)") (simp_all split: if_splits)
  note body1 = body [unfolded title prod.case jval.case]
  obtain t where t: "jprop ''body'' (JObj ms) = JStr t"
    using body1 by (cases "jprop ''body'' (JObj ms)") (simp_all split: if_splits)
  note body2 = body1 [unfolded t jval.case]
  show ?thesis using body2 by (auto split: if_splits)
qed

lemma review_facts:
  assumes "validateRoomJobReview nfc parse text admitted revision sha = Some r"
  shows "vr_revision r = revision \<and> vr_sha r = sha \<and> (\<exists>v. validateFacts admitted v = Some (vr_facts r))"
proof -
  obtain ms where ms: "parse_artifact nfc parse text = Some ms"
    using assms by (cases "parse_artifact nfc parse text") (simp_all add: validateRoomJobReview_def)
  note body = assms [unfolded validateRoomJobReview_def ms option.case Let_def]
  obtain t where t: "jprop ''summary'' (JObj ms) = JStr t"
    using body by (cases "jprop ''summary'' (JObj ms)") (simp_all split: if_splits)
  note body1 = body [unfolded t jval.case]
  obtain bound where bound: "jprop ''proposal'' (JObj ms) = JObj bound"
    using body1 by (cases "jprop ''proposal'' (JObj ms)") (simp_all split: if_splits)
  note body2 = body1 [unfolded bound jval.case]
  show ?thesis using body2 by (auto split: if_splits)
qed

text \<open>
  C28. An accepted artifact cites exactly the evidence it was given. Whatever text a model answers, a
  proposal or a review that passes validation lists every admitted fact exactly once with its own
  digest and no other fact, and an accepted review is bound to the revision and digest of the
  proposal it was asked to review.
\<close>

theorem accepted_artifact_cites_facts:
  assumes "distinct (map fst admitted)"
  shows "(case validateRoomJobProposal nfc parse text admitted of
            None \<Rightarrow> True | Some p \<Rightarrow> mset (vp_facts p) = mset admitted)
     \<and> (case validateRoomJobReview nfc parse text admitted revision sha of
            None \<Rightarrow> True
          | Some r \<Rightarrow> mset (vr_facts r) = mset admitted \<and> vr_revision r = revision \<and> vr_sha r = sha)"
proof -
  have p: "mset (vp_facts p) = mset admitted" if "validateRoomJobProposal nfc parse text admitted = Some p" for p
    using proposal_facts [OF that] assms by (auto dest: validateFacts_exact)
  have r: "mset (vr_facts r) = mset admitted \<and> vr_revision r = revision \<and> vr_sha r = sha"
    if "validateRoomJobReview nfc parse text admitted revision sha = Some r" for r
    using review_facts [OF that] assms by (auto dest: validateFacts_exact)
  show ?thesis using p r by (simp split: option.split)
qed

lemmas inspect_numeral = inspect_value.simps(2) [of _ "pred_numeral n" for n, folded numeral_eq_Suc]

text \<open>A parser that knows one text.\<close>

theorem accepted_artifact_cites_facts_witness:
  "let v = JObj [(cps ''title'', JStr [116]), (cps ''body'', JStr [98]),
        (cps ''facts'', JArr [fact_value ([103], [50]), fact_value ([102], [49])])];
       run = validateRoomJobProposal id (\<lambda>_. Some v) [123] [([102], [49]), ([103], [50])] in
     run \<noteq> None \<and> (case run of None \<Rightarrow> True | Some p \<Rightarrow> mset (vp_facts p) = mset [([102], [49]), ([103], [50])])"
proof -
  let ?v = "JObj [(cps ''title'', JStr [116]), (cps ''body'', JStr [98]),
        (cps ''facts'', JArr [fact_value ([103], [50]), fact_value ([102], [49])])]"
  have "validateRoomJobProposal id (\<lambda>_. Some ?v) [123] [([102], [49]), ([103], [50])] \<noteq> None"
    by (simp add: validateRoomJobProposal_def parse_artifact_def inspect_ok_def assertExactKeys_def jprop_def
      validateFacts_def utf8_length_def utf16_length_def cps_def fact_value_def forbiddenKeys_def
      MAX_JSON_DEPTH_def MAX_JSON_ITEMS_def MAX_STRING_BYTES_def utf8_len_def inspect_numeral)
  then show ?thesis
    using accepted_artifact_cites_facts [of "[([102], [49]), ([103], [50])]" id "\<lambda>_. Some ?v" "[123]" 1 "''s''"]
    by (simp add: Let_def)
qed

end
