(* ===== verification/Room_Execution.thy ===== *)
theory Room_Execution
  imports Room_Artifacts
begin

text \<open>
  The coordinator that runs the stages of a room job, \<open>packages/gateway/src/roomJobExecution.ts\<close>, as
  a state machine over the collaboration database, its own tables in the gateway database and the
  workers in flight. A worker advances by one answered \<open>await\<close> or one stretch of code between two of
  them, so that workers, commands of the store, restarts and reconciliations interleave freely. The
  test seams are left out.
\<close>

subsection \<open>The prompt\<close>

definition strictObject :: "(text_cp \<times> jval) list \<Rightarrow> string list \<Rightarrow> jval" where
  "strictObject properties required =
     JObj [(cps ''type'', jtext ''object''), (cps ''properties'', JObj properties),
       (cps ''required'', JArr (map (\<lambda>k. Some (jtext k)) required)), (cps ''additionalProperties'', JBool False)]"

definition json_string :: jval where
  "json_string = JObj [(cps ''type'', jtext ''string'')]"

definition json_enum :: "string \<Rightarrow> jval list \<Rightarrow> jval" where
  "json_enum type values = JObj [(cps ''type'', jtext type), (cps ''enum'', JArr (map Some values))]"

definition json_text :: "nat \<Rightarrow> nat option \<Rightarrow> jval" where
  "json_text least most = JObj ([(cps ''type'', jtext ''string''), (cps ''minLength'', JNum (Fin (int least)))]
     @ (case most of None \<Rightarrow> [] | Some n \<Rightarrow> [(cps ''maxLength'', JNum (Fin (int n)))]))"

definition factReferenceFormat :: "fact list \<Rightarrow> jval" where
  "factReferenceFormat facts =
     (let item = strictObject [(cps ''factId'', json_string), (cps ''sha256'', json_string)] [''factId'', ''sha256''];
          exactReferences = map (\<lambda>f. Some (strictObject
            [(cps ''factId'', json_enum ''string'' [JStr (fst f)]), (cps ''sha256'', json_enum ''string'' [JStr (snd f)])]
            [''factId'', ''sha256''])) facts
      in JObj [(cps ''type'', jtext ''array''), (cps ''minItems'', JNum (Fin (int (length facts)))),
           (cps ''maxItems'', JNum (Fin (int (length facts)))),
           (cps ''items'', if exactReferences = [] then item else JObj [(cps ''oneOf'', JArr exactReferences)])])"

definition proposalFormat :: "fact list \<Rightarrow> jval" where
  "proposalFormat facts = strictObject [(cps ''title'', json_text 1 (Some 180)), (cps ''body'', json_text 1 (Some 60000)),
     (cps ''facts'', factReferenceFormat facts)] [''title'', ''body'', ''facts'']"

definition reviewFormat :: "fact list \<Rightarrow> int \<Rightarrow> string \<Rightarrow> jval" where
  "reviewFormat facts revision sha = strictObject
     [(cps ''verdict'', json_enum ''string'' [jtext ''acceptable'', jtext ''revise'']), (cps ''summary'', json_text 1 (Some 60000)),
      (cps ''proposal'', strictObject [(cps ''revision'', json_enum ''integer'' [JNum (Fin revision)]),
         (cps ''sha256'', json_enum ''string'' [jtext sha])] [''revision'', ''sha256'']),
      (cps ''facts'', factReferenceFormat facts)] [''verdict'', ''summary'', ''proposal'', ''facts'']"

text \<open>A prompt is the quoted input and the format; the fixed system texts are left out.\<close>

record room_prompt =
  pm_input :: text_cp
  pm_format :: jval

definition run_fact_refs :: "RoomJobInternalRun \<Rightarrow> fact list" where
  "run_fact_refs run = map (\<lambda>(i, sha, content). (cps i, cps sha)) (ir_facts run)"

definition quoted_facts :: "RoomJobInternalRun \<Rightarrow> jval" where
  "quoted_facts run = JArr (map (\<lambda>(i, sha, content). Some (JObj [(cps ''factId'', jtext i), (cps ''sha256'', jtext sha),
     (cps ''content'', JStr (utf8_decode content))])) (ir_facts run))"

definition promptFor :: "RoomJobInternalRun \<Rightarrow> room_prompt option" where
  "promptFor run =
     (case ir_stage run of
        Draft \<Rightarrow> Some \<lparr>pm_input = stringify (JObj [(cps ''brief'', JStr (ir_brief run)), (cps ''facts'', quoted_facts run)]),
                   pm_format = proposalFormat (run_fact_refs run)\<rparr>
      | Review \<Rightarrow> (case ir_proposal run of
          None \<Rightarrow> None
        | Some (artifactId, revision, sha, content) \<Rightarrow>
            Some \<lparr>pm_input = stringify (JObj [(cps ''proposal'', JObj [(cps ''revision'', JNum (Fin revision)),
                      (cps ''sha256'', jtext sha), (cps ''content'', JStr (utf8_decode content))]), (cps ''facts'', quoted_facts run)]),
                  pm_format = reviewFormat (run_fact_refs run) revision sha\<rparr>))"

subsection \<open>The state\<close>

datatype InboxState = InboxAdmitted | DispatchStarted | ResultObserved | InboxRecoveryNeeded | InboxRefused | InboxTerminal

record InboxRow =
  ix_attempt :: string
  ix_stage :: RoomJobStage
  ix_request :: string
  ix_inputHash :: string
  ix_generation :: int
  ix_configuration :: string
  ix_state :: InboxState
  ix_createdAt :: string
  ix_updatedAt :: string

datatype ObservationKind = ObservedSuccess | ObservedFailure | LateResultDiscarded

record ObservationRow =
  on_request :: string
  on_kind :: ObservationKind
  on_code :: "string option"
  on_content :: "nat list"
  on_sha :: string
  on_createdAt :: string

record RoomJobLocalRuntime =
  lr_modelId :: string
  lr_configuration :: string

text \<open>The answer of a run or of a reconciliation; \<open>Threw\<close> is a rejected promise.\<close>

datatype stage_status = StageCommitted | StageFenced | StageRecoveryNeeded | StageFailed | Reconciled | Threw

text \<open>
  Where a worker is. The constructors with \<open>Ask\<close> wait for the store or the provider, the others run
  until they wait again or end. The boolean of the shared tail tells whether the answer had been
  observed by an earlier run.
\<close>

datatype pc =
    Entry
  | AskInitial "InboxRow option"
  | GotInitial "InboxRow option" "RoomJobInternalRun option"
  | AskRecovery RoomJobInternalRun
  | GotRecovery "CollabErrorCode + bool"
  | AskReadmit InboxRow "ObservationRow option"
  | GotReadmit InboxRow "ObservationRow option" "RoomJobInternalRun option"
  | AskAck InboxRow
  | GotAck InboxRow "CollabErrorCode + bool"
  | AskClaim string
  | GotClaim string "CollabErrorCode + bool"
  | AskClaimed string
  | GotClaimed string "RoomJobInternalRun option"
  | AskConfirm string RoomJobInternalRun
  | GotConfirm string RoomJobInternalRun bool
  | AskProvider string RoomJobInternalRun
  | GotAnswer string RoomJobInternalRun "local_run_error + text_cp \<times> nat"
  | AskCommit bool string RoomJobInternalRun "nat list"
  | GotCommit bool string RoomJobInternalRun "CollabErrorCode + RoomArtifactMetadata option"
  | AskFailure bool string RoomJobInternalRun string
  | GotFailure bool string "CollabErrorCode + bool"
  | Finished stage_status
  | Listing
  | Listed "(string \<times> RoomJobStage) list"
  | Sweeping "(string \<times> RoomJobStage) list"
  | Swept "(string \<times> RoomJobStage) list" "RoomJobInternalRun option"
  | SweepMark "(string \<times> RoomJobStage) list" RoomJobInternalRun
  | SweepMarked "(string \<times> RoomJobStage) list" "CollabErrorCode + bool"

text \<open>A worker runs a stage, or reconciles: then it has the runs still to do.\<close>

record worker =
  wk_attempt :: string
  wk_stage :: RoomJobStage
  wk_runtime :: RoomJobLocalRuntime
  wk_pc :: pc
  wk_reconcile :: "(string \<times> RoomJobStage) list option"

record exec_world =
  ew_db :: collab_db
  ew_inbox :: "InboxRow list"
  ew_observations :: "ObservationRow list"
  ew_calls :: "(string \<times> RoomJobStage \<times> room_prompt) list"
  ew_workers :: "worker list"


subsection \<open>Writes to the gateway tables\<close>

definition inbox_row :: "exec_world \<Rightarrow> string \<Rightarrow> RoomJobStage \<Rightarrow> InboxRow option" where
  "inbox_row w t stage = find (\<lambda>r. ix_attempt r = t \<and> ix_stage r = stage) (ew_inbox w)"

definition observation_row :: "exec_world \<Rightarrow> string \<Rightarrow> ObservationRow option" where
  "observation_row w q = find (\<lambda>r. on_request r = q) (ew_observations w)"

definition set_inbox :: "string \<Rightarrow> (InboxRow \<Rightarrow> bool) \<Rightarrow> InboxState \<Rightarrow> exec_world \<Rightarrow> exec_world" where
  "set_inbox now hit s w = w\<lparr>ew_inbox := tbl_update hit (\<lambda>r. r\<lparr>ix_state := s, ix_updatedAt := now\<rparr>) (ew_inbox w)\<rparr>"

definition request_in :: "string \<Rightarrow> InboxState list \<Rightarrow> InboxRow \<Rightarrow> bool" where
  "request_in q states r \<longleftrightarrow> ix_request r = q \<and> ix_state r \<in> set states"

definition stage_started :: "string \<Rightarrow> RoomJobStage \<Rightarrow> InboxRow \<Rightarrow> bool" where
  "stage_started t stage r \<longleftrightarrow> ix_attempt r = t \<and> ix_stage r = stage \<and> ix_state r = DispatchStarted"

text \<open>Both keys of the inbox are unique; an insertion that repeats one fails.\<close>

definition insert_inbox :: "InboxRow \<Rightarrow> exec_world \<Rightarrow> exec_world option" where
  "insert_inbox r w =
     (if list_ex (\<lambda>x. ix_request x = ix_request r \<or> (ix_attempt x = ix_attempt r \<and> ix_stage x = ix_stage r)) (ew_inbox w)
      then None else Some (w\<lparr>ew_inbox := ew_inbox w @ [r]\<rparr>))"

definition insert_observation :: "ObservationRow \<Rightarrow> exec_world \<Rightarrow> exec_world option" where
  "insert_observation r w =
     (if observation_row w (on_request r) \<noteq> None \<or> length (on_content r) > 65536 then None
      else Some (w\<lparr>ew_observations := ew_observations w @ [r]\<rparr>))"

definition mark_observation :: "string \<Rightarrow> (ObservationRow \<Rightarrow> bool) \<Rightarrow> (ObservationRow \<Rightarrow> ObservationRow) \<Rightarrow> exec_world \<Rightarrow> exec_world" where
  "mark_observation q hit f w = w\<lparr>ew_observations := tbl_update (\<lambda>r. on_request r = q \<and> hit r) f (ew_observations w)\<rparr>"

definition on_store :: "(collab_db \<Rightarrow> collab_db \<times> 'a) \<Rightarrow> exec_world \<Rightarrow> exec_world \<times> 'a" where
  "on_store f w = (let (d, a) = f (ew_db w) in (w\<lparr>ew_db := d\<rparr>, a))"

subsection \<open>Validating and committing\<close>

text \<open>What an error leaves behind: its class name and whether it is a failed validation.\<close>

datatype stage_error = ValidationError | LocalRunError | OtherError string

definition error_name :: "stage_error \<Rightarrow> string" where
  "error_name e = (case e of ValidationError \<Rightarrow> ''RoomJobArtifactValidationError'' | LocalRunError \<Rightarrow> ''RoomJobLocalRunError''
     | OtherError name \<Rightarrow> name)"

definition failure_code :: "stage_error \<Rightarrow> string" where
  "failure_code e = (if e = ValidationError then ''validation_failed'' else ''stage_failed'')"

definition store_error :: "CollabErrorCode \<Rightarrow> stage_error" where
  "store_error c = OtherError (if c = SQL_CONSTRAINT then ''SqliteError'' else ''CollabError'')"

definition boundedFailure :: "stage_error \<Rightarrow> nat list" where
  "boundedFailure e = utf8 (stringify (JObj [(cps ''code'', jtext (error_name e))]))"

definition stage_output ::
  "platform \<Rightarrow> (text_cp \<Rightarrow> jval option) \<Rightarrow> RoomJobInternalRun \<Rightarrow> text_cp \<Rightarrow> stage_error + nat list" where
  "stage_output pf parse run text =
     (let facts = run_fact_refs run
      in case ir_stage run of
           Draft \<Rightarrow> (case validateRoomJobProposal (pf_nfc pf) parse text facts of
               None \<Rightarrow> Inl ValidationError | Some p \<Rightarrow> Inr (proposal_artifact p))
         | Review \<Rightarrow> (case ir_proposal run of
               None \<Rightarrow> Inl (OtherError ''TypeError'')
             | Some (artifactId, revision, sha, content) \<Rightarrow>
                 (case validateRoomJobReview (pf_nfc pf) parse text facts revision sha of
                    None \<Rightarrow> Inl ValidationError | Some r \<Rightarrow> Inr (review_artifact r))))"

definition commit_input :: "string \<Rightarrow> RoomJobInternalRun \<Rightarrow> nat list \<Rightarrow> CommitRoomJobInternalArtifactInput" where
  "commit_input q run artifact = \<lparr>ic_attempt = ir_attempt run, ic_stage = ir_stage run, ic_request = q,
     ic_generation = ir_generation run, ic_inputHash = ir_inputHash run, ic_configuration = ir_configuration run,
     ic_content = artifact,
     ic_provenance = JObj ([(cps ''version'', JNum (Fin 1)), (cps ''attemptId'', jtext (ir_attempt run)),
       (cps ''stage'', jtext (stage_text (ir_stage run))), (cps ''requestId'', jtext q),
       (cps ''inputHash'', jtext (ir_inputHash run)), (cps ''configurationIdentity'', jtext (ir_configuration run)),
       (cps ''validator'', jtext ''room-job-artifact-validator-v1'')]
       @ (if ir_stage run = Review then [(cps ''reviewKind'', jtext ''configured_review'')] else []))\<rparr>"

text \<open>The handler of an error after the dispatch.\<close>

definition catch_stage :: "platform \<Rightarrow> string \<Rightarrow> string \<Rightarrow> RoomJobInternalRun \<Rightarrow> stage_error \<Rightarrow> exec_world \<Rightarrow> exec_world \<times> pc" where
  "catch_stage pf now q run e w =
     (let evidence = boundedFailure e;
          w1 = (case insert_observation \<lparr>on_request = q, on_kind = ObservedFailure, on_code = Some (failure_code e),
                  on_content = evidence, on_sha = content_hash pf evidence, on_createdAt = now\<rparr> w of
                  None \<Rightarrow> w | Some w' \<Rightarrow> w');
          w2 = set_inbox now (request_in q [DispatchStarted, ResultObserved]) InboxTerminal w1;
          w3 = mark_observation q (\<lambda>r. on_kind r = ObservedSuccess) (\<lambda>r. r\<lparr>on_code := Some (failure_code e)\<rparr>) w2
      in (w3, AskFailure False q run (failure_code e)))"

subsection \<open>Waiting for the store and the provider\<close>

definition waiting :: "pc \<Rightarrow> bool" where
  "waiting c = (case c of AskInitial _ \<Rightarrow> True | AskRecovery _ \<Rightarrow> True | AskReadmit _ _ \<Rightarrow> True | AskAck _ \<Rightarrow> True
     | AskClaim _ \<Rightarrow> True | AskClaimed _ \<Rightarrow> True | AskConfirm _ _ \<Rightarrow> True | AskProvider _ _ \<Rightarrow> True
     | AskCommit _ _ _ _ \<Rightarrow> True | AskFailure _ _ _ _ \<Rightarrow> True | Listing \<Rightarrow> True | Sweeping rows \<Rightarrow> rows \<noteq> []
     | SweepMark _ _ \<Rightarrow> True | _ \<Rightarrow> False)"

definition reconcile_limit :: int where "reconcile_limit = 20"

definition answer ::
  "platform \<Rightarrow> (text_cp \<Rightarrow> jval option) \<Rightarrow> env \<Rightarrow> fetch_result \<Rightarrow> worker \<Rightarrow> exec_world \<Rightarrow> exec_world \<times> pc" where
  "answer pf parse en result k w =
     (let t = wk_attempt k; stage = wk_stage k
      in case wk_pc k of
        AskInitial ex \<Rightarrow>
          (w, GotInitial ex (getRoomJobInternalRun t stage
                (case ex of None \<Rightarrow> False | Some r \<Rightarrow> ix_state r \<in> {DispatchStarted, ResultObserved}) (ew_db w)))
      | AskRecovery run \<Rightarrow> map_prod id GotRecovery
          (on_store (recordRoomJobInternalRecoveryNeeded en t stage (ir_generation run) (ir_inputHash run)) w)
      | AskReadmit row seen \<Rightarrow> (w, GotReadmit row seen (getRoomJobInternalRun t stage True (ew_db w)))
      | AskAck row \<Rightarrow> (w, GotAck row (hasRoomJobInternalTerminalAck t stage (ew_db w)))
      | AskClaim q \<Rightarrow> map_prod id (GotClaim q)
          (on_store (runNaturallyIdempotentCommand (claim_run_tx t stage (lr_configuration (wk_runtime k)))) w)
      | AskClaimed q \<Rightarrow> (w, GotClaimed q (getRoomJobInternalRun t stage True (ew_db w)))
      | AskConfirm q run \<Rightarrow>
          (w, GotConfirm q run (confirmRoomJobInternalDispatchClaim t stage (ir_generation run) (ir_configuration run) (ew_db w)))
      | AskProvider q run \<Rightarrow> (w, GotAnswer q run (executeRoomJobLocal parse (lr_modelId (wk_runtime k)) result))
      | AskCommit seen q run artifact \<Rightarrow> map_prod id (GotCommit seen q run)
          (on_store (commitRoomJobInternalArtifact pf en (commit_input q run artifact)) w)
      | AskFailure seen q run reason \<Rightarrow> map_prod id (GotFailure seen q)
          (on_store (recordRoomJobInternalFailure en t stage (ir_generation run) (ir_inputHash run) reason) w)
      | Listing \<Rightarrow> (w, Listed (listPendingRoomJobInternalRuns reconcile_limit (ew_db w)))
      | Sweeping ((u, s) # rows) \<Rightarrow> (w, Swept ((u, s) # rows) (getRoomJobInternalRun u s True (ew_db w)))
      | SweepMark ((u, s) # rows) run \<Rightarrow> map_prod id (SweepMarked ((u, s) # rows))
          (on_store (recordRoomJobInternalRecoveryNeeded en (ir_attempt run) s (ir_generation run) (ir_inputHash run)) w)
      | c \<Rightarrow> (w, c))"

subsection \<open>Running to the next wait\<close>

text \<open>The next run of a reconciliation; after the last one it sweeps the stages found started.\<close>

definition next_run :: "worker \<Rightarrow> exec_world \<Rightarrow> worker" where
  "next_run k w =
     (case wk_reconcile k of
        None \<Rightarrow> k
      | Some ((t, s) # rest) \<Rightarrow> k\<lparr>wk_attempt := t, wk_stage := s, wk_pc := Entry, wk_reconcile := Some rest\<rparr>
      | Some [] \<Rightarrow> k\<lparr>wk_pc := Sweeping (map (\<lambda>r. (ix_attempt r, ix_stage r)) (take (nat reconcile_limit)
            (sort_key ix_updatedAt (filter (\<lambda>r. ix_state r = DispatchStarted) (ew_inbox w))))), wk_reconcile := None\<rparr>)"

definition after_initial ::
  "env \<Rightarrow> InboxRow option \<Rightarrow> RoomJobInternalRun option \<Rightarrow> worker \<Rightarrow> exec_world \<Rightarrow> exec_world \<times> pc" where
  "after_initial en ex initial k w =
     (case initial of
        None \<Rightarrow> (w, Finished StageFenced)
      | Some run \<Rightarrow>
      if ir_configuration run \<noteq> lr_configuration (wk_runtime k) then (w, Finished StageFenced)
      else (case ex of
          Some row \<Rightarrow>
            (case ix_state row of
               DispatchStarted \<Rightarrow> (w, AskRecovery run)
             | ResultObserved \<Rightarrow> (w, AskReadmit row (observation_row w (ix_request row)))
             | InboxAdmitted \<Rightarrow> (w, AskClaim (ix_request row))
             | InboxTerminal \<Rightarrow> (w, Finished StageCommitted)
             | _ \<Rightarrow> (w, Finished StageFenced))
        | None \<Rightarrow>
            (case insert_inbox \<lparr>ix_attempt = ir_attempt run, ix_stage = wk_stage k, ix_request = en_uuid en 0,
                    ix_inputHash = ir_inputHash run, ix_generation = ir_generation run,
                    ix_configuration = ir_configuration run, ix_state = InboxAdmitted, ix_createdAt = en_clock en 0,
                    ix_updatedAt = en_clock en 0\<rparr> w of
               None \<Rightarrow> (w, Finished Threw)
             | Some w' \<Rightarrow> (w', AskClaim (en_uuid en 0)))))"

definition after_readmit ::
  "platform \<Rightarrow> (text_cp \<Rightarrow> jval option) \<Rightarrow> InboxRow \<Rightarrow> ObservationRow option \<Rightarrow> RoomJobInternalRun option \<Rightarrow> pc" where
  "after_readmit pf parse row seen admitted =
     (case (admitted, seen) of
        (Some run, Some o1) \<Rightarrow>
          if on_kind o1 \<noteq> ObservedSuccess then AskAck row
          else (case stage_output pf parse run (utf8_decode (on_content o1)) of
              Inl e \<Rightarrow> AskFailure True (ix_request row) run (failure_code e)
            | Inr artifact \<Rightarrow> AskCommit True (ix_request row) run artifact)
      | _ \<Rightarrow> AskAck row)"

definition after_claim :: "env \<Rightarrow> string \<Rightarrow> RoomJobInternalRun option \<Rightarrow> worker \<Rightarrow> exec_world \<Rightarrow> exec_world \<times> pc" where
  "after_claim en q admitted k w =
     (let refused = (set_inbox (en_clock en 0) (request_in q [InboxAdmitted]) InboxRefused w, Finished StageFenced)
      in case admitted of
           None \<Rightarrow> refused
         | Some run \<Rightarrow>
         if ir_configuration run \<noteq> lr_configuration (wk_runtime k) then refused
         else if tbl_changes (request_in q [InboxAdmitted]) (ew_inbox w) \<noteq> 1
         then (set_inbox (en_clock en 0) (request_in q [InboxAdmitted]) DispatchStarted w, Finished StageRecoveryNeeded)
         else (set_inbox (en_clock en 0) (request_in q [InboxAdmitted]) DispatchStarted w, AskConfirm q run))"

text \<open>The provider is called exactly where the log of calls grows; a model that is not local throws first.\<close>

definition after_confirm ::
  "platform \<Rightarrow> env \<Rightarrow> string \<Rightarrow> RoomJobInternalRun \<Rightarrow> bool \<Rightarrow> worker \<Rightarrow> exec_world \<Rightarrow> exec_world \<times> pc" where
  "after_confirm pf en q run ok k w =
     (if \<not> ok then (set_inbox (en_clock en 0) (request_in q [DispatchStarted]) InboxRefused w, Finished StageFenced)
      else (case promptFor run of
          None \<Rightarrow> catch_stage pf (en_clock en 0) q run (OtherError ''TypeError'') w
        | Some prompt \<Rightarrow>
            if lr_modelId (wk_runtime k) = [] \<or> cloud_model (lr_modelId (wk_runtime k))
            then catch_stage pf (en_clock en 0) q run LocalRunError w
            else (w\<lparr>ew_calls := ew_calls w @ [(wk_attempt k, wk_stage k, prompt)]\<rparr>, AskProvider q run)))"

definition after_answer ::
  "platform \<Rightarrow> (text_cp \<Rightarrow> jval option) \<Rightarrow> env \<Rightarrow> string \<Rightarrow> RoomJobInternalRun \<Rightarrow> local_run_error + text_cp \<times> nat
   \<Rightarrow> exec_world \<Rightarrow> exec_world \<times> pc" where
  "after_answer pf parse en q run result w =
     (case result of
        Inl (Coded c) \<Rightarrow> catch_stage pf (en_clock en 0) q run LocalRunError w
      | Inl (Uncoded name) \<Rightarrow> catch_stage pf (en_clock en 0) q run (OtherError name) w
      | Inr (text, bytes) \<Rightarrow>
          (case insert_observation \<lparr>on_request = q, on_kind = ObservedSuccess, on_code = None, on_content = utf8 text,
                  on_sha = content_hash pf (utf8 text), on_createdAt = en_clock en 0\<rparr> w of
             None \<Rightarrow> catch_stage pf (en_clock en 0) q run (OtherError ''SqliteError'') w
           | Some w1 \<Rightarrow>
               let w2 = set_inbox (en_clock en 0) (request_in q [DispatchStarted]) ResultObserved w1
               in (case stage_output pf parse run text of
                     Inl e \<Rightarrow> catch_stage pf (en_clock en 1) q run e w2
                   | Inr artifact \<Rightarrow> (w2, AskCommit False q run artifact))))"

definition inbox_done :: "env \<Rightarrow> string \<Rightarrow> exec_world \<Rightarrow> exec_world" where
  "inbox_done en q = set_inbox (en_clock en 0) (\<lambda>r. ix_request r = q) InboxTerminal"

definition after_commit ::
  "platform \<Rightarrow> env \<Rightarrow> bool \<Rightarrow> string \<Rightarrow> RoomJobInternalRun \<Rightarrow> CollabErrorCode + RoomArtifactMetadata option
   \<Rightarrow> worker \<Rightarrow> exec_world \<Rightarrow> exec_world \<times> worker" where
  "after_commit pf en seen q run result k w =
     (case result of
        Inl c \<Rightarrow> (if seen then (w, k\<lparr>wk_pc := AskFailure True q run ''stage_failed''\<rparr>)
                  else map_prod id (\<lambda>c. k\<lparr>wk_pc := c\<rparr>) (catch_stage pf (en_clock en 0) q run (store_error c) w))
      | Inr None \<Rightarrow>
          (inbox_done en q (if seen then w else mark_observation q (\<lambda>r. True) (\<lambda>r. r\<lparr>on_kind := LateResultDiscarded\<rparr>) w),
           k\<lparr>wk_pc := Finished StageFenced\<rparr>)
      | Inr (Some _) \<Rightarrow>
          (inbox_done en q w,
           if wk_stage k = Draft then k\<lparr>wk_stage := Review, wk_pc := Entry\<rparr> else k\<lparr>wk_pc := Finished StageCommitted\<rparr>))"

definition resume ::
  "platform \<Rightarrow> (text_cp \<Rightarrow> jval option) \<Rightarrow> env \<Rightarrow> worker \<Rightarrow> exec_world \<Rightarrow> exec_world \<times> worker" where
  "resume pf parse en k w =
     (let go = map_prod id (\<lambda>c. k\<lparr>wk_pc := c\<rparr>); recover = (\<lambda>t s. set_inbox (en_clock en 0) (stage_started t s) InboxRecoveryNeeded w)
      in case wk_pc k of
        Entry \<Rightarrow> go (w, AskInitial (inbox_row w (wk_attempt k) (wk_stage k)))
      | GotInitial ex initial \<Rightarrow> go (after_initial en ex initial k w)
      | GotRecovery a \<Rightarrow> go (case a of Inl _ \<Rightarrow> (w, Finished Threw)
          | Inr _ \<Rightarrow> (recover (wk_attempt k) (wk_stage k), Finished StageRecoveryNeeded))
      | GotReadmit row seen admitted \<Rightarrow> go (w, after_readmit pf parse row seen admitted)
      | GotAck row a \<Rightarrow> go (case a of Inl _ \<Rightarrow> (w, Finished Threw)
          | Inr acked \<Rightarrow> (inbox_done en (ix_request row) w, Finished (if acked then StageCommitted else StageFenced)))
      | GotClaim q a \<Rightarrow> go (case a of Inl _ \<Rightarrow> (w, Finished Threw)
          | Inr won \<Rightarrow> if won then (w, AskClaimed q) else after_claim en q None k w)
      | GotClaimed q admitted \<Rightarrow> go (after_claim en q admitted k w)
      | GotConfirm q run ok \<Rightarrow> go (after_confirm pf en q run ok k w)
      | GotAnswer q run result \<Rightarrow> go (after_answer pf parse en q run result w)
      | GotCommit seen q run result \<Rightarrow> after_commit pf en seen q run result k w
      | GotFailure seen q a \<Rightarrow> go (case a of Inl _ \<Rightarrow> (w, Finished Threw)
          | Inr _ \<Rightarrow> (if seen then inbox_done en q w else w, Finished StageFailed))
      | Listed runs \<Rightarrow> (w, next_run (k\<lparr>wk_reconcile := Some runs\<rparr>) w)
      | Finished s \<Rightarrow> (w, if s = Threw then k else next_run k w)
      | Sweeping [] \<Rightarrow> go (w, Finished Reconciled)
      | Swept ((t, s) # rows) admitted \<Rightarrow> go (case admitted of Some run \<Rightarrow> (w, SweepMark ((t, s) # rows) run)
          | None \<Rightarrow> (recover t s, Sweeping rows))
      | SweepMarked ((t, s) # rows) a \<Rightarrow> go (case a of Inl _ \<Rightarrow> (w, Finished Threw) | Inr _ \<Rightarrow> (recover t s, Sweeping rows))
      | _ \<Rightarrow> (w, k))"

subsection \<open>Steps\<close>

definition advance ::
  "platform \<Rightarrow> (text_cp \<Rightarrow> jval option) \<Rightarrow> env \<Rightarrow> fetch_result \<Rightarrow> worker \<Rightarrow> exec_world \<Rightarrow> exec_world \<times> worker" where
  "advance pf parse en result k w =
     (if waiting (wk_pc k) then map_prod id (\<lambda>c. k\<lparr>wk_pc := c\<rparr>) (answer pf parse en result k w)
      else resume pf parse en k w)"

text \<open>
  The start handler spawns a draft run, the timer a reconciliation; a restart loses the workers and
  keeps both databases. Any other command of the store may come in between.
\<close>

datatype exec_event =
    Command store_op
  | RunStage string RoomJobLocalRuntime
  | Reconcile RoomJobLocalRuntime
  | Advance nat env fetch_result
  | Restart

definition runRoomJobStage :: "string \<Rightarrow> RoomJobStage \<Rightarrow> RoomJobLocalRuntime \<Rightarrow> worker" where
  "runRoomJobStage t stage runtime = \<lparr>wk_attempt = t, wk_stage = stage, wk_runtime = runtime, wk_pc = Entry, wk_reconcile = None\<rparr>"

definition reconcileRoomJobExecution :: "RoomJobLocalRuntime \<Rightarrow> worker" where
  "reconcileRoomJobExecution runtime =
     \<lparr>wk_attempt = [], wk_stage = Draft, wk_runtime = runtime, wk_pc = Listing, wk_reconcile = None\<rparr>"

fun exec_step :: "platform \<Rightarrow> (text_cp \<Rightarrow> jval option) \<Rightarrow> exec_event \<Rightarrow> exec_world \<Rightarrow> exec_world" where
  "exec_step pf parse (Command op) w = w\<lparr>ew_db := store_step pf op (ew_db w)\<rparr>"
| "exec_step pf parse (RunStage t runtime) w = w\<lparr>ew_workers := ew_workers w @ [runRoomJobStage t Draft runtime]\<rparr>"
| "exec_step pf parse (Reconcile runtime) w = w\<lparr>ew_workers := ew_workers w @ [reconcileRoomJobExecution runtime]\<rparr>"
| "exec_step pf parse (Advance i en result) w =
     (if i < length (ew_workers w)
      then (let (w', k) = advance pf parse en result (ew_workers w ! i) w
            in w'\<lparr>ew_workers := (ew_workers w')[i := k]\<rparr>)
      else w)"
| "exec_step pf parse Restart w = w\<lparr>ew_workers := []\<rparr>"

definition fresh_exec :: "collab_db \<Rightarrow> exec_world" where
  "fresh_exec db = \<lparr>ew_db = db, ew_inbox = [], ew_observations = [], ew_calls = [], ew_workers = []\<rparr>"

end
