(* ===== verification/Room_Coordination.thy ===== *)
theory Room_Coordination
  imports Room_Execution
begin

text \<open>
  What the coordinator of \<open>packages/gateway/src/roomJobExecution.ts\<close> guarantees together with the
  store, however workers, commands, restarts and reconciliations interleave: a stage calls the
  provider at most once, and what a reconciliation gave up is never delivered.
\<close>

subsection \<open>A single use\<close>

text \<open>
  A resource is live until someone takes it; whoever holds it may use it once. Every step keeps or
  lowers the number of holders and uses, except one that takes the live resource away.
\<close>

locale single_use =
  fixes step :: "'e \<Rightarrow> 'w \<Rightarrow> 'w"
    and inv :: "'w \<Rightarrow> bool"
    and live :: "'w \<Rightarrow> bool"
    and share :: "'w \<Rightarrow> nat"
  assumes inv_step: "inv w \<Longrightarrow> inv (step e w)"
    and stays_dead: "inv w \<Longrightarrow> \<not> live w \<Longrightarrow> \<not> live (step e w)"
    and share_step: "inv w \<Longrightarrow> share (step e w) \<le> share w
      \<or> (live w \<and> \<not> live (step e w) \<and> share (step e w) \<le> share w + 1)"
begin

definition sole :: "'w \<Rightarrow> bool" where
  "sole w \<longleftrightarrow> of_bool (live w) + share w \<le> 1"

lemma sole_step: "inv w \<Longrightarrow> sole w \<Longrightarrow> sole (step e w)"
  using stays_dead [of w e] share_step [of w e] by (auto simp: sole_def of_bool_def split: if_splits)

lemma sole_history: "inv w \<Longrightarrow> sole w \<Longrightarrow> sole (fold step es w)"
proof (induction es arbitrary: w)
  case (Cons e es)
  show ?case using Cons.IH [OF inv_step [OF Cons.prems(1)] sole_step [OF Cons.prems]] by simp
qed simp

lemma share_at_most_one: "inv w \<Longrightarrow> sole w \<Longrightarrow> share (fold step es w) \<le> 1"
  using sole_history [of w es] by (simp add: sole_def)

end

subsection \<open>What a worker touches\<close>

definition holds_claim :: "pc \<Rightarrow> bool" where
  "holds_claim c = (case c of GotClaim _ (Inr won) \<Rightarrow> won | AskClaimed _ \<Rightarrow> True | GotClaimed _ _ \<Rightarrow> True
     | AskConfirm _ _ \<Rightarrow> True | GotConfirm _ _ _ \<Rightarrow> True | _ \<Rightarrow> False)"

definition holder :: "string \<Rightarrow> RoomJobStage \<Rightarrow> worker \<Rightarrow> bool" where
  "holder t stage k \<longleftrightarrow> wk_attempt k = t \<and> wk_stage k = stage \<and> holds_claim (wk_pc k)"

definition calls_of :: "exec_world \<Rightarrow> string \<Rightarrow> RoomJobStage \<Rightarrow> nat" where
  "calls_of w t stage = length (filter (\<lambda>(u, s, p). u = t \<and> s = stage) (ew_calls w))"

text \<open>A change of the gateway tables alone.\<close>

definition tables_only :: "exec_world \<Rightarrow> exec_world \<Rightarrow> bool" where
  "tables_only w w' \<longleftrightarrow> ew_db w' = ew_db w \<and> ew_calls w' = ew_calls w \<and> ew_workers w' = ew_workers w"

lemma tables_only_writes [simp]:
  "tables_only w w"
  "tables_only w (set_inbox now hit s w') \<longleftrightarrow> tables_only w w'"
  "tables_only w (mark_observation q P f w') \<longleftrightarrow> tables_only w w'"
  "tables_only w (inbox_done en q w') \<longleftrightarrow> tables_only w w'"
  by (simp_all add: tables_only_def set_inbox_def mark_observation_def inbox_done_def)

lemma tables_only_inserts:
  "insert_inbox r w' = Some w'' \<Longrightarrow> tables_only w w'' \<longleftrightarrow> tables_only w w'"
  "insert_observation o1 w' = Some w'' \<Longrightarrow> tables_only w w'' \<longleftrightarrow> tables_only w w'"
  by (auto simp: tables_only_def insert_inbox_def insert_observation_def split: if_splits)

lemma catch_stage_only: "tables_only w' (fst (catch_stage pf now q run e w)) \<longleftrightarrow> tables_only w' w"
  "snd (catch_stage pf now q run e w) = AskFailure False q run (failure_code e)"
  by (auto simp: catch_stage_def Let_def tables_only_inserts split: option.split)

lemma after_initial_only: "tables_only w (fst (after_initial en ex ini k w)) \<and> \<not> holds_claim (snd (after_initial en ex ini k w))"
  by (auto simp: after_initial_def holds_claim_def tables_only_inserts split: option.split InboxState.split)

lemma after_claim_only: "tables_only w (fst (after_claim en q adm k w))"
  by (auto simp: after_claim_def Let_def split: option.split)

lemma after_answer_only: "tables_only w (fst (after_answer pf parse en q run r w))
   \<and> \<not> holds_claim (snd (after_answer pf parse en q run r w))"
  by (auto simp: after_answer_def Let_def catch_stage_only holds_claim_def tables_only_inserts
      split: option.split sum.split local_run_error.split)

lemma after_commit_only: "tables_only w (fst (after_commit pf en seen q run r k w))
   \<and> \<not> holds_claim (wk_pc (snd (after_commit pf en seen q run r k w)))"
  by (auto simp: after_commit_def catch_stage_only holds_claim_def split: option.split sum.split)

lemma after_confirm_only:
  "(tables_only w (fst (after_confirm pf en q run ok k w)) \<or> (\<exists>p. fst (after_confirm pf en q run ok k w)
       = w\<lparr>ew_calls := ew_calls w @ [(wk_attempt k, wk_stage k, p)]\<rparr>))
   \<and> \<not> holds_claim (snd (after_confirm pf en q run ok k w))"
  by (auto simp: after_confirm_def catch_stage_only holds_claim_def split: option.split)

lemma next_run_releases: "next_run k w = k \<or> \<not> holds_claim (wk_pc (next_run k w))"
  by (auto simp: next_run_def holds_claim_def split: option.split list.split)

subsection \<open>The share of a worker\<close>

definition worker_share :: "string \<Rightarrow> RoomJobStage \<Rightarrow> exec_world \<Rightarrow> worker \<Rightarrow> nat" where
  "worker_share t stage w k = of_bool (holder t stage k) + calls_of w t stage"

definition quiet :: "exec_world \<Rightarrow> worker \<Rightarrow> exec_world \<times> worker \<Rightarrow> bool" where
  "quiet w k out \<longleftrightarrow> ew_db (fst out) = ew_db w \<and> ew_workers (fst out) = ew_workers w
     \<and> (\<forall>t stage. worker_share t stage (fst out) (snd out) \<le> worker_share t stage w k)"

lemma quiet_released:
  "tables_only w (fst out) \<Longrightarrow> \<not> holds_claim (wk_pc (snd out)) \<or> snd out = k \<Longrightarrow> quiet w k out"
  by (auto simp: quiet_def tables_only_def worker_share_def holder_def calls_of_def)

lemma quiet_kept:
  "tables_only w (fst out) \<Longrightarrow> snd out = k\<lparr>wk_pc := c\<rparr> \<Longrightarrow> holds_claim c \<longrightarrow> holds_claim (wk_pc k) \<Longrightarrow> quiet w k out"
  by (auto simp: quiet_def tables_only_def worker_share_def holder_def calls_of_def)

lemma quiet_confirm:
  assumes "wk_pc k = GotConfirm q run ok"
  shows "quiet w k (map_prod id (\<lambda>c. k\<lparr>wk_pc := c\<rparr>) (after_confirm pf en q run ok k w))"
  using after_confirm_only [of w pf en q run ok k] assms
  by (auto simp: quiet_def tables_only_def worker_share_def holder_def holds_claim_def calls_of_def)

lemma resume_quiet: "quiet w k (resume pf parse en k w)"
proof (cases "wk_pc k")
  case (GotInitial ex ini)
  show ?thesis using after_initial_only [of w en ex ini k] by (intro quiet_released) (simp_all add: resume_def GotInitial)
next
  case (GotClaim q a)
  show ?thesis
  proof (cases a)
    case (Inr won)
    show ?thesis
      by (intro quiet_kept [where c = "wk_pc (snd (resume pf parse en k w))"])
        (use after_claim_only [of w en q None k] in \<open>auto simp: resume_def GotClaim Inr holds_claim_def after_claim_def Let_def\<close>)
  qed (intro quiet_released, simp_all add: resume_def GotClaim holds_claim_def)
next
  case (GotClaimed q adm)
  show ?thesis
    by (intro quiet_kept [where c = "wk_pc (snd (resume pf parse en k w))"])
      (use after_claim_only [of w en q adm k] in \<open>simp_all add: resume_def GotClaimed holds_claim_def\<close>)
next
  case (GotConfirm q run ok)
  show ?thesis using quiet_confirm [OF GotConfirm] by (simp add: resume_def GotConfirm)
next
  case (GotAnswer q run r)
  show ?thesis using after_answer_only [of w pf parse en q run r] by (intro quiet_released) (simp_all add: resume_def GotAnswer)
next
  case (GotCommit seen q run r)
  show ?thesis using after_commit_only [of w pf en seen q run r k] by (intro quiet_released) (simp_all add: resume_def GotCommit)
next
  case (Listed runs)
  show ?thesis using next_run_releases [of "k\<lparr>wk_reconcile := Some runs\<rparr>" w]
    by (intro quiet_released) (auto simp: resume_def Listed holds_claim_def)
next
  case (Finished s)
  show ?thesis using next_run_releases [of k w] by (intro quiet_released) (auto simp: resume_def Finished)
next
  case (GotReadmit row seen adm)
  show ?thesis by (intro quiet_released)
    (simp_all add: resume_def GotReadmit after_readmit_def holds_claim_def split: option.split sum.split)
qed (intro quiet_released; simp add: resume_def holds_claim_def split: sum.split option.split list.split)+

subsection \<open>Answers of the store\<close>

lemma claim_tx_win:
  assumes "rooms_keyed (db_rooms db)" and "claim_run_tx t stage configuration db = Inr (True, d)"
  shows "stage_in t stage [ObPending] db \<and> \<not> stage_in t stage [ObPending] d"
proof -
  obtain a r b ch p where row: "run_row db t stage = Some (a, r, b, ch, p)" and b: "ob_state b = ObPending"
    and d: "d = claimed_outbox t stage db"
    using assms(2) by (auto simp: claim_run_tx_def Let_def claimed_outbox_def split: if_splits option.splits prod.splits)
  have "\<not> stage_in t stage [ObPending] d"
    unfolding stage_in_def
    by (rule settled_out [of b "rm_outbox (db_rooms db)" t stage ObPending ObClaimed _ _ "\<lambda>r. r\<lparr>ob_state := ObClaimed\<rparr>" "[]"])
       (use run_row_rows(5,6) [OF row] b in \<open>simp_all add: d room_write_defs outbox_is_def\<close>)
  then show ?thesis using stage_row_only [OF assms(1) row] b by simp
qed

lemma claim_is_step:
  "fst (runNaturallyIdempotentCommand (claim_run_tx t stage configuration) db)
   = store_step pf (Job (ClaimRun t stage configuration)) db"
  by (simp add: claimRoomJobInternalDispatch_def split: prod.split sum.split bool.split)

definition stepped :: "platform \<Rightarrow> collab_db \<Rightarrow> collab_db \<Rightarrow> bool" where
  "stepped pf db db' \<longleftrightarrow> db' = db \<or> (\<exists>op. db' = store_step pf op db)"

lemma stepped_refl [simp]: "stepped pf db db"
  by (simp add: stepped_def)

lemma stepped_answers:
  "stepped pf db (fst (recordRoomJobInternalRecoveryNeeded en t stage g h db))"
  "stepped pf db (fst (recordRoomJobInternalFailure en t stage g h reason db))"
  "stepped pf db (fst (commitRoomJobInternalArtifact pf en i db))"
  "stepped pf db (fst (runNaturallyIdempotentCommand (claim_run_tx t stage configuration) db))"
  unfolding stepped_def
  by (rule disjI2, rule exI [of _ "Job (RecordRecovery en t stage g h)"], simp)
     (rule disjI2, rule exI [of _ "Job (RecordFailure en t stage g h reason)"], simp,
      rule disjI2, rule exI [of _ "Job (CommitArtifact en i)"], simp,
      rule disjI2, rule exI [of _ "Job (ClaimRun t stage configuration)"], rule claim_is_step)

lemma on_store_parts: "ew_db (fst (on_store f w)) = fst (f (ew_db w))" "ew_calls (fst (on_store f w)) = ew_calls w"
  "ew_workers (fst (on_store f w)) = ew_workers w" "snd (on_store f w) = snd (f (ew_db w))"
  by (simp_all add: on_store_def Let_def split: prod.split)

lemma answer_parts:
  "ew_calls (fst (answer pf parse en result k w)) = ew_calls w"
  "ew_workers (fst (answer pf parse en result k w)) = ew_workers w"
  "stepped pf (ew_db w) (ew_db (fst (answer pf parse en result k w)))"
  by (simp_all add: answer_def Let_def on_store_parts stepped_answers split: pc.split list.split prod.split)

text \<open>Only a granted claim makes a worker a holder.\<close>

lemma answer_holds:
  assumes "holds_claim (snd (answer pf parse en result k w))"
  shows "holds_claim (wk_pc k) \<or> (\<exists>d. ew_db (fst (answer pf parse en result k w)) = d
     \<and> claim_run_tx (wk_attempt k) (wk_stage k) (lr_configuration (wk_runtime k)) (ew_db w) = Inr (True, d))"
proof (cases "wk_pc k")
  case (AskClaim q)
  then show ?thesis using assms
    by (auto simp: answer_def Let_def on_store_parts holds_claim_def runNaturallyIdempotentCommand_def on_store_def
        split: sum.splits prod.splits)
qed (use assms in \<open>auto simp: answer_def Let_def holds_claim_def on_store_def split: list.splits prod.splits\<close>)

subsection \<open>The store sees a history of its own commands\<close>

lemma advance_stepped: "stepped pf (ew_db w) (ew_db (fst (advance pf parse en result k w)))"
  using resume_quiet [of w k pf parse en] by (simp add: advance_def answer_parts quiet_def)

lemma advance_workers: "ew_workers (fst (advance pf parse en result k w)) = ew_workers w"
  using resume_quiet [of w k pf parse en] by (simp add: advance_def answer_parts quiet_def)

lemma exec_stepped: "stepped pf (ew_db w) (ew_db (exec_step pf parse e w))"
proof (cases e)
  case (Advance i en result)
  show ?thesis using advance_stepped [of pf w parse en result "ew_workers w ! i"]
    by (simp add: Advance Let_def split: prod.split_asm)
      (simp add: case_prod_beta)
qed (auto simp: stepped_def)

text \<open>
  C19. The coordinator acts on the collaboration database through the commands of the store only. Every
  interleaving of workers, reconciliations, restarts and other commands leaves the database that some
  sequence of store commands leaves; whatever holds along the histories of the store holds here.
\<close>

theorem coordination_refines_store:
  "\<exists>ops. ew_db (fold (exec_step pf parse) es w) = fold (store_step pf) ops (ew_db w)"
proof (induction es arbitrary: w)
  case Nil
  show ?case by (rule exI [of _ "[]"]) simp
next
  case (Cons e es)
  obtain ops where ops: "ew_db (fold (exec_step pf parse) es (exec_step pf parse e w))
      = fold (store_step pf) ops (ew_db (exec_step pf parse e w))" using Cons.IH by blast
  from exec_stepped [of pf w parse e] show ?case unfolding stepped_def
  proof
    assume "ew_db (exec_step pf parse e w) = ew_db w"
    then show ?thesis using ops by (intro exI [of _ ops]) simp
  next
    assume "\<exists>op. ew_db (exec_step pf parse e w) = store_step pf op (ew_db w)"
    then obtain op where "ew_db (exec_step pf parse e w) = store_step pf op (ew_db w)" by blast
    then show ?thesis using ops by (intro exI [of _ "op # ops"]) simp
  qed
qed

lemma room_invariant_exec:
  assumes "room_invariant I" and "I (db_rooms (ew_db w))"
  shows "I (db_rooms (ew_db (exec_step pf parse e w)))"
  using exec_stepped [of pf w parse e] room_invariant.step [OF assms] assms(2) by (auto simp: stepped_def)

subsection \<open>One call of the provider\<close>

definition stage_share :: "string \<Rightarrow> RoomJobStage \<Rightarrow> exec_world \<Rightarrow> nat" where
  "stage_share t stage w = length (filter (holder t stage) (ew_workers w)) + calls_of w t stage"

lemma filter_update:
  assumes "i < length xs"
  shows "length (filter P (xs[i := x])) + of_bool (P (xs ! i)) = length (filter P xs) + of_bool (P x)"
proof -
  have "length (filter P xs) = length (filter P (take i xs @ xs ! i # drop (Suc i) xs))"
    using id_take_nth_drop [OF assms] by simp
  then show ?thesis using assms by (simp add: upd_conv_take_nth_drop)
qed

lemma advance_share:
  assumes "rooms_keyed (db_rooms (ew_db w))" and "i < length (ew_workers w)"
  shows "stage_share t stage (exec_step pf parse (Advance i en result) w) \<le> stage_share t stage w
     \<or> (stage_in t stage [ObPending] (ew_db w) \<and> \<not> stage_in t stage [ObPending] (ew_db (exec_step pf parse (Advance i en result) w))
        \<and> stage_share t stage (exec_step pf parse (Advance i en result) w) \<le> stage_share t stage w + 1)"
proof -
  let ?k = "ew_workers w ! i"
  define v where "v = exec_step pf parse (Advance i en result) w"
  obtain w' k' where out: "advance pf parse en result ?k w = (w', k')" by fastforce
  have same: "ew_workers w' = ew_workers w" using advance_workers [of pf parse en result ?k w] out by simp
  have v: "v = w'\<lparr>ew_workers := (ew_workers w)[i := k']\<rparr>"
    using assms(2) out same by (simp add: v_def)
  have count: "stage_share t stage v + of_bool (holder t stage ?k) + calls_of w t stage
      = stage_share t stage w + of_bool (holder t stage k') + calls_of w' t stage"
    using filter_update [OF assms(2), of "holder t stage" k'] by (simp add: v stage_share_def calls_of_def)
  have "stage_share t stage v \<le> stage_share t stage w
     \<or> (stage_in t stage [ObPending] (ew_db w) \<and> \<not> stage_in t stage [ObPending] (ew_db v)
        \<and> stage_share t stage v \<le> stage_share t stage w + 1)" (is ?goal)
  proof (cases "waiting (wk_pc ?k)")
    case False
    then have "worker_share t stage w' k' \<le> worker_share t stage w ?k"
      using resume_quiet [of w ?k pf parse en] out by (simp add: advance_def quiet_def)
    then show ?goal using count by (simp add: worker_share_def)
  next
    case True
    obtain c where c: "answer pf parse en result ?k w = (w', c)" "k' = ?k\<lparr>wk_pc := c\<rparr>"
      using out True by (cases "answer pf parse en result ?k w") (simp add: advance_def)
    have calls: "calls_of w' t stage = calls_of w t stage"
      using answer_parts(1) [of pf parse en result ?k w] c(1) by (simp add: calls_of_def)
    show ?goal
    proof (cases "holder t stage k' \<and> \<not> holder t stage ?k")
      case False
      then show ?goal using count calls by (cases "holder t stage k'"; cases "holder t stage ?k") simp_all
    next
      case held: True
      then have h: "holds_claim c" "\<not> holds_claim (wk_pc ?k)" "wk_attempt ?k = t" "wk_stage ?k = stage"
        using c(2) by (auto simp: holder_def)
      then have "claim_run_tx t stage (lr_configuration (wk_runtime ?k)) (ew_db w) = Inr (True, ew_db w')"
        using answer_holds [of pf parse en result ?k w] c(1) by auto
      from claim_tx_win [OF assms(1) this] show ?goal using count calls held v by simp
    qed
  qed
  then show ?thesis by (simp only: v_def)
qed

interpretation provider: single_use "exec_step pf parse" "\<lambda>w. rooms_keyed (db_rooms (ew_db w))"
  "\<lambda>w. stage_in t stage [ObPending] (ew_db w)" "stage_share t stage" for pf parse t stage
proof unfold_locales
  fix w :: exec_world and e
  assume keyed: "rooms_keyed (db_rooms (ew_db w))"
  show "rooms_keyed (db_rooms (ew_db (exec_step pf parse e w)))"
    by (rule room_invariant_exec [OF keyed.room_invariant_axioms keyed])
  show "\<not> stage_in t stage [ObPending] (ew_db w) \<Longrightarrow> \<not> stage_in t stage [ObPending] (ew_db (exec_step pf parse e w))"
    using exec_stepped [of pf w parse e] stage_stays_out [of t stage "[ObPending]" "ew_db w" pf]
    by (auto simp: stepped_def stage_edge_iff)
  show "stage_share t stage (exec_step pf parse e w) \<le> stage_share t stage w
     \<or> (stage_in t stage [ObPending] (ew_db w) \<and> \<not> stage_in t stage [ObPending] (ew_db (exec_step pf parse e w))
        \<and> stage_share t stage (exec_step pf parse e w) \<le> stage_share t stage w + 1)"
  proof (cases e)
    case (Advance i en result)
    show ?thesis
    proof (cases "i < length (ew_workers w)")
      case True
      from advance_share [OF keyed True] show ?thesis unfolding Advance .
    qed (simp add: Advance)
  qed (simp_all add: stage_share_def calls_of_def holder_def holds_claim_def runRoomJobStage_def reconcileRoomJobExecution_def)
qed

text \<open>
  C3. A stage calls the model at most once, ever. Along any interleaving of started runs,
  reconciliations, restarts, cancellations and other commands, with the provider answering anything
  or nothing, the provider is called at most once for a given stage of a given attempt: no second
  worker and no recovery after a crash replays a call.
\<close>

theorem provider_called_once:
  "length (filter (\<lambda>(u, s, prompt). u = t \<and> s = stage)
     (ew_calls (fold (exec_step pf parse) es (fresh_exec (fresh_db ps cs))))) \<le> 1"
proof -
  let ?w = "fresh_exec (fresh_db ps cs)"
  have "rooms_keyed (db_rooms (ew_db ?w))" using rooms_ok_fresh by (simp add: rooms_ok_def fresh_exec_def)
  moreover have "provider.sole t stage ?w"
    by (simp add: provider.sole_def stage_share_def calls_of_def fresh_exec_def)
  ultimately have "stage_share t stage (fold (exec_step pf parse) es ?w) \<le> 1"
    by (rule provider.share_at_most_one)
  then show ?thesis by (simp add: stage_share_def calls_of_def)
qed

subsection \<open>A stage given up\<close>

lemma terminal_out:
  assumes "terminal_tx outbox attempt reason en t stage generation inputHash db = Inr (True, d)"
    and "outbox \<notin> {ObPending, ObClaimed}"
  shows "\<not> stage_in t stage [ObPending, ObClaimed] d"
proof -
  obtain a j b ch p where row: "run_row db t stage = Some (a, j, b, ch, p)" and b: "ob_state b = ObClaimed"
    and log: "appendRoomJobLifecycle (en_uuid en 0) (en_clock en 1) (rj_channel j) (rt_job a) execution_failed
      JobCreated (rj_revision j) (rt_owner a) (attempt_member t) (report_terminal t stage outbox attempt reason (en_clock en 0) db)
      = Some d"
    using assms(1) by (auto simp: terminal_tx_def Let_def report_terminal_def split: if_splits option.splits prod.splits)
  show ?thesis
    unfolding stage_in_def
    by (rule logged_rooms [OF lifecycle_logged [OF log]], rule settled_out [of b "rm_outbox (db_rooms db)" t stage ObClaimed outbox _ _
          "\<lambda>r. r\<lparr>ob_state := outbox, ob_ackAt := Some (en_clock en 0)\<rparr>" "[]"])
       (use run_row_rows(5,6) [OF row] b assms(2) in \<open>simp_all add: room_write_defs outbox_is_def\<close>)
qed

lemma exec_stays_out:
  assumes "\<not> stage_in t stage [ObPending, ObClaimed] (ew_db w)"
  shows "\<not> stage_in t stage [ObPending, ObClaimed] (ew_db (fold (exec_step pf parse) es w))"
  using assms
proof (induction es arbitrary: w)
  case (Cons e es)
  have "\<not> stage_in t stage [ObPending, ObClaimed] (store_step pf op (ew_db w))" for op
    by (rule stage_stays_out [OF Cons.prems]) (auto simp: stage_edge_iff)
  then have "\<not> stage_in t stage [ObPending, ObClaimed] (ew_db (exec_step pf parse e w))"
    using exec_stepped [of pf w parse e] Cons.prems unfolding stepped_def by metis
  then show ?case using Cons.IH by simp
qed simp

lemma keyed_exec_history:
  "rooms_keyed (db_rooms (ew_db w)) \<Longrightarrow> rooms_keyed (db_rooms (ew_db (fold (exec_step pf parse) es w)))"
  by (induction es arbitrary: w) (simp_all add: room_invariant_exec [OF keyed.room_invariant_axioms] del: exec_step.simps)

lemma no_commit_outside:
  assumes "rooms_keyed (db_rooms db)" and "\<not> stage_in t stage [ObPending, ObClaimed] db"
    and "ic_attempt i = t" and "ic_stage i = stage"
  shows "snd (commitRoomJobInternalArtifact pf en i db) \<noteq> Inr (Some m)"
proof
  assume "snd (commitRoomJobInternalArtifact pf en i db) = Inr (Some m)"
  then have "snd (stage_commit pf t stage (Job (CommitArtifact en i)) db)"
    using assms(3,4) by (simp add: stage_commit_def)
  from stage_commit_win [OF assms(1) this] show False using assms(2) by blast
qed

text \<open>
  C30. A reconciliation that gives up a stage takes the result from the worker that runs it. When the
  sweep has recorded a stage as uncertain, then whatever happens later, no worker that holds a
  validated artifact for this stage gets it committed. The sweep looks at the inbox alone: it does not
  ask whether the worker that started the call is still alive.
\<close>

theorem swept_stage_never_delivers:
  assumes "rooms_keyed (db_rooms (ew_db w))" and "n < length (ew_workers w)"
    and "wk_pc (ew_workers w ! n) = SweepMark ((t, stage) # rows) run" and "ir_attempt run = t"
    and "wk_pc (ew_workers (exec_step pf parse (Advance n en result) w) ! n) = SweepMarked ((t, stage) # rows) (Inr True)"
    and "wk_pc k = AskCommit seen q run' artifact" and "ir_attempt run' = t" and "ir_stage run' = stage"
  shows "snd (answer pf parse en' result' k (fold (exec_step pf parse) es (exec_step pf parse (Advance n en result) w)))
    \<noteq> GotCommit seen q run' (Inr (Some m))"
proof -
  define v where "v = exec_step pf parse (Advance n en result) w"
  obtain d a where rec: "recordRoomJobInternalRecoveryNeeded en t stage (ir_generation run) (ir_inputHash run) (ew_db w) = (d, a)"
    by fastforce
  have v: "v = w\<lparr>ew_db := d, ew_workers := (ew_workers w)[n := (ew_workers w ! n)\<lparr>wk_pc := SweepMarked ((t, stage) # rows) a\<rparr>]\<rparr>"
    using assms(2-4) rec by (simp add: v_def advance_def waiting_def answer_def on_store_def)
  have "a = Inr True" using assms(5) assms(2) unfolding v_def [symmetric] v by simp
  then have "terminal_tx ObRecoveryNeeded AtRecoveryNeeded ''dispatch_interrupted_uncertain'' en t stage (ir_generation run)
      (ir_inputHash run) (ew_db w) = Inr (True, d)"
    using rec by (auto simp: recordRoomJobInternalRecoveryNeeded_def runNaturallyIdempotentCommand_def split: sum.splits)
  from terminal_out [OF this] have out: "\<not> stage_in t stage [ObPending, ObClaimed] (ew_db v)" by (simp add: v)
  have keyed: "rooms_keyed (db_rooms (ew_db v))"
    unfolding v_def by (rule room_invariant_exec [OF keyed.room_invariant_axioms assms(1)])
  define d2 where "d2 = ew_db (fold (exec_step pf parse) es v)"
  have "snd (commitRoomJobInternalArtifact pf en' (commit_input q run' artifact) d2) \<noteq> Inr (Some m)"
    unfolding d2_def
    by (rule no_commit_outside [OF keyed_exec_history [OF keyed] exec_stays_out [OF out]])
       (simp_all add: commit_input_def assms(7,8))
  then show ?thesis
    unfolding v_def [symmetric] by (simp add: answer_def assms(6) Let_def on_store_parts d2_def)
qed

subsection \<open>A lost claim\<close>

text \<open>
  C33. A crash between the claim and the start of the dispatch wedges the stage. When the store has
  granted the claim and the process dies before the inbox says so, a new run of the stage is fenced
  and changes nothing, the list of pending runs leaves the stage out, and the sweep of a
  reconciliation leaves it out as well.
\<close>

theorem lost_claim_wedges:
  assumes "rooms_keyed (db_rooms (ew_db w))" and "key_unique (\<lambda>r. (ix_attempt r, ix_stage r)) (ew_inbox w)"
    and "inbox_row w t stage = Some row" and "ix_state row = InboxAdmitted"
    and "outbox_row (ew_db w) t stage = Some b" and "ob_state b = ObClaimed"
    and "wk_pc k = Entry" and "wk_attempt k = t" and "wk_stage k = stage"
  shows "((\<lambda>(v, j). advance pf parse en result j v) ^^ 3) (w, k) = (w, k\<lparr>wk_pc := Finished StageFenced\<rparr>)
     \<and> (t, stage) \<notin> set (listPendingRoomJobInternalRuns n (ew_db w))
     \<and> (case wk_pc (next_run (k\<lparr>wk_reconcile := Some []\<rparr>) w) of Sweeping rows \<Rightarrow> (t, stage) \<notin> set rows | _ \<Rightarrow> False)"
proof (intro conjI)
  have none: "getRoomJobInternalRun t stage False (ew_db w) = None"
  proof (cases "run_row (ew_db w) t stage")
    case (Some x)
    obtain a j b' ch p where x: "x = (a, j, b', ch, p)" by (cases x) auto
    have "b' = b" using Some x assms(5) by (auto simp: run_row_def split: option.splits)
    then show ?thesis using Some x assms(6) by (simp add: getRoomJobInternalRun_def)
  qed (simp add: getRoomJobInternalRun_def)
  show "((\<lambda>(v, j). advance pf parse en result j v) ^^ 3) (w, k) = (w, k\<lparr>wk_pc := Finished StageFenced\<rparr>)"
    using assms(3,4,7-9) none
    by (simp add: numeral_3_eq_3 advance_def waiting_def resume_def answer_def Let_def after_initial_def)
  have pending: "ob_state b' \<noteq> ObPending" if "b' \<in> set (rm_outbox (db_rooms (ew_db w)))" "ob_attempt b' = t" "ob_stage b' = stage" for b'
  proof -
    have b: "b \<in> set (rm_outbox (db_rooms (ew_db w)))" "outbox_is t stage b"
      using assms(5) by (auto simp: outbox_row_def dest: tbl_get_Some)
    have "b' = b"
      by (rule key_unique_eq [of outbox_key "rm_outbox (db_rooms (ew_db w))"])
        (use assms(1) that b in \<open>simp_all add: rooms_keyed_def outbox_key_def outbox_is_def\<close>)
    then show ?thesis using assms(6) by simp
  qed
  show "(t, stage) \<notin> set (listPendingRoomJobInternalRuns n (ew_db w))"
    using pending by (auto simp: listPendingRoomJobInternalRuns_def dest!: in_set_takeD)
  have started: "ix_state r \<noteq> DispatchStarted" if "r \<in> set (ew_inbox w)" "ix_attempt r = t" "ix_stage r = stage" for r
  proof -
    have row: "row \<in> set (ew_inbox w)" "ix_attempt row = t" "ix_stage row = stage"
      using assms(3) by (auto simp: inbox_row_def find_Some_iff)
    have "r = row"
      by (rule key_unique_eq [of "\<lambda>r. (ix_attempt r, ix_stage r)" "ew_inbox w"]) (use assms(2) that row in simp_all)
    then show ?thesis using assms(4) by simp
  qed
  show "case wk_pc (next_run (k\<lparr>wk_reconcile := Some []\<rparr>) w) of Sweeping rows \<Rightarrow> (t, stage) \<notin> set rows | _ \<Rightarrow> False"
    using started by (auto simp: next_run_def dest!: in_set_takeD)
qed

subsection \<open>Only validated text reaches the store\<close>

definition validated :: "platform \<Rightarrow> (text_cp \<Rightarrow> jval option) \<Rightarrow> pc \<Rightarrow> bool" where
  "validated pf parse c =
     (case c of AskCommit seen q run artifact \<Rightarrow> (\<exists>text. stage_output pf parse run text = Inr artifact) | _ \<Rightarrow> True)"

lemma stage_output_Inr:
  "stage_output pf parse run text = Inr artifact \<longleftrightarrow>
     (case ir_stage run of
        Draft \<Rightarrow> (\<exists>p. validateRoomJobProposal (pf_nfc pf) parse text (run_fact_refs run) = Some p \<and> artifact = proposal_artifact p)
      | Review \<Rightarrow> (\<exists>i n sha content r. ir_proposal run = Some (i, n, sha, content)
          \<and> validateRoomJobReview (pf_nfc pf) parse text (run_fact_refs run) n sha = Some r \<and> artifact = review_artifact r))"
  by (auto simp: stage_output_def Let_def split: RoomJobStage.split option.split prod.split)

lemma validated_parts:
  "validated pf parse (snd (after_initial en ex ini k w))"
  "validated pf parse (snd (catch_stage pf' now q run e w))"
  "validated pf parse (after_readmit pf parse row seen adm)"
  "validated pf parse (snd (after_claim en q adm k w))"
  "validated pf parse (snd (after_confirm pf' en q run ok k w))"
  "validated pf parse (snd (after_answer pf parse en q run r w))"
  "validated pf parse (wk_pc (snd (after_commit pf' en seen' q run r' k w)))"
  by (auto simp: validated_def after_initial_def catch_stage_only after_readmit_def after_claim_def after_confirm_def
      after_answer_def after_commit_def Let_def
      split: option.split sum.split InboxState.split local_run_error.split)

lemma validated_other [simp]:
  "validated pf parse Entry" "validated pf parse Listing"
  "validated pf parse (AskInitial ex)" "validated pf parse (Finished s)" "validated pf parse (AskClaimed q)"
  "validated pf parse (Sweeping rows)" "validated pf parse (Listed rows)" "validated pf parse (SweepMark rows run)"
  "validated pf parse (Swept rows adm)" "validated pf parse (SweepMarked rows a)"
  by (simp_all add: validated_def)

lemma validated_next: "validated pf parse (wk_pc k) \<Longrightarrow> validated pf parse (wk_pc (next_run k w))"
  by (simp add: next_run_def split: option.split list.split)

lemma resume_validated:
  assumes "validated pf parse (wk_pc k)"
  shows "validated pf parse (wk_pc (snd (resume pf parse en k w)))"
proof (cases "wk_pc k")
qed (use assms in \<open>simp_all add: resume_def validated_parts validated_next split: option.split sum.split list.split\<close>)

lemma answer_validated:
  assumes "validated pf parse (wk_pc k)"
  shows "validated pf parse (snd (answer pf parse en result k w))"
  using assms by (simp add: answer_def validated_def Let_def split: pc.split list.split prod.split)

lemma exec_validated:
  assumes "list_all (\<lambda>k. validated pf parse (wk_pc k)) (ew_workers w)"
  shows "list_all (\<lambda>k. validated pf parse (wk_pc k)) (ew_workers (exec_step pf parse e w))"
proof (cases e)
  case (Advance i en result)
  show ?thesis
  proof (cases "i < length (ew_workers w)")
    case True
    let ?out = "advance pf parse en result (ew_workers w ! i) w"
    have "validated pf parse (wk_pc (ew_workers w ! i))" using assms True by (simp add: list_all_length)
    then have "validated pf parse (wk_pc (snd ?out))"
      using resume_validated answer_validated by (simp add: advance_def)
    moreover have "ew_workers (exec_step pf parse e w) = (ew_workers w)[i := snd ?out]"
      using advance_workers [of pf parse en result "ew_workers w ! i" w] True Advance by (simp add: case_prod_beta Let_def)
    ultimately show ?thesis using assms by (auto simp: list_all_iff dest!: set_update_subset_insert [THEN subsetD])
  qed (use assms Advance in simp)
qed (use assms in \<open>simp_all add: runRoomJobStage_def reconcileRoomJobExecution_def\<close>)

text \<open>
  C17. Nothing a model says reaches the store unvalidated. At every point of every interleaving, the
  artifact a worker is about to commit is the canonical rendering of a proposal or review that the
  validators accepted for exactly the facts, and for a review the proposal, of the run it commits.
\<close>

theorem commits_are_validated:
  "list_all (\<lambda>k. case wk_pc k of
       AskCommit seen q run artifact \<Rightarrow>
         (\<exists>text. case ir_stage run of
            Draft \<Rightarrow> (\<exists>p. validateRoomJobProposal (pf_nfc pf) parse text (run_fact_refs run) = Some p
              \<and> artifact = proposal_artifact p)
          | Review \<Rightarrow> (\<exists>i n sha content r. ir_proposal run = Some (i, n, sha, content)
              \<and> validateRoomJobReview (pf_nfc pf) parse text (run_fact_refs run) n sha = Some r \<and> artifact = review_artifact r))
     | _ \<Rightarrow> True) (ew_workers (fold (exec_step pf parse) es (fresh_exec db)))"
proof -
  have "list_all (\<lambda>k. validated pf parse (wk_pc k)) (ew_workers (fold (exec_step pf parse) es w))"
    if "list_all (\<lambda>k. validated pf parse (wk_pc k)) (ew_workers w)" for w
    using that by (induction es arbitrary: w) (simp_all add: exec_validated del: exec_step.simps)
  from this [of "fresh_exec db"]
  have "list_all (\<lambda>k. validated pf parse (wk_pc k)) (ew_workers (fold (exec_step pf parse) es (fresh_exec db)))"
    by (simp add: fresh_exec_def)
  then show ?thesis unfolding validated_def stage_output_Inr .
qed

subsection \<open>Concrete runs\<close>

definition demo_runtime :: RoomJobLocalRuntime where
  "demo_runtime = \<lparr>lr_modelId = ''m'', lr_configuration = ''g''\<rparr>"

definition demo_run :: RoomJobInternalRun where
  "demo_run = \<lparr>ir_attempt = ''u'', ir_stage = Draft, ir_channel = ''c'', ir_owner = ''o'', ir_generation = 1,
     ir_inputHash = ''h'', ir_configuration = ''g'', ir_brief = [98], ir_facts = [(''f'', ''y'', [97])], ir_proposal = None\<rparr>"

definition demo_worker :: "pc \<Rightarrow> worker" where
  "demo_worker c = (runRoomJobStage ''u'' Draft demo_runtime)\<lparr>wk_pc := c\<rparr>"

text \<open>A sweep meets a worker that is waiting to commit.\<close>

definition swept_world :: exec_world where
  "swept_world = (fresh_exec (room_db ObClaimed))\<lparr>ew_workers :=
     [demo_worker (SweepMark [(''u'', Draft)] demo_run), demo_worker (AskCommit False ''q'' demo_run [120])]\<rparr>"

lemma recovery_recorded:
  "snd (recordRoomJobInternalRecoveryNeeded (demo_env ''e'') ''u'' Draft 1 ''h'' (room_db ObClaimed)) = Inr True"
  by code_simp

theorem swept_stage_never_delivers_witness:
  "let w = exec_step demo_pf (\<lambda>_. None) (Advance 0 (demo_env ''e'') FetchAborted) swept_world in
     wk_pc (ew_workers w ! 0) = SweepMarked [(''u'', Draft)] (Inr True)
     \<and> (\<forall>m. snd (answer demo_pf (\<lambda>_. None) (demo_env ''x'') FetchAborted (ew_workers swept_world ! 1) w)
           \<noteq> GotCommit False ''q'' demo_run (Inr (Some m)))"
proof -
  let ?w = "exec_step demo_pf (\<lambda>_. None) (Advance 0 (demo_env ''e'') FetchAborted) swept_world"
  have keyed: "rooms_keyed (db_rooms (ew_db swept_world))"
    using room_db_ok [of ObClaimed] by (simp add: swept_world_def fresh_exec_def rooms_ok_def)
  have mark: "wk_pc (ew_workers swept_world ! 0) = SweepMark [(''u'', Draft)] demo_run"
    by (simp add: swept_world_def demo_worker_def)
  have marked: "wk_pc (ew_workers ?w ! 0) = SweepMarked [(''u'', Draft)] (Inr True)"
    using recovery_recorded
    by (simp add: swept_world_def demo_worker_def runRoomJobStage_def advance_def waiting_def answer_def demo_run_def
        fresh_exec_def on_store_def case_prod_beta)
  show ?thesis
    using swept_stage_never_delivers [of swept_world 0 "''u''" Draft "[]" demo_run demo_pf "\<lambda>_. None" "demo_env ''e''" FetchAborted
        "ew_workers swept_world ! 1" False "''q''" demo_run "[120]" "demo_env ''x''" FetchAborted "[]"] keyed mark marked
    unfolding Let_def by (simp add: swept_world_def demo_worker_def demo_run_def del: exec_step.simps)
qed

text \<open>A run claims its stage; the process restarts before it hears of it.\<close>

definition lost_events :: "exec_event list" where
  "lost_events = RunStage ''u'' demo_runtime # replicate 5 (Advance 0 (demo_env ''q'') FetchAborted) @ [Restart]"

definition lost_world :: exec_world where
  "lost_world = fold (exec_step demo_pf (\<lambda>_. None)) lost_events (fresh_exec (room_db ObPending))"

definition lost_row :: InboxRow where
  "lost_row = \<lparr>ix_attempt = ''u'', ix_stage = Draft, ix_request = ''q'', ix_inputHash = ''h'', ix_generation = 1,
     ix_configuration = ''g'', ix_state = InboxAdmitted, ix_createdAt = ''t'', ix_updatedAt = ''t''\<rparr>"

lemma lost_inbox: "ew_inbox lost_world = [lost_row] \<and> rm_outbox (db_rooms (ew_db lost_world)) = [room_outbox ObClaimed]"
  by code_simp

theorem lost_claim_wedges_witness:
  "let k = runRoomJobStage ''u'' Draft demo_runtime in
     ((\<lambda>(v, j). advance demo_pf (\<lambda>_. None) (demo_env ''x'') FetchAborted j v) ^^ 3) (lost_world, k)
        = (lost_world, k\<lparr>wk_pc := Finished StageFenced\<rparr>)
     \<and> (''u'', Draft) \<notin> set (listPendingRoomJobInternalRuns 20 (ew_db lost_world))"
proof -
  have "rooms_keyed (db_rooms (ew_db (fresh_exec (room_db ObPending))))"
    using room_db_ok [of ObPending] by (simp add: fresh_exec_def rooms_ok_def)
  then have keyed: "rooms_keyed (db_rooms (ew_db lost_world))" unfolding lost_world_def by (rule keyed_exec_history)
  have inbox: "key_unique (\<lambda>r. (ix_attempt r, ix_stage r)) (ew_inbox lost_world)"
    "inbox_row lost_world ''u'' Draft = Some lost_row" "ix_state lost_row = InboxAdmitted"
    using lost_inbox by (simp_all add: key_unique_def inbox_row_def lost_row_def)
  have outbox: "outbox_row (ew_db lost_world) ''u'' Draft = Some (room_outbox ObClaimed)" "ob_state (room_outbox ObClaimed) = ObClaimed"
    using lost_inbox by (simp_all add: outbox_row_def tbl_get_def outbox_is_def room_outbox_def)
  show ?thesis
    using lost_claim_wedges [OF keyed inbox outbox, of "runRoomJobStage ''u'' Draft demo_runtime" demo_pf "\<lambda>_. None"
        "demo_env ''x''" FetchAborted 20]
    by (simp add: runRoomJobStage_def Let_def)
qed

text \<open>An undisturbed run does call the provider.\<close>

definition ready_world :: exec_world where
  "ready_world = fold (exec_step demo_pf (\<lambda>_. None))
     (RunStage ''u'' demo_runtime # replicate 8 (Advance 0 (demo_env ''q'') FetchAborted)) (fresh_exec (room_db ObPending))"

lemma ready_worker: "ew_workers ready_world = [demo_worker (GotConfirm ''q'' demo_run True)] \<and> ew_calls ready_world = []"
  by code_simp

lemma undisturbed_run_calls:
  "map (\<lambda>(t, s, p). (t, s)) (ew_calls (exec_step demo_pf (\<lambda>_. None) (Advance 0 (demo_env ''q'') FetchAborted) ready_world))
   = [(''u'', Draft)]"
proof -
  have "\<not> cloud_model ''m''" by code_simp
  then show ?thesis using ready_worker
    by (simp add: advance_def waiting_def resume_def after_confirm_def demo_worker_def demo_runtime_def runRoomJobStage_def
        promptFor_def demo_run_def)
qed

end
