(* ===== verification/Profile_Policy.thy ===== *)
theory Profile_Policy
  imports Tool_Policy Router Action_Hash
begin

text \<open>
  Effective profiles: the built-in definitions of \<open>packages/contracts/src/profile.ts\<close>, their resolution
  against the registered tools and the checks before a call in \<open>packages/bridge/src/profilePolicy.ts\<close>,
  and the choice of a profile for a task in \<open>packages/gateway/src/profileResolver.ts\<close>. SHA-256 in
  hexadecimal and the collation of \<open>localeCompare\<close> are arguments. Tool names are never property names
  of every JavaScript object.
\<close>

subsection \<open>The built-in profiles\<close>

datatype ProfileId = ReadOnlyProfile | WorkspaceWrite | BrowserResearch | TerminalPower | AgentConversation

datatype SideEffectClass = NoEffect | FilesystemWrite | BrowserMutation | ProcessEffect | NetworkSend | CollabWrite

datatype PathScopePolicy = NoPath | WorkspacePath | ConfiguredPath
datatype NetworkScopePolicy = NoNetwork | BrowserNetwork | ConfiguredNetwork

record ApprovalRequirements =
  ar_write :: bool
  ar_exec :: bool
  ar_send :: bool

record BuiltInProfileDefinition =
  bd_namespaces :: "string list"
  bd_capabilities :: "Capability list"
  bd_sideEffects :: "SideEffectClass list"
  bd_tiers :: "ComputeTier list"
  bd_path :: PathScopePolicy
  bd_network :: NetworkScopePolicy
  bd_approvals :: ApprovalRequirements

fun BUILT_IN_PROFILE_DEFINITIONS :: "ProfileId \<Rightarrow> BuiltInProfileDefinition" where
  "BUILT_IN_PROFILE_DEFINITIONS ReadOnlyProfile = \<lparr>bd_namespaces = [''*''], bd_capabilities = [Read],
     bd_sideEffects = [NoEffect], bd_tiers = [LOCAL_EDGE], bd_path = NoPath, bd_network = NoNetwork,
     bd_approvals = \<lparr>ar_write = False, ar_exec = False, ar_send = False\<rparr>\<rparr>"
| "BUILT_IN_PROFILE_DEFINITIONS WorkspaceWrite = \<lparr>bd_namespaces = [''filesystem''], bd_capabilities = [Read, Write],
     bd_sideEffects = [NoEffect, FilesystemWrite], bd_tiers = [LOCAL_EDGE, FRONTIER], bd_path = WorkspacePath,
     bd_network = NoNetwork, bd_approvals = \<lparr>ar_write = True, ar_exec = False, ar_send = False\<rparr>\<rparr>"
| "BUILT_IN_PROFILE_DEFINITIONS BrowserResearch = \<lparr>bd_namespaces = [''browser'', ''playwright'', ''research''],
     bd_capabilities = [Read], bd_sideEffects = [NoEffect], bd_tiers = [LOCAL_EDGE, FRONTIER], bd_path = NoPath,
     bd_network = BrowserNetwork, bd_approvals = \<lparr>ar_write = False, ar_exec = False, ar_send = False\<rparr>\<rparr>"
| "BUILT_IN_PROFILE_DEFINITIONS TerminalPower = \<lparr>bd_namespaces = [''desktop_commander'', ''sandbox'', ''shell'', ''terminal''],
     bd_capabilities = [Read, Write, Exec], bd_sideEffects = [NoEffect, ProcessEffect], bd_tiers = [LOCAL_EDGE, FRONTIER],
     bd_path = ConfiguredPath, bd_network = ConfiguredNetwork,
     bd_approvals = \<lparr>ar_write = True, ar_exec = True, ar_send = False\<rparr>\<rparr>"
| "BUILT_IN_PROFILE_DEFINITIONS AgentConversation = \<lparr>bd_namespaces = [''collab''], bd_capabilities = [Read],
     bd_sideEffects = [NoEffect, CollabWrite], bd_tiers = [LOCAL_EDGE], bd_path = NoPath, bd_network = NoNetwork,
     bd_approvals = \<lparr>ar_write = False, ar_exec = False, ar_send = False\<rparr>\<rparr>"

definition all_profiles :: "ProfileId list" where
  "all_profiles = [ReadOnlyProfile, WorkspaceWrite, BrowserResearch, TerminalPower, AgentConversation]"

fun profile_text :: "ProfileId \<Rightarrow> string" where
  "profile_text ReadOnlyProfile = ''read_only''"
| "profile_text WorkspaceWrite = ''workspace_write''"
| "profile_text BrowserResearch = ''browser_research''"
| "profile_text TerminalPower = ''terminal_power''"
| "profile_text AgentConversation = ''agent_conversation''"

fun capability_text :: "Capability \<Rightarrow> string" where
  "capability_text Read = ''read''"
| "capability_text Write = ''write''"
| "capability_text Exec = ''exec''"
| "capability_text Send = ''send''"

fun effect_text :: "SideEffectClass \<Rightarrow> string" where
  "effect_text NoEffect = ''none''"
| "effect_text FilesystemWrite = ''filesystem_write''"
| "effect_text BrowserMutation = ''browser_mutation''"
| "effect_text ProcessEffect = ''process''"
| "effect_text NetworkSend = ''network_send''"
| "effect_text CollabWrite = ''collab_write''"

fun tier_text :: "ComputeTier \<Rightarrow> string" where
  "tier_text LOCAL_EDGE = ''LOCAL_EDGE''"
| "tier_text FRONTIER = ''FRONTIER''"

fun path_scope_text :: "PathScopePolicy \<Rightarrow> string" where
  "path_scope_text NoPath = ''none''"
| "path_scope_text WorkspacePath = ''workspace''"
| "path_scope_text ConfiguredPath = ''configured''"

fun network_scope_text :: "NetworkScopePolicy \<Rightarrow> string" where
  "network_scope_text NoNetwork = ''none''"
| "network_scope_text BrowserNetwork = ''browser''"
| "network_scope_text ConfiguredNetwork = ''configured''"

subsection \<open>What the maps of admissions claim\<close>

text \<open>\<open>None\<close> is the mark of a class no profile admits.\<close>

fun SIDE_EFFECT_ADMISSION :: "SideEffectClass \<Rightarrow> ProfileId list option" where
  "SIDE_EFFECT_ADMISSION NoEffect = Some [ReadOnlyProfile, WorkspaceWrite, BrowserResearch, TerminalPower, AgentConversation]"
| "SIDE_EFFECT_ADMISSION FilesystemWrite = Some [WorkspaceWrite]"
| "SIDE_EFFECT_ADMISSION BrowserMutation = None"
| "SIDE_EFFECT_ADMISSION ProcessEffect = Some [TerminalPower]"
| "SIDE_EFFECT_ADMISSION NetworkSend = None"
| "SIDE_EFFECT_ADMISSION CollabWrite = Some [AgentConversation]"

fun CAPABILITY_ADMISSION :: "Capability \<Rightarrow> ProfileId list option" where
  "CAPABILITY_ADMISSION Read = Some [ReadOnlyProfile, WorkspaceWrite, BrowserResearch, TerminalPower, AgentConversation]"
| "CAPABILITY_ADMISSION Write = Some [WorkspaceWrite, TerminalPower]"
| "CAPABILITY_ADMISSION Exec = Some [TerminalPower]"
| "CAPABILITY_ADMISSION Send = None"

text \<open>The assertion on one class; false where the code throws.\<close>

definition assert_admission :: "ProfileId list option \<Rightarrow> (ProfileId \<Rightarrow> bool) \<Rightarrow> bool" where
  "assert_admission entry admits =
     (case entry of
        None \<Rightarrow> list_all (\<lambda>p. \<not> admits p) all_profiles
      | Some ps \<Rightarrow> list_all admits ps \<and> list_ex admits all_profiles)"

definition assertSideEffectAdmissionMap :: "(ProfileId \<Rightarrow> BuiltInProfileDefinition) \<Rightarrow> bool" where
  "assertSideEffectAdmissionMap definitions =
     list_all (\<lambda>e. assert_admission (SIDE_EFFECT_ADMISSION e) (\<lambda>p. e \<in> set (bd_sideEffects (definitions p))))
       [NoEffect, FilesystemWrite, BrowserMutation, ProcessEffect, NetworkSend, CollabWrite]"

definition assertCapabilityAdmissionMap :: "(ProfileId \<Rightarrow> BuiltInProfileDefinition) \<Rightarrow> bool" where
  "assertCapabilityAdmissionMap definitions =
     list_all (\<lambda>c. assert_admission (CAPABILITY_ADMISSION c) (\<lambda>p. c \<in> set (bd_capabilities (definitions p))))
       [Read, Write, Exec, Send]"

subsection \<open>Resolution\<close>

text \<open>The fields of a registered tool the policy reads.\<close>

record RegisteredTool =
  gt_name :: string
  gt_capability :: Capability
  gt_requiresApproval :: bool

fun namespaceOf :: "string \<Rightarrow> string" where
  "namespaceOf [] = []"
| "namespaceOf (c # r) = (if c = CHR ''_'' \<and> r \<noteq> [] \<and> hd r = CHR ''_'' then [] else c # namespaceOf r)"

definition isNamespaceAllowed :: "RegisteredTool \<Rightarrow> string list \<Rightarrow> bool" where
  "isNamespaceAllowed tool namespaces \<longleftrightarrow> ''*'' \<in> set namespaces \<or> namespaceOf (gt_name tool) \<in> set namespaces"

definition COLLAB_READ_ONLY_TOOLS :: "string list" where
  "COLLAB_READ_ONLY_TOOLS = [''collab__read_channel'']"

definition sideEffectFor :: "RegisteredTool \<Rightarrow> SideEffectClass" where
  "sideEffectFor tool =
     (let namespace = namespaceOf (gt_name tool)
      in if namespace = ''collab'' then (if gt_name tool \<in> set COLLAB_READ_ONLY_TOOLS then NoEffect else CollabWrite)
      else if gt_capability tool = Read then NoEffect
      else if gt_capability tool = Exec then ProcessEffect
      else if gt_capability tool = Send then NetworkSend
      else if namespace = ''filesystem'' then FilesystemWrite
      else if namespace = ''browser'' \<or> namespace = ''playwright'' then BrowserMutation
      else ProcessEffect)"

definition admitted_tool :: "ProfileId \<Rightarrow> RegisteredTool \<Rightarrow> bool" where
  "admitted_tool p tool =
     (let d = BUILT_IN_PROFILE_DEFINITIONS p
      in isNamespaceAllowed tool (bd_namespaces d) \<and> gt_capability tool \<in> set (bd_capabilities d)
         \<and> sideEffectFor tool \<in> set (bd_sideEffects d))"

definition needs_approval :: "ApprovalRequirements \<Rightarrow> RegisteredTool \<Rightarrow> bool" where
  "needs_approval r tool \<longleftrightarrow> gt_requiresApproval tool \<or> (gt_capability tool = Write \<and> ar_write r)
     \<or> (gt_capability tool = Exec \<and> ar_exec r) \<or> (gt_capability tool = Send \<and> ar_send r)"

definition fromEntries :: "('k \<times> 'v) list \<Rightarrow> ('k, 'v) omap" where
  "fromEntries ps = fold (\<lambda>(k, v) m. om_set k v m) ps []"

definition sortedUnique :: "('a \<Rightarrow> string) \<Rightarrow> 'a list \<Rightarrow> 'a list" where
  "sortedUnique text xs = sort_key (\<lambda>x. cps (text x)) (remdups xs)"

record EffectiveProfile =
  ef_profileId :: ProfileId
  ef_allowedOperationIds :: "string list"
  ef_capabilityClasses :: "Capability list"
  ef_sideEffectClasses :: "SideEffectClass list"
  ef_allowedTiers :: "ComputeTier list"
  ef_operationCapabilities :: "(string, Capability) omap"
  ef_operationSideEffects :: "(string, SideEffectClass) omap"
  ef_operationApprovals :: "(string, bool) omap"
  ef_path :: PathScopePolicy
  ef_network :: NetworkScopePolicy
  ef_approvals :: ApprovalRequirements
  ef_policyHash :: string

text \<open>The material of a policy is the profile without its hash; here the hash is still empty.\<close>

definition policyMaterial :: "(string \<Rightarrow> nat list) \<Rightarrow> ProfileId \<Rightarrow> RegisteredTool list \<Rightarrow> EffectiveProfile" where
  "policyMaterial collate p tools =
     (let d = BUILT_IN_PROFILE_DEFINITIONS p;
          allowed = sort_key (\<lambda>t. collate (gt_name t)) (filter (admitted_tool p) tools)
      in \<lparr>ef_profileId = p, ef_allowedOperationIds = map gt_name allowed,
          ef_capabilityClasses = sortedUnique capability_text (map gt_capability allowed),
          ef_sideEffectClasses = sortedUnique effect_text (map sideEffectFor allowed),
          ef_allowedTiers = sortedUnique tier_text (bd_tiers d),
          ef_operationCapabilities = fromEntries (map (\<lambda>t. (gt_name t, gt_capability t)) allowed),
          ef_operationSideEffects = fromEntries (map (\<lambda>t. (gt_name t, sideEffectFor t)) allowed),
          ef_operationApprovals = fromEntries (map (\<lambda>t. (gt_name t, needs_approval (bd_approvals d) t)) allowed),
          ef_path = bd_path d, ef_network = bd_network d, ef_approvals = bd_approvals d, ef_policyHash = []\<rparr>)"

text \<open>
  The canonical text of a policy: members sorted by their keys, which are ASCII, so that the order of
  UTF-16 units is the order of the code points.
\<close>

fun canonicalizePolicy :: "jval \<Rightarrow> text_cp" where
  "canonicalizePolicy (JArr xs) =
     [91] @ join [44] (map (\<lambda>x. case x of None \<Rightarrow> cps ''null'' | Some v \<Rightarrow> canonicalizePolicy v) xs) @ [93]"
| "canonicalizePolicy (JObj ms) =
     [123] @ join [44] (map (\<lambda>m. serializeString (fst m) @ [58] @ snd m)
       (sort_key fst (map (\<lambda>m. (fst m, canonicalizePolicy (snd m))) ms))) @ [125]"
| "canonicalizePolicy v = stringify v"

definition json_texts :: "string list \<Rightarrow> jval" where
  "json_texts xs = JArr (map (\<lambda>x. Some (JStr (cps x))) xs)"

definition policy_json :: "EffectiveProfile \<Rightarrow> jval" where
  "policy_json m = JObj [
     (cps ''schemaVersion'', JStr (cps ''torqclaw.effective-profile/v1'')),
     (cps ''profileId'', JStr (cps (profile_text (ef_profileId m)))),
     (cps ''profileVersion'', JNum (Fin 1)),
     (cps ''toolRegistryVersion'', JStr (cps ''torqclaw.tools/v1'')),
     (cps ''allowedOperationIds'', json_texts (ef_allowedOperationIds m)),
     (cps ''capabilityClasses'', json_texts (map capability_text (ef_capabilityClasses m))),
     (cps ''sideEffectClasses'', json_texts (map effect_text (ef_sideEffectClasses m))),
     (cps ''allowedTiers'', json_texts (map tier_text (ef_allowedTiers m))),
     (cps ''operationCapabilities'', JObj (map (\<lambda>(k, c). (cps k, JStr (cps (capability_text c)))) (ef_operationCapabilities m))),
     (cps ''operationSideEffects'', JObj (map (\<lambda>(k, e). (cps k, JStr (cps (effect_text e)))) (ef_operationSideEffects m))),
     (cps ''operationApprovals'', JObj (map (\<lambda>(k, b). (cps k, JBool b)) (ef_operationApprovals m))),
     (cps ''scopes'', JObj [(cps ''path'', JStr (cps (path_scope_text (ef_path m)))),
        (cps ''network'', JStr (cps (network_scope_text (ef_network m))))]),
     (cps ''approvalRequirements'', JObj [(cps ''write'', JBool (ar_write (ef_approvals m))),
        (cps ''exec'', JBool (ar_exec (ef_approvals m))), (cps ''send'', JBool (ar_send (ef_approvals m)))])]"

definition hashPolicyMaterial :: "(nat list \<Rightarrow> string) \<Rightarrow> jval \<Rightarrow> string" where
  "hashPolicyMaterial sha material = sha (utf8 (canonicalizePolicy material))"

definition resolveEffectiveProfile ::
  "(nat list \<Rightarrow> string) \<Rightarrow> (string \<Rightarrow> nat list) \<Rightarrow> ProfileId \<Rightarrow> RegisteredTool list \<Rightarrow> EffectiveProfile" where
  "resolveEffectiveProfile sha collate p tools =
     (let material = policyMaterial collate p tools
      in material\<lparr>ef_policyHash := hashPolicyMaterial sha (policy_json material)\<rparr>)"

subsection \<open>The checks of a call\<close>

definition isOperationAllowed :: "EffectiveProfile \<Rightarrow> RegisteredTool \<Rightarrow> bool" where
  "isOperationAllowed profile tool \<longleftrightarrow>
     gt_name tool \<in> set (ef_allowedOperationIds profile)
     \<and> om_get (ef_operationCapabilities profile) (gt_name tool) = Some (gt_capability tool)
     \<and> om_get (ef_operationSideEffects profile) (gt_name tool) = Some (sideEffectFor tool)
     \<and> om_get (ef_operationApprovals profile) (gt_name tool) = Some (needs_approval (ef_approvals profile) tool)"

text \<open>Every profile carries the one version of the registry.\<close>

definition assertCurrentPolicy ::
  "(nat list \<Rightarrow> string) \<Rightarrow> (string \<Rightarrow> nat list) \<Rightarrow> RegisteredTool list \<Rightarrow> EffectiveProfile \<Rightarrow> bool" where
  "assertCurrentPolicy sha collate registry profile \<longleftrightarrow>
     ef_policyHash (resolveEffectiveProfile sha collate (ef_profileId profile) registry) = ef_policyHash profile"

definition assertOperationAllowed ::
  "(nat list \<Rightarrow> string) \<Rightarrow> (string \<Rightarrow> nat list) \<Rightarrow> RegisteredTool list \<Rightarrow> EffectiveProfile \<Rightarrow> RegisteredTool \<Rightarrow> bool" where
  "assertOperationAllowed sha collate registry profile tool \<longleftrightarrow>
     assertCurrentPolicy sha collate registry profile \<and> isOperationAllowed profile tool"

subsection \<open>Comparison\<close>

datatype ProfileRelation = SameProfile | Stricter | Broader | Incomparable

definition retainedApprovalsAtLeastAsStrict :: "EffectiveProfile \<Rightarrow> EffectiveProfile \<Rightarrow> bool" where
  "retainedApprovalsAtLeastAsStrict l r \<longleftrightarrow>
     list_all (\<lambda>i. om_get (ef_operationApprovals r) i \<noteq> Some True \<or> om_get (ef_operationApprovals l) i = Some True)
       (ef_allowedOperationIds l)"

fun pathBreadth :: "PathScopePolicy \<Rightarrow> nat" where
  "pathBreadth NoPath = 0" | "pathBreadth WorkspacePath = 1" | "pathBreadth ConfiguredPath = 2"

fun networkBreadth :: "NetworkScopePolicy \<Rightarrow> nat" where
  "networkBreadth NoNetwork = 0" | "networkBreadth BrowserNetwork = 1" | "networkBreadth ConfiguredNetwork = 2"

definition noBroaderScopes :: "EffectiveProfile \<Rightarrow> EffectiveProfile \<Rightarrow> bool" where
  "noBroaderScopes l r \<longleftrightarrow> pathBreadth (ef_path l) \<le> pathBreadth (ef_path r)
     \<and> networkBreadth (ef_network l) \<le> networkBreadth (ef_network r)"

definition stricter_than :: "EffectiveProfile \<Rightarrow> EffectiveProfile \<Rightarrow> bool" where
  "stricter_than l r \<longleftrightarrow> set (ef_allowedOperationIds l) \<subseteq> set (ef_allowedOperationIds r)
     \<and> set (ef_capabilityClasses l) \<subseteq> set (ef_capabilityClasses r)
     \<and> set (ef_sideEffectClasses l) \<subseteq> set (ef_sideEffectClasses r)
     \<and> retainedApprovalsAtLeastAsStrict l r \<and> noBroaderScopes l r"

definition compareProfilePolicies :: "EffectiveProfile \<Rightarrow> EffectiveProfile \<Rightarrow> ProfileRelation" where
  "compareProfilePolicies l r =
     (if ef_policyHash l = ef_policyHash r then SameProfile
      else if stricter_than l r then Stricter
      else if stricter_than r l then Broader
      else Incomparable)"

subsection \<open>The profile of a task\<close>

fun DEFAULT_PROFILE_BY_TASK :: "TaskType \<Rightarrow> ProfileId" where
  "DEFAULT_PROFILE_BY_TASK DATA_EXTRACTION = ReadOnlyProfile"
| "DEFAULT_PROFILE_BY_TASK SUMMARIZATION = ReadOnlyProfile"
| "DEFAULT_PROFILE_BY_TASK ROUTINE_AUTOMATION = WorkspaceWrite"
| "DEFAULT_PROFILE_BY_TASK AUTONOMOUS_RESEARCH = BrowserResearch"
| "DEFAULT_PROFILE_BY_TASK COMPLEX_CODING = TerminalPower"

definition session_profile :: "TaskType \<Rightarrow> ProfileId option \<Rightarrow> ProfileId" where
  "session_profile task sessionDefault = (case sessionDefault of None \<Rightarrow> DEFAULT_PROFILE_BY_TASK task | Some p \<Rightarrow> p)"

text \<open>\<open>None\<close> where the code throws: the request needs the authority of an operator.\<close>

definition resolveProfile ::
  "(nat list \<Rightarrow> string) \<Rightarrow> (string \<Rightarrow> nat list) \<Rightarrow> RegisteredTool list \<Rightarrow> TaskType \<Rightarrow> ProfileId option \<Rightarrow> ProfileId option \<Rightarrow> bool
   \<Rightarrow> (EffectiveProfile \<times> ProfileRelation) option" where
  "resolveProfile sha collate tools task requested sessionDefault operatorAuthorized =
     (let sessionId = session_profile task sessionDefault;
          requestedId = (case requested of None \<Rightarrow> sessionId | Some p \<Rightarrow> p);
          session = resolveEffectiveProfile sha collate sessionId tools;
          profile = resolveEffectiveProfile sha collate requestedId tools;
          relation = compareProfilePolicies profile session
      in if requestedId \<noteq> sessionId \<and> (relation = Broader \<or> relation = Incomparable) \<and> \<not> operatorAuthorized
         then None else Some (profile, relation))"

text \<open>The names the tiers have in the diagnostics (\<open>packages/contracts/src/routing.ts\<close>).\<close>

fun tier_value :: "ComputeTier \<Rightarrow> string" where
  "tier_value LOCAL_EDGE = ''OLLAMA_LOCAL''"
| "tier_value FRONTIER = ''API_EXTERNAL''"

fun intercalate_text :: "string \<Rightarrow> string list \<Rightarrow> string" where
  "intercalate_text sep [] = []"
| "intercalate_text sep [x] = x"
| "intercalate_text sep (x # xs) = x @ sep @ intercalate_text sep xs"

text \<open>The text for people is left out.\<close>

definition constrainTier :: "RouterDiagnostics \<Rightarrow> EffectiveProfile \<Rightarrow> RouterDiagnostics" where
  "constrainTier diagnostics profile =
     (if rd_tier diagnostics \<in> set (ef_allowedTiers profile) then diagnostics
      else
        let fallback = (if LOCAL_EDGE \<in> set (ef_allowedTiers profile) then LOCAL_EDGE else FRONTIER)
        in diagnostics\<lparr>rd_tier := fallback,
             rd_reason := ''PROFILE_TIER_CONSTRAINT: '' @ profile_text (ef_profileId profile) @ '' permits ''
               @ intercalate_text '', '' (map tier_text (ef_allowedTiers profile)) @ ''; selected '' @ tier_value fallback @ ''.'',
             rd_overridable := False, rd_safetyLock := Some ''PROFILE_TIER_CONSTRAINT'',
             rd_blocked := [(rd_tier diagnostics,
               ''The active profile '' @ [CHR 0x27] @ profile_text (ef_profileId profile) @ [CHR 0x27] @ '' does not permit this tier.'')]\<rparr>)"

subsection \<open>What an allowed operation may do\<close>

lemma om_get_fromEntries: "om_get (fromEntries ps) k = map_of (rev ps) k"
proof -
  have "om_get (fold (\<lambda>(k, v) m. om_set k v m) ps m) k = (case map_of (rev ps) k of None \<Rightarrow> om_get m k | Some v \<Rightarrow> Some v)" for m
    by (induction ps arbitrary: m) (auto simp: om_get_set map_add_def split: option.split)
  then show ?thesis by (simp add: fromEntries_def split: option.split)
qed

lemma resolve_parts:
  "ef_allowedOperationIds (resolveEffectiveProfile sha collate p tools)
     = map gt_name (sort_key (\<lambda>t. collate (gt_name t)) (filter (admitted_tool p) tools))"
  "ef_operationCapabilities (resolveEffectiveProfile sha collate p tools)
     = fromEntries (map (\<lambda>t. (gt_name t, gt_capability t)) (sort_key (\<lambda>t. collate (gt_name t)) (filter (admitted_tool p) tools)))"
  "ef_operationSideEffects (resolveEffectiveProfile sha collate p tools)
     = fromEntries (map (\<lambda>t. (gt_name t, sideEffectFor t)) (sort_key (\<lambda>t. collate (gt_name t)) (filter (admitted_tool p) tools)))"
  "ef_operationApprovals (resolveEffectiveProfile sha collate p tools)
     = fromEntries (map (\<lambda>t. (gt_name t, needs_approval (bd_approvals (BUILT_IN_PROFILE_DEFINITIONS p)) t))
         (sort_key (\<lambda>t. collate (gt_name t)) (filter (admitted_tool p) tools)))"
  "ef_approvals (resolveEffectiveProfile sha collate p tools) = bd_approvals (BUILT_IN_PROFILE_DEFINITIONS p)"
  "ef_profileId (resolveEffectiveProfile sha collate p tools) = p"
  "set (ef_allowedTiers (resolveEffectiveProfile sha collate p tools)) = set (bd_tiers (BUILT_IN_PROFILE_DEFINITIONS p))"
  by (simp_all add: resolveEffectiveProfile_def policyMaterial_def Let_def sortedUnique_def)

lemma entries_member: "om_get (fromEntries (map (\<lambda>t. (n t, f t)) ts)) k = Some v \<Longrightarrow> \<exists>t \<in> set ts. n t = k \<and> f t = v"
  by (auto simp: om_get_fromEntries rev_map dest!: map_of_SomeD)

lemma entries_unique:
  assumes "distinct (map n ts)"
  shows "om_get (fromEntries (map (\<lambda>t. (n t, f t)) ts)) k = Some v \<longleftrightarrow> (\<exists>t \<in> set ts. n t = k \<and> f t = v)"
proof -
  have "distinct (map fst (rev (map (\<lambda>t. (n t, f t)) ts)))"
    using assms by (simp add: rev_map [symmetric] comp_def)
  then show ?thesis unfolding om_get_fromEntries by (auto simp: map_of_eq_Some_iff)
qed

text \<open>Admission reads the name and the capability of a tool only.\<close>

lemma same_effect: "gt_name t = gt_name u \<Longrightarrow> gt_capability t = gt_capability u \<Longrightarrow> sideEffectFor t = sideEffectFor u"
  by (simp only: sideEffectFor_def)

lemma effect_capability: "sideEffectFor t \<in> {FilesystemWrite, ProcessEffect} \<Longrightarrow> gt_capability t \<in> {Write, Exec}"
proof (rule ccontr)
  assume e: "sideEffectFor t \<in> {FilesystemWrite, ProcessEffect}" and "gt_capability t \<notin> {Write, Exec}"
  then have "gt_capability t = Read \<or> gt_capability t = Send" by (cases "gt_capability t") simp_all
  then show False
  proof
    assume c: "gt_capability t = Read"
    have "sideEffectFor t = NoEffect \<or> sideEffectFor t = CollabWrite"
      unfolding sideEffectFor_def Let_def c by simp
    then show False using e by auto
  next
    assume c: "gt_capability t = Send"
    have "sideEffectFor t = NoEffect \<or> sideEffectFor t = CollabWrite \<or> sideEffectFor t = NetworkSend"
      unfolding sideEffectFor_def Let_def c by simp
    then show False using e by auto
  qed
qed

lemma same_admission: "gt_name t = gt_name u \<Longrightarrow> gt_capability t = gt_capability u \<Longrightarrow> admitted_tool p t = admitted_tool p u"
  using same_effect [of t u] by (simp add: admitted_tool_def isNamespaceAllowed_def)

lemma allowed_admitted:
  assumes "isOperationAllowed (resolveEffectiveProfile sha collate p tools) t"
  shows "admitted_tool p t"
proof -
  have "\<exists>u \<in> set (sort_key (\<lambda>t. collate (gt_name t)) (filter (admitted_tool p) tools)). gt_name u = gt_name t \<and> gt_capability u = gt_capability t"
    using assms by (intro entries_member) (simp add: isOperationAllowed_def resolve_parts)
  then obtain u where "admitted_tool p u" "gt_name u = gt_name t" "gt_capability u = gt_capability t" by auto
  then show ?thesis using same_admission [of u t p] by simp
qed

text \<open>
  C36. A profile bounds what its tools may do, whatever is registered. An operation allowed under a
  resolved profile that changes files or runs processes always carries an approval requirement;
  posting into channels is open to the conversation profile alone; under the two read profiles nothing
  has an effect; and no profile allows sending or browser mutation at all.
\<close>

theorem profile_effects_bounded:
  assumes "isOperationAllowed (resolveEffectiveProfile sha collate p tools) t"
  shows "(sideEffectFor t \<in> {FilesystemWrite, ProcessEffect} \<longrightarrow>
        om_get (ef_operationApprovals (resolveEffectiveProfile sha collate p tools)) (gt_name t) = Some True)
     \<and> (sideEffectFor t = CollabWrite \<longrightarrow> p = AgentConversation)
     \<and> (p \<in> {ReadOnlyProfile, BrowserResearch} \<longrightarrow> sideEffectFor t = NoEffect)
     \<and> gt_capability t \<noteq> Send \<and> sideEffectFor t \<notin> {NetworkSend, BrowserMutation}"
proof -
  have a: "admitted_tool p t" by (rule allowed_admitted [OF assms])
  have r: "om_get (ef_operationApprovals (resolveEffectiveProfile sha collate p tools)) (gt_name t)
      = Some (needs_approval (bd_approvals (BUILT_IN_PROFILE_DEFINITIONS p)) t)"
    using assms by (simp add: isOperationAllowed_def resolve_parts(5))
  have "gt_capability t \<in> set (bd_capabilities (BUILT_IN_PROFILE_DEFINITIONS p))"
    and "sideEffectFor t \<in> set (bd_sideEffects (BUILT_IN_PROFILE_DEFINITIONS p))"
    using a by (simp_all add: admitted_tool_def Let_def)
  then show ?thesis using effect_capability [of t] unfolding r
    by (cases p; cases "gt_capability t"; cases "sideEffectFor t") (simp_all add: needs_approval_def, auto)
qed

text \<open>
  The check before a call is exactly the policy. With unique tool names, a tool passes under a
  resolved profile when, and only when, the registry the profile was resolved against has a tool of
  that name which the profile admits, of the same capability and with the same need for approval: a
  tool whose registration changed in one of these since does not pass.
\<close>

theorem operation_check_exact:
  assumes "distinct (map gt_name tools)"
  shows "isOperationAllowed (resolveEffectiveProfile sha collate p tools) t \<longleftrightarrow>
    (\<exists>u \<in> set tools. admitted_tool p u \<and> gt_name u = gt_name t \<and> gt_capability u = gt_capability t
       \<and> needs_approval (bd_approvals (BUILT_IN_PROFILE_DEFINITIONS p)) u = needs_approval (bd_approvals (BUILT_IN_PROFILE_DEFINITIONS p)) t)"
proof -
  let ?ts = "sort_key (\<lambda>t. collate (gt_name t)) (filter (admitted_tool p) tools)"
  have "distinct (map gt_name ?ts)"
    using distinct_map_filter [OF assms, of "admitted_tool p"]
    by (simp add: distinct_map distinct_sort)
  note unique = entries_unique [OF this]
  have one: "u = v" if "u \<in> set tools" "v \<in> set tools" "gt_name u = gt_name v" for u v
    using assms that by (auto simp: distinct_map inj_on_def)
  show ?thesis
    unfolding isOperationAllowed_def resolve_parts unique
  proof (intro iffI)
    assume "gt_name t \<in> set (map gt_name ?ts) \<and> (\<exists>u \<in> set ?ts. gt_name u = gt_name t \<and> gt_capability u = gt_capability t)
      \<and> (\<exists>u \<in> set ?ts. gt_name u = gt_name t \<and> sideEffectFor u = sideEffectFor t)
      \<and> (\<exists>u \<in> set ?ts. gt_name u = gt_name t \<and> needs_approval (bd_approvals (BUILT_IN_PROFILE_DEFINITIONS p)) u
           = needs_approval (bd_approvals (BUILT_IN_PROFILE_DEFINITIONS p)) t)"
    then obtain u v where u: "u \<in> set tools" "admitted_tool p u" "gt_name u = gt_name t" "gt_capability u = gt_capability t"
      and v: "v \<in> set tools" "gt_name v = gt_name t"
        "needs_approval (bd_approvals (BUILT_IN_PROFILE_DEFINITIONS p)) v = needs_approval (bd_approvals (BUILT_IN_PROFILE_DEFINITIONS p)) t"
      by auto
    have "v = u" by (rule one [OF v(1) u(1)]) (simp add: u v)
    then show "\<exists>u \<in> set tools. admitted_tool p u \<and> gt_name u = gt_name t \<and> gt_capability u = gt_capability t
       \<and> needs_approval (bd_approvals (BUILT_IN_PROFILE_DEFINITIONS p)) u = needs_approval (bd_approvals (BUILT_IN_PROFILE_DEFINITIONS p)) t"
      using u v by blast
  next
    assume "\<exists>u \<in> set tools. admitted_tool p u \<and> gt_name u = gt_name t \<and> gt_capability u = gt_capability t
       \<and> needs_approval (bd_approvals (BUILT_IN_PROFILE_DEFINITIONS p)) u = needs_approval (bd_approvals (BUILT_IN_PROFILE_DEFINITIONS p)) t"
    then obtain u where u: "u \<in> set ?ts" "gt_name u = gt_name t" "gt_capability u = gt_capability t"
        "needs_approval (bd_approvals (BUILT_IN_PROFILE_DEFINITIONS p)) u = needs_approval (bd_approvals (BUILT_IN_PROFILE_DEFINITIONS p)) t"
      by auto
    have "sideEffectFor u = sideEffectFor t" by (rule same_effect [OF u(2,3)])
    moreover have "gt_name t \<in> set (map gt_name ?ts)" using u(1) u(2) [symmetric] by (simp only: set_map image_eqI)
    ultimately show "gt_name t \<in> set (map gt_name ?ts) \<and> (\<exists>u \<in> set ?ts. gt_name u = gt_name t \<and> gt_capability u = gt_capability t)
      \<and> (\<exists>u \<in> set ?ts. gt_name u = gt_name t \<and> sideEffectFor u = sideEffectFor t)
      \<and> (\<exists>u \<in> set ?ts. gt_name u = gt_name t \<and> needs_approval (bd_approvals (BUILT_IN_PROFILE_DEFINITIONS p)) u
           = needs_approval (bd_approvals (BUILT_IN_PROFILE_DEFINITIONS p)) t)" using u by blast
  qed
qed

text \<open>
  A task cannot widen its own policy. Without the authority of an operator, the profile a task
  gets allows no operation the session's profile does not, drops none of its approval requirements and
  none of its scopes, provided the digests of different policies differ.
\<close>

theorem request_never_broadens:
  assumes "resolveProfile sha collate tools task (Some requested) sessionDefault False = Some (profile, relation)"
    and "requested \<noteq> session_profile task sessionDefault"
    and "session = resolveEffectiveProfile sha collate (session_profile task sessionDefault) tools"
    and "ef_policyHash profile \<noteq> ef_policyHash session"
  shows "set (ef_allowedOperationIds profile) \<subseteq> set (ef_allowedOperationIds session)
    \<and> list_all (\<lambda>i. om_get (ef_operationApprovals session) i \<noteq> Some True \<or> om_get (ef_operationApprovals profile) i = Some True)
        (ef_allowedOperationIds profile)
    \<and> noBroaderScopes profile session"
  using assms
  by (auto simp: resolveProfile_def compareProfilePolicies_def stricter_than_def retainedApprovalsAtLeastAsStrict_def Let_def
      split: if_splits)

text \<open>
  The tier of a task is one its profile permits, and the constraint never moves a task off the
  local edge: what the router kept local for its privacy stays local.
\<close>

theorem constrained_tier_permitted:
  "let profile = resolveEffectiveProfile sha collate p tools; d = constrainTier diagnostics profile in
     rd_tier d \<in> set (ef_allowedTiers profile) \<and> (rd_tier diagnostics = LOCAL_EDGE \<longrightarrow> d = diagnostics)"
  by (cases p; cases "rd_tier diagnostics") (simp_all add: constrainTier_def resolve_parts Let_def)

text \<open>
  The maps of admissions tell the truth: for every class of effect and every capability they list
  exactly the built-in profiles that admit it, and the assertions of the code accept them.
\<close>

theorem admission_maps_exact:
  "assertSideEffectAdmissionMap BUILT_IN_PROFILE_DEFINITIONS \<and> assertCapabilityAdmissionMap BUILT_IN_PROFILE_DEFINITIONS
   \<and> SIDE_EFFECT_ADMISSION e = (let ps = filter (\<lambda>p. e \<in> set (bd_sideEffects (BUILT_IN_PROFILE_DEFINITIONS p))) all_profiles
        in if ps = [] then None else Some ps)
   \<and> CAPABILITY_ADMISSION c = (let ps = filter (\<lambda>p. c \<in> set (bd_capabilities (BUILT_IN_PROFILE_DEFINITIONS p))) all_profiles
        in if ps = [] then None else Some ps)"
  by (cases e; cases c)
    (simp_all add: assertSideEffectAdmissionMap_def assertCapabilityAdmissionMap_def assert_admission_def all_profiles_def)

subsection \<open>A registry\<close>

definition demo_tools :: "RegisteredTool list" where
  "demo_tools = [\<lparr>gt_name = ''filesystem__write'', gt_capability = Write, gt_requiresApproval = False\<rparr>,
     \<lparr>gt_name = ''collab__post_message'', gt_capability = Read, gt_requiresApproval = False\<rparr>,
     \<lparr>gt_name = ''filesystem__read'', gt_capability = Read, gt_requiresApproval = False\<rparr>]"

definition demo_resolve :: "ProfileId \<Rightarrow> EffectiveProfile" where
  "demo_resolve p = resolveEffectiveProfile (map char_of) cps p demo_tools"

lemma demo_write_allowed: "isOperationAllowed (demo_resolve WorkspaceWrite) (hd demo_tools)"
  unfolding demo_resolve_def isOperationAllowed_def resolve_parts by code_simp

theorem profile_effects_bounded_witness:
  "sideEffectFor (hd demo_tools) = FilesystemWrite
   \<and> om_get (ef_operationApprovals (demo_resolve WorkspaceWrite)) ''filesystem__write'' = Some True"
proof -
  have "sideEffectFor (hd demo_tools) = FilesystemWrite" "gt_name (hd demo_tools) = ''filesystem__write''" by code_simp+
  then show ?thesis
    using profile_effects_bounded [of "map char_of" cps WorkspaceWrite demo_tools "hd demo_tools"] demo_write_allowed
    by (simp add: demo_resolve_def)
qed

theorem operation_check_exact_witness:
  "\<not> isOperationAllowed (demo_resolve WorkspaceWrite) ((hd demo_tools)\<lparr>gt_capability := Exec\<rparr>)"
proof -
  have d: "distinct (map gt_name demo_tools)" by code_simp
  have "\<not> (\<exists>u \<in> set demo_tools. admitted_tool WorkspaceWrite u \<and> gt_name u = ''filesystem__write'' \<and> gt_capability u = Exec)"
    by (simp add: demo_tools_def)
  moreover have "gt_name (hd demo_tools) = ''filesystem__write''" by code_simp
  ultimately show ?thesis unfolding demo_resolve_def operation_check_exact [OF d] by auto
qed


end
