(* ===== verification/Reply_Context.thy ===== *)
theory Reply_Context
  imports Collab_World
begin

text \<open>
  The context an agent gets for an automatic turn, \<open>packages/gateway/src/autoReplyContext.ts\<close>: the
  first events of the channel and the last ones, with the gap between them counted, the agent's own
  repetitions collapsed and the triggering message repeated at the end. Normalization to NFC, lower
  case and the Unicode classes of letters and numbers are arguments.
\<close>

subsection \<open>Similarity\<close>

definition ANCHOR_EVENT_COUNT :: nat where "ANCHOR_EVENT_COUNT = 10"
definition WINDOW_EVENT_COUNT :: nat where "WINDOW_EVENT_COUNT = 40"
definition NEAR_DUPLICATE_MIN_LENGTH :: nat where "NEAR_DUPLICATE_MIN_LENGTH = 12"

record unicode =
  un_nfc :: "text_cp \<Rightarrow> text_cp"
  un_lower :: "text_cp \<Rightarrow> text_cp"
  un_word :: "nat \<Rightarrow> bool"

fun squeeze_spaces :: "bool \<Rightarrow> text_cp \<Rightarrow> text_cp" where
  "squeeze_spaces after [] = []"
| "squeeze_spaces after (c # t) =
     (if js_space c then (if after then squeeze_spaces True t else 32 # squeeze_spaces True t)
      else c # squeeze_spaces False t)"

definition normalizeForSimilarity :: "unicode \<Rightarrow> text_cp \<Rightarrow> text_cp" where
  "normalizeForSimilarity u text =
     squeeze_spaces False (trim_cp (map (\<lambda>c. if un_word u c \<or> js_space c then c else 32) (un_lower u (un_nfc u text))))"

fun split_words :: "text_cp \<Rightarrow> text_cp \<Rightarrow> text_cp list" where
  "split_words w [] = [w]"
| "split_words w (c # t) = (if c = 32 then w # split_words [] t else split_words (w @ [c]) t)"

text \<open>
  The quotient of two integers below a million compares with the double nearest to 0.82 as the exact
  quotient with 41/50.
\<close>

definition looksLikeNearDuplicateOfOwnRecent :: "unicode \<Rightarrow> text_cp \<Rightarrow> text_cp \<Rightarrow> bool" where
  "looksLikeNearDuplicateOfOwnRecent u candidate recent =
     (let a = normalizeForSimilarity u candidate; b = normalizeForSimilarity u recent
      in if utf16_length a < NEAR_DUPLICATE_MIN_LENGTH \<or> utf16_length b < NEAR_DUPLICATE_MIN_LENGTH then False
         else if a = b then True
         else
           let wordsA = set (filter (\<lambda>w. w \<noteq> []) (split_words [] a)); wordsB = set (filter (\<lambda>w. w \<noteq> []) (split_words [] b))
           in if wordsA = {} \<or> wordsB = {} then False
              else
                let intersection = card (wordsA \<inter> wordsB);
                    union = card wordsA + card wordsB - intersection
                in 50 * intersection \<ge> 41 * union)"

subsection \<open>Collapsing\<close>

text \<open>The text of a payload, when it is one.\<close>

definition payload_text :: "EventRow \<Rightarrow> text_cp option" where
  "payload_text e =
     (case ev_content e of
        JObj ms \<Rightarrow> (case map_of ms (cps ''text'') of Some (JStr t) \<Rightarrow> Some t | _ \<Rightarrow> None)
      | _ \<Rightarrow> None)"

datatype context_entry = Shown EventRow | Collapsed EventRow nat

fun entry_event :: "context_entry \<Rightarrow> EventRow" where
  "entry_event (Shown e) = e"
| "entry_event (Collapsed e n) = e"

fun entry_collapsed :: "context_entry \<Rightarrow> nat" where
  "entry_collapsed (Shown e) = 0"
| "entry_collapsed (Collapsed e n) = n"

definition self_message :: "string \<Rightarrow> EventRow \<Rightarrow> bool" where
  "self_message self e \<longleftrightarrow> ev_kind e = message_posted \<and> ev_actor e = self \<and> payload_text e \<noteq> None"

text \<open>The output so far and the index of the last own message kept in it.\<close>

definition collapse_step ::
  "unicode \<Rightarrow> string \<Rightarrow> EventRow \<Rightarrow> context_entry list \<times> nat option \<Rightarrow> context_entry list \<times> nat option" where
  "collapse_step u self ev st =
     (case st of (out, lastSelfIndex) \<Rightarrow>
        let push = (out @ [Shown ev], if self_message self ev then Some (length out) else lastSelfIndex)
        in case lastSelfIndex of
             None \<Rightarrow> push
           | Some i \<Rightarrow>
               if self_message self ev \<and> looksLikeNearDuplicateOfOwnRecent u (the (payload_text ev))
                    (the (payload_text (entry_event (out ! i))))
               then (let out1 = take i out @ drop (Suc i) out @ [Collapsed ev (entry_collapsed (out ! i) + 1)]
                     in (out1, Some (length out1 - 1)))
               else push)"

definition collapseSelfRuns :: "unicode \<Rightarrow> string \<Rightarrow> EventRow list \<Rightarrow> context_entry list" where
  "collapseSelfRuns u self events = fst (fold (collapse_step u self) events ([], None))"

subsection \<open>Reading the channel\<close>

definition push_tail :: "EventRow \<Rightarrow> EventRow list \<Rightarrow> EventRow list" where
  "push_tail e tail = (let t = tail @ [e] in if length t > WINDOW_EVENT_COUNT then tl t else t)"

definition MAX_PAGES :: nat where "MAX_PAGES = 10000"

text \<open>
  The walk to the tail, with the pages left to walk; each read sees the database of its own time.
\<close>

fun walk_tail ::
  "(nat \<Rightarrow> collab_db) \<Rightarrow> string \<Rightarrow> string \<Rightarrow> nat \<Rightarrow> nat \<Rightarrow> string \<Rightarrow> EventRow list \<Rightarrow> CollabErrorCode + EventRow list" where
  "walk_tail dbs caller c 0 n cursor tail = Inr tail"
| "walk_tail dbs caller c (Suc left) n cursor tail =
     (case getChannelTimeline caller c cursor 100 (dbs n) of
        Inl e \<Rightarrow> Inl e
      | Inr page \<Rightarrow>
          let tail' = fold push_tail (tl_events page) tail;
              cursor' = (if tl_events page = [] then cursor else show_nat (ev_seq (last (tl_events page))))
          in if tl_hasMore page then walk_tail dbs caller c left (Suc n) cursor' tail' else Inr tail')"

text \<open>What the assembly works with: the anchor, the window without what the anchor has, the gap.\<close>

record context_parts =
  cx_anchor :: "EventRow list"
  cx_window :: "EventRow list"
  cx_elided :: nat
  cx_totalKnown :: nat

definition context_parts_of :: "EventRow list \<Rightarrow> EventRow list \<Rightarrow> context_parts" where
  "context_parts_of anchor tail =
     (let anchorLastSeq = (if anchor = [] then 0 else ev_seq (last anchor));
          tailFirstSeq = (if tail = [] then anchorLastSeq else ev_seq (hd tail));
          nonOverlapping = filter (\<lambda>e. ev_seq e > anchorLastSeq) tail
      in \<lparr>cx_anchor = anchor, cx_window = nonOverlapping, cx_elided = tailFirstSeq - anchorLastSeq - 1,
          cx_totalKnown = (if anchorLastSeq > tailFirstSeq then anchorLastSeq
                           else max anchorLastSeq (tailFirstSeq + length nonOverlapping - 1))\<rparr>)"

definition read_context :: "(nat \<Rightarrow> collab_db) \<Rightarrow> string \<Rightarrow> string \<Rightarrow> CollabErrorCode + context_parts" where
  "read_context dbs caller c =
     (case getChannelTimeline caller c ''0'' (int ANCHOR_EVENT_COUNT) (dbs 0) of
        Inl e \<Rightarrow> Inl e
      | Inr page \<Rightarrow>
          let anchor = tl_events page; cursor = (if anchor = [] then ''0'' else show_nat (ev_seq (last anchor)))
          in map_sum id (context_parts_of anchor)
               (if tl_hasMore page then walk_tail dbs caller c MAX_PAGES 1 cursor [] else Inr []))"

subsection \<open>Rendering\<close>

definition event_text :: "EventRow \<Rightarrow> text_cp" where
  "event_text e = (case payload_text e of Some t \<Rightarrow> t | None \<Rightarrow> stringify (ev_content e))"

definition replies :: "nat \<Rightarrow> text_cp" where
  "replies n = cps (if n = 1 then ''reply'' else ''replies'')"

text \<open>The dash is the character 8212.\<close>

fun renderEvent :: "context_entry \<Rightarrow> text_cp" where
  "renderEvent (Collapsed e n) = cps ''[#'' @ cps (show_nat (ev_seq e)) @ cps ''] '' @ cps (ev_actor e) @ cps '' posted ''
     @ cps (show_nat n) @ cps '' earlier '' @ replies n @ cps '' '' @ [8212] @ cps '' elided (most recent shown): '' @ event_text e"
| "renderEvent (Shown e) = cps ''[#'' @ cps (show_nat (ev_seq e)) @ cps ''] '' @ cps (ev_actor e) @ cps '' ('' @ cps (kind_text (ev_kind e))
     @ cps ''): '' @ (if ev_kind e = message_posted then event_text e else stringify (ev_content e))"

fun renderSubscriptionMessage :: "context_entry \<Rightarrow> text_cp option" where
  "renderSubscriptionMessage (Collapsed e n) = Some (cps ''['' @ cps (show_nat n) @ cps '' earlier '' @ replies n @ cps '' omitted]'')"
| "renderSubscriptionMessage (Shown e) = (if ev_kind e = message_posted then payload_text e else None)"

definition NEWEST_MESSAGE_BANNER_OPEN :: text_cp where
  "NEWEST_MESSAGE_BANNER_OPEN = cps ''--- NEWEST MESSAGE '' @ [8212] @ cps '' this is the message you are responding to ---''"

definition NEWEST_MESSAGE_BANNER_CLOSE :: text_cp where
  "NEWEST_MESSAGE_BANNER_CLOSE = cps ''--- END NEWEST MESSAGE ---''"

text \<open>The event the turn answers, if the window has it and it is a message of someone else.\<close>

definition trigger_event :: "string option \<Rightarrow> nat option \<Rightarrow> EventRow list \<Rightarrow> EventRow option" where
  "trigger_event self trigger window =
     (case trigger of
        None \<Rightarrow> None
      | Some n \<Rightarrow> (case find (\<lambda>e. ev_seq e = n) window of
          None \<Rightarrow> None
        | Some e \<Rightarrow> if ev_kind e = message_posted \<and> Some (ev_actor e) \<noteq> self then Some e else None))"

record AnchorWindowResult =
  aw_text :: text_cp
  aw_subscriptionText :: text_cp
  aw_anchorCount :: nat
  aw_windowCount :: nat
  aw_elided :: nat
  aw_totalKnown :: nat

definition collapse_entries :: "unicode \<Rightarrow> string option \<Rightarrow> EventRow list \<Rightarrow> context_entry list" where
  "collapse_entries u self events =
     (case self of None \<Rightarrow> map Shown events | Some p \<Rightarrow> if p = [] then map Shown events else collapseSelfRuns u p events)"

definition render_context :: "unicode \<Rightarrow> string option \<Rightarrow> nat option \<Rightarrow> context_parts \<Rightarrow> AnchorWindowResult" where
  "render_context u self trigger parts =
     (let anchorLines = map renderEvent (collapse_entries u self (cx_anchor parts));
          windowLines = map renderEvent (collapse_entries u self (cx_window parts));
          elided = cps (show_nat (cx_elided parts));
          gap = (if cx_elided parts > 0
                 then [cps ''[ELIDED: '' @ elided @ cps '' event(s) omitted between the channel start and the recent window below ''
                         @ [8212] @ cps '' this record is PARTIAL]'']
                 else if anchorLines \<noteq> [] \<and> windowLines \<noteq> [] then [cps ''--- (channel continues without a gap) ---''] else []);
          newest = (case trigger_event self trigger (cx_window parts) of
                      None \<Rightarrow> []
                    | Some e \<Rightarrow> [[], NEWEST_MESSAGE_BANNER_OPEN, renderEvent (Shown e), NEWEST_MESSAGE_BANNER_CLOSE]);
          text = (if anchorLines = [] then []
                  else (cps ''--- CHANNEL START (first '' @ cps (show_nat (length anchorLines))
                    @ cps '' event(s), including the authorizing instruction) ---'') # anchorLines)
               @ gap
               @ (if windowLines = [] then []
                  else (cps ''--- RECENT (last '' @ cps (show_nat (length windowLines)) @ cps '' event(s)) ---'') # windowLines)
               @ newest;
          messages = (\<lambda>es. List.map_filter renderSubscriptionMessage (collapse_entries u self es));
          subscription = messages (cx_anchor parts)
               @ (if cx_elided parts > 0 then [cps ''[PARTIAL CONTEXT: '' @ elided @ cps '' earlier event(s) omitted]''] else [])
               @ messages (cx_window parts)
      in \<lparr>aw_text = join [10] text, aw_subscriptionText = join [10] subscription, aw_anchorCount = length anchorLines,
          aw_windowCount = length windowLines, aw_elided = cx_elided parts, aw_totalKnown = cx_totalKnown parts\<rparr>)"

definition buildAnchorWindowContext ::
  "unicode \<Rightarrow> (nat \<Rightarrow> collab_db) \<Rightarrow> string \<Rightarrow> string \<Rightarrow> string option \<Rightarrow> nat option \<Rightarrow> CollabErrorCode + AnchorWindowResult" where
  "buildAnchorWindowContext u dbs caller c self trigger = map_sum id (render_context u self trigger) (read_context dbs caller c)"

subsection \<open>What collapsing keeps\<close>

definition collapse_ok :: "string \<Rightarrow> EventRow list \<Rightarrow> context_entry list \<times> nat option \<Rightarrow> bool" where
  "collapse_ok self events st \<longleftrightarrow>
     sorted_wrt (<) (map (\<lambda>x. ev_seq (entry_event x)) (fst st))
     \<and> filter (\<lambda>e. \<not> self_message self e) (map entry_event (fst st)) = filter (\<lambda>e. \<not> self_message self e) events
     \<and> (\<Sum>x\<leftarrow>fst st. Suc (entry_collapsed x)) = length events
     \<and> set (map entry_event (fst st)) \<subseteq> set events
     \<and> (filter (self_message self) events \<noteq> [] \<longrightarrow> filter (self_message self) (map entry_event (fst st)) \<noteq> []
         \<and> last (filter (self_message self) (map entry_event (fst st))) = last (filter (self_message self) events))
     \<and> (\<forall>i. snd st = Some i \<longrightarrow> i < length (fst st) \<and> self_message self (entry_event (fst st ! i)))"

lemma collapse_ok_push:
  assumes "collapse_ok self events (out, l)" and "\<forall>e \<in> set events. ev_seq e < ev_seq ev"
  shows "collapse_ok self (events @ [ev]) (out @ [Shown ev], if self_message self ev then Some (length out) else l)"
proof -
  note ok = assms(1) [unfolded collapse_ok_def fst_conv snd_conv]
  have "\<forall>e \<in> set (map entry_event out). ev_seq e < ev_seq ev" using ok assms(2) by blast
  then show ?thesis using ok unfolding collapse_ok_def fst_conv snd_conv
    by (simp add: sorted_wrt_append nth_append less_Suc_eq subset_insertI2)
qed

lemma collapse_ok_extend:
  assumes "collapse_ok self events (out, Some i)" and "\<forall>e \<in> set events. ev_seq e < ev_seq ev" and "self_message self ev"
  shows "collapse_ok self (events @ [ev]) (take i out @ drop (Suc i) out @ [Collapsed ev (entry_collapsed (out ! i) + 1)],
    Some (length (take i out @ drop (Suc i) out)))"
proof -
  have i: "i < length out" "self_message self (entry_event (out ! i))" using assms(1) by (simp_all add: collapse_ok_def)
  have out: "out = take i out @ out ! i # drop (Suc i) out" using i(1) by (rule id_take_nth_drop)
  note ok = assms(1) [unfolded collapse_ok_def fst_conv snd_conv]
  have "sorted_wrt (<) (map (\<lambda>x. ev_seq (entry_event x)) (take i out @ drop (Suc i) out))"
    using ok [unfolded arg_cong [OF out, of "map (\<lambda>x. ev_seq (entry_event x))"]] by (simp add: sorted_wrt_append)
  moreover have sub: "set (map entry_event (take i out @ drop (Suc i) out)) \<subseteq> set events"
    using ok by (auto dest: in_set_takeD in_set_dropD)
  moreover have "filter (\<lambda>e. \<not> self_message self e) (map entry_event (take i out @ drop (Suc i) out))
      = filter (\<lambda>e. \<not> self_message self e) (map entry_event out)"
    using i(2) by (subst (3) out) simp
  moreover have "(\<Sum>x\<leftarrow>out. Suc (entry_collapsed x))
      = (\<Sum>x\<leftarrow>take i out @ drop (Suc i) out. Suc (entry_collapsed x)) + Suc (entry_collapsed (out ! i))"
    by (subst (1) out) simp
  moreover have "\<forall>e \<in> set (map entry_event (take i out @ drop (Suc i) out)). ev_seq e < ev_seq ev"
    using sub assms(2) by blast
  moreover have "\<not> length out - Suc 0 < i" using i(1) by simp
  ultimately show ?thesis
    using ok assms(3) unfolding collapse_ok_def fst_conv snd_conv append_assoc [symmetric]
    by (simp add: sorted_wrt_append nth_append subset_insertI2)
qed

lemma collapse_ok_fold:
  assumes "sorted_wrt (<) (map ev_seq events)"
  shows "collapse_ok self events (fold (collapse_step u self) events ([], None))"
  using assms
proof (induction events rule: rev_induct)
  case Nil
  show ?case by (simp add: collapse_ok_def)
next
  case (snoc ev events)
  obtain out l where st: "fold (collapse_step u self) events ([], None) = (out, l)" by fastforce
  have ok: "collapse_ok self events (out, l)" and less: "\<forall>e \<in> set events. ev_seq e < ev_seq ev"
    using snoc st by (simp_all add: sorted_wrt_append)
  have push: "collapse_ok self (events @ [ev]) (out @ [Shown ev], if self_message self ev then Some (length out) else l)"
    by (rule collapse_ok_push [OF ok less])
  have last: "fold (collapse_step u self) (events @ [ev]) ([], None) = collapse_step u self ev (out, l)" by (simp only: fold_append st fold.simps comp_def id_apply)
  show ?case
  proof (cases l)
    case None
    then show ?thesis using push None unfolding last unfolding collapse_step_def by (simp split: if_splits)
  next
    case (Some i)
    have extend: "self_message self ev \<Longrightarrow> collapse_ok self (events @ [ev])
        (take i out @ drop (Suc i) out @ [Collapsed ev (entry_collapsed (out ! i) + 1)],
         Some (length (take i out @ drop (Suc i) out @ [Collapsed ev (entry_collapsed (out ! i) + 1)]) - 1))"
      using collapse_ok_extend [OF ok [unfolded Some] less] by simp
    show ?thesis unfolding last unfolding collapse_step_def Some Let_def prod.case option.case
      using push [unfolded Some] extend by (simp only: if_splits split: if_split) blast
  qed
qed

text \<open>
  C38. Collapsing loses nothing but repetition. In the collapsed record the events stand in the order of
  the log, every event that is not a message of the agent itself is there untouched, the counts of the
  elisions add up to the events left out, and the last own message is always the one shown.
\<close>

theorem collapse_keeps_record:
  assumes "sorted_wrt (<) (map ev_seq events)"
  shows "let out = collapseSelfRuns u self events; shown = map entry_event out in
     sorted_wrt (<) (map ev_seq shown) \<and> set shown \<subseteq> set events
     \<and> filter (\<lambda>e. \<not> self_message self e) shown = filter (\<lambda>e. \<not> self_message self e) events
     \<and> (\<Sum>x\<leftarrow>out. Suc (entry_collapsed x)) = length events
     \<and> (filter (self_message self) events \<noteq> [] \<longrightarrow>
          last (filter (self_message self) shown) = last (filter (self_message self) events))"
  using collapse_ok_fold [OF assms, of self u] by (simp add: collapse_ok_def collapseSelfRuns_def Let_def comp_def)

theorem collapse_keeps_record_witness:
  "let out = collapseSelfRuns (\<lparr>un_nfc = id, un_lower = id, un_word = \<lambda>c. c > 64\<rparr>) ''o'' (channel_events demo_db ''c'')
   in (\<Sum>x\<leftarrow>out. Suc (entry_collapsed x)) = 2"
proof -
  have "sorted_wrt (<) (map ev_seq (channel_events demo_db ''c''))" "length (channel_events demo_db ''c'') = 2"
    by (simp_all add: channel_events_def demo_db_def)
  from collapse_keeps_record [OF this(1)] this(2) show ?thesis by (simp add: Let_def)
qed

subsection \<open>What the context accounts for\<close>

lemma push_tail_drop:
  "push_tail e (drop (length xs - WINDOW_EVENT_COUNT) xs) = drop (length (xs @ [e]) - WINDOW_EVENT_COUNT) (xs @ [e])"
proof (cases "length xs < WINDOW_EVENT_COUNT")
  case False
  define k where "k = length xs - WINDOW_EVENT_COUNT"
  have "tl (drop k (xs @ [e])) = drop (Suc k) (xs @ [e])" by (simp only: drop_Suc tl_drop)
  moreover have "drop k (xs @ [e]) = drop k xs @ [e]" by (simp add: k_def)
  moreover have "length (xs @ [e]) - WINDOW_EVENT_COUNT = Suc k" "length (drop k xs @ [e]) > WINDOW_EVENT_COUNT"
    using False by (simp_all add: k_def)
  ultimately show ?thesis unfolding push_tail_def Let_def k_def [symmetric] by simp
qed (simp add: push_tail_def)

lemma fold_push_tail:
  "length tail \<le> WINDOW_EVENT_COUNT \<Longrightarrow>
     fold push_tail es tail = drop (length (tail @ es) - WINDOW_EVENT_COUNT) (tail @ es)"
proof (induction es rule: rev_induct)
  case (snoc e es)
  then show ?case using push_tail_drop [of e "tail @ es"] by simp
qed simp

lemma timeline_page_size:
  assumes "getChannelTimeline caller c cursor limit db = Inr page"
  shows "length (tl_events page) \<le> nat limit"
    and "tl_events page \<noteq> [] \<Longrightarrow> tl_nextCursor page = show_nat (ev_seq (last (tl_events page)))"
  using assms cut_page_length [of 0 "nat limit" 2] by (auto simp: getChannelTimeline_def Let_def split: if_splits sum.splits option.splits)

text \<open>A page whose cursor is that of its last event, and the rest of the log after it.\<close>

lemma context_page:
  assumes "contiguous db" and "assertChannelVisible caller c db = Inr m" and "parseCursor cursor = Some a"
    and "1 \<le> limit" and "limit \<le> 100" and "length (channel_events db c) \<le> 9007199254740991"
  obtains page where "getChannelTimeline caller c cursor limit db = Inr page" and "length (tl_events page) \<le> nat limit"
    and "drop (max a (mb_rejoinedSeq m)) (channel_events db c)
      = tl_events page @ drop (max a (mb_rejoinedSeq m) + length (tl_events page)) (channel_events db c)"
    and "tl_hasMore page \<longleftrightarrow> max a (mb_rejoinedSeq m) + length (tl_events page) < length (channel_events db c)"
    and "tl_hasMore page \<Longrightarrow> tl_events page \<noteq> []
       \<and> parseCursor (show_nat (ev_seq (last (tl_events page)))) = Some (max a (mb_rejoinedSeq m) + length (tl_events page))"
proof -
  obtain page where page: "getChannelTimeline caller c cursor limit db = Inr page"
    "drop (max a (mb_rejoinedSeq m)) (channel_events db c)
      = tl_events page @ drop (max a (mb_rejoinedSeq m) + length (tl_events page)) (channel_events db c)"
    "tl_hasMore page \<longleftrightarrow> drop (max a (mb_rejoinedSeq m) + length (tl_events page)) (channel_events db c) \<noteq> []"
    "drop (max a (mb_rejoinedSeq m) + length (tl_events page)) (channel_events db c) \<noteq> [] \<longrightarrow> 0 < length (tl_events page)
      \<and> tl_nextCursor page = show_nat (max a (mb_rejoinedSeq m) + length (tl_events page))"
    using timeline_page [OF assms(1-5)] unfolding Let_def by metis
  have succ: "tl_events page \<noteq> []
      \<and> parseCursor (show_nat (ev_seq (last (tl_events page)))) = Some (max a (mb_rejoinedSeq m) + length (tl_events page))"
    if "tl_hasMore page"
  proof -
    have n: "max a (mb_rejoinedSeq m) + length (tl_events page) < length (channel_events db c)" "tl_events page \<noteq> []"
      "tl_nextCursor page = show_nat (max a (mb_rejoinedSeq m) + length (tl_events page))"
      using that page(3,4) by auto
    have "parseCursor (tl_nextCursor page) = Some (max a (mb_rejoinedSeq m) + length (tl_events page))"
      unfolding n(3) using n(1) assms(6) by (intro parseCursor_show) simp
    then show ?thesis using timeline_page_size(2) [OF page(1) n(2)] n(2) by simp
  qed
  have more: "tl_hasMore page \<longleftrightarrow> max a (mb_rejoinedSeq m) + length (tl_events page) < length (channel_events db c)"
    using page(3) by (simp add: not_le)
  show thesis by (rule that [OF page(1) timeline_page_size(1) [OF page(1)] page(2) more succ])
qed

lemma walk_tail_all:
  assumes "contiguous db" and "assertChannelVisible caller c db = Inr m"
    and "length (channel_events db c) \<le> 9007199254740991" and "parseCursor cursor = Some a"
    and "length (channel_events db c) - max a (mb_rejoinedSeq m) < left"
  shows "walk_tail (\<lambda>_. db) caller c left n cursor tail
    = Inr (fold push_tail (drop (max a (mb_rejoinedSeq m)) (channel_events db c)) tail)"
  using assms(4,5)
proof (induction left arbitrary: cursor a n tail)
  case (Suc left)
  let ?s = "max a (mb_rejoinedSeq m)" and ?evs = "channel_events db c"
  obtain page where page: "getChannelTimeline caller c cursor 100 db = Inr page"
    "drop ?s ?evs = tl_events page @ drop (?s + length (tl_events page)) ?evs"
    "tl_hasMore page \<longleftrightarrow> ?s + length (tl_events page) < length ?evs"
    "tl_hasMore page \<Longrightarrow> tl_events page \<noteq> []
       \<and> parseCursor (show_nat (ev_seq (last (tl_events page)))) = Some (?s + length (tl_events page))"
    by (rule context_page [OF assms(1,2) Suc.prems(1) _ _ assms(3), of 100]) auto
  show ?case
  proof (cases "tl_hasMore page")
    case False
    then show ?thesis using page(1,3) by (subst page(2)) (simp add: Let_def)
  next
    case True
    let ?n = "?s + length (tl_events page)"
    have "max ?n (mb_rejoinedSeq m) = ?n" by simp
    moreover have "length ?evs - ?n < left" using page(3,4) True Suc.prems(2) by (cases "tl_events page") auto
    ultimately have "walk_tail (\<lambda>_. db) caller c left k (show_nat (ev_seq (last (tl_events page)))) t
        = Inr (fold push_tail (drop ?n ?evs) t)" for k t
      using Suc.IH page(4) True by metis
    then show ?thesis using page(1,4) True by (subst page(2)) (simp add: Let_def)
  qed
qed simp

text \<open>The parts, when the anchor is the events after \<open>r\<close> and the tail the last of those after it.\<close>

lemma context_parts_account:
  assumes seqs: "map ev_seq evs = [1..<Suc (length evs)]" and anchor: "drop r evs = anchor @ drop (r + length anchor) evs"
    and tail: "tail = drop (length (drop (r + length anchor) evs) - WINDOW_EVENT_COUNT) (drop (r + length anchor) evs)"
    and some: "anchor = [] \<Longrightarrow> drop r evs = []"
  shows "let parts = context_parts_of anchor tail in
     cx_anchor parts = anchor \<and> cx_window parts = tail
     \<and> cx_elided parts = length (drop (r + length anchor) evs) - WINDOW_EVENT_COUNT"
proof (cases "anchor = []")
  case True
  then have "tail = []" using some tail by simp
  then show ?thesis using True some by (simp add: context_parts_of_def)
next
  case False
  let ?n = "r + length anchor" and ?k = "length (drop (r + length anchor) evs) - WINDOW_EVENT_COUNT"
  have n: "?n \<le> length evs" using arg_cong [OF anchor, of length] False by (cases anchor) auto
  have seq: "i < length evs \<Longrightarrow> ev_seq (evs ! i) = Suc i" for i using seq_split(2) [OF seqs] by blast
  have "last anchor = drop r evs ! (length anchor - 1)"
    using False by (subst anchor) (simp add: last_conv_nth nth_append)
  then have "last anchor = evs ! (?n - 1)" using False n by (cases anchor) simp_all
  then have last: "ev_seq (last anchor) = ?n" using seq [of "?n - 1"] False n by (cases anchor) simp_all
  have t: "tail = drop (?n + ?k) evs" using tail by (simp add: add.commute)
  have "ev_seq e > ?n" if "e \<in> set tail" for e
    using that seq unfolding t by (auto simp: in_set_conv_nth)
  then have window: "filter (\<lambda>e. ev_seq e > ?n) tail = tail" by simp
  have hd: "ev_seq (hd tail) = Suc (?n + ?k)" if "tail \<noteq> []"
    using that seq [of "?n + ?k"] unfolding t by (simp add: hd_drop_conv_nth)
  have none: "?k = 0" if "tail = []"
    using that unfolding t WINDOW_EVENT_COUNT_def by simp
  have "(if tail = [] then ?n else ev_seq (hd tail)) - ?n - 1 = ?k" using hd none by auto
  then show ?thesis using False window unfolding context_parts_of_def last Let_def by (simp split: if_splits)
qed

text \<open>
  C35. An agent is told how much it does not see. For every history of the store and every member of a
  channel with fewer than 10,000 events, reading the context succeeds, whatever sizes the pages are cut
  to; the events the member may see are the anchor, then a gap, then the window, the number the context
  gives as elided is the length of the gap, the anchor has at most 10 events and is not empty unless
  nothing is visible, the window has at most 40, and exactly 40 where something is elided.
\<close>

theorem context_accounts_for_all:
  assumes "db = fold (store_step pf) ops (fresh_db ps cs)" and "assertChannelVisible caller c db = Inr m"
    and "getMaxChannelSeq db c < 10000"
  shows "\<exists>parts gap. read_context (\<lambda>_. db) caller c = Inr parts
     \<and> drop (mb_rejoinedSeq m) (channel_events db c) = cx_anchor parts @ gap @ cx_window parts
     \<and> cx_elided parts = length gap \<and> length (cx_anchor parts) \<le> 10 \<and> length (cx_window parts) \<le> 40
     \<and> (cx_anchor parts = [] \<longrightarrow> drop (mb_rejoinedSeq m) (channel_events db c) = [])
     \<and> (gap \<noteq> [] \<longrightarrow> length (cx_window parts) = 40)"
proof -
  have cont: "contiguous db" unfolding assms(1) by (intro log_ok_parts(1) log_ok_store log_ok_fresh)
  have len: "length (channel_events db c) < 10000" using assms(3) max_seq [OF cont] by simp
  let ?r = "mb_rejoinedSeq m" and ?evs = "channel_events db c"
  have zero: "parseCursor ''0'' = Some 0" using parseCursor_show [of 0] by (simp add: show_2)
  obtain page where page: "getChannelTimeline caller c ''0'' 10 db = Inr page" "length (tl_events page) \<le> nat 10"
    "drop (max 0 ?r) ?evs = tl_events page @ drop (max 0 ?r + length (tl_events page)) ?evs"
    "tl_hasMore page \<longleftrightarrow> max 0 ?r + length (tl_events page) < length ?evs"
    "tl_hasMore page \<Longrightarrow> tl_events page \<noteq> []
       \<and> parseCursor (show_nat (ev_seq (last (tl_events page)))) = Some (max 0 ?r + length (tl_events page))"
    by (rule context_page [OF cont assms(2) zero _ _ order.strict_implies_order [OF order.strict_trans2 [OF len]], of 10]) auto
  let ?n = "?r + length (tl_events page)"
  define rest where "rest = drop ?n ?evs"
  define tail where "tail = drop (length rest - WINDOW_EVENT_COUNT) rest"
  define gap where "gap = take (length rest - WINDOW_EVENT_COUNT) rest"
  have anchor: "drop ?r ?evs = tl_events page @ rest" using page(3) by (simp add: rest_def)
  have some: "tl_events page = [] \<Longrightarrow> drop ?r ?evs = []" using page(4,5) by auto
  have read: "read_context (\<lambda>_. db) caller c = Inr (context_parts_of (tl_events page) tail)"
  proof (cases "tl_hasMore page")
    case True
    have walk: "walk_tail (\<lambda>_. db) caller c MAX_PAGES 1 (show_nat (ev_seq (last (tl_events page)))) []
        = Inr (fold push_tail (drop (max ?n ?r) ?evs) [])"
      by (rule walk_tail_all [OF cont assms(2)]) (use page(5) True len in \<open>auto simp: MAX_PAGES_def\<close>)
    have "fold push_tail rest [] = tail" using fold_push_tail [of "[]" rest] by (simp add: tail_def)
    then show ?thesis using True walk page(1,5)
      by (simp add: read_context_def ANCHOR_EVENT_COUNT_def Let_def rest_def)
  next
    case False
    then show ?thesis using page(1,4) by (simp add: read_context_def ANCHOR_EVENT_COUNT_def Let_def tail_def rest_def)
  qed
  from max_seq [OF cont, of c] cont have "map ev_seq ?evs = [1..<Suc (length ?evs)]" by (simp add: contiguous_def del: upt_Suc)
  note parts = context_parts_account [OF this anchor [unfolded rest_def] tail_def [unfolded rest_def] some, unfolded Let_def]
  have "tl_events page @ gap @ tail = drop ?r ?evs" unfolding anchor by (simp add: gap_def tail_def)
  moreover have "length gap = length rest - WINDOW_EVENT_COUNT" by (simp add: gap_def)
  moreover have "length tail \<le> 40" "gap \<noteq> [] \<longrightarrow> length tail = 40" by (simp_all add: gap_def tail_def WINDOW_EVENT_COUNT_def)
  ultimately show ?thesis using read parts page(2) some
    by (intro exI [of _ "context_parts_of (tl_events page) tail"] exI [of _ gap]) (simp flip: rest_def)
qed

theorem context_accounts_for_all_witness:
  "\<exists>parts. read_context (\<lambda>_. demo_db) ''o'' ''c'' = Inr parts \<and> cx_elided parts \<le> 2"
proof -
  obtain m where m: "assertChannelVisible ''o'' ''c'' demo_db = Inr m" "mb_rejoinedSeq m = 0"
    using demo_visible by blast
  have "fold (store_step demo_pf) (map Core ops) db = fold (collab_step demo_pf) ops db" for ops db
    by (induction ops arbitrary: db) simp_all
  then have history: "demo_db = fold (store_step demo_pf) (map Core demo_ops) (fresh_db [demo_operator] [])"
    using demo_history by simp
  have max: "getMaxChannelSeq demo_db ''c'' < 10000" "length (channel_events demo_db ''c'') = 2"
    by (simp_all add: getMaxChannelSeq_def channel_events_def demo_db_def)
  obtain parts gap where p: "read_context (\<lambda>_. demo_db) ''o'' ''c'' = Inr parts"
    "drop (mb_rejoinedSeq m) (channel_events demo_db ''c'') = cx_anchor parts @ gap @ cx_window parts" "cx_elided parts = length gap"
    using context_accounts_for_all [OF history m(1) max(1)] by blast
  have "length gap \<le> 2" using arg_cong [OF p(2), of length] max(2) m(2) by simp
  then show ?thesis using p by auto
qed

end
