(* ===== verification/Spec2Isabelle.thy ===== *)
theory Spec2Isabelle
  imports Torq_Prelude Auth_Lock Json Subscriptions Rate_Limit Router Tool_Policy Authz Surface_Security Action_Hash
    Approvals Collab_Delivery Collab_Consent Collab_Schedules Room_Coordination Profile_Policy Reply_Context
begin

text \<open>
  Verification library of the TorqClaw gateway. Paths are relative to \<open>src/\<close>.

  The program and its parts. Clients (a console, channels, nodes) talk to a gateway
  (\<open>packages/gateway\<close>), which authorizes every command, routes prompts to a compute tier, asks an
  operator to approve tool calls that change something, and keeps a collaboration database
  (\<open>packages/collab\<close>) of principals, channels, messages, agents, agent turns, schedules and room
  jobs. Every command of the collaboration store is one transaction; agents are workers that claim a
  turn or a stage of a job in one transaction, call a model outside any transaction, and deliver the
  result in another. Commits are fanned out to the subscriptions that are still authorized.

  Shared theories. \<open>Torq_Prelude\<close> has the insertion-ordered maps of JavaScript, the collections of
  simplification rules and the generic locales: \<open>js_map\<close> and \<open>one_shot\<close>, the argument that a transition
  which consumes its own enabling condition happens at most once in a history. \<open>Js_Text\<close> has the string functions of the language, \<open>Json\<close> and
  \<open>Json_Text\<close> the value type, \<open>JSON.stringify\<close> and \<open>packages/collab/src/canonical.ts\<close> with the proof
  that the canonical text determines the value, \<open>Collab_Text\<close> is \<open>text.ts\<close> and \<open>fold.ts\<close>.

  Gateway theories.
  \<^item> \<open>Router\<close>: \<open>packages/router/src/engine.ts\<close>, every rule of \<open>evaluateRequest\<close> in its order.
  \<^item> \<open>Tool_Policy\<close>: \<open>packages/bridge/src/capability.ts\<close> and \<open>pathScope.ts\<close>.
  \<^item> \<open>Profile_Policy\<close>: \<open>packages/contracts/src/profile.ts\<close>, \<open>packages/bridge/src/profilePolicy.ts\<close> and
    \<open>profileResolver.ts\<close>, the effective profile of a task and the check of each of its operations.
  \<^item> \<open>Authz\<close>: \<open>authz.ts\<close>, the decision for each command of each kind of connection.
  \<^item> \<open>Surface_Security\<close>: \<open>surfaceSecurity.ts\<close>, the enforcement projection of surfaces, authorities and
    delegations, with its invariant over histories of its operations.
  \<^item> \<open>Action_Hash\<close> and \<open>Approvals\<close>: \<open>approvalContext.ts\<close>, \<open>approvalWriter.ts\<close>, \<open>grantAdmission.ts\<close>; the
    state is the three tables of approvals, bindings and grants beside the projection. An admitted
    call is the approved one, once.

  Collaboration theories.
  \<^item> \<open>Auth_Lock\<close> (\<open>authlock.ts\<close>), \<open>Rate_Limit\<close> (\<open>ratelimit.ts\<close>), \<open>Subscriptions\<close> (\<open>subscriptions.ts\<close>,
    \<open>slowconsumer.ts\<close>): in-memory components, each a record of its state with one function per method.
  \<^item> \<open>Collab_Db\<close>: the rows of the database (\<open>migration.ts\<close> and the types of \<open>store.ts\<close>), the two
    transaction drivers \<open>runKeyedCommand\<close> and \<open>runNaturallyIdempotentCommand\<close>.
  \<^item> \<open>Collab_Channels\<close>, \<open>Collab_Agents\<close>: the channel, message, membership, agent, credential and session
    commands of \<open>store.ts\<close>. \<open>Collab_Log\<close> defines their histories; \<open>Collab_Guarantees\<close> and
    \<open>Collab_Authority\<close> prove what holds along them.
  \<^item> \<open>Collab_Delivery\<close>: \<open>fanout.ts\<close>, \<open>coordinator.ts\<close> and the subscription commands, which put the store and
    the registry of subscriptions together.
  \<^item> \<open>Collab_Turns\<close>, \<open>Collab_Profiles\<close>, \<open>Collab_Cron\<close>: agent turns and STOP (\<open>autoReply.ts\<close>), runtime profiles,
    personas and provisioning (\<open>store.ts\<close>), schedules (\<open>cron.ts\<close>, \<open>cronDispatcher.ts\<close>).
  \<^item> \<open>Collab_Jobs\<close>: room jobs (\<open>store.ts\<close>). \<open>Collab_Rooms\<close> gives the inductive relation of the changes
    a command may make to the room tables and inverts every command into it.
  \<^item> \<open>Collab_World\<close>: \<open>store_step\<close>, one command of any of the groups above; histories are
    \<open>fold (store_step pf) ops\<close>. \<open>Collab_Participation\<close>, \<open>Collab_Consent\<close>, \<open>Collab_Schedules\<close> and
    \<open>Collab_Job_Facts\<close> prove the guarantees of turns, personas, schedules and jobs over them.
  \<^item> \<open>Room_Artifacts\<close>: the one call of a local model for a stage of a job (\<open>executeRoomJobLocal\<close> of
    \<open>packages/inference/src/ollama.ts\<close>) and the validators of its answer (\<open>roomJobArtifactValidators.ts\<close>).
  \<^item> \<open>Room_Execution\<close>: the coordinator of \<open>roomJobExecution.ts\<close>: workers, the inbox and the observations of
    the gateway database, and the store as the authority that grants a stage once. Its steps interleave
    workers, store commands, restarts and reconciliations; \<open>Room_Coordination\<close> proves that a stage calls
    the model at most once and that only validated artifacts are committed.
  \<^item> \<open>Reply_Context\<close>: \<open>autoReplyContext.ts\<close>, the part of a channel an agent is shown for an automatic turn;
    the proofs say that it accounts for every event and what collapsing repetitions keeps.

  How the code is rendered. A transaction is a function from the database to an error or a new
  database; a failed transaction leaves the old one. Tables are lists of records in insertion order; a
  UNIQUE or CHECK constraint the code relies on is a branch that fails. Identifiers are strings over
  Latin-1, message texts are lists of code points. What the platform gives is an argument: the
  record \<open>platform\<close> has normalization to NFC, the fold table and SHA-256, and \<open>env\<close> the clock and the
  random identifiers by call number. No theorem assumes that identifiers are fresh or the clock
  monotone; where a theorem needs a law of an argument it says so as a hypothesis.

  What the groups of lemmas show. Interfaces are locales: an insertion-ordered map, a one-shot
  transition, an invariant of the room tables, a resource taken and used once by workers. The client lemmas are proved inside them once and each
  is interpreted on the definitions of the code in the theory that has these definitions. The
  properties are top-level theorems over the definitions; those that speak of histories start from a
  fresh database or from any database with the invariant, which the histories preserve.

  Bounds and fuel. There is no fuel in the model of the store: every loop of the code runs over a
  list. Reading a timeline page by page is a recursive function whose termination is a theorem. The
  walk over a JSON value in \<open>Room_Artifacts\<close> recurses on the depth the code itself limits to 12, and
  the regular expressions of the router are interpreted by structural recursion on the pattern and
  the text. Numbers are the integers of JavaScript within its safe range and are modelled unbounded;
  the context size and the classifier confidence the router reads are real numbers, its scores naturals.

  What is not modelled. Interleaving inside a transaction (SQLite serializes them; the authorization
  lock has its own theory), inside one fan-out and between the commit of a mutation and its close
  frames (one step each in \<open>Collab_Delivery\<close>); a busy or failing disk, except where a constraint rejects a row; the
  console, which decides nothing; transport (WebSocket, HTTP, pipes to tool servers and child
  processes), the prompt texts, receipts and exports, spend totals (floating point), failover between
  providers, schema migrations, backup and restore, key files and credential cryptography, whose
  outcomes are arguments; \<open>listSchedulesForChannel\<close> and \<open>listChannels\<close>, which order by columns the
  model does not keep; the in-memory session registry of \<open>packages/collab/src/sessions.ts\<close>.

  What modelling showed. The following are theorems about the code as it is: an approval authority
  revoked after the decision is not looked at again at admission
  (\<open>Approvals.authority_revocation_not_rechecked\<close>); a demoted surface regains the right to approve when
  it is activated under a lower epoch (\<open>Surface_Security.demoted_surface_regains_approve\<close>) and the repair
  at start undoes a committed revocation (\<open>repair_undoes_revocation\<close>); frames buffered during a
  handshake stay counted as queued after they were delivered
  (\<open>Subscriptions.delivered_buffer_stays_queued\<close>); eviction of locked-out buckets rescans them at every
  insertion (\<open>Rate_Limit.eviction_rescans_locked_prefix\<close>); STOP by an operator without a resolved
  principal fails on a foreign key (\<open>Collab_Participation.stop_needs_resolved_operator\<close>); STOP refuses
  the output of turns in flight, which the comments say complete (\<open>stop_silences\<close>); a resolution that
  names no lease closes a turn reclaimed under one (\<open>lease_fences_stale_worker\<close>); an operator can
  resume a schedule of a revoked agent, whose wakes are then all refused
  (\<open>Collab_Schedules.agent_revocation_final\<close>); a periodic
  reconciliation takes the result from a live run (\<open>Room_Coordination.swept_stage_never_delivers\<close>), and a
  crash between claim and dispatch leaves a stage that nothing picks up again (\<open>lost_claim_wedges\<close>).
\<close>

end
